(* ===== verification/Prelude.thy ===== *)
theory Prelude
  imports Main "HOL-Library.Word" "HOL-Library.Char_ord" "HOL-Library.List_Lexorder"
    "HOL-Library.Option_ord" "HOL-Library.Product_Lexorder" "HOL-Library.Multiset"
begin

text \<open>
  Shared vocabulary of the Lyra Upgrade development: machine integers, Rust's \<open>Result\<close> and
  \<open>Option\<close> combinators, saturating arithmetic, the \<open>sort(); dedup()\<close> idiom, and set-like
  insertion in a scan (\<open>BTreeSet::insert\<close> inside \<open>Iterator::any\<close>). The collections
  \<open>result_simps\<close>, \<open>sat_simps\<close> and \<open>list_simps\<close> hold what the component proofs
  rewrite with.
\<close>

named_theorems result_simps \<open>how a chain of fallible steps can end\<close>
named_theorems sat_simps \<open>saturating arithmetic read as natural numbers\<close>
named_theorems list_simps \<open>sorted, deduplicated and scanned lists\<close>

section \<open>Integer types of the source\<close>

type_synonym u8 = "8 word"
type_synonym u16 = "16 word"
type_synonym u32 = "32 word"
type_synonym u64 = "64 word"

section \<open>Results\<close>

text \<open>
  \<open>Result<T, E>\<close> is the sum \<open>'e + 'a\<close>, with \<open>Inl\<close> for \<open>Err\<close> and \<open>Inr\<close> for \<open>Ok\<close>.
  \<open>rbind\<close> is the question mark operator followed by the rest of the function; \<open>ensure\<close>
  is an early return of an error when a condition fails.
\<close>

definition rbind :: "'e + 'a \<Rightarrow> ('a \<Rightarrow> 'e + 'b) \<Rightarrow> 'e + 'b" where
  "rbind m f = (case m of Inl e \<Rightarrow> Inl e | Inr a \<Rightarrow> f a)"

definition ensure :: "bool \<Rightarrow> 'e \<Rightarrow> 'e + unit" where
  "ensure b e = (if b then Inr () else Inl e)"

definition ok_or :: "'a option \<Rightarrow> 'e \<Rightarrow> 'e + 'a" where
  "ok_or x e = (case x of None \<Rightarrow> Inl e | Some a \<Rightarrow> Inr a)"

definition map_err :: "('e \<Rightarrow> 'f) \<Rightarrow> 'e + 'a \<Rightarrow> 'f + 'a" where
  "map_err f m = (case m of Inl e \<Rightarrow> Inl (f e) | Inr a \<Rightarrow> Inr a)"

definition is_ok :: "'e + 'a \<Rightarrow> bool" where
  "is_ok m = (case m of Inl _ \<Rightarrow> False | Inr _ \<Rightarrow> True)"

definition to_option :: "'e + 'a \<Rightarrow> 'a option" where
  "to_option m = (case m of Inl _ \<Rightarrow> None | Inr a \<Rightarrow> Some a)"

lemma rbind_simps [simp]:
  "rbind (Inl e) f = Inl e"
  "rbind (Inr a) f = f a"
  by (simp_all add: rbind_def)

lemma ensure_simps [simp]:
  "ensure True e = Inr ()"
  "ensure False e = Inl e"
  by (simp_all add: ensure_def)

lemma ok_or_simps [simp]:
  "ok_or None e = Inl e"
  "ok_or (Some a) e = Inr a"
  by (simp_all add: ok_or_def)

lemma map_err_simps [simp]:
  "map_err f (Inl e) = Inl (f e)"
  "map_err f (Inr a) = Inr a"
  by (simp_all add: map_err_def)

lemma is_ok_simps [simp]:
  "is_ok (Inl e) = False"
  "is_ok (Inr a) = True"
  by (simp_all add: is_ok_def)

lemma to_option_simps [simp]:
  "to_option (Inl e) = None"
  "to_option (Inr a) = Some a"
  by (simp_all add: to_option_def)

lemma rbind_Inr_iff [result_simps]:
  "(rbind m f = Inr b) = (\<exists>a. m = Inr a \<and> f a = Inr b)"
  by (cases m) simp_all

lemma rbind_Inl_iff [result_simps]:
  "(rbind m f = Inl e) = (m = Inl e \<or> (\<exists>a. m = Inr a \<and> f a = Inl e))"
  by (cases m) simp_all

lemma ensure_Inr_iff [result_simps]: "(ensure b e = Inr u) = b"
  by (simp add: ensure_def)

lemma ensure_Inl_iff [result_simps]: "(ensure b e = Inl e') = (\<not> b \<and> e = e')"
  by (simp add: ensure_def)

lemma ok_or_Inr_iff [result_simps]: "(ok_or x e = Inr a) = (x = Some a)"
  by (cases x) simp_all

lemma ok_or_Inl_iff [result_simps]: "(ok_or x e = Inl e') = (x = None \<and> e = e')"
  by (cases x) simp_all

lemma map_err_Inr_iff [result_simps]: "(map_err f m = Inr a) = (m = Inr a)"
  by (cases m) simp_all

lemma map_err_Inl_iff [result_simps]: "(map_err f m = Inl e) = (\<exists>e'. m = Inl e' \<and> e = f e')"
  by (cases m) auto

text \<open>An early return: the rest of the function is reached only past the guard.\<close>

lemma guard_Inr_iff [result_simps]: "((if b then Inl e else m) = Inr a) = (\<not> b \<and> m = Inr a)"
  by simp

lemma ex_unit_iff [result_simps]: "(\<exists>u::unit. P u) = P ()"
  by auto

lemma is_ok_iff [result_simps]: "is_ok m = (\<exists>a. m = Inr a)"
  by (cases m) simp_all

lemma to_option_Some_iff [result_simps]: "(to_option m = Some a) = (m = Inr a)"
  by (cases m) simp_all

section \<open>Options\<close>

definition is_some_and :: "'a option \<Rightarrow> ('a \<Rightarrow> bool) \<Rightarrow> bool" where
  "is_some_and x P = (case x of None \<Rightarrow> False | Some a \<Rightarrow> P a)"

definition is_none_or :: "'a option \<Rightarrow> ('a \<Rightarrow> bool) \<Rightarrow> bool" where
  "is_none_or x P = (case x of None \<Rightarrow> True | Some a \<Rightarrow> P a)"

definition opt_filter :: "('a \<Rightarrow> bool) \<Rightarrow> 'a option \<Rightarrow> 'a option" where
  "opt_filter P x = (case x of None \<Rightarrow> None | Some a \<Rightarrow> if P a then Some a else None)"

lemma is_some_and_simps [simp]:
  "is_some_and None P = False"
  "is_some_and (Some a) P = P a"
  by (simp_all add: is_some_and_def)

lemma is_none_or_simps [simp]:
  "is_none_or None P = True"
  "is_none_or (Some a) P = P a"
  by (simp_all add: is_none_or_def)

lemma opt_filter_simps [simp]:
  "opt_filter P None = None"
  "opt_filter P (Some a) = (if P a then Some a else None)"
  by (simp_all add: opt_filter_def)

lemma opt_filter_Some_iff [result_simps]: "(opt_filter P x = Some a) = (x = Some a \<and> P a)"
  by (cases x) auto

lemma opt_filter_None_iff [result_simps]: "(opt_filter P x = None) = (\<forall>a. x = Some a \<longrightarrow> \<not> P a)"
  by (cases x) auto

section \<open>Saturating arithmetic\<close>

definition sat_add :: "'w::len word \<Rightarrow> 'w word \<Rightarrow> 'w word" where
  "sat_add a b = (if a + b < a then - 1 else a + b)"

definition sat_sub :: "'w::len word \<Rightarrow> 'w word \<Rightarrow> 'w word" where
  "sat_sub a b = (if a < b then 0 else a - b)"

lemma mod_wrap_once: "x < m \<Longrightarrow> y < m \<Longrightarrow> \<not> x + y < m \<Longrightarrow> (x + y) mod m = x + y - (m::nat)"
  by (simp add: le_mod_geq)

lemma unat_max_word: "unat (- 1 :: 'w::len word) = 2 ^ LENGTH('w) - 1"
  by (simp add: unsigned_minus_1_eq_mask mask_eq_exp_minus_1)

lemma unat_sat_add [sat_simps]:
  fixes a b :: "'w::len word"
  shows "unat (sat_add a b) = min (unat a + unat b) (2 ^ LENGTH('w) - 1)"
proof (cases "unat a + unat b < 2 ^ LENGTH('w)")
  case True
  then have u: "unat (a + b) = unat a + unat b"
    by (simp add: unat_word_ariths)
  then have "\<not> a + b < a"
    by (simp add: word_less_nat_alt)
  with True u show ?thesis by (simp add: sat_add_def min_def) linarith
next
  case False
  have a: "unat a < 2 ^ LENGTH('w)" and b: "unat b < 2 ^ LENGTH('w)"
    by (rule unsigned_less)+
  have "unat (a + b) = (unat a + unat b) mod 2 ^ LENGTH('w)"
    by (simp add: unat_word_ariths)
  also have "\<dots> = unat a + unat b - 2 ^ LENGTH('w)"
    using a b False by (rule mod_wrap_once)
  finally have "unat (a + b) < unat a"
    using False a b by linarith
  then have "a + b < a"
    by (simp only: word_less_nat_alt)
  moreover have "unat (- 1 :: 'w word) = 2 ^ LENGTH('w) - 1"
    by (rule unat_max_word)
  ultimately show ?thesis using False by (simp add: sat_add_def)
qed

lemma sat_add_ge [sat_simps]: "(a :: 'w::len word) \<le> sat_add a b"
proof -
  have "unat a < 2 ^ LENGTH('w)" by (rule unsigned_less)
  then have "unat a \<le> 2 ^ LENGTH('w) - 1" by linarith
  then show ?thesis by (simp only: word_le_nat_alt unat_sat_add)
qed

lemma sat_add_Suc_gt: "(a :: 'a::len word) \<noteq> - 1 \<Longrightarrow> a < sat_add a 1"
proof -
  assume "a \<noteq> - 1"
  then have "unat a < unat (- 1 :: 'a word)"
    by (simp add: word_order.not_eq_extremum flip: word_less_nat_alt)
  then show ?thesis
    by (simp add: word_less_nat_alt unat_sat_add unat_max_word)
qed

lemma sat_add_zero [simp]: "sat_add a 0 = a"
  by (simp add: sat_add_def)

lemma unat_sat_sub [sat_simps]: "unat (sat_sub a b) = unat a - unat b"
  by (auto simp: sat_sub_def word_less_nat_alt unat_sub_if')

section \<open>Sorted and deduplicated vectors\<close>

text \<open>\<open>v.sort(); v.dedup();\<close>: sort, then drop equal neighbours.\<close>

definition sort_dedup :: "'a::linorder list \<Rightarrow> 'a list" where
  "sort_dedup xs = remdups_adj (sort xs)"

lemma sort_dedup_eq_set [list_simps]: "sort_dedup xs = sorted_list_of_set (set xs)"
proof -
  have s: "sorted (remdups_adj (sort xs))" by simp
  have d: "distinct (remdups_adj ys)" if "sorted ys" for ys :: "'a list"
    using that by (induction ys rule: remdups_adj.induct) auto
  have "sorted_list_of_set (set (remdups_adj (sort xs))) = remdups_adj (sort xs)"
    by (rule sorted_list_of_set.idem_if_sorted_distinct [OF s d]) simp
  then show ?thesis by (simp add: sort_dedup_def)
qed

lemma set_sort_dedup [simp]: "set (sort_dedup xs) = set xs"
  by (simp add: sort_dedup_def)

lemma sort_dedup_Nil_iff [simp]: "(sort_dedup xs = []) = (xs = [])"
  using set_empty [of "sort_dedup xs"] by simp

lemma sort_dedup_cong: "set xs = set ys \<Longrightarrow> sort_dedup xs = sort_dedup ys"
  by (simp add: sort_dedup_eq_set)

text \<open>Sorting by an injective key does not depend on the order of arrival.\<close>

lemma sort_key_order_irrelevant:
  assumes "mset xs = mset ys" and "inj_on k (set xs)"
  shows "sort_key k xs = sort_key k ys"
proof (rule sort_key_inj_key_eq)
  show "mset xs = mset (sort_key k ys)" using assms(1) by simp
  show "inj_on k (set xs)" by (rule assms(2))
  show "sorted (map k (sort_key k ys))" by simp
qed

lemma insort_key_map: "insort_key k (f x) (map f xs) = map f (insort_key (k \<circ> f) x xs)"
  by (induction xs) simp_all

lemma sort_key_map: "sort_key k (map f xs) = map f (sort_key (k \<circ> f) xs)"
  by (induction xs) (simp_all add: insort_key_map comp_def)

lemma sort_key_empty: "sort_key k xs = [] \<longleftrightarrow> xs = []"
  using set_empty [of "sort_key k xs"] by simp

section \<open>Invariants and monotone quantities of step relations\<close>

text \<open>
  The interface a component offers when it says what one of its steps keeps. The lemmas lift it
  to whole runs once and for all; every component interprets the locales on its own step
  relation.
\<close>

locale step_invariant =
  fixes step :: "'s \<Rightarrow> 's \<Rightarrow> bool"
    and inv :: "'s \<Rightarrow> bool"
  assumes step_keeps: "step s t \<Longrightarrow> inv s \<Longrightarrow> inv t"
begin

lemma run_keeps: "step\<^sup>*\<^sup>* s t \<Longrightarrow> inv s \<Longrightarrow> inv t"
  by (induction rule: rtranclp_induct) (auto intro: step_keeps)

end

locale step_monotone =
  fixes step :: "'s \<Rightarrow> 's \<Rightarrow> bool"
    and quantity :: "'s \<Rightarrow> 'o::preorder"
  assumes step_grows: "step s t \<Longrightarrow> quantity s \<le> quantity t"
begin

lemma run_grows: "step\<^sup>*\<^sup>* s t \<Longrightarrow> quantity s \<le> quantity t"
proof (induction rule: rtranclp_induct)
  case base
  show ?case by simp
next
  case (step t u)
  then show ?case using step_grows [of t u] order_trans by blast
qed

end

section \<open>Scans that insert into a set\<close>

text \<open>
  \<open>iter().any(|x| bad(x) || !seen.insert(key(x)) || worse(x))\<close>: the scan stops at the first
  element that is bad or whose key was seen before.
\<close>

fun any_dup :: "('a \<Rightarrow> bool) \<Rightarrow> ('a \<Rightarrow> 'k) \<Rightarrow> ('a \<Rightarrow> bool) \<Rightarrow> 'k list \<Rightarrow> 'a list \<Rightarrow> bool" where
  "any_dup bad key worse seen [] = False"
| "any_dup bad key worse seen (x # xs) =
     (bad x \<or> key x \<in> set seen \<or> worse x \<or> any_dup bad key worse (key x # seen) xs)"

lemma any_dup_iff [list_simps]:
  "any_dup bad key worse seen xs =
     ((\<exists>x\<in>set xs. bad x \<or> worse x) \<or> \<not> distinct (map key xs) \<or> set (map key xs) \<inter> set seen \<noteq> {})"
  by (induction xs arbitrary: seen) auto

end
