(* ===== verification/Rust_Str.thy ===== *)
theory Rust_Str
  imports Prelude
begin

text \<open>
  The part of Rust's \<open>str\<close> and \<open>u8\<close> that the sources use. A Rust string is its UTF-8 byte
  sequence: a HOL \<open>string\<close>, whose characters are bytes, so \<open>len()\<close> is \<open>length\<close>,
  \<open>bytes()\<close> is the list itself and the derived order is the lexicographic one of
  List\_Lexorder. Functions of the standard library that look at Unicode scalar values
  (\<open>trim\<close>, \<open>char::is_whitespace\<close>, \<open>char::is_control\<close>) go through \<open>chars\<close>, which cuts the
  bytes into the encodings of the scalar values.
\<close>

named_theorems str_simps \<open>facts about strings the component proofs rewrite with\<close>

section \<open>Bytes\<close>

abbreviation byte :: "char \<Rightarrow> nat" where
  "byte c \<equiv> of_char c"

definition is_ascii_digit :: "char \<Rightarrow> bool" where
  "is_ascii_digit c = (CHR ''0'' \<le> c \<and> c \<le> CHR ''9'')"

definition is_ascii_lowercase :: "char \<Rightarrow> bool" where
  "is_ascii_lowercase c = (CHR ''a'' \<le> c \<and> c \<le> CHR ''z'')"

definition is_ascii_uppercase :: "char \<Rightarrow> bool" where
  "is_ascii_uppercase c = (CHR ''A'' \<le> c \<and> c \<le> CHR ''Z'')"

definition is_ascii_alphanumeric :: "char \<Rightarrow> bool" where
  "is_ascii_alphanumeric c = (is_ascii_digit c \<or> is_ascii_lowercase c \<or> is_ascii_uppercase c)"

definition is_ascii_hexdigit :: "char \<Rightarrow> bool" where
  "is_ascii_hexdigit c =
     (is_ascii_digit c \<or> (CHR ''a'' \<le> c \<and> c \<le> CHR ''f'') \<or> (CHR ''A'' \<le> c \<and> c \<le> CHR ''F''))"

definition is_ascii_whitespace :: "char \<Rightarrow> bool" where
  "is_ascii_whitespace c = (c \<in> {CHR '' '', CHR 0x09, CHR 0x0A, CHR 0x0C, CHR 0x0D})"

definition to_lower :: "char \<Rightarrow> char" where
  "to_lower c = (if is_ascii_uppercase c then char_of (byte c + 32) else c)"

definition to_ascii_lowercase :: "string \<Rightarrow> string" where
  "to_ascii_lowercase s = map to_lower s"

definition eq_ignore_ascii_case :: "string \<Rightarrow> string \<Rightarrow> bool" where
  "eq_ignore_ascii_case s t = (to_ascii_lowercase s = to_ascii_lowercase t)"

lemma length_to_ascii_lowercase [simp]: "length (to_ascii_lowercase s) = length s"
  by (simp add: to_ascii_lowercase_def)

section \<open>Unicode scalar values\<close>

text \<open>The number of bytes of the encoding that starts with a given byte.\<close>

definition utf8_width :: "char \<Rightarrow> nat" where
  "utf8_width c = (if byte c < 0x80 then 1 else if byte c < 0xE0 then 2
                   else if byte c < 0xF0 then 3 else 4)"

lemma utf8_width_pos [simp]: "0 < utf8_width c"
  by (simp add: utf8_width_def)

function chars :: "string \<Rightarrow> string list" where
  "chars [] = []"
| "chars (c # cs) = (c # take (utf8_width c - 1) cs) # chars (drop (utf8_width c - 1) cs)"
  by pat_completeness auto
termination by (relation "measure length") auto

text \<open>The scalar value of one encoding.\<close>

fun code_point :: "string \<Rightarrow> nat" where
  "code_point [a] = byte a"
| "code_point [a, b] = (byte a mod 0x20) * 0x40 + byte b mod 0x40"
| "code_point [a, b, c] = (byte a mod 0x10) * 0x1000 + (byte b mod 0x40) * 0x40 + byte c mod 0x40"
| "code_point [a, b, c, d] = (byte a mod 0x08) * 0x40000 + (byte b mod 0x40) * 0x1000
     + (byte c mod 0x40) * 0x40 + byte d mod 0x40"
| "code_point _ = 0"

text \<open>The property \<open>White_Space\<close> and the category \<open>Cc\<close> of Unicode.\<close>

definition white_space :: "nat \<Rightarrow> bool" where
  "white_space n = ((9 \<le> n \<and> n \<le> 13) \<or> n = 32 \<or> n = 0x85 \<or> n = 0xA0 \<or> n = 0x1680
     \<or> (0x2000 \<le> n \<and> n \<le> 0x200A) \<or> n = 0x2028 \<or> n = 0x2029 \<or> n = 0x202F \<or> n = 0x205F \<or> n = 0x3000)"

definition is_whitespace :: "string \<Rightarrow> bool" where
  "is_whitespace ch = white_space (code_point ch)"

definition is_control :: "string \<Rightarrow> bool" where
  "is_control ch = (code_point ch < 0x20 \<or> (0x7F \<le> code_point ch \<and> code_point ch \<le> 0x9F))"

lemma concat_chars [simp]: "concat (chars s) = s"
  by (induction s rule: chars.induct) simp_all

lemma chars_ascii: "\<forall>c\<in>set s. byte c < 0x80 \<Longrightarrow> chars s = map (\<lambda>c. [c]) s"
  by (induction s rule: chars.induct) (simp_all add: utf8_width_def)

definition trim :: "string \<Rightarrow> string" where
  "trim s = concat (rev (dropWhile is_whitespace (rev (dropWhile is_whitespace (chars s)))))"

text \<open>The byte offset of the first scalar value with a property.\<close>

fun find_chunk :: "(string \<Rightarrow> bool) \<Rightarrow> string list \<Rightarrow> nat option" where
  "find_chunk P [] = None"
| "find_chunk P (x # xs) = (if P x then Some 0 else map_option ((+) (length x)) (find_chunk P xs))"

definition find_char :: "(string \<Rightarrow> bool) \<Rightarrow> string \<Rightarrow> nat option" where
  "find_char P s = find_chunk P (chars s)"

lemma find_chunk_le: "find_chunk P xs = Some i \<Longrightarrow> i \<le> length (concat xs)"
  by (induction xs arbitrary: i) (auto split: if_splits)

lemma find_char_le: "find_char P s = Some i \<Longrightarrow> i \<le> length s"
  unfolding find_char_def by (drule find_chunk_le) simp

section \<open>Searching and splitting\<close>

definition starts_with :: "string \<Rightarrow> string \<Rightarrow> bool" where
  "starts_with s p = (take (length p) s = p)"

definition ends_with :: "string \<Rightarrow> string \<Rightarrow> bool" where
  "ends_with s p = starts_with (rev s) (rev p)"

definition strip_prefix :: "string \<Rightarrow> string \<Rightarrow> string option" where
  "strip_prefix s p = (if starts_with s p then Some (drop (length p) s) else None)"

definition strip_suffix :: "string \<Rightarrow> string \<Rightarrow> string option" where
  "strip_suffix s p = (if ends_with s p then Some (take (length s - length p) s) else None)"

fun find_sub :: "string \<Rightarrow> string \<Rightarrow> nat option" where
  "find_sub p [] = (if p = [] then Some 0 else None)"
| "find_sub p (x # xs) = (if starts_with (x # xs) p then Some 0 else map_option Suc (find_sub p xs))"

definition contains_str :: "string \<Rightarrow> string \<Rightarrow> bool" where
  "contains_str s p = (find_sub p s \<noteq> None)"

fun find_byte :: "(char \<Rightarrow> bool) \<Rightarrow> string \<Rightarrow> nat option" where
  "find_byte P [] = None"
| "find_byte P (x # xs) = (if P x then Some 0 else map_option Suc (find_byte P xs))"

fun split_on :: "char \<Rightarrow> string \<Rightarrow> string list" where
  "split_on c [] = [[]]"
| "split_on c (x # xs) = (if x = c then [] # split_on c xs
     else (case split_on c xs of [] \<Rightarrow> [[x]] | p # ps \<Rightarrow> (x # p) # ps))"

fun split_once :: "char \<Rightarrow> string \<Rightarrow> (string \<times> string) option" where
  "split_once c [] = None"
| "split_once c (x # xs) = (if x = c then Some ([], xs)
     else map_option (\<lambda>(a, b). (x # a, b)) (split_once c xs))"

fun splitn :: "nat \<Rightarrow> char \<Rightarrow> string \<Rightarrow> string list" where
  "splitn 0 c s = []"
| "splitn (Suc 0) c s = [s]"
| "splitn (Suc (Suc n)) c s =
     (case split_once c s of None \<Rightarrow> [s] | Some (a, b) \<Rightarrow> a # splitn (Suc n) c b)"

text \<open>\<open>lines()\<close>: a carriage return is dropped only in front of a line feed.\<close>

definition strip_cr :: "string \<Rightarrow> string" where
  "strip_cr l = (case strip_suffix l [CHR 0x0D] of Some l' \<Rightarrow> l' | None \<Rightarrow> l)"

definition str_lines :: "string \<Rightarrow> string list" where
  "str_lines s = (let ps = split_on (CHR 0x0A) s
     in map strip_cr (butlast ps) @ (if last ps = [] then [] else [last ps]))"

definition split_whitespace :: "string \<Rightarrow> string list" where
  "split_whitespace s = filter (\<lambda>w. w \<noteq> [])
     (foldr (\<lambda>ch ws. if is_whitespace ch then [] # ws
        else (case ws of [] \<Rightarrow> [ch] | w # ws' \<Rightarrow> (ch @ w) # ws')) (chars s) [[]])"

lemma split_on_nonempty [simp]: "split_on c s \<noteq> []"
  by (induction s) (auto split: list.splits)

lemma find_sub_bound: "find_sub p s = Some i \<Longrightarrow> i + length p \<le> length s"
proof (induction s arbitrary: i)
  case Nil
  then show ?case by (auto split: if_splits)
next
  case (Cons x xs)
  show ?case
  proof (cases "starts_with (x # xs) p")
    case True
    then have "length (take (length p) (x # xs)) = length p"
      by (simp add: starts_with_def)
    then have "length p \<le> length (x # xs)" by simp
    with True Cons.prems show ?thesis by simp
  next
    case False
    with Cons.prems obtain j where "find_sub p xs = Some j" "i = Suc j" by auto
    with Cons.IH [of j] show ?thesis by simp
  qed
qed

lemma find_byte_bound: "find_byte P s = Some i \<Longrightarrow> i < length s"
  by (induction s arbitrary: i) (auto split: if_splits)

lemma split_once_Some_iff: "(split_once c s = Some (a, b)) = (s = a @ c # b \<and> c \<notin> set a)"
proof (induction s arbitrary: a)
  case Nil
  then show ?case by simp
next
  case (Cons x xs)
  show ?case
  proof (cases a)
    case Nil
    then show ?thesis by auto
  next
    case (Cons y a')
    have "(split_once c (x # xs) = Some (a, b)) = (x \<noteq> c \<and> x = y \<and> split_once c xs = Some (a', b))"
      using Cons by (cases "split_once c xs") auto
    then show ?thesis using Cons Cons.IH [of a'] by auto
  qed
qed

section \<open>Numbers in strings\<close>

definition digit_value :: "char \<Rightarrow> nat" where
  "digit_value c = byte c - byte CHR ''0''"

definition digits_value :: "string \<Rightarrow> nat" where
  "digits_value s = foldl (\<lambda>a c. 10 * a + digit_value c) 0 s"

text \<open>
  \<open>str::parse\<close> of an unsigned type with a given maximum: one optional plus sign, at least one
  digit, only digits, and no overflow.
\<close>

definition drop_plus :: "string \<Rightarrow> string" where
  "drop_plus s = (case s of [] \<Rightarrow> [] | c # cs \<Rightarrow> if c = CHR ''+'' then cs else s)"

definition parse_unsigned :: "nat \<Rightarrow> string \<Rightarrow> nat option" where
  "parse_unsigned bound s = (let d = drop_plus s
     in if d = [] \<or> \<not> list_all is_ascii_digit d then None
        else if digits_value d \<le> bound then Some (digits_value d) else None)"

definition parse_u64 :: "string \<Rightarrow> u64 option" where
  "parse_u64 s = map_option word_of_nat (parse_unsigned (2 ^ 64 - 1) s)"

definition parse_u32 :: "string \<Rightarrow> u32 option" where
  "parse_u32 s = map_option word_of_nat (parse_unsigned (2 ^ 32 - 1) s)"

definition parse_u8 :: "string \<Rightarrow> u8 option" where
  "parse_u8 s = map_option word_of_nat (parse_unsigned (2 ^ 8 - 1) s)"

text \<open>\<open>usize\<close> on the supported architecture, and a signed 64-bit number.\<close>

definition parse_usize :: "string \<Rightarrow> u64 option" where
  "parse_usize s = parse_u64 s"

definition parse_i64 :: "string \<Rightarrow> int option" where
  "parse_i64 s = (case s of
      [] \<Rightarrow> None
    | c # cs \<Rightarrow>
        if c = CHR ''-'' then
          (if cs = [] \<or> \<not> list_all is_ascii_digit cs then None
           else if digits_value cs \<le> 2 ^ 63 then Some (- int (digits_value cs)) else None)
        else map_option int (parse_unsigned (2 ^ 63 - 1) s))"

text \<open>\<open>to_string()\<close> of a number: its decimal digits.\<close>

definition digit_char :: "nat \<Rightarrow> char" where
  "digit_char n = char_of (n + byte CHR ''0'')"

fun show_nat :: "nat \<Rightarrow> string" where
  "show_nat n = (if n < 10 then [digit_char n] else show_nat (n div 10) @ [digit_char (n mod 10)])"

declare show_nat.simps [simp del]

definition show_u64 :: "u64 \<Rightarrow> string" where
  "show_u64 w = show_nat (unat w)"

lemma digit_char_digit: "n < 10 \<Longrightarrow> is_ascii_digit (digit_char n) \<and> digit_value (digit_char n) = n"
proof -
  assume n: "n < 10"
  then have "of_char (digit_char n) = (n + 48 :: nat)"
    by (simp add: digit_char_def)
  with n show ?thesis
    by (simp add: is_ascii_digit_def digit_value_def less_eq_char_def)
qed

lemma digits_value_snoc: "digits_value (s @ [c]) = 10 * digits_value s + digit_value c"
  by (simp add: digits_value_def)

lemma show_nat_digits:
  "show_nat n \<noteq> [] \<and> list_all is_ascii_digit (show_nat n) \<and> digits_value (show_nat n) = n"
proof (induction n rule: show_nat.induct)
  case (1 n)
  show ?case
  proof (cases "n < 10")
    case True
    then show ?thesis
      by (simp add: show_nat.simps [of n] digit_char_digit digits_value_def)
  next
    case False
    with 1 have IH: "list_all is_ascii_digit (show_nat (n div 10))"
      "digits_value (show_nat (n div 10)) = n div 10" by simp_all
    have "n mod 10 < 10" by simp
    from digit_char_digit [OF this] IH False show ?thesis
      by (simp add: show_nat.simps [of n] digits_value_snoc)
  qed
qed

lemma plus_not_digit [simp]: "\<not> is_ascii_digit CHR ''+''"
  by (simp add: is_ascii_digit_def)

lemma drop_plus_digits [simp]: "list_all is_ascii_digit s \<Longrightarrow> drop_plus s = s"
  by (cases s) (auto simp: drop_plus_def)

lemma length_show_nat: "n < 10 ^ k \<Longrightarrow> 0 < k \<Longrightarrow> length (show_nat n) \<le> k"
proof (induction k arbitrary: n)
  case (Suc k)
  show ?case
  proof (cases "n < 10")
    case False
    with Suc.prems have "n div 10 < 10 ^ k" "0 < k"
      by (auto simp: less_mult_imp_div_less mult.commute intro: Nat.gr0I)
    then show ?thesis using Suc.IH [of "n div 10"] False by (subst show_nat.simps) simp
  qed (subst show_nat.simps, simp)
qed simp

lemma length_show_u64: "length (show_u64 n) \<le> 20"
proof -
  have "unat n < 2 ^ 64" using unsigned_less [of n] by simp
  also have "(2 :: nat) ^ 64 < 10 ^ 20" by simp
  finally show ?thesis by (simp add: show_u64_def length_show_nat)
qed

lemma parse_unsigned_show: "n \<le> m \<Longrightarrow> parse_unsigned m (show_nat n) = Some n"
  using show_nat_digits [of n] by (simp add: parse_unsigned_def)

lemma parse_u64_show [simp]: "parse_u64 (show_u64 w) = Some w"
proof -
  have "unat w < 2 ^ 64" using unsigned_less [of w, where 'a = nat] by simp
  then have "unat w \<le> 2 ^ 64 - 1" by simp
  then show ?thesis
    by (simp only: parse_u64_def show_u64_def parse_unsigned_show) simp
qed

lemma parse_unsigned_bound: "parse_unsigned m s = Some n \<Longrightarrow> n \<le> m"
  by (auto simp: parse_unsigned_def Let_def split: if_splits)

section \<open>Evaluation with binary numbers\<close>

text \<open>
  Equations for the evaluation of concrete inputs: bytes and digits are compared as binary
  integers instead of unary natural numbers.
\<close>

abbreviation ibyte :: "char \<Rightarrow> int" where
  "ibyte c \<equiv> of_char c"

lemma ibyte_eq: "ibyte c = int (byte c)"
  by (simp add: of_char_def)

definition char_le :: "char \<Rightarrow> char \<Rightarrow> bool" where
  "char_le a b = (ibyte a \<le> ibyte b)"

lemma char_le_eq: "(a \<le> b) = char_le a b"
  by (simp add: less_eq_char_def char_le_def ibyte_eq)

lemmas byte_codes [code] =
  is_ascii_digit_def [unfolded char_le_eq] is_ascii_lowercase_def [unfolded char_le_eq]
  is_ascii_uppercase_def [unfolded char_le_eq] is_ascii_hexdigit_def [unfolded char_le_eq]

lemma utf8_width_code [code]:
  "utf8_width c = (let b = ibyte c in if b < 0x80 then 1 else if b < 0xE0 then 2 else if b < 0xF0 then 3 else 4)"
  by (simp add: utf8_width_def ibyte_eq Let_def)

fun code_point_int :: "string \<Rightarrow> int" where
  "code_point_int [a] = ibyte a"
| "code_point_int s = int (code_point s)"

lemma code_point_int_eq: "code_point_int s = int (code_point s)"
  by (cases s rule: code_point_int.cases) (simp_all add: ibyte_eq)

definition white_space_int :: "int \<Rightarrow> bool" where
  "white_space_int n = ((9 \<le> n \<and> n \<le> 13) \<or> n = 32 \<or> n = 0x85 \<or> n = 0xA0 \<or> n = 0x1680
     \<or> (0x2000 \<le> n \<and> n \<le> 0x200A) \<or> n = 0x2028 \<or> n = 0x2029 \<or> n = 0x202F \<or> n = 0x205F \<or> n = 0x3000)"

lemma is_whitespace_code [code]: "is_whitespace ch = white_space_int (code_point_int ch)"
  unfolding is_whitespace_def white_space_def white_space_int_def code_point_int_eq by presburger

lemma is_control_code [code]:
  "is_control ch = (let n = code_point_int ch in n < 0x20 \<or> (0x7F \<le> n \<and> n \<le> 0x9F))"
  unfolding is_control_def Let_def code_point_int_eq by presburger

definition digits_int :: "string \<Rightarrow> int" where
  "digits_int s = foldl (\<lambda>a c. 10 * a + (if ibyte c < 48 then 0 else ibyte c - 48)) 0 s"

lemma digits_int_eq: "digits_int s = int (digits_value s)"
proof -
  have d: "(if ibyte c < 48 then 0 else ibyte c - 48) = int (digit_value c)" for c
    by (auto simp: digit_value_def ibyte_eq of_nat_diff)
  have "foldl (\<lambda>a c. 10 * a + int (digit_value c)) (int n) s = int (foldl (\<lambda>a c. 10 * a + digit_value c) n s)" for n
  proof (induction s arbitrary: n)
    case (Cons c cs)
    show ?case using Cons.IH [of "10 * n + digit_value c"] by simp
  qed simp
  from this [of 0] show ?thesis by (simp add: digits_int_def digits_value_def d)
qed

definition parse_word :: "int \<Rightarrow> string \<Rightarrow> 'w::len word option" where
  "parse_word bound s = (let d = drop_plus s
     in if d = [] \<or> \<not> list_all is_ascii_digit d then None
        else let v = digits_int d in if v \<le> bound then Some (word_of_int v) else None)"

lemma parse_word_eq: "map_option word_of_nat (parse_unsigned n s) = parse_word (int n) s"
  by (simp add: parse_unsigned_def parse_word_def Let_def digits_int_eq)

lemma parse_u64_code [code]: "parse_u64 s = parse_word (2 ^ 64 - 1) s"
proof -
  have "int (2 ^ 64 - 1) = 2 ^ 64 - 1" by (simp only: of_nat_diff one_le_power one_le_numeral of_nat_power of_nat_numeral of_nat_1)
  then show ?thesis unfolding parse_u64_def parse_word_eq by (rule arg_cong)
qed

lemma parse_u32_code [code]: "parse_u32 s = parse_word (2 ^ 32 - 1) s"
proof -
  have "int (2 ^ 32 - 1) = 2 ^ 32 - 1" by (simp only: of_nat_diff one_le_power one_le_numeral of_nat_power of_nat_numeral of_nat_1)
  then show ?thesis unfolding parse_u32_def parse_word_eq by (rule arg_cong)
qed

lemma parse_i64_code [code]:
  "parse_i64 s = (case s of
      [] \<Rightarrow> None
    | c # cs \<Rightarrow>
        let d = (if c = CHR ''-'' then cs else drop_plus s) in
        if d = [] \<or> \<not> list_all is_ascii_digit d then None
        else let v = digits_int d in
          if c = CHR ''-'' then (if v \<le> 2 ^ 63 then Some (- v) else None)
          else (if v \<le> 2 ^ 63 - 1 then Some v else None))"
proof -
  have "(int v \<le> 2 ^ 63 - 1) = (v \<le> 2 ^ 63 - 1)" for v :: nat by simp
  moreover have "(int v \<le> 2 ^ 63) = (v \<le> 2 ^ 63)" for v :: nat by simp
  ultimately show ?thesis
    by (cases s) (simp_all add: parse_i64_def parse_unsigned_def digits_int_eq Let_def)
qed

section \<open>Formats shared by several sources\<close>

text \<open>
  Lower-case hexadecimal digests and the 8-4-4-4-12 identifiers that name operations and
  Btrfs subvolumes: the same closures appear in \<open>persistence.rs\<close>, \<open>preflight.rs\<close>,
  \<open>recovery.rs\<close>, \<open>event_log.rs\<close> and the service.
\<close>

definition lower_hex :: "char \<Rightarrow> bool" where
  "lower_hex c = (is_ascii_hexdigit c \<and> \<not> is_ascii_uppercase c)"

fun all_indexed :: "(nat \<Rightarrow> char \<Rightarrow> bool) \<Rightarrow> nat \<Rightarrow> string \<Rightarrow> bool" where
  "all_indexed P i [] = True"
| "all_indexed P i (c # cs) = (P i c \<and> all_indexed P (Suc i) cs)"

lemma all_indexed_iff: "all_indexed P i s = (\<forall>j<length s. P (i + j) (s ! j))"
proof (induction s arbitrary: i)
  case Nil
  then show ?case by simp
next
  case (Cons c cs)
  then show ?case by (auto simp: All_less_Suc2)
qed

text \<open>\<open>str::from_utf8\<close>: no overlong forms, no surrogates, nothing above U+10FFFF.\<close>

definition follows :: "char \<Rightarrow> bool" where
  "follows c = (0x80 \<le> byte c \<and> byte c < 0xC0)"

fun utf8_chunk :: "string \<Rightarrow> bool" where
  "utf8_chunk [a] = (byte a < 0x80)"
| "utf8_chunk [a, b] = (0xC2 \<le> byte a \<and> follows b)"
| "utf8_chunk [a, b, c] = (follows b \<and> follows c \<and> (byte a = 0xE0 \<longrightarrow> 0xA0 \<le> byte b) \<and> (byte a = 0xED \<longrightarrow> byte b < 0xA0))"
| "utf8_chunk [a, b, c, d] = (byte a \<le> 0xF4 \<and> follows b \<and> follows c \<and> follows d \<and>
     (byte a = 0xF0 \<longrightarrow> 0x90 \<le> byte b) \<and> (byte a = 0xF4 \<longrightarrow> byte b < 0x90))"
| "utf8_chunk _ = False"

definition is_utf8 :: "string \<Rightarrow> bool" where
  "is_utf8 s = list_all (\<lambda>ch. length ch = utf8_width (hd ch) \<and> utf8_chunk ch) (chars s)"

end
