(* ===== verification/Sanitize.thy ===== *)
theory Sanitize
  imports Rust_Str
begin

text \<open>
  \<open>core/src/sanitize.rs\<close>: what happens to a line of tool output before it is logged. Rust slices
  a string by byte offsets and panics when an offset falls inside a character; a panic is the
  value \<open>None\<close> here. Every loop over an index is a recursion over the bytes from that index on.
\<close>

section \<open>Definitions\<close>

definition MAX_TECHNICAL_LINE_BYTES :: nat where
  "MAX_TECHNICAL_LINE_BYTES = 4096"

record sanitized_line =
  sl_text :: string
  sl_truncated :: bool

definition is_continuation :: "char \<Rightarrow> bool" where
  "is_continuation c = (0x80 \<le> byte c \<and> byte c < 0xC0)"

fun skip_csi :: "string \<Rightarrow> string" where
  "skip_csi [] = []"
| "skip_csi (b # bs) = (if 0x40 \<le> byte b \<and> byte b \<le> 0x7E then bs else skip_csi bs)"

fun skip_osc :: "string \<Rightarrow> string" where
  "skip_osc [] = []"
| "skip_osc (b # bs) = (if byte b = 0x07 then bs
     else if byte b = 0x1B \<and> starts_with bs [CHR 0x5C] then drop 1 bs
     else skip_osc bs)"

lemma length_skip_csi [simp]: "length (skip_csi bs) \<le> length bs"
  by (induction bs) auto

lemma length_skip_osc [simp]: "length (skip_osc bs) \<le> length bs"
  by (induction bs) auto

text \<open>The bytes left after an escape byte has been read.\<close>

definition after_escape :: "string \<Rightarrow> string" where
  "after_escape bs = (case bs of
      [] \<Rightarrow> []
    | c # cs \<Rightarrow> if c = CHR ''['' then skip_csi cs else if c = CHR '']'' then skip_osc cs else cs)"

lemma length_after_escape [simp]: "length (after_escape bs) \<le> length bs"
  by (auto simp: after_escape_def split: list.splits intro: le_SucI)

function strip_terminal_controls :: "string \<Rightarrow> string option" where
  "strip_terminal_controls [] = Some []"
| "strip_terminal_controls (b # bs) =
     (if byte b = 0x1B then strip_terminal_controls (after_escape bs)
      else if byte b = 0x09 then map_option ((#) (CHR 0x09)) (strip_terminal_controls bs)
      else if byte b = 0x0A then map_option ((#) (CHR '' '')) (strip_terminal_controls bs)
      else if byte b < 0x20 \<or> (0x7F \<le> byte b \<and> byte b \<le> 0x9F) then strip_terminal_controls bs
      else if is_continuation b then None
      else map_option ((@) (b # take (utf8_width b - 1) bs))
             (strip_terminal_controls (drop (utf8_width b - 1) bs)))"
  by pat_completeness auto
termination by (relation "measure length") (auto simp: le_imp_less_Suc)

function mask_home_paths :: "string \<Rightarrow> string" where
  "mask_home_paths remainder = (case find_sub ''/home/'' remainder of
      None \<Rightarrow> remainder
    | Some position \<Rightarrow>
        let after_prefix = drop (position + 6) remainder;
            user_end = (case find_char (\<lambda>ch. ch = ''/'' \<or> is_whitespace ch) after_prefix of
                          None \<Rightarrow> length after_prefix | Some i \<Rightarrow> i)
        in take position remainder @ ''/home/<user>'' @ mask_home_paths (drop user_end after_prefix))"
  by pat_completeness auto
termination by (relation "measure length") (auto dest: find_sub_bound)

declare mask_home_paths.simps [simp del]

definition rfind_byte :: "char \<Rightarrow> string \<Rightarrow> nat option" where
  "rfind_byte c s = map_option (\<lambda>i. length s - 1 - i) (find_byte (\<lambda>x. x = c) (rev s))"

definition mask_url :: "string \<Rightarrow> string" where
  "mask_url url = (
     let scheme_end = (case find_sub ''://'' url of None \<Rightarrow> 0 | Some i \<Rightarrow> i + 3);
         path_start = (case find_byte (\<lambda>c. c = CHR ''/'') (drop scheme_end url) of
                         None \<Rightarrow> length url | Some i \<Rightarrow> scheme_end + i);
         authority = drop scheme_end (take path_start url);
         authority = (case rfind_byte CHR ''@'' authority of
                        None \<Rightarrow> authority | Some i \<Rightarrow> ''***@'' @ drop (i + 1) authority);
         tail = drop path_start url;
         sensitive_start = (case find_byte (\<lambda>c. c = CHR ''?'' \<or> c = CHR ''#'') tail of
                              None \<Rightarrow> length tail | Some i \<Rightarrow> i)
     in take scheme_end url @ authority @ take sensitive_start tail @
        (if sensitive_start < length tail then ''?***'' else []))"

text \<open>The bytes from the cursor on; the cursor moves past a URL, which has at least seven bytes.\<close>

definition url_start :: "string \<Rightarrow> nat option" where
  "url_start s = (case (find_sub ''http://'' s, find_sub ''https://'' s) of
      (None, None) \<Rightarrow> None
    | (Some a, None) \<Rightarrow> Some a
    | (None, Some b) \<Rightarrow> Some b
    | (Some a, Some b) \<Rightarrow> Some (min a b))"

definition url_length :: "string \<Rightarrow> nat" where
  "url_length s = (case find_char is_whitespace s of None \<Rightarrow> length s | Some i \<Rightarrow> i)"

lemma find_sub_starts: "find_sub p s = Some i \<Longrightarrow> starts_with (drop i s) p"
  by (induction s arbitrary: i) (auto simp: starts_with_def split: if_splits)

lemma url_start_starts: "url_start s = Some i \<Longrightarrow> \<exists>t. drop i s = CHR ''h'' # t"
proof -
  assume "url_start s = Some i"
  then have "find_sub ''http://'' s = Some i \<or> find_sub ''https://'' s = Some i"
    by (auto simp: url_start_def min_def split: option.splits if_splits)
  then have "starts_with (drop i s) ''http://'' \<or> starts_with (drop i s) ''https://''"
    by (auto dest: find_sub_starts)
  then show ?thesis
    by (cases "drop i s") (auto simp: starts_with_def)
qed

lemma url_length_pos: "0 < url_length (CHR ''h'' # t)"
proof -
  have "\<not> is_whitespace (CHR ''h'' # take (utf8_width CHR ''h'' - 1) t)"
    by (simp add: utf8_width_def is_whitespace_def white_space_def)
  then show ?thesis
    by (auto simp: url_length_def find_char_def split: option.splits)
qed

function mask_urls :: "string \<Rightarrow> string" where
  "mask_urls input = (case url_start input of
      None \<Rightarrow> input
    | Some start \<Rightarrow>
        let tail = drop start input; end = url_length tail
        in take start input @ mask_url (take end tail) @ mask_urls (drop end tail))"
  by pat_completeness auto
termination
proof (relation "measure length")
  fix input tail :: string and start stop :: nat
  assume "url_start input = Some start" and t: "tail = drop start input" and e: "stop = url_length tail"
  then obtain u where u: "tail = CHR ''h'' # u" using url_start_starts by blast
  then have "0 < stop" using e url_length_pos by simp
  moreover have "length tail \<le> length input" using t by simp
  moreover have "tail \<noteq> []" using u by simp
  ultimately show "(drop stop tail, input) \<in> measure length"
    by (cases tail) auto
qed simp

declare mask_urls.simps [simp del]

text \<open>
  The masking loop for one key, which is not empty. \<open>search_from\<close> always stands right after the
  last mask, so the loop continues with the bytes that follow the masked value.
\<close>

definition value_length :: "string \<Rightarrow> nat" where
  "value_length s = (case find_char (\<lambda>ch. is_whitespace ch \<or> ch = ''&'' \<or> ch = '';'') s of
      None \<Rightarrow> length s | Some i \<Rightarrow> i)"

function mask_key :: "char \<Rightarrow> string \<Rightarrow> string \<Rightarrow> string" where
  "mask_key k ks rest = (case find_sub (k # ks) (to_ascii_lowercase rest) of
      None \<Rightarrow> rest
    | Some relative \<Rightarrow>
        let value_start = relative + length (k # ks); v = drop value_start rest
        in take value_start rest @ ''***'' @ mask_key k ks (drop (value_length v) v))"
  by pat_completeness auto
termination by (relation "measure (\<lambda>(k, ks, rest). length rest)") (auto dest: find_sub_bound)

declare mask_key.simps [simp del]

definition mask_assignments :: "string \<Rightarrow> string" where
  "mask_assignments input =
     fold (\<lambda>key result. case key of [] \<Rightarrow> result | k # ks \<Rightarrow> mask_key k ks result)
       [''token='', ''password='', ''passwd='', ''secret='', ''apikey='', ''api_key=''] input"

definition is_char_boundary :: "string \<Rightarrow> nat \<Rightarrow> bool" where
  "is_char_boundary s i = (i = 0 \<or> i = length s \<or> (i < length s \<and> \<not> is_continuation (s ! i)))"

fun boundary_below :: "string \<Rightarrow> nat \<Rightarrow> nat" where
  "boundary_below s 0 = 0"
| "boundary_below s (Suc i) = (if is_char_boundary s (Suc i) then Suc i else boundary_below s i)"

definition truncate_utf8 :: "string \<Rightarrow> nat \<Rightarrow> sanitized_line" where
  "truncate_utf8 input limit =
     (if length input \<le> limit then \<lparr>sl_text = input, sl_truncated = False\<rparr>
      else \<lparr>sl_text = take (boundary_below input limit) input, sl_truncated = True\<rparr>)"

definition sanitize_technical_line :: "string \<Rightarrow> sanitized_line option" where
  "sanitize_technical_line input =
     map_option (\<lambda>without_controls.
       truncate_utf8 (mask_assignments (mask_urls (mask_home_paths without_controls)))
         MAX_TECHNICAL_LINE_BYTES)
       (strip_terminal_controls input)"

section \<open>Lemmas\<close>

text \<open>Well-formed UTF-8, as far as the position of lead and continuation bytes goes.\<close>

definition chunk_ok :: "string \<Rightarrow> bool" where
  "chunk_ok ch = (ch \<noteq> [] \<and> \<not> is_continuation (hd ch) \<and> length ch = utf8_width (hd ch) \<and>
     (\<forall>c\<in>set (tl ch). is_continuation c))"

definition valid_utf8 :: "string \<Rightarrow> bool" where
  "valid_utf8 s = (\<forall>ch\<in>set (chars s). chunk_ok ch)"

lemma valid_utf8_Nil [simp]: "valid_utf8 []"
  by (simp add: valid_utf8_def)

lemma valid_utf8_Cons:
  "valid_utf8 (c # cs) =
     (chunk_ok (c # take (utf8_width c - 1) cs) \<and> valid_utf8 (drop (utf8_width c - 1) cs))"
  by (simp add: valid_utf8_def)

lemma boundary_below_le: "boundary_below s i \<le> i"
  by (induction i) (auto intro: le_SucI)

lemma boundary_below_boundary: "is_char_boundary s (boundary_below s i)"
  by (induction i) (auto simp: is_char_boundary_def)

text \<open>
  A control byte the terminal would act on. The tabulator is kept by the code; bytes of 0x80 and
  above are parts of characters.
\<close>

definition control_byte :: "char \<Rightarrow> bool" where
  "control_byte c = ((byte c < 0x20 \<and> byte c \<noteq> 0x09) \<or> byte c = 0x7F)"

text \<open>What is left of a string at any byte offset: continuation bytes first, then whole characters.\<close>

definition utf8_tail :: "string \<Rightarrow> bool" where
  "utf8_tail s = valid_utf8 (dropWhile is_continuation s)"

lemma continuation_not_control: "is_continuation c \<Longrightarrow> \<not> control_byte c"
  by (auto simp: is_continuation_def control_byte_def)

lemma valid_utf8_dropWhile: "valid_utf8 s \<Longrightarrow> dropWhile is_continuation s = s"
  by (cases s) (auto simp: valid_utf8_Cons chunk_ok_def)

lemma utf8_tail_valid: "valid_utf8 s \<Longrightarrow> utf8_tail s"
  by (simp add: utf8_tail_def valid_utf8_dropWhile)

lemma dropWhile_prefix: "\<forall>c\<in>set (take n s). P c \<Longrightarrow> dropWhile P s = dropWhile P (drop n s)"
  by (metis append_take_drop_id dropWhile_append2)

lemma utf8_tail_Cons: "utf8_tail (c # cs) \<Longrightarrow> utf8_tail cs"
proof (cases "is_continuation c")
  case False
  assume "utf8_tail (c # cs)"
  with False have v: "chunk_ok (c # take (utf8_width c - 1) cs)" "valid_utf8 (drop (utf8_width c - 1) cs)"
    by (simp_all add: utf8_tail_def valid_utf8_Cons)
  then have "dropWhile is_continuation cs = dropWhile is_continuation (drop (utf8_width c - 1) cs)"
    by (intro dropWhile_prefix) (simp add: chunk_ok_def)
  with v(2) show ?thesis by (simp add: utf8_tail_def valid_utf8_dropWhile)
qed (simp add: utf8_tail_def)

lemma utf8_tail_drop: "utf8_tail s \<Longrightarrow> utf8_tail (drop n s)"
proof (induction n arbitrary: s)
  case (Suc n)
  then show ?case by (cases s) (auto dest: utf8_tail_Cons)
qed simp

lemma skip_csi_drop: "\<exists>n. skip_csi bs = drop n bs"
proof (induction bs)
  case (Cons b bs)
  then obtain n where "skip_csi bs = drop n bs" by blast
  then have "skip_csi (b # bs) = drop (if 0x40 \<le> byte b \<and> byte b \<le> 0x7E then 1 else Suc n) (b # bs)" by simp
  then show ?case by blast
qed simp

lemma skip_osc_drop: "\<exists>n. skip_osc bs = drop n bs"
proof (induction bs)
  case (Cons b bs)
  then obtain n where "skip_osc bs = drop n bs" by blast
  then have "skip_osc (b # bs) = drop (if byte b = 0x07 then 1
      else if byte b = 0x1B \<and> starts_with bs [CHR 0x5C] then 2 else Suc n) (b # bs)" by simp
  then show ?case by blast
qed simp

lemma after_escape_drop: "\<exists>n. after_escape bs = drop n bs"
proof (cases bs)
  case (Cons c cs)
  obtain n m where "skip_csi cs = drop n cs" "skip_osc cs = drop m cs"
    using skip_csi_drop skip_osc_drop by blast
  then have "after_escape bs = drop (if c = CHR ''['' then Suc n else if c = CHR '']'' then Suc m else 1) bs"
    using Cons by (simp add: after_escape_def)
  then show ?thesis by blast
qed (simp add: after_escape_def)

lemma strip_removes_controls:
  "strip_terminal_controls s = Some t \<Longrightarrow> utf8_tail s \<Longrightarrow> \<forall>c\<in>set t. \<not> control_byte c"
proof (induction s arbitrary: t rule: strip_terminal_controls.induct)
  case (2 b bs)
  have bs: "utf8_tail bs" using 2(7) by (rule utf8_tail_Cons)
  have esc_tail: "utf8_tail (after_escape bs)"
    using after_escape_drop [of bs] utf8_tail_drop [OF bs] by auto
  consider (esc) "byte b = 0x1B" | (tab) "byte b = 0x09" | (nl) "byte b = 0x0A"
    | (ctl) "byte b \<noteq> 0x1B" "byte b \<noteq> 0x09" "byte b \<noteq> 0x0A"
        "byte b < 0x20 \<or> (0x7F \<le> byte b \<and> byte b \<le> 0x9F)"
    | (other) "byte b \<noteq> 0x1B" "byte b \<noteq> 0x09" "byte b \<noteq> 0x0A"
        "\<not> (byte b < 0x20 \<or> (0x7F \<le> byte b \<and> byte b \<le> 0x9F))" by blast
  then show ?case
  proof cases
    case other
    with 2(6) have nc: "\<not> is_continuation b" by (auto split: if_splits)
    with other 2(6) obtain u where u: "strip_terminal_controls (drop (utf8_width b - 1) bs) = Some u"
      and t: "t = (b # take (utf8_width b - 1) bs) @ u" by auto
    have ok: "chunk_ok (b # take (utf8_width b - 1) bs)"
      using 2(7) nc by (simp add: utf8_tail_def valid_utf8_Cons)
    have "\<forall>c\<in>set u. \<not> control_byte c"
      using 2(5) [OF other nc u utf8_tail_drop [OF bs]] .
    moreover have "\<not> control_byte b" using other(4) by (auto simp: control_byte_def)
    moreover have "\<forall>c\<in>set (take (utf8_width b - 1) bs). \<not> control_byte c"
      using ok by (auto simp: chunk_ok_def continuation_not_control)
    ultimately show ?thesis by (auto simp: t)
  next
    case esc
    then show ?thesis using 2(1) [OF esc _ esc_tail] 2(6) by simp
  next
    case tab
    then obtain u where u: "strip_terminal_controls bs = Some u" "t = CHR 0x09 # u" using 2(6) by auto
    then show ?thesis using 2(2) [OF _ tab u(1) bs] tab by (simp add: control_byte_def)
  next
    case nl
    then obtain u where u: "strip_terminal_controls bs = Some u" "t = CHR '' '' # u" using 2(6) by auto
    then show ?thesis using 2(3) [OF _ _ nl u(1) bs] nl by (simp add: control_byte_def)
  next
    case ctl
    then have "strip_terminal_controls bs = Some t" using 2(6) by auto
    then show ?thesis using 2(4) [OF ctl _ bs] by simp
  qed
qed simp

lemma strip_ascii: "\<forall>c\<in>set s. byte c < 0x80 \<Longrightarrow> strip_terminal_controls s \<noteq> None"
proof (induction s rule: strip_terminal_controls.induct)
  case (2 b bs)
  obtain n where "after_escape bs = drop n bs" using after_escape_drop by blast
  then have "\<forall>c\<in>set (after_escape bs). byte c < 0x80" using 2(6) by (auto dest: in_set_dropD)
  moreover have "\<forall>c\<in>set (drop (utf8_width b - 1) bs). byte c < 0x80" using 2(6) by (auto dest: in_set_dropD)
  moreover have "\<not> is_continuation b" using 2(6) by (auto simp: is_continuation_def)
  ultimately show ?case using 2 by auto
qed simp

lemma strip_plain:
  "\<forall>c\<in>set s. 0x20 \<le> byte c \<and> byte c < 0x7F \<Longrightarrow> strip_terminal_controls s = Some s"
proof (induction s rule: strip_terminal_controls.induct)
  case (2 b bs)
  then have "utf8_width b = 1" "\<not> is_continuation b" by (auto simp: utf8_width_def is_continuation_def)
  with 2 show ?case by auto
qed simp

text \<open>Masking adds only printable ASCII, so it brings no control byte back.\<close>

definition clean :: "string \<Rightarrow> bool" where
  "clean s = (\<forall>c\<in>set s. \<not> control_byte c)"

lemma clean_append [simp]: "clean (s @ t) = (clean s \<and> clean t)"
  by (auto simp: clean_def)

lemma clean_Cons [simp]: "clean (c # s) = (\<not> control_byte c \<and> clean s)"
  by (auto simp: clean_def)

lemma clean_take [simp]: "clean s \<Longrightarrow> clean (take n s)"
  by (auto simp: clean_def dest: in_set_takeD)

lemma clean_drop [simp]: "clean s \<Longrightarrow> clean (drop n s)"
  by (auto simp: clean_def dest: in_set_dropD)

lemma clean_Nil [simp]: "clean []"
  by (simp add: clean_def)

lemma clean_mask_home_paths: "clean s \<Longrightarrow> clean (mask_home_paths s)"
proof (induction s rule: mask_home_paths.induct)
  case (1 s)
  show ?case
  proof (cases "find_sub ''/home/'' s")
    case None
    then show ?thesis using 1 by (simp add: mask_home_paths.simps [of s])
  next
    case (Some i)
    then show ?thesis using 1 by (simp add: mask_home_paths.simps [of s] Let_def control_byte_def)
  qed
qed

lemma clean_mask_url: "clean s \<Longrightarrow> clean (mask_url s)"
  by (simp add: mask_url_def Let_def control_byte_def split: option.splits)

lemma clean_mask_urls: "clean s \<Longrightarrow> clean (mask_urls s)"
proof (induction s rule: mask_urls.induct)
  case (1 s)
  show ?case
  proof (cases "url_start s")
    case None
    then show ?thesis using 1 by (simp add: mask_urls.simps [of s])
  next
    case (Some i)
    then show ?thesis using 1 by (simp add: mask_urls.simps [of s] Let_def clean_mask_url)
  qed
qed

lemma clean_mask_key: "clean s \<Longrightarrow> clean (mask_key k ks s)"
proof (induction k ks s rule: mask_key.induct)
  case (1 k ks s)
  show ?case
  proof (cases "find_sub (k # ks) (to_ascii_lowercase s)")
    case None
    then show ?thesis using 1 by (simp add: mask_key.simps [of k ks s])
  next
    case (Some i)
    then show ?thesis using 1 by (simp add: mask_key.simps [of k ks s] Let_def control_byte_def)
  qed
qed

lemma clean_mask_assignments: "clean s \<Longrightarrow> clean (mask_assignments s)"
  by (simp add: mask_assignments_def clean_mask_key)

lemma truncate_utf8_bounds:
  "length (sl_text (truncate_utf8 s n)) \<le> n \<and> (clean s \<longrightarrow> clean (sl_text (truncate_utf8 s n))) \<and>
   sl_truncated (truncate_utf8 s n) = (n < length s) \<and> (\<exists>i. is_char_boundary s i \<and> sl_text (truncate_utf8 s n) = take i s)"
proof (cases "length s \<le> n")
  case True
  then show ?thesis by (auto simp: truncate_utf8_def is_char_boundary_def intro!: exI [of _ "length s"])
next
  case False
  then show ?thesis using boundary_below_le [of s n] boundary_below_boundary [of s n]
    by (auto simp: truncate_utf8_def)
qed

section \<open>Properties\<close>



text \<open>
  Sanitising never aborts on ASCII output: every line whose bytes are all below 0x80, whatever
  escape sequences it contains, is turned into a line for the log.
\<close>

theorem ascii_line_is_sanitized:
  assumes "list_all (\<lambda>c. byte c < 0x80) s"
  shows "\<exists>l. sanitize_technical_line s = Some l"
  using strip_ascii [of s] assms by (auto simp: sanitize_technical_line_def list_all_iff)

theorem ascii_line_is_sanitized_witness: "\<exists>l. sanitize_technical_line [CHR 0x1B, CHR ''A''] = Some l"
  by (rule ascii_line_is_sanitized) simp

text \<open>
  On other well-formed input it can abort: an escape byte in front of a two-byte character
  makes the scan continue inside the character, where slicing the string panics.
\<close>

theorem escaped_multibyte_panics:
  "\<exists>s. valid_utf8 s \<and> sanitize_technical_line s = None"
proof (intro exI conjI)
  show "valid_utf8 [CHR 0x1B, CHR 0xC3, CHR 0xA1]"
    by (simp add: valid_utf8_def utf8_width_def chunk_ok_def is_continuation_def)
  show "sanitize_technical_line [CHR 0x1B, CHR 0xC3, CHR 0xA1] = None"
    by (simp add: sanitize_technical_line_def after_escape_def is_continuation_def)
qed

text \<open>The control U+009B, a terminal's one-character CSI, is kept: its lead byte is not a control byte.\<close>

lemma c1_control_survives: "strip_terminal_controls [CHR 0xC2, CHR 0x9B] = Some [CHR 0xC2, CHR 0x9B]"
  by (simp add: utf8_width_def is_continuation_def)

text \<open>A query that follows the authority directly, without a path, is not masked.\<close>

lemma query_without_path_survives: "mask_url ''http://h?k=v'' = ''http://h?k=v''"
  by (simp add: mask_url_def starts_with_def rfind_byte_def)

end
