(* ===== verification/Recovery_Identity.thy ===== *)
theory Recovery_Identity
  imports Rust_Str
begin

text \<open>
  \<open>core/src/recovery.rs\<close>: the identity of a Btrfs subvolume, the goal of a rollback, the parser
  of \<open>btrfs subvolume show\<close> and the check made after a rollback has booted. The \<open>btrfs\<close> program
  is not part of the repository: it is the parameter \<open>btrfs\<close>, which maps the arguments and the
  path of a probe to its output, with \<open>None\<close> when the program cannot be run, fails, or prints
  bytes that are not UTF-8.
\<close>

section \<open>Identities and goals\<close>

record subvolume_identity =
  sv_id :: u64
  sv_uuid :: string
  sv_parent_uuid :: "string option"

record rollback_goal =
  source_snapshot_number :: u64
  source_snapshot :: subvolume_identity
  boot_snapshot :: "subvolume_identity option"

definition valid_uuid :: "string \<Rightarrow> bool" where
  "valid_uuid value = (length value = 36 \<and>
     all_indexed (\<lambda>i c. if i \<in> {8, 13, 18, 23} then c = CHR ''-'' else lower_hex c) 0 value)"

definition subvolume_valid :: "subvolume_identity \<Rightarrow> bool" where
  "subvolume_valid s = (5 < sv_id s \<and> valid_uuid (sv_uuid s) \<and> is_none_or (sv_parent_uuid s) valid_uuid)"

definition goal_valid :: "rollback_goal \<Rightarrow> u64 option \<Rightarrow> bool" where
  "goal_valid g snapshot_number =
     (0 < source_snapshot_number g \<and>
      snapshot_number = Some (source_snapshot_number g) \<and>
      subvolume_valid (source_snapshot g) \<and>
      is_none_or (boot_snapshot g) (\<lambda>boot.
        subvolume_valid boot \<and>
        sv_id boot \<noteq> sv_id (source_snapshot g) \<and>
        sv_uuid boot \<noteq> sv_uuid (source_snapshot g) \<and>
        sv_parent_uuid boot = Some (sv_uuid (source_snapshot g))))"

section \<open>Probes\<close>

type_synonym btrfs_probe = "string list \<Rightarrow> string \<Rightarrow> string option"

definition snapshot_path :: "u64 \<Rightarrow> string" where
  "snapshot_path number = ''/.snapshots/'' @ show_u64 number @ ''/snapshot''"

text \<open>The loop of \<open>parse_subvolume\<close>: three keys are kept, a repeated one is an error.\<close>

fun subvolume_fields :: "(string \<rightharpoonup> string) \<Rightarrow> string list \<Rightarrow> string + (string \<rightharpoonup> string)" where
  "subvolume_fields m [] = Inr m"
| "subvolume_fields m (line # ls) =
     (case split_once CHR '':'' (trim line) of
        None \<Rightarrow> subvolume_fields m ls
      | Some (key, value) \<Rightarrow>
          if key \<in> {''UUID'', ''Parent UUID'', ''Subvolume ID''} then
            (if m key \<noteq> None then Inl ''BTRFS_IDENTITY_INVALID''
             else subvolume_fields (m(key \<mapsto> trim value)) ls)
          else subvolume_fields m ls)"

definition parse_subvolume :: "string \<Rightarrow> string + subvolume_identity" where
  "parse_subvolume output =
     rbind (subvolume_fields Map.empty (str_lines output)) (\<lambda>fields.
     rbind (ok_or (fields ''UUID'') ''BTRFS_IDENTITY_INVALID'') (\<lambda>uuid.
     rbind (ok_or (fields ''Parent UUID'') ''BTRFS_IDENTITY_INVALID'') (\<lambda>parent.
     rbind (ok_or (Option.bind (fields ''Subvolume ID'') parse_u64) ''BTRFS_IDENTITY_INVALID'') (\<lambda>i.
       let value = \<lparr>sv_id = i, sv_uuid = uuid,
                    sv_parent_uuid = (if parent \<noteq> ''-'' then Some parent else None)\<rparr>
       in if \<not> subvolume_valid value then Inl ''BTRFS_IDENTITY_INVALID'' else Inr value))))"

definition inspect_subvolume :: "btrfs_probe \<Rightarrow> string \<Rightarrow> string + subvolume_identity" where
  "inspect_subvolume btrfs path =
     rbind (ok_or (btrfs [''subvolume'', ''show'', ''--raw''] path) ''BTRFS_PROBE_FAILED'')
       parse_subvolume"

definition containing_subvolume_id :: "btrfs_probe \<Rightarrow> string \<Rightarrow> string + u64" where
  "containing_subvolume_id btrfs path =
     rbind (ok_or (btrfs [''inspect-internal'', ''rootid''] path) ''BTRFS_PROBE_FAILED'')
       (\<lambda>output. ok_or (parse_u64 (trim output)) ''BTRFS_PROBE_FAILED'')"

definition default_subvolume_id :: "btrfs_probe \<Rightarrow> string + u64" where
  "default_subvolume_id btrfs =
     rbind (ok_or (btrfs [''subvolume'', ''get-default''] ''/'') ''BTRFS_PROBE_FAILED'')
       (\<lambda>output. case split_whitespace output of
            w # v # _ \<Rightarrow> if w \<noteq> ''ID'' then Inl ''BTRFS_PROBE_FAILED''
                        else ok_or (parse_u64 v) ''BTRFS_PROBE_FAILED''
          | _ \<Rightarrow> Inl ''BTRFS_PROBE_FAILED'')"

text \<open>
  The three comparisons are made in order and a probe that fails ends the check with its own
  error, so the later probes are only reached when the earlier comparisons agreed.
\<close>

definition verify_rollback_boot :: "btrfs_probe \<Rightarrow> rollback_goal \<Rightarrow> string + unit" where
  "verify_rollback_boot btrfs g =
     rbind (ok_or (boot_snapshot g) ''ROLLBACK_INTENT_INCOMPLETE'') (\<lambda>expected.
     rbind (inspect_subvolume btrfs (snapshot_path (source_snapshot_number g))) (\<lambda>source.
     if source \<noteq> source_snapshot g then Inl ''ROLLBACK_BOOT_IDENTITY_MISMATCH'' else
     rbind (inspect_subvolume btrfs ''/'') (\<lambda>root.
     if root \<noteq> expected then Inl ''ROLLBACK_BOOT_IDENTITY_MISMATCH'' else
     rbind (default_subvolume_id btrfs) (\<lambda>d.
     if d \<noteq> sv_id expected then Inl ''ROLLBACK_BOOT_IDENTITY_MISMATCH'' else Inr ()))))"

section \<open>Lemmas\<close>

lemma valid_uuid_iff:
  "valid_uuid s = (length s = 36 \<and>
     (\<forall>j<36. if j \<in> {8, 13, 18, 23} then s ! j = CHR ''-'' else lower_hex (s ! j)))"
  unfolding valid_uuid_def all_indexed_iff by (intro conj_cong refl) (simp only: add_0)

lemma parse_subvolume_valid: "parse_subvolume out = Inr s \<Longrightarrow> subvolume_valid s"
  by (auto simp: parse_subvolume_def Let_def result_simps split: if_splits)

text \<open>A field once read is never replaced: the parser refuses output that repeats a key.\<close>

lemma subvolume_fields_extends:
  "subvolume_fields m ls = Inr m' \<Longrightarrow> m \<subseteq>\<^sub>m m'"
proof (induction m ls rule: subvolume_fields.induct)
  case (1 m)
  then show ?case by simp
next
  case (2 m line ls)
  show ?case
  proof (cases "split_once CHR '':'' (trim line)")
    case None
    with 2 show ?thesis by simp
  next
    case (Some kv)
    obtain key v where kv: "kv = (key, v)" by fastforce
    show ?thesis
    proof (cases "key \<in> {''UUID'', ''Parent UUID'', ''Subvolume ID''}")
      case True
      with 2(4) Some kv have new: "m key = None"
        and rest: "subvolume_fields (m(key \<mapsto> trim v)) ls = Inr m'"
        by (auto split: if_splits)
      from "2.IH"(2) [OF Some kv [symmetric] True _ rest] new have "m(key \<mapsto> trim v) \<subseteq>\<^sub>m m'" by (simp add: fun_upd_def)
      moreover have "m \<subseteq>\<^sub>m m(key \<mapsto> trim v)" using new by (auto simp: map_le_def)
      ultimately show ?thesis by (blast intro: map_le_trans)
    next
      case False
      with "2.IH"(3) [OF Some kv [symmetric] False] 2(4) Some kv show ?thesis by simp
    qed
  qed
qed

lemma verify_rollback_boot_iff [result_simps]:
  "(verify_rollback_boot btrfs g = Inr ()) =
     (\<exists>e. boot_snapshot g = Some e \<and>
        inspect_subvolume btrfs (snapshot_path (source_snapshot_number g)) = Inr (source_snapshot g) \<and>
        inspect_subvolume btrfs ''/'' = Inr e \<and>
        default_subvolume_id btrfs = Inr (sv_id e))"
  by (auto simp: verify_rollback_boot_def result_simps split: if_splits)

section \<open>Properties\<close>

text \<open>
  A rollback counts as booted only when the running root is the intended clone: if the check
  succeeds for a valid goal, the root subvolume was probed, is the default subvolume, is a snapshot
  of the recorded source (its parent), is not the source itself, and the source is still there
  with its recorded identity.
\<close>

theorem verified_rollback_root:
  assumes "verify_rollback_boot btrfs g = Inr ()" and "goal_valid g n"
  shows "\<exists>root. inspect_subvolume btrfs ''/'' = Inr root \<and> default_subvolume_id btrfs = Inr (sv_id root) \<and>
    boot_snapshot g = Some root \<and> sv_parent_uuid root = Some (sv_uuid (source_snapshot g)) \<and>
    sv_id root \<noteq> sv_id (source_snapshot g) \<and> sv_uuid root \<noteq> sv_uuid (source_snapshot g) \<and>
    inspect_subvolume btrfs (snapshot_path (source_snapshot_number g)) = Inr (source_snapshot g) \<and>
    n = Some (source_snapshot_number g)"
  using assms by (auto simp: verify_rollback_boot_iff goal_valid_def)

definition example_uuid :: "char \<Rightarrow> string" where
  "example_uuid c = replicate 8 c @ ''-'' @ replicate 4 c @ ''-'' @ replicate 4 c @ ''-'' @ replicate 4 c @ ''-'' @ replicate 12 c"

definition example_goal :: rollback_goal where
  "example_goal = \<lparr>source_snapshot_number = 4,
     source_snapshot = \<lparr>sv_id = 300, sv_uuid = example_uuid CHR ''a'', sv_parent_uuid = None\<rparr>,
     boot_snapshot = Some \<lparr>sv_id = 301, sv_uuid = example_uuid CHR ''b'', sv_parent_uuid = Some (example_uuid CHR ''a'')\<rparr>\<rparr>"

definition example_btrfs :: btrfs_probe where
  "example_btrfs args p =
     (if args = [''subvolume'', ''get-default''] then Some ''ID 301 gen 7''
      else if p = ''/'' then Some (''UUID: '' @ example_uuid CHR ''b'' @ [CHR 0x0A] @
        ''Parent UUID: '' @ example_uuid CHR ''a'' @ [CHR 0x0A] @ ''Subvolume ID: 301'')
      else Some (''UUID: '' @ example_uuid CHR ''a'' @ [CHR 0x0A] @ ''Parent UUID: -'' @ [CHR 0x0A] @
        ''Subvolume ID: 300''))"

theorem verified_rollback_root_witness:
  "\<exists>root. inspect_subvolume example_btrfs ''/'' = Inr root \<and>
    sv_parent_uuid root = Some (sv_uuid (source_snapshot example_goal))"
proof -
  have "verify_rollback_boot example_btrfs example_goal = Inr ()" by code_simp
  moreover have "goal_valid example_goal (Some 4)" by code_simp
  ultimately show ?thesis using verified_rollback_root by blast
qed

text \<open>
  The parser of \<open>btrfs subvolume show\<close> returns only well-formed identities (an identifier above
  the reserved ones, 8-4-4-4-12 lower-case UUIDs), and no key it reads occurs twice in the output.
\<close>

theorem parsed_subvolume_wellformed:
  assumes "parse_subvolume out = Inr s"
  shows "5 < sv_id s \<and> valid_uuid (sv_uuid s) \<and> (\<forall>p. sv_parent_uuid s = Some p \<longrightarrow> valid_uuid p) \<and>
    (\<exists>m. subvolume_fields Map.empty (str_lines out) = Inr m \<and> m ''UUID'' = Some (sv_uuid s))"
  using assms parse_subvolume_valid [OF assms]
  by (auto simp: subvolume_valid_def parse_subvolume_def Let_def result_simps is_none_or_def split: if_splits option.splits)

theorem parsed_subvolume_wellformed_witness:
  "\<exists>s. parse_subvolume (the (example_btrfs [''subvolume'', ''show'', ''--raw''] ''/'')) = Inr s \<and> valid_uuid (sv_uuid s)"
proof -
  have "parse_subvolume (the (example_btrfs [''subvolume'', ''show'', ''--raw''] ''/'')) =
    Inr \<lparr>sv_id = 301, sv_uuid = example_uuid CHR ''b'', sv_parent_uuid = Some (example_uuid CHR ''a'')\<rparr>" by code_simp
  then show ?thesis using parsed_subvolume_wellformed by blast
qed

end
