(* ===== verification/Domain.thy ===== *)
theory Domain
  imports Recovery_Identity
begin

text \<open>
  \<open>core/src/lib.rs\<close>: the kinds and states of an operation, the persisted record, and the
  transition function every component goes through. The second half turns the transition
  function into a step relation with the one write the executor makes between transitions
  (recording the snapshot number) and proves what holds in every reachable record.
\<close>

section \<open>Data\<close>

datatype operation_kind = UpdateWithinRelease | ReleaseUpgrade | PackageMigration

definition is_signed_offline :: "operation_kind \<Rightarrow> bool" where
  "is_signed_offline k = (case k of ReleaseUpgrade \<Rightarrow> True | PackageMigration \<Rightarrow> True | _ \<Rightarrow> False)"

datatype operation_state =
    Idle | Checking | Available | Preflight | Planned | AwaitingConfirmation | Downloading
  | Snapshotting | Applying | ReadyToReboot | ApplyingOffline | AwaitingReboot | VerifyingBoot
  | Blocked | Failed | NeedsRecovery | Completed

definition is_terminal :: "operation_state \<Rightarrow> bool" where
  "is_terminal s = (s \<in> {Failed, NeedsRecovery, Completed})"

definition is_cancelable :: "operation_state \<Rightarrow> bool" where
  "is_cancelable s = (s \<in> {Idle, Checking, Available, Preflight, Planned, AwaitingConfirmation,
     Downloading, Blocked})"

definition permits_system_write :: "operation_state \<Rightarrow> bool" where
  "permits_system_write s = (s \<in> {Snapshotting, Applying, ReadyToReboot, ApplyingOffline})"

record release_identity =
  ri_version :: string
  ri_edition :: string
  ri_architecture :: string
  ri_build_id :: string

definition is_supported_desktop :: "release_identity \<Rightarrow> bool" where
  "is_supported_desktop r = (ri_edition r = ''desktop'' \<and> ri_architecture r = ''x86_64'')"

datatype boot_verification = BootPending | BootPassed | BootFailed

definition STATE_SCHEMA_VERSION :: u32 where
  "STATE_SCHEMA_VERSION = 1"

record operation_state_record =
  schema_version :: u32
  operation_id :: string
  op_sequence :: u64
  operation :: operation_kind
  op_state :: operation_state
  op_source :: release_identity
  op_target :: "release_identity option"
  op_plan_sha256 :: string
  op_manifest_sha256 :: "string option"
  snapshot_number :: "u64 option"
  recovery :: "rollback_goal option"
  last_completed_step :: "string option"
  error_code :: "string option"
  boot_verification :: "boot_verification option"
  created_at :: string
  updated_at :: string

datatype transition_error = UnsupportedSchema | InvalidTransition | SnapshotNotRecorded

section \<open>Transitions\<close>

definition valid_transition :: "operation_kind \<Rightarrow> operation_state \<Rightarrow> operation_state \<Rightarrow> bool" where
  "valid_transition k current next =
     (if next = Blocked then current \<in> {Checking, Preflight, Downloading}
      else if next = Failed then current \<notin> {Completed, NeedsRecovery}
      else if next = NeedsRecovery then
        current \<in> {Snapshotting, Applying, ApplyingOffline, VerifyingBoot}
      else if (current, next) \<in>
          {(Idle, Checking), (Checking, Available), (Available, Preflight), (Preflight, Planned),
           (Planned, AwaitingConfirmation), (AwaitingConfirmation, Downloading),
           (Downloading, Snapshotting), (Applying, AwaitingReboot), (Applying, Completed),
           (AwaitingReboot, VerifyingBoot), (VerifyingBoot, Completed),
           (Blocked, Preflight), (Blocked, Idle)} then True
      else if (current, next) = (Snapshotting, Applying) then k = UpdateWithinRelease
      else if (current, next) \<in> {(Snapshotting, ReadyToReboot), (ReadyToReboot, ApplyingOffline),
           (ApplyingOffline, AwaitingReboot)} then is_signed_offline k
      else False)"

definition transition_to ::
  "operation_state_record \<Rightarrow> operation_state \<Rightarrow> transition_error + operation_state_record" where
  "transition_to r next =
     (if schema_version r \<noteq> STATE_SCHEMA_VERSION then Inl UnsupportedSchema
      else if next \<in> {Applying, ReadyToReboot, ApplyingOffline} \<and> snapshot_number r = None
        then Inl SnapshotNotRecorded
      else if \<not> valid_transition (operation r) (op_state r) next then Inl InvalidTransition
      else Inr (r\<lparr>op_state := next, op_sequence := sat_add (op_sequence r) 1\<rparr>))"

section \<open>Facts about single transitions\<close>

lemma transition_to_Inr_iff [result_simps]:
  "(transition_to r next = Inr r') =
     (schema_version r = STATE_SCHEMA_VERSION \<and>
      (next \<in> {Applying, ReadyToReboot, ApplyingOffline} \<longrightarrow> snapshot_number r \<noteq> None) \<and>
      valid_transition (operation r) (op_state r) next \<and>
      r' = r\<lparr>op_state := next, op_sequence := sat_add (op_sequence r) 1\<rparr>)"
  unfolding transition_to_def by (simp del: insert_iff) blast

lemma is_signed_offline_iff [simp]: "is_signed_offline k = (k \<noteq> UpdateWithinRelease)"
  by (cases k) (simp_all add: is_signed_offline_def)

text \<open>The states from which applying packages, or their verification, is under way or done.\<close>

definition after_snapshot :: "operation_state \<Rightarrow> bool" where
  "after_snapshot s = (s \<in> {Applying, ReadyToReboot, ApplyingOffline, AwaitingReboot, VerifyingBoot, Completed})"

lemma after_snapshot_entry:
  "valid_transition k s t \<Longrightarrow> after_snapshot t \<Longrightarrow>
     after_snapshot s \<or> (s = Snapshotting \<and> t \<in> {Applying, ReadyToReboot})"
  by (cases t) (auto simp: valid_transition_def after_snapshot_def split: if_splits)

lemma offline_states_entry:
  "valid_transition k s t \<Longrightarrow> t \<in> {ReadyToReboot, ApplyingOffline} \<Longrightarrow> is_signed_offline k"
  by (auto simp: valid_transition_def split: if_splits)

lemma online_apply_entry: "valid_transition k s Applying \<Longrightarrow> k = UpdateWithinRelease"
  by (auto simp: valid_transition_def split: if_splits)

section \<open>Runs of an operation\<close>

text \<open>
  A step is a successful call of \<open>transition_to\<close> or the write of the snapshot number, which the
  executor makes only while the operation is \<open>Snapshotting\<close> and only with a positive number.
\<close>

inductive operation_step :: "operation_state_record \<Rightarrow> operation_state_record \<Rightarrow> bool" where
  transition: "transition_to r next = Inr r' \<Longrightarrow> operation_step r r'"
| record_snapshot: "op_state r = Snapshotting \<Longrightarrow> n \<noteq> 0 \<Longrightarrow>
     operation_step r (r\<lparr>snapshot_number := Some n\<rparr>)"

abbreviation operation_run :: "operation_state_record \<Rightarrow> operation_state_record \<Rightarrow> bool" where
  "operation_run \<equiv> operation_step\<^sup>*\<^sup>*"

inductive_cases operation_stepE: "operation_step r r'"

text \<open>What every step keeps: who the operation is, and what it was planned to do.\<close>

definition same_operation :: "operation_state_record \<Rightarrow> operation_state_record \<Rightarrow> bool" where
  "same_operation r s = (schema_version s = schema_version r \<and> operation_id s = operation_id r \<and>
     operation s = operation r \<and> op_source s = op_source r \<and> op_target s = op_target r \<and>
     op_plan_sha256 s = op_plan_sha256 r \<and> op_manifest_sha256 s = op_manifest_sha256 r)"

lemma operation_step_same: "operation_step r s \<Longrightarrow> same_operation r s"
  by (erule operation_stepE) (auto simp: same_operation_def result_simps)

interpretation op_same: step_invariant operation_step "same_operation r"
  by unfold_locales (drule operation_step_same, simp add: same_operation_def)

lemma operation_run_same: "operation_run r s \<Longrightarrow> same_operation r s"
  by (erule op_same.run_keeps) (simp add: same_operation_def)

lemma operation_step_sequence: "operation_step r s \<Longrightarrow> op_sequence r \<le> op_sequence s"
  by (erule operation_stepE) (auto simp: result_simps sat_add_ge)

interpretation op_seq: step_monotone operation_step op_sequence
  by unfold_locales (rule operation_step_sequence)

text \<open>The invariant behind the recovery promise: once packages may change, a snapshot is on record.\<close>

definition snapshot_invariant :: "operation_state_record \<Rightarrow> bool" where
  "snapshot_invariant r = (after_snapshot (op_state r) \<longrightarrow> snapshot_number r \<noteq> None)"

lemma operation_step_snapshot:
  assumes "operation_step r s" and "snapshot_invariant r"
  shows "snapshot_invariant s"
  using assms(1)
proof (cases rule: operation_step.cases)
  case (transition t)
  then have ok: "t \<in> {Applying, ReadyToReboot, ApplyingOffline} \<longrightarrow> snapshot_number r \<noteq> None"
    and v: "valid_transition (operation r) (op_state r) t"
    and s: "s = r\<lparr>op_state := t, op_sequence := sat_add (op_sequence r) 1\<rparr>"
    by (auto simp only: result_simps)
  show ?thesis
    using after_snapshot_entry [OF v] ok assms(2) by (auto simp: snapshot_invariant_def s)
next
  case (record_snapshot n)
  then show ?thesis by (simp add: snapshot_invariant_def)
qed

interpretation op_snapshot: step_invariant operation_step snapshot_invariant
  by unfold_locales (rule operation_step_snapshot)

text \<open>Online and offline application are separate paths, chosen by the kind of the operation.\<close>

definition path_invariant :: "operation_state_record \<Rightarrow> bool" where
  "path_invariant r = ((op_state r \<in> {ReadyToReboot, ApplyingOffline} \<longrightarrow> is_signed_offline (operation r)) \<and>
     (op_state r = Applying \<longrightarrow> operation r = UpdateWithinRelease))"

lemma operation_step_path: "operation_step r s \<Longrightarrow> path_invariant r \<Longrightarrow> path_invariant s"
  by (erule operation_stepE)
    (auto simp: path_invariant_def result_simps dest: offline_states_entry online_apply_entry)

interpretation op_path: step_invariant operation_step path_invariant
  by unfold_locales (rule operation_step_path)

section \<open>Sequences of states\<close>

fun valid_path :: "operation_kind \<Rightarrow> operation_state \<Rightarrow> operation_state list \<Rightarrow> bool" where
  "valid_path k s [] = True"
| "valid_path k s (t # ts) = (valid_transition k s t \<and> valid_path k t ts)"

text \<open>The states an operation can be in before the user has confirmed it.\<close>

definition unconfirmed :: "operation_state set" where
  "unconfirmed = {Idle, Checking, Available, Preflight, Planned, Blocked, Failed}"

lemma unconfirmed_step:
  "s \<in> unconfirmed \<Longrightarrow> valid_transition k s t \<Longrightarrow> t \<noteq> AwaitingConfirmation \<Longrightarrow> t \<in> unconfirmed"
  by (cases t) (auto simp: unconfirmed_def valid_transition_def split: if_splits)

lemma unconfirmed_path:
  "s \<in> unconfirmed \<Longrightarrow> valid_path k s ts \<Longrightarrow> AwaitingConfirmation \<notin> set ts \<Longrightarrow>
     last (s # ts) \<in> unconfirmed"
  by (induction ts arbitrary: s) (auto dest: unconfirmed_step)

section \<open>Properties\<close>

text \<open>
  C14: No operation changes packages, waits for the reboot, verifies the boot or completes without
  a snapshot on record: whenever an operation that has not passed its snapshot runs on, through
  any transitions and any recording of a snapshot, a state from applying onwards comes with one.
\<close>

theorem snapshot_before_changes:
  assumes "\<not> after_snapshot (op_state r)" and "operation_run r s" and "after_snapshot (op_state s)"
  shows "\<exists>n. snapshot_number s = Some n"
  using op_snapshot.run_keeps [OF assms(2)] assms(1,3) by (simp add: snapshot_invariant_def)

definition example_release :: release_identity where
  "example_release = \<lparr>ri_version = ''1.0'', ri_edition = ''desktop'', ri_architecture = ''x86_64'', ri_build_id = ''b1''\<rparr>"

definition example_record :: operation_state_record where
  "example_record = \<lparr>schema_version = STATE_SCHEMA_VERSION,
     operation_id = ''01234567-89ab-cdef-0123-456789abcdef'', op_sequence = 7, operation = UpdateWithinRelease,
     op_state = Snapshotting, op_source = example_release, op_target = None,
     op_plan_sha256 = replicate 64 CHR ''a'', op_manifest_sha256 = None, snapshot_number = None,
     recovery = None, last_completed_step = None, error_code = None, boot_verification = None,
     created_at = ''2026'', updated_at = ''2026''\<rparr>"

definition example_applying :: operation_state_record where
  "example_applying = example_record\<lparr>snapshot_number := Some 4, op_state := Applying, op_sequence := 8\<rparr>"

lemma example_run: "operation_run example_record example_applying"
proof -
  have "operation_step example_record (example_record\<lparr>snapshot_number := Some 4\<rparr>)"
    by (rule operation_step.record_snapshot) (simp_all add: example_record_def)
  moreover have "transition_to (example_record\<lparr>snapshot_number := Some 4\<rparr>) Applying = Inr example_applying"
    by (simp add: transition_to_def example_record_def example_applying_def valid_transition_def sat_add_def)
  then have "operation_step (example_record\<lparr>snapshot_number := Some 4\<rparr>) example_applying"
    by (rule operation_step.transition)
  ultimately show ?thesis by (meson rtranclp.simps)
qed

theorem snapshot_before_changes_witness:
  "\<not> after_snapshot (op_state example_record) \<and> operation_run example_record example_applying \<and>
   (\<exists>n. snapshot_number example_applying = Some n)"
  using snapshot_before_changes [OF _ example_run] example_run
  by (simp add: after_snapshot_def example_record_def example_applying_def)

text \<open>
  The system is only written to after the user has been asked: a sequence of valid transitions
  from the idle state that ends in a state permitting system writes passes through
  \<open>AwaitingConfirmation\<close>.
\<close>

theorem write_needs_confirmation:
  assumes "valid_path k Idle ts" and "permits_system_write (last (Idle # ts))"
  shows "AwaitingConfirmation \<in> set ts"
proof (rule ccontr)
  assume "AwaitingConfirmation \<notin> set ts"
  then have "last (Idle # ts) \<in> unconfirmed"
    using unconfirmed_path [of Idle k ts] assms(1) by (simp add: unconfirmed_def)
  with assms(2) show False by (auto simp: unconfirmed_def permits_system_write_def)
qed

theorem write_needs_confirmation_witness:
  "valid_path UpdateWithinRelease Idle
     [Checking, Available, Preflight, Planned, AwaitingConfirmation, Downloading, Snapshotting] \<and>
   AwaitingConfirmation \<in> set [Checking, Available, Preflight, Planned, AwaitingConfirmation, Downloading, Snapshotting]"
proof -
  have "valid_path UpdateWithinRelease Idle
     [Checking, Available, Preflight, Planned, AwaitingConfirmation, Downloading, Snapshotting]"
    by (simp add: valid_transition_def)
  with write_needs_confirmation [OF this] show ?thesis by (simp add: permits_system_write_def)
qed

text \<open>
  Packages are applied online only within a release and offline only for the signed kinds, on
  every run that starts before either.
\<close>

theorem apply_path_matches_kind:
  assumes "op_state r = Idle" and "operation_run r s"
  shows "(op_state s = Applying \<longrightarrow> operation r = UpdateWithinRelease) \<and>
    (op_state s \<in> {ReadyToReboot, ApplyingOffline} \<longrightarrow> is_signed_offline (operation r))"
proof -
  have "path_invariant r" using assms(1) by (simp add: path_invariant_def)
  then have "path_invariant s" using op_path.run_keeps [OF assms(2)] by blast
  moreover have "operation s = operation r"
    using operation_run_same [OF assms(2)] by (simp add: same_operation_def)
  ultimately show ?thesis by (simp add: path_invariant_def)
qed

theorem apply_path_matches_kind_witness:
  "(let r = example_record\<lparr>op_state := Idle\<rparr> in operation_run r r \<and>
     (op_state r = Applying \<longrightarrow> operation r = UpdateWithinRelease))"
  using apply_path_matches_kind [of "example_record\<lparr>op_state := Idle\<rparr>" "example_record\<lparr>op_state := Idle\<rparr>"]
  by (simp add: Let_def)

text \<open>
  A run keeps what the operation is (identifier, kind, source, target, plan and manifest
  digests), its sequence number never falls, and it grows with every transition until the counter
  is full.
\<close>

theorem run_keeps_identity:
  assumes "operation_run r s"
  shows "same_operation r s \<and> op_sequence r \<le> op_sequence s \<and>
    (\<forall>next s'. transition_to s next = Inr s' \<longrightarrow> op_sequence s \<noteq> - 1 \<longrightarrow> op_sequence s < op_sequence s')"
  using operation_run_same [OF assms] op_seq.run_grows [OF assms] sat_add_Suc_gt
  by (auto simp: transition_to_Inr_iff)

theorem run_keeps_identity_witness:
  "same_operation example_record example_applying \<and> op_sequence example_record \<le> op_sequence example_applying"
  using run_keeps_identity [OF example_run] by simp

text \<open>
  Terminal and cancelable states: a completed operation and one that needs recovery have no
  transition, a failed one only to itself; and an operation the user may cancel is in no state that
  writes to the system and may always be moved to \<open>Failed\<close>.
\<close>

theorem terminal_and_cancelable:
  "(is_terminal s \<and> valid_transition k s t \<longrightarrow> s = Failed \<and> t = Failed) \<and>
   (is_cancelable s \<longrightarrow> \<not> is_terminal s \<and> \<not> permits_system_write s \<and> valid_transition k s Failed)"
  by (cases s; cases t)
    (auto simp: is_terminal_def is_cancelable_def permits_system_write_def valid_transition_def)

theorem terminal_and_cancelable_witness:
  "is_terminal Failed \<and> valid_transition ReleaseUpgrade Failed Failed \<and> is_cancelable Downloading \<and>
   \<not> permits_system_write Downloading"
  using terminal_and_cancelable [of Failed ReleaseUpgrade Failed] terminal_and_cancelable [of Downloading ReleaseUpgrade Failed]
  by (simp add: is_terminal_def is_cancelable_def valid_transition_def)

end
