(* ===== verification/Preflight.thy ===== *)
theory Preflight
  imports Domain
begin

text \<open>
  \<open>core/src/preflight.rs\<close>: what is known about the host, the issues that block an operation, the
  evaluation of the host against a policy, and the construction of the plan the user confirms.
  The data of \<open>core/src/solver.rs\<close> that a plan contains (package changes and the solver's result)
  is declared here too, because the two modules refer to each other.
\<close>

section \<open>Facts about the host\<close>

record installed_package =
  ip_name :: string
  ip_version :: string
  ip_architecture :: string
  ip_vendor :: string

record inventory_report =
  iv_schema_version :: u32
  iv_installed_packages :: "installed_package list"
  iv_configuration_artifacts :: "string list"

record storage_facts =
  root_writable :: bool
  home_isolated :: bool
  boot_available_bytes :: u64
  esp_available_bytes :: "u64 option"

record repository_fact =
  rf_alias :: string
  rf_enabled :: bool
  rf_official :: bool
  rf_metadata_valid :: bool
  rf_signing_key_trusted :: bool

record host_facts =
  hf_release :: release_identity
  root_filesystem :: string
  snapper_root_configured :: bool
  rpm_database_healthy :: bool
  package_lock_free :: bool
  hf_available_bytes :: u64
  required_download_bytes :: u64
  required_transaction_bytes :: u64
  required_snapshot_bytes :: u64
  on_battery :: bool
  battery_percent :: "u8 option"
  secure_boot_enabled :: "bool option"
  hf_repositories :: "repository_fact list"
  hf_held_packages :: "string list"
  hf_installed_packages :: "installed_package list"
  hf_storage :: "storage_facts option"
  hf_orphaned_packages :: "string list"

record preflight_policy =
  minimum_battery_percent :: u8
  free_space_margin_bytes :: u64
  pp_minimum_free_space_bytes :: u64
  require_secure_boot_fact :: bool

definition default_policy :: preflight_policy where
  "default_policy = \<lparr>minimum_battery_percent = 40, free_space_margin_bytes = 1024 * 1024 * 1024,
     pp_minimum_free_space_bytes = 0, require_secure_boot_fact = True\<rparr>"

section \<open>Issues and their order\<close>

datatype preflight_issue =
    StorageLayoutUnknown | RootNotWritable | HomeNotIsolated | InsufficientBootSpace
  | InsufficientEspSpace | UnsupportedEdition | UnsupportedArchitecture | RootNotBtrfs
  | SnapperUnavailable | RpmDatabaseUnhealthy | PackageManagerBusy | InsufficientSpace
  | BatteryTooLow | BatteryStateUnknown | SecureBootStateUnknown
  | RepositoryMetadataInvalid string | RepositoryKeyUntrusted string
  | UnsupportedSolverSchema | SolverFailed
  | UnauthorizedDowngrade string | UnauthorizedRemoval string | UnauthorizedVendorChange string
  | LockstepViolation

text \<open>The derived order: the position of the variant, then its payload.\<close>

fun issue_key :: "preflight_issue \<Rightarrow> nat \<times> string" where
  "issue_key StorageLayoutUnknown = (0, [])"
| "issue_key RootNotWritable = (1, [])"
| "issue_key HomeNotIsolated = (2, [])"
| "issue_key InsufficientBootSpace = (3, [])"
| "issue_key InsufficientEspSpace = (4, [])"
| "issue_key UnsupportedEdition = (5, [])"
| "issue_key UnsupportedArchitecture = (6, [])"
| "issue_key RootNotBtrfs = (7, [])"
| "issue_key SnapperUnavailable = (8, [])"
| "issue_key RpmDatabaseUnhealthy = (9, [])"
| "issue_key PackageManagerBusy = (10, [])"
| "issue_key InsufficientSpace = (11, [])"
| "issue_key BatteryTooLow = (12, [])"
| "issue_key BatteryStateUnknown = (13, [])"
| "issue_key SecureBootStateUnknown = (14, [])"
| "issue_key (RepositoryMetadataInvalid a) = (15, a)"
| "issue_key (RepositoryKeyUntrusted a) = (16, a)"
| "issue_key UnsupportedSolverSchema = (17, [])"
| "issue_key SolverFailed = (18, [])"
| "issue_key (UnauthorizedDowngrade p) = (19, p)"
| "issue_key (UnauthorizedRemoval p) = (20, p)"
| "issue_key (UnauthorizedVendorChange p) = (21, p)"
| "issue_key LockstepViolation = (22, [])"

lemma issue_key_inj: "issue_key a = issue_key b \<Longrightarrow> a = b"
  by (cases a; cases b) simp_all

instantiation preflight_issue :: linorder
begin

definition less_eq_preflight_issue :: "preflight_issue \<Rightarrow> preflight_issue \<Rightarrow> bool" where
  "less_eq_preflight_issue a b = (issue_key a \<le> issue_key b)"

definition less_preflight_issue :: "preflight_issue \<Rightarrow> preflight_issue \<Rightarrow> bool" where
  "less_preflight_issue a b = (issue_key a < issue_key b)"

instance
  by standard (auto simp: less_eq_preflight_issue_def less_preflight_issue_def
      intro: issue_key_inj)

end

record preflight_report =
  pr_required_bytes :: u64
  pr_available_bytes :: u64
  pr_blockers :: "preflight_issue list"
  pr_third_party_repositories :: "string list"
  pr_held_packages :: "string list"
  pr_orphaned_packages :: "string list"

definition passed :: "preflight_report \<Rightarrow> bool" where
  "passed r = (pr_blockers r = [])"

section \<open>Evaluation\<close>

definition push_if :: "bool \<Rightarrow> 'a \<Rightarrow> 'a list" where
  "push_if b x = (if b then [x] else [])"

lemma set_push_if [simp]: "set (push_if b x) = (if b then {x} else {})"
  by (cases b) (simp_all add: push_if_def)

lemma push_if_Nil_iff [simp]: "(push_if b x = []) = (\<not> b)"
  by (simp add: push_if_def)

definition storage_blockers :: "storage_facts option \<Rightarrow> preflight_issue list" where
  "storage_blockers storage = (case storage of
      None \<Rightarrow> [StorageLayoutUnknown]
    | Some s \<Rightarrow> push_if (\<not> root_writable s) RootNotWritable
        @ push_if (\<not> home_isolated s) HomeNotIsolated
        @ push_if (boot_available_bytes s < 256 * 1024 * 1024) InsufficientBootSpace
        @ push_if (is_some_and (esp_available_bytes s) (\<lambda>bytes. bytes < 32 * 1024 * 1024))
            InsufficientEspSpace)"

definition battery_blockers :: "host_facts \<Rightarrow> preflight_policy \<Rightarrow> preflight_issue list" where
  "battery_blockers facts policy =
     (if on_battery facts then
        (case battery_percent facts of
           Some percent \<Rightarrow> push_if (percent < minimum_battery_percent policy) BatteryTooLow
         | None \<Rightarrow> [BatteryStateUnknown])
      else [])"

definition repository_blockers :: "repository_fact \<Rightarrow> preflight_issue list" where
  "repository_blockers r =
     push_if (\<not> rf_metadata_valid r) (RepositoryMetadataInvalid (rf_alias r))
     @ push_if (\<not> rf_signing_key_trusted r) (RepositoryKeyUntrusted (rf_alias r))"

definition required_bytes_of :: "host_facts \<Rightarrow> preflight_policy \<Rightarrow> u64" where
  "required_bytes_of facts policy =
     max (sat_add (sat_add (sat_add (required_download_bytes facts) (required_transaction_bytes facts))
            (required_snapshot_bytes facts)) (free_space_margin_bytes policy))
         (pp_minimum_free_space_bytes policy)"

definition raw_blockers :: "host_facts \<Rightarrow> preflight_policy \<Rightarrow> preflight_issue list" where
  "raw_blockers facts policy =
     storage_blockers (hf_storage facts)
     @ push_if (ri_edition (hf_release facts) \<noteq> ''desktop'') UnsupportedEdition
     @ push_if (ri_architecture (hf_release facts) \<noteq> ''x86_64'') UnsupportedArchitecture
     @ push_if (root_filesystem facts \<noteq> ''btrfs'') RootNotBtrfs
     @ push_if (\<not> snapper_root_configured facts) SnapperUnavailable
     @ push_if (\<not> rpm_database_healthy facts) RpmDatabaseUnhealthy
     @ push_if (\<not> package_lock_free facts) PackageManagerBusy
     @ push_if (hf_available_bytes facts < required_bytes_of facts policy) InsufficientSpace
     @ battery_blockers facts policy
     @ push_if (require_secure_boot_fact policy \<and> secure_boot_enabled facts = None)
         SecureBootStateUnknown
     @ concat (map repository_blockers (filter rf_enabled (hf_repositories facts)))"

definition evaluate_preflight :: "host_facts \<Rightarrow> preflight_policy \<Rightarrow> preflight_report" where
  "evaluate_preflight facts policy =
     \<lparr>pr_required_bytes = required_bytes_of facts policy,
      pr_available_bytes = hf_available_bytes facts,
      pr_blockers = sort_dedup (raw_blockers facts policy),
      pr_third_party_repositories = sort_dedup
        (map rf_alias (filter (\<lambda>r. \<not> rf_official r) (filter rf_enabled (hf_repositories facts)))),
      pr_held_packages = sort_dedup (hf_held_packages facts),
      pr_orphaned_packages = sort_dedup (hf_orphaned_packages facts)\<rparr>"

section \<open>Package changes and the solver's result\<close>

datatype package_action = Install | Upgrade | Downgrade | Remove | Reinstall

fun action_key :: "package_action \<Rightarrow> nat" where
  "action_key Install = 0"
| "action_key Upgrade = 1"
| "action_key Downgrade = 2"
| "action_key Remove = 3"
| "action_key Reinstall = 4"

instantiation package_action :: linorder
begin

definition less_eq_package_action :: "package_action \<Rightarrow> package_action \<Rightarrow> bool" where
  "less_eq_package_action a b = (action_key a \<le> action_key b)"

definition less_package_action :: "package_action \<Rightarrow> package_action \<Rightarrow> bool" where
  "less_package_action a b = (action_key a < action_key b)"

instance
proof
  fix x y :: package_action
  assume "x \<le> y" "y \<le> x"
  then show "x = y" by (cases x; cases y) (simp_all add: less_eq_package_action_def)
qed (auto simp: less_eq_package_action_def less_package_action_def)

end

record package_change =
  pc_name :: string
  pc_architecture :: string
  pc_action :: package_action
  current_version :: "string option"
  proposed_version :: "string option"
  current_vendor :: "string option"
  proposed_vendor :: "string option"
  pc_repository_alias :: "string option"
  pc_download_bytes :: u64
  installed_size_before :: u64
  installed_size_after :: u64

record solver_result =
  sr_schema_version :: u32
  successful :: bool
  problems :: "string list"
  sr_metadata_valid_repositories :: "string list"
  changes :: "package_change list"
  sr_download_bytes :: u64
  transaction_size_increase :: u64
  estimated_snapshot_bytes :: u64
  sr_reboot_required :: bool

text \<open>The derived orders of the two structures: their fields, lexicographically.\<close>

definition package_key :: "installed_package \<Rightarrow> string \<times> string \<times> string \<times> string" where
  "package_key p = (ip_name p, ip_version p, ip_architecture p, ip_vendor p)"

definition change_key :: "package_change \<Rightarrow>
    string \<times> string \<times> package_action \<times> string option \<times> string option \<times> string option \<times>
    string option \<times> string option \<times> u64 \<times> u64 \<times> u64" where
  "change_key c = (pc_name c, pc_architecture c, pc_action c, current_version c, proposed_version c,
     current_vendor c, proposed_vendor c, pc_repository_alias c, pc_download_bytes c,
     installed_size_before c, installed_size_after c)"

lemma package_key_inj: "inj package_key"
  by (rule injI) (simp add: package_key_def installed_package.equality)

lemma change_key_inj: "inj change_key"
  by (rule injI) (simp add: change_key_def package_change.equality)

section \<open>The plan\<close>

record upgrade_plan =
  pl_schema_version :: u32
  pl_operation :: operation_kind
  pl_source :: release_identity
  pl_target :: "release_identity option"
  pl_manifest_sha256 :: "string option"
  pl_required_bytes :: u64
  pl_facts :: "(string \<times> string) list"
  pl_repositories :: "repository_fact list"
  pl_metadata_valid_repositories :: "string list"
  pl_third_party_repositories :: "string list"
  pl_held_packages :: "string list"
  pl_installed_packages :: "installed_package list"
  pl_orphaned_packages :: "string list"
  package_changes :: "package_change list"
  pl_reboot_required :: bool

definition PLAN_SCHEMA_VERSION :: u32 where
  "PLAN_SCHEMA_VERSION = 3"

datatype plan_error = PlanBlocked "preflight_issue list" | TargetRequired | ManifestRequired | TargetNotAllowed

definition is_sha256 :: "string \<Rightarrow> bool" where
  "is_sha256 value = (length value = 64 \<and> list_all lower_hex value)"

text \<open>The checks of \<open>build_plan\<close> on target and manifest digest, in their order.\<close>

definition check_plan_shape :: "operation_kind \<Rightarrow> host_facts \<Rightarrow> release_identity option \<Rightarrow>
    string option \<Rightarrow> plan_error + unit" where
  "check_plan_shape k facts target manifest_sha256 =
     (if is_signed_offline k then
        (case target of
           None \<Rightarrow> Inl TargetRequired
         | Some t \<Rightarrow>
             if ri_edition t \<noteq> ri_edition (hf_release facts)
                \<or> ri_architecture t \<noteq> ri_architecture (hf_release facts)
                \<or> (k = ReleaseUpgrade \<and> ri_version t = ri_version (hf_release facts))
                \<or> (k = PackageMigration \<and> t \<noteq> hf_release facts)
             then Inl TargetNotAllowed
             else if is_none_or manifest_sha256 (\<lambda>h. \<not> is_sha256 h) then Inl ManifestRequired
             else Inr ())
      else if target \<noteq> None \<or> manifest_sha256 \<noteq> None then Inl TargetNotAllowed
      else Inr ())"

definition secure_boot_text :: "bool option \<Rightarrow> string" where
  "secure_boot_text b = (case b of None \<Rightarrow> ''unknown'' | Some True \<Rightarrow> ''true'' | Some False \<Rightarrow> ''false'')"

definition build_plan :: "operation_kind \<Rightarrow> host_facts \<Rightarrow> preflight_report \<Rightarrow> release_identity option \<Rightarrow>
    string option \<Rightarrow> solver_result \<Rightarrow> plan_error + upgrade_plan" where
  "build_plan k facts report target manifest_sha256 solver =
     (if \<not> passed report then Inl (PlanBlocked (pr_blockers report))
      else rbind (check_plan_shape k facts target manifest_sha256) (\<lambda>_.
        Inr \<lparr>pl_schema_version = PLAN_SCHEMA_VERSION,
             pl_operation = k,
             pl_source = hf_release facts,
             pl_target = target,
             pl_manifest_sha256 = manifest_sha256,
             pl_required_bytes = pr_required_bytes report,
             pl_facts = [(''root_filesystem'', root_filesystem facts),
                         (''secure_boot'', secure_boot_text (secure_boot_enabled facts))],
             pl_repositories = sort_key rf_alias (hf_repositories facts),
             pl_metadata_valid_repositories = sort_dedup (sr_metadata_valid_repositories solver),
             pl_third_party_repositories = pr_third_party_repositories report,
             pl_held_packages = pr_held_packages report,
             pl_installed_packages = sort_key package_key (hf_installed_packages facts),
             pl_orphaned_packages = pr_orphaned_packages report,
             package_changes = sort_key change_key (changes solver),
             pl_reboot_required = (sr_reboot_required solver \<or> is_signed_offline k)\<rparr>))"

section \<open>Lemmas\<close>

text \<open>What a host must satisfy, said without the evaluation.\<close>

definition storage_ok :: "storage_facts option \<Rightarrow> bool" where
  "storage_ok storage = (\<exists>s. storage = Some s \<and> root_writable s \<and> home_isolated s \<and>
     256 * 1024 * 1024 \<le> boot_available_bytes s \<and>
     (\<forall>b. esp_available_bytes s = Some b \<longrightarrow> 32 * 1024 * 1024 \<le> b))"

definition power_ok :: "host_facts \<Rightarrow> preflight_policy \<Rightarrow> bool" where
  "power_ok facts policy = (on_battery facts \<longrightarrow>
     (\<exists>p. battery_percent facts = Some p \<and> minimum_battery_percent policy \<le> p))"

definition repositories_ok :: "host_facts \<Rightarrow> bool" where
  "repositories_ok facts = (\<forall>r\<in>set (hf_repositories facts). rf_enabled r \<longrightarrow>
     rf_metadata_valid r \<and> rf_signing_key_trusted r)"

definition host_ready :: "host_facts \<Rightarrow> preflight_policy \<Rightarrow> bool" where
  "host_ready facts policy =
     (storage_ok (hf_storage facts) \<and> is_supported_desktop (hf_release facts) \<and>
      root_filesystem facts = ''btrfs'' \<and> snapper_root_configured facts \<and>
      rpm_database_healthy facts \<and> package_lock_free facts \<and>
      required_bytes_of facts policy \<le> hf_available_bytes facts \<and> power_ok facts policy \<and>
      (require_secure_boot_fact policy \<longrightarrow> secure_boot_enabled facts \<noteq> None) \<and>
      repositories_ok facts)"

lemma storage_blockers_Nil: "(storage_blockers st = []) = storage_ok st"
  by (cases st; cases "esp_available_bytes (the st)")
    (auto simp: storage_blockers_def storage_ok_def not_less)

lemma battery_blockers_Nil: "(battery_blockers facts policy = []) = power_ok facts policy"
  by (cases "battery_percent facts") (auto simp: battery_blockers_def power_ok_def not_less)

lemma repository_blockers_Nil:
  "(repository_blockers r = []) = (rf_metadata_valid r \<and> rf_signing_key_trusted r)"
  by (simp add: repository_blockers_def)

lemma raw_blockers_Nil: "(raw_blockers facts policy = []) = host_ready facts policy"
  unfolding raw_blockers_def host_ready_def
  by (auto simp: storage_blockers_Nil battery_blockers_Nil repository_blockers_Nil
      is_supported_desktop_def repositories_ok_def not_less)

lemma preflight_passed_ready: "passed (evaluate_preflight facts policy) = host_ready facts policy"
  by (simp add: passed_def evaluate_preflight_def raw_blockers_Nil)

lemma evaluate_preflight_blockers:
  "set (pr_blockers (evaluate_preflight facts policy)) = set (raw_blockers facts policy)"
  by (simp add: evaluate_preflight_def)

lemma unat_required_bytes:
  "unat (required_bytes_of facts policy) =
     max (min (unat (required_download_bytes facts) + unat (required_transaction_bytes facts)
               + unat (required_snapshot_bytes facts) + unat (free_space_margin_bytes policy))
              (2 ^ 64 - 1))
         (unat (pp_minimum_free_space_bytes policy))"
proof -
  have m: "unat (max a b) = max (unat a) (unat b)" for a b :: u64
    by (simp add: max_def word_le_nat_alt)
  show ?thesis by (simp add: required_bytes_of_def m sat_simps min_def)
qed

lemma build_plan_Inr_iff [result_simps]:
  "(build_plan k facts report target mh solver = Inr p) =
     (passed report \<and> check_plan_shape k facts target mh = Inr () \<and>
      p = \<lparr>pl_schema_version = PLAN_SCHEMA_VERSION, pl_operation = k, pl_source = hf_release facts,
           pl_target = target, pl_manifest_sha256 = mh, pl_required_bytes = pr_required_bytes report,
           pl_facts = [(''root_filesystem'', root_filesystem facts),
                       (''secure_boot'', secure_boot_text (secure_boot_enabled facts))],
           pl_repositories = sort_key rf_alias (hf_repositories facts),
           pl_metadata_valid_repositories = sort_dedup (sr_metadata_valid_repositories solver),
           pl_third_party_repositories = pr_third_party_repositories report,
           pl_held_packages = pr_held_packages report,
           pl_installed_packages = sort_key package_key (hf_installed_packages facts),
           pl_orphaned_packages = pr_orphaned_packages report,
           package_changes = sort_key change_key (changes solver),
           pl_reboot_required = (sr_reboot_required solver \<or> is_signed_offline k)\<rparr>)"
  unfolding build_plan_def by (cases "check_plan_shape k facts target mh") auto

text \<open>Two descriptions of the same host, whose lists arrived in another order.\<close>

definition same_host :: "host_facts \<Rightarrow> host_facts \<Rightarrow> bool" where
  "same_host f g = (\<exists>repos held installed orphans.
     g = f\<lparr>hf_repositories := repos, hf_held_packages := held,
           hf_installed_packages := installed, hf_orphaned_packages := orphans\<rparr> \<and>
     mset repos = mset (hf_repositories f) \<and> set held = set (hf_held_packages f) \<and>
     mset installed = mset (hf_installed_packages f) \<and> set orphans = set (hf_orphaned_packages f))"

definition same_solution :: "solver_result \<Rightarrow> solver_result \<Rightarrow> bool" where
  "same_solution s t = (\<exists>cs repos. t = s\<lparr>changes := cs, sr_metadata_valid_repositories := repos\<rparr> \<and>
     mset cs = mset (changes s) \<and> set repos = set (sr_metadata_valid_repositories s))"

lemma evaluate_preflight_same_host:
  assumes "same_host f g"
  shows "evaluate_preflight g policy = evaluate_preflight f policy"
proof -
  obtain repos held installed orphans where
    g: "g = f\<lparr>hf_repositories := repos, hf_held_packages := held,
           hf_installed_packages := installed, hf_orphaned_packages := orphans\<rparr>"
    and repos: "mset repos = mset (hf_repositories f)"
    and held: "set held = set (hf_held_packages f)"
    and orphans: "set orphans = set (hf_orphaned_packages f)"
    using assms by (auto simp: same_host_def)
  from repos have rset: "set repos = set (hf_repositories f)" by (rule mset_eq_setD)
  have "set (raw_blockers g policy) = set (raw_blockers f policy)"
    by (simp add: raw_blockers_def g battery_blockers_def required_bytes_of_def rset)
  moreover have "required_bytes_of g policy = required_bytes_of f policy"
    by (simp add: required_bytes_of_def g)
  ultimately show ?thesis
    using rset held orphans
    by (auto simp: evaluate_preflight_def g intro!: sort_dedup_cong)
qed

lemma build_plan_same:
  assumes host: "same_host f g" and sol: "same_solution s t"
    and aliases: "distinct (map rf_alias (hf_repositories f))"
  shows "build_plan k g report target mh t = build_plan k f report target mh s"
proof -
  obtain repos held installed orphans where
    g: "g = f\<lparr>hf_repositories := repos, hf_held_packages := held,
           hf_installed_packages := installed, hf_orphaned_packages := orphans\<rparr>"
    and repos: "mset repos = mset (hf_repositories f)"
    and installed: "mset installed = mset (hf_installed_packages f)"
    using host by (auto simp: same_host_def)
  obtain cs ms where t: "t = s\<lparr>changes := cs, sr_metadata_valid_repositories := ms\<rparr>"
    and cs: "mset cs = mset (changes s)" and ms: "set ms = set (sr_metadata_valid_repositories s)"
    using sol by (auto simp: same_solution_def)
  have "inj_on rf_alias (set (hf_repositories f))"
    using aliases by (simp add: distinct_map)
  then have 1: "sort_key rf_alias repos = sort_key rf_alias (hf_repositories f)"
    using repos by (metis sort_key_order_irrelevant)
  have 2: "sort_key package_key installed = sort_key package_key (hf_installed_packages f)"
    using installed by (rule sort_key_order_irrelevant) (rule inj_on_subset [OF package_key_inj], simp)
  have 3: "sort_key change_key cs = sort_key change_key (changes s)"
    using cs by (rule sort_key_order_irrelevant) (rule inj_on_subset [OF change_key_inj], simp)
  have 4: "sort_dedup ms = sort_dedup (sr_metadata_valid_repositories s)"
    using ms by (rule sort_dedup_cong)
  have 5: "check_plan_shape k g target mh = check_plan_shape k f target mh"
    by (cases target) (simp_all add: check_plan_shape_def g)
  show ?thesis using 1 2 3 4 5 by (simp add: build_plan_def g t)
qed

section \<open>Properties\<close>

text \<open>
  The host preflight passes exactly for a host that is ready: known, writable and isolated
  storage with room on \<open>/boot\<close> and the ESP, the supported edition and architecture, Btrfs with
  Snapper, a healthy and free package database, enough space, power, a known Secure Boot state
  where the policy asks for one, and valid, trusted metadata in every enabled repository.
\<close>

theorem preflight_passes_iff: "passed (evaluate_preflight facts policy) = host_ready facts policy"
  by (rule preflight_passed_ready)

text \<open>
  C18: The space check is exact arithmetic: the required bytes saturate instead of wrapping around,
  so a host that passes really has room for the download, the installed files, the snapshot and the
  margin together, unless it reports the largest number a \<open>u64\<close> can hold; and it has the minimum.
\<close>

theorem passed_preflight_has_space:
  assumes "passed (evaluate_preflight facts policy)"
  shows "(unat (required_download_bytes facts) + unat (required_transaction_bytes facts)
      + unat (required_snapshot_bytes facts) + unat (free_space_margin_bytes policy)
      \<le> unat (hf_available_bytes facts) \<or> unat (hf_available_bytes facts) = 2 ^ 64 - 1) \<and>
    unat (pp_minimum_free_space_bytes policy) \<le> unat (hf_available_bytes facts)"
proof -
  let ?sum = "unat (required_download_bytes facts) + unat (required_transaction_bytes facts)
      + unat (required_snapshot_bytes facts) + unat (free_space_margin_bytes policy)"
  have "required_bytes_of facts policy \<le> hf_available_bytes facts"
    using assms by (simp add: preflight_passed_ready host_ready_def)
  then have le: "max (min ?sum (2 ^ 64 - 1)) (unat (pp_minimum_free_space_bytes policy)) \<le> unat (hf_available_bytes facts)"
    by (simp only: word_le_nat_alt unat_required_bytes)
  have "unat (hf_available_bytes facts) < 2 ^ 64" using unsigned_less [of "hf_available_bytes facts", where 'a = nat] by simp
  with le have "?sum \<le> unat (hf_available_bytes facts) \<or> unat (hf_available_bytes facts) = 2 ^ 64 - 1"
    by (auto simp: min_def split: if_splits)
  with le show ?thesis by simp
qed

definition example_facts :: host_facts where
  "example_facts = \<lparr>hf_release = example_release, root_filesystem = ''btrfs'', snapper_root_configured = True,
     rpm_database_healthy = True, package_lock_free = True, hf_available_bytes = 20000000000,
     required_download_bytes = 1000, required_transaction_bytes = 2000, required_snapshot_bytes = 3000,
     on_battery = True, battery_percent = Some 80, secure_boot_enabled = Some True,
     hf_repositories = [\<lparr>rf_alias = ''oss'', rf_enabled = True, rf_official = True, rf_metadata_valid = True,
       rf_signing_key_trusted = True\<rparr>, \<lparr>rf_alias = ''extra'', rf_enabled = True, rf_official = False,
       rf_metadata_valid = True, rf_signing_key_trusted = True\<rparr>],
     hf_held_packages = [''b'', ''a''], hf_installed_packages = [],
     hf_storage = Some \<lparr>root_writable = True, home_isolated = True, boot_available_bytes = 1000000000,
       esp_available_bytes = Some 100000000\<rparr>, hf_orphaned_packages = []\<rparr>"

lemma example_facts_ready: "host_ready example_facts default_policy"
  unfolding raw_blockers_Nil [symmetric] by code_simp

theorem passed_preflight_has_space_witness:
  "passed (evaluate_preflight example_facts default_policy) \<and>
   unat (pp_minimum_free_space_bytes default_policy) \<le> unat (hf_available_bytes example_facts)"
proof -
  have "passed (evaluate_preflight example_facts default_policy)"
    using example_facts_ready by (simp add: preflight_passed_ready)
  with passed_preflight_has_space [OF this] show ?thesis by simp
qed

text \<open>
  The plan does not depend on the order in which the host reports repositories, packages and
  holds or the solver its changes: the same facts in another order give the same report and the
  same plan, whose digest the user confirms.
\<close>

theorem plan_independent_of_order:
  assumes "same_host f g" and "same_solution s t" and "distinct (map rf_alias (hf_repositories f))"
  shows "evaluate_preflight g policy = evaluate_preflight f policy \<and>
    build_plan k g (evaluate_preflight g policy) target mh t = build_plan k f (evaluate_preflight f policy) target mh s"
  using evaluate_preflight_same_host [OF assms(1)] build_plan_same [OF assms] by simp_all

definition example_solution :: solver_result where
  "example_solution = \<lparr>sr_schema_version = 1, successful = True, problems = [],
     sr_metadata_valid_repositories = [''oss'', ''extra''], changes = [], sr_download_bytes = 1000,
     transaction_size_increase = 2000, estimated_snapshot_bytes = 3000, sr_reboot_required = False\<rparr>"

theorem plan_independent_of_order_witness:
  "evaluate_preflight (example_facts\<lparr>hf_held_packages := [''a'', ''b'']\<rparr>) default_policy =
   evaluate_preflight example_facts default_policy"
proof (rule plan_independent_of_order [THEN conjunct1])
  show "same_host example_facts (example_facts\<lparr>hf_held_packages := [''a'', ''b'']\<rparr>)"
    unfolding same_host_def
    by (intro exI [of _ "hf_repositories example_facts"] exI [of _ "[''a'', ''b'']"] exI [of _ "[]"])
      (auto simp: example_facts_def)
  show "same_solution example_solution example_solution"
    unfolding same_solution_def
    by (intro exI [of _ "changes example_solution"] exI [of _ "sr_metadata_valid_repositories example_solution"]) simp
  show "distinct (map rf_alias (hf_repositories example_facts))" by (simp add: example_facts_def)
qed

text \<open>
  A plan exists only for a host that passed, and it has the shape its kind demands: an update
  has neither target nor manifest digest, a release upgrade moves to another version of the same
  edition and architecture, a package migration stays on the very same release, and both carry a
  SHA-256 manifest digest and require a reboot.
\<close>

theorem plan_shape:
  assumes "build_plan k facts report target mh solver = Inr p"
  shows "passed report \<and> pl_source p = hf_release facts \<and>
    (case k of
       UpdateWithinRelease \<Rightarrow> pl_target p = None \<and> pl_manifest_sha256 p = None
     | ReleaseUpgrade \<Rightarrow> (\<exists>t h. pl_target p = Some t \<and> pl_manifest_sha256 p = Some h \<and> is_sha256 h \<and>
         ri_version t \<noteq> ri_version (pl_source p) \<and> ri_edition t = ri_edition (pl_source p) \<and>
         ri_architecture t = ri_architecture (pl_source p) \<and> pl_reboot_required p)
     | PackageMigration \<Rightarrow> (\<exists>h. pl_target p = Some (pl_source p) \<and> pl_manifest_sha256 p = Some h \<and>
         is_sha256 h \<and> pl_reboot_required p))"
proof -
  from assms have p: "passed report" "check_plan_shape k facts target mh = Inr ()"
    "pl_source p = hf_release facts" "pl_target p = target" "pl_manifest_sha256 p = mh"
    "k \<noteq> UpdateWithinRelease \<Longrightarrow> pl_reboot_required p"
    by (auto simp: build_plan_Inr_iff)
  from p(2) p(1,3-6) show ?thesis
    by (cases k; cases target; cases mh) (auto simp: check_plan_shape_def split: if_splits)
qed

theorem plan_shape_witness:
  "\<exists>p. build_plan UpdateWithinRelease example_facts (evaluate_preflight example_facts default_policy) None None
     example_solution = Inr p \<and> pl_target p = None"
proof -
  have "\<exists>p. build_plan UpdateWithinRelease example_facts (evaluate_preflight example_facts default_policy) None None
     example_solution = Inr p"
    unfolding build_plan_Inr_iff using example_facts_ready by (simp add: preflight_passed_ready check_plan_shape_def)
  then show ?thesis using plan_shape by fastforce
qed

end
