(* ===== verification/Solver.thy ===== *)
theory Solver
  imports Preflight
begin

text \<open>
  \<open>core/src/solver.rs\<close> and the name check of \<open>core/src/manifest.rs\<close> it calls: which vendors and
  vendor transitions are acceptable, and the evaluation of a solver result on top of the host
  preflight.
\<close>

section \<open>Vendors and transitions\<close>

definition valid_package :: "string \<Rightarrow> bool" where
  "valid_package value = (value \<noteq> [] \<and>
     list_all (\<lambda>c. is_ascii_alphanumeric c \<or> c \<in> {CHR ''+'', CHR ''.'', CHR ''-'', CHR ''_''}) value)"

definition valid_vendor :: "string \<Rightarrow> bool" where
  "valid_vendor value = (trim value \<noteq> [] \<and> length value \<le> 512 \<and>
     \<not> list_ex is_control (chars value))"

record vendor_transition =
  vt_from :: string
  vt_to :: string
  vt_packages :: "string list option"

record solver_policy =
  sp_allowed_removals :: "string list"
  sp_allowed_vendor_transitions :: "vendor_transition list"
  sp_lockstep_packages :: "string list list"

definition default_solver_policy :: solver_policy where
  "default_solver_policy = \<lparr>sp_allowed_removals = [], sp_allowed_vendor_transitions = [],
     sp_lockstep_packages = []\<rparr>"

text \<open>
  The scan of \<open>valid_vendor_transitions\<close> keeps, for every pair of vendors seen so far, whether
  the last rule for it was restricted to packages; \<open>all\<close> stops at the first rule it refuses.
\<close>

definition valid_scope :: "string list option \<Rightarrow> bool" where
  "valid_scope packages = is_none_or packages (\<lambda>ps.
     ps \<noteq> [] \<and> length (remdups ps) = length ps \<and> list_all valid_package ps)"

fun scan_transitions :: "(string \<times> string \<rightharpoonup> bool) \<Rightarrow> vendor_transition list \<Rightarrow> bool" where
  "scan_transitions pairs [] = True"
| "scan_transitions pairs (rule # rules) =
     (if \<not> valid_vendor (vt_from rule) \<or> \<not> valid_vendor (vt_to rule) then False
      else if \<not> valid_scope (vt_packages rule) then False
      else let scoped = (vt_packages rule \<noteq> None); pair = (vt_from rule, vt_to rule)
        in is_none_or (pairs pair) (\<lambda>previous. previous = scoped)
           \<and> scan_transitions (pairs(pair \<mapsto> scoped)) rules)"

definition valid_vendor_transitions :: "vendor_transition list \<Rightarrow> bool" where
  "valid_vendor_transitions rules = scan_transitions Map.empty rules"

definition transition_allowed :: "solver_policy \<Rightarrow> string \<Rightarrow> string \<Rightarrow> string \<Rightarrow> bool" where
  "transition_allowed policy from to package =
     list_ex (\<lambda>allowed. vt_from allowed = from \<and> vt_to allowed = to \<and>
        is_none_or (vt_packages allowed) (\<lambda>packages. package \<in> set packages))
       (sp_allowed_vendor_transitions policy)"

definition vendor_permitted :: "solver_policy \<Rightarrow> bool \<Rightarrow> package_change \<Rightarrow> bool" where
  "vendor_permitted policy valid_rules change =
     (let from = opt_filter valid_vendor (current_vendor change);
          to = opt_filter valid_vendor (proposed_vendor change)
      in case pc_action change of
           Install \<Rightarrow> from = None \<and> current_vendor change = None \<and> to \<noteq> None
         | Remove \<Rightarrow> from \<noteq> None \<and> proposed_vendor change = None
         | _ \<Rightarrow> (case (from, to) of
               (Some f, Some t) \<Rightarrow> f = t \<or> (valid_rules \<and> transition_allowed policy f t (pc_name change))
             | _ \<Rightarrow> False))"

definition vendor_policy_blockers :: "package_change list \<Rightarrow> solver_policy \<Rightarrow> preflight_issue list" where
  "vendor_policy_blockers cs policy =
     (let valid_rules = valid_vendor_transitions (sp_allowed_vendor_transitions policy)
      in map (\<lambda>c. UnauthorizedVendorChange (pc_name c))
           (filter (\<lambda>c. \<not> vendor_permitted policy valid_rules c) cs))"

section \<open>Evaluation of a solver result\<close>

definition enrich_repository :: "solver_result \<Rightarrow> repository_fact \<Rightarrow> repository_fact" where
  "enrich_repository solver r =
     (if rf_enabled r
      then r\<lparr>rf_metadata_valid := (rf_alias r \<in> set (sr_metadata_valid_repositories solver))\<rparr> else r)"

definition enrich_facts :: "host_facts \<Rightarrow> solver_result \<Rightarrow> host_facts" where
  "enrich_facts facts solver =
     facts\<lparr>hf_repositories := map (enrich_repository solver) (hf_repositories facts),
           required_download_bytes := sr_download_bytes solver,
           required_transaction_bytes := transaction_size_increase solver,
           required_snapshot_bytes := estimated_snapshot_bytes solver\<rparr>"

definition change_blockers :: "solver_policy \<Rightarrow> package_change \<Rightarrow> preflight_issue list" where
  "change_blockers policy change =
     push_if (pc_action change = Downgrade) (UnauthorizedDowngrade (pc_name change))
     @ push_if (pc_action change = Remove \<and> pc_name change \<notin> set (sp_allowed_removals policy))
         (UnauthorizedRemoval (pc_name change))"

definition lockstep_blockers :: "solver_result \<Rightarrow> string list \<Rightarrow> preflight_issue list" where
  "lockstep_blockers solver grp =
     (let changed = filter (\<lambda>package. list_ex (\<lambda>change. pc_name change = package) (changes solver)) grp
      in push_if (changed \<noteq> [] \<and> length changed \<noteq> length grp) LockstepViolation)"

definition evaluate_solver_preflight ::
  "host_facts \<Rightarrow> preflight_policy \<Rightarrow> solver_result \<Rightarrow> solver_policy \<Rightarrow> preflight_report" where
  "evaluate_solver_preflight facts preflight_policy solver solver_policy =
     (let report = evaluate_preflight (enrich_facts facts solver) preflight_policy
      in report\<lparr>pr_blockers := sort_dedup (pr_blockers report
          @ push_if (sr_schema_version solver \<noteq> 1) UnsupportedSolverSchema
          @ push_if (\<not> successful solver \<or> problems solver \<noteq> []) SolverFailed
          @ concat (map (change_blockers solver_policy) (changes solver))
          @ vendor_policy_blockers (changes solver) solver_policy
          @ concat (map (lockstep_blockers solver) (sp_lockstep_packages solver_policy)))\<rparr>)"

section \<open>Lemmas\<close>

lemma filter_all_length: "(length (filter P xs) = length xs) = (\<forall>x\<in>set xs. P x)"
  by (metis filter_True filter_id_conv length_filter_less less_irrefl)

lemma valid_scope_iff:
  "valid_scope (Some ps) = (ps \<noteq> [] \<and> distinct ps \<and> list_all valid_package ps)"
  using length_remdups_eq [of ps] by (auto simp: valid_scope_def)

text \<open>
  The accepted rule lists, without the scan: every rule is well formed, and no pair of vendors
  has both a rule for all packages and a rule restricted to some.
\<close>

definition same_pair_agrees :: "vendor_transition \<Rightarrow> vendor_transition \<Rightarrow> bool" where
  "same_pair_agrees r r' = ((vt_from r, vt_to r) = (vt_from r', vt_to r') \<longrightarrow>
     (vt_packages r \<noteq> None) = (vt_packages r' \<noteq> None))"

definition rules_agree :: "vendor_transition list \<Rightarrow> bool" where
  "rules_agree rules = (\<forall>r\<in>set rules. \<forall>r'\<in>set rules. same_pair_agrees r r')"

definition rule_wf :: "vendor_transition \<Rightarrow> bool" where
  "rule_wf r = (valid_vendor (vt_from r) \<and> valid_vendor (vt_to r) \<and> valid_scope (vt_packages r))"

definition pair_agrees :: "(string \<times> string \<rightharpoonup> bool) \<Rightarrow> vendor_transition \<Rightarrow> bool" where
  "pair_agrees pairs r = is_none_or (pairs (vt_from r, vt_to r)) (\<lambda>b. b = (vt_packages r \<noteq> None))"

lemma same_pair_agrees_refl: "same_pair_agrees r r"
  by (simp add: same_pair_agrees_def)

lemma same_pair_agrees_sym: "same_pair_agrees r r' \<Longrightarrow> same_pair_agrees r' r"
  by (simp add: same_pair_agrees_def)

lemma rules_agree_Cons:
  "rules_agree (r # rules) = (rules_agree rules \<and> (\<forall>r'\<in>set rules. same_pair_agrees r r'))"
  by (auto simp: rules_agree_def same_pair_agrees_refl dest: same_pair_agrees_sym)

lemma pair_agrees_update:
  assumes "pair_agrees pairs r"
  shows "pair_agrees (pairs((vt_from r, vt_to r) \<mapsto> (vt_packages r \<noteq> None))) r' =
     (pair_agrees pairs r' \<and> same_pair_agrees r r')"
proof (cases "(vt_from r, vt_to r) = (vt_from r', vt_to r')")
  case True
  with assms show ?thesis
    by (cases "pairs (vt_from r', vt_to r')") (auto simp: pair_agrees_def same_pair_agrees_def)
next
  case False
  then show ?thesis by (auto simp: pair_agrees_def same_pair_agrees_def)
qed

lemma scan_transitions_Cons:
  "scan_transitions pairs (r # rules) = (rule_wf r \<and> pair_agrees pairs r \<and>
     scan_transitions (pairs((vt_from r, vt_to r) \<mapsto> (vt_packages r \<noteq> None))) rules)"
  by (auto simp: rule_wf_def pair_agrees_def Let_def)

lemma scan_transitions_iff:
  "scan_transitions pairs rules =
     ((\<forall>r\<in>set rules. rule_wf r) \<and> (\<forall>r\<in>set rules. pair_agrees pairs r) \<and> rules_agree rules)"
proof (induction rules arbitrary: pairs)
  case Nil
  then show ?case by (simp add: rules_agree_def)
next
  case (Cons r rules)
  show ?case
  proof (cases "pair_agrees pairs r")
    case True
    show ?thesis
      unfolding scan_transitions_Cons Cons.IH rules_agree_Cons pair_agrees_update [OF True]
      using True by auto
  next
    case False
    then show ?thesis unfolding scan_transitions_Cons by simp
  qed
qed

lemma valid_vendor_transitions_iff:
  "valid_vendor_transitions rules = ((\<forall>r\<in>set rules. rule_wf r) \<and> rules_agree rules)"
  by (simp add: valid_vendor_transitions_def scan_transitions_iff pair_agrees_def)

lemma vendor_policy_blockers_set:
  "set (vendor_policy_blockers cs policy) =
     {UnauthorizedVendorChange (pc_name c) |c. c \<in> set cs \<and>
        \<not> vendor_permitted policy (valid_vendor_transitions (sp_allowed_vendor_transitions policy)) c}"
  by (auto simp: vendor_policy_blockers_def Let_def)

lemma vendor_policy_blockers_Nil:
  "(vendor_policy_blockers cs policy = []) =
     (\<forall>c\<in>set cs. vendor_permitted policy
        (valid_vendor_transitions (sp_allowed_vendor_transitions policy)) c)"
  by (simp add: vendor_policy_blockers_def Let_def filter_empty_conv)

lemma lockstep_blockers_Nil:
  "(lockstep_blockers solver grp = []) =
     ((\<forall>p\<in>set grp. p \<notin> pc_name ` set (changes solver)) \<or> set grp \<subseteq> pc_name ` set (changes solver))"
proof -
  have mem: "list_ex (\<lambda>c. pc_name c = p) (changes solver) = (p \<in> pc_name ` set (changes solver))" for p
    by (auto simp: list_ex_iff)
  show ?thesis
    by (simp add: lockstep_blockers_def Let_def mem filter_all_length filter_empty_conv subset_iff)
      blast
qed

text \<open>What a transaction must satisfy, said without the evaluation.\<close>

definition transaction_allowed :: "solver_result \<Rightarrow> solver_policy \<Rightarrow> bool" where
  "transaction_allowed solver policy =
     (sr_schema_version solver = 1 \<and> successful solver \<and> problems solver = [] \<and>
      (\<forall>c\<in>set (changes solver).
         pc_action c \<noteq> Downgrade \<and>
         (pc_action c = Remove \<longrightarrow> pc_name c \<in> set (sp_allowed_removals policy)) \<and>
         vendor_permitted policy (valid_vendor_transitions (sp_allowed_vendor_transitions policy)) c) \<and>
      (\<forall>grp\<in>set (sp_lockstep_packages policy).
         (\<forall>p\<in>set grp. p \<notin> pc_name ` set (changes solver)) \<or> set grp \<subseteq> pc_name ` set (changes solver)))"

lemma solver_preflight_passed_iff:
  "passed (evaluate_solver_preflight facts pp solver sp) =
     (host_ready (enrich_facts facts solver) pp \<and> transaction_allowed solver sp)"
proof -
  have *: "(concat (map (change_blockers sp) (changes solver)) = []) =
    (\<forall>c\<in>set (changes solver). pc_action c \<noteq> Downgrade \<and>
       (pc_action c = Remove \<longrightarrow> pc_name c \<in> set (sp_allowed_removals sp)))"
    by (auto simp: change_blockers_def)
  have **: "(concat (map (lockstep_blockers solver) (sp_lockstep_packages sp)) = []) =
    (\<forall>grp\<in>set (sp_lockstep_packages sp). lockstep_blockers solver grp = [])"
    by simp
  show ?thesis
    unfolding passed_def evaluate_solver_preflight_def Let_def transaction_allowed_def
      preflight_report.simps evaluate_preflight_def sort_dedup_Nil_iff append_is_Nil_conv
      raw_blockers_Nil * ** vendor_policy_blockers_Nil lockstep_blockers_Nil push_if_Nil_iff
    by (simp only: ball_conj_distrib de_Morgan_disj not_not conj_assoc)
qed

lemma enrich_repository_simps [simp]:
  "rf_enabled (enrich_repository solver r) = rf_enabled r"
  "rf_alias (enrich_repository solver r) = rf_alias r"
  "rf_signing_key_trusted (enrich_repository solver r) = rf_signing_key_trusted r"
  "rf_enabled r \<Longrightarrow> rf_metadata_valid (enrich_repository solver r) =
     (rf_alias r \<in> set (sr_metadata_valid_repositories solver))"
  by (simp_all add: enrich_repository_def)

lemma enriched_repositories_ok:
  "repositories_ok (enrich_facts facts solver) =
     (\<forall>r\<in>set (hf_repositories facts). rf_enabled r \<longrightarrow>
        rf_alias r \<in> set (sr_metadata_valid_repositories solver) \<and> rf_signing_key_trusted r)"
  unfolding repositories_ok_def enrich_facts_def
  by (simp cong: imp_cong)

section \<open>Properties\<close>

text \<open>
  A solver result passes exactly when the host is ready for it (with the repositories the
  solver refreshed and the sizes it computed) and its transaction is allowed: supported schema,
  success without problems, no downgrade, no removal and no vendor change outside the policy, and
  every lockstep group changed as a whole or not at all.
\<close>

theorem solver_result_accepted_iff:
  "passed (evaluate_solver_preflight facts pp solver sp) =
     (host_ready (enrich_facts facts solver) pp \<and> transaction_allowed solver sp)"
  by (rule solver_preflight_passed_iff)

text \<open>
  The one-pass scan of vendor rules accepts exactly the rule lists in which every rule names
  two valid vendors and a well-formed scope (all packages, or a non-empty list of distinct valid
  names) and no pair of vendors has both a rule for all packages and a restricted one, in whatever
  order the rules stand.
\<close>

theorem vendor_rules_accepted_iff:
  "valid_vendor_transitions rules = (list_all rule_wf rules \<and> rules_agree rules)"
  by (simp add: valid_vendor_transitions_iff list_all_iff)

text \<open>
  No vendor changes without a rule: in a transaction that raises no vendor issue, a package
  that is upgraded, downgraded or reinstalled has two valid vendors, and they are equal or the rules
  are valid and one of them allows this pair for this package.
\<close>

theorem vendor_change_needs_rule:
  assumes "vendor_policy_blockers cs policy = []" and "c \<in> set cs"
    and "pc_action c \<in> {Upgrade, Downgrade, Reinstall}"
  shows "\<exists>f t. current_vendor c = Some f \<and> proposed_vendor c = Some t \<and> valid_vendor f \<and> valid_vendor t \<and>
    (f = t \<or> (valid_vendor_transitions (sp_allowed_vendor_transitions policy) \<and>
      (\<exists>r\<in>set (sp_allowed_vendor_transitions policy). vt_from r = f \<and> vt_to r = t \<and>
         (\<forall>ps. vt_packages r = Some ps \<longrightarrow> pc_name c \<in> set ps))))"
proof -
  have "vendor_permitted policy (valid_vendor_transitions (sp_allowed_vendor_transitions policy)) c"
    using assms(1,2) by (simp add: vendor_policy_blockers_Nil)
  with assms(3) obtain f t where ft: "opt_filter valid_vendor (current_vendor c) = Some f"
    "opt_filter valid_vendor (proposed_vendor c) = Some t"
    and ok: "f = t \<or> (valid_vendor_transitions (sp_allowed_vendor_transitions policy) \<and>
      transition_allowed policy f t (pc_name c))"
    by (cases "opt_filter valid_vendor (current_vendor c)"; cases "opt_filter valid_vendor (proposed_vendor c)")
      (auto simp: vendor_permitted_def Let_def)
  have "transition_allowed policy f t (pc_name c) \<Longrightarrow>
      \<exists>r\<in>set (sp_allowed_vendor_transitions policy). vt_from r = f \<and> vt_to r = t \<and>
         (\<forall>ps. vt_packages r = Some ps \<longrightarrow> pc_name c \<in> set ps)"
    by (auto simp: transition_allowed_def list_ex_iff is_none_or_def split: option.splits)
  with ft ok show ?thesis by (auto simp: opt_filter_Some_iff)
qed

definition example_change :: package_change where
  "example_change = \<lparr>pc_name = ''bash'', pc_architecture = ''x86_64'', pc_action = Upgrade,
     current_version = Some ''1'', proposed_version = Some ''2'', current_vendor = Some ''A'',
     proposed_vendor = Some ''B'', pc_repository_alias = Some ''oss'', pc_download_bytes = 1,
     installed_size_before = 1, installed_size_after = 1\<rparr>"

definition example_rules :: solver_policy where
  "example_rules = \<lparr>sp_allowed_removals = [], sp_allowed_vendor_transitions =
     [\<lparr>vt_from = ''A'', vt_to = ''B'', vt_packages = Some [''bash'']\<rparr>], sp_lockstep_packages = []\<rparr>"

theorem vendor_change_needs_rule_witness:
  "vendor_policy_blockers [example_change] example_rules = [] \<and> valid_vendor ''A''"
proof -
  have "vendor_policy_blockers [example_change] example_rules = []" by code_simp
  with vendor_change_needs_rule [OF this, of example_change] show ?thesis by (simp add: example_change_def)
qed

end
