(* ===== verification/Manifest.thy ===== *)
theory Manifest
  imports Solver
begin

text \<open>
  \<open>core/src/manifest.rs\<close> and \<open>core/src/migration.rs\<close>: the signed release manifest, the policy of a
  package migration inside one release, and the validation of a manifest as a route from the
  installed release. URL parsing is the \<open>url\<close> crate, which is not part of the repository: the
  parameter \<open>parse_url\<close> returns the parts of a URL the code reads, or \<open>None\<close> where the crate
  reports an error.
\<close>

section \<open>Data\<close>

datatype manifest_status = StatusTesting | StatusAvailable | StatusPaused | StatusWithdrawn

datatype manifest_channel_policy = ChannelStable | ChannelTesting

record repository_transition =
  rt_alias :: string
  rt_base_url :: string
  rt_signing_key_url :: string
  rt_signing_key_fingerprint :: string
  rt_priority :: u16

record vendor_transition_wire =
  vw_from :: string
  vw_to :: string
  vw_packages :: "string list option"

record package_migration =
  pm_name :: string
  pm_architecture :: string
  pm_from_version :: string
  pm_from_vendor :: string
  pm_to_version :: string
  pm_to_vendor :: string
  pm_repository_alias :: string
  pm_sha256 :: string
  pm_if_installed :: bool

record release_manifest =
  mf_schema_version :: u32
  mf_sequence :: u64
  mf_status :: manifest_status
  mf_valid_from :: string
  mf_valid_until :: string
  mf_source :: release_identity
  mf_target :: release_identity
  mf_minimum_updater_version :: string
  mf_minimum_free_space_bytes :: u64
  mf_repositories :: "repository_transition list"
  mf_allowed_removals :: "string list"
  mf_allowed_vendor_transitions :: "vendor_transition_wire list"
  mf_lockstep_packages :: "string list list"
  mf_package_migration :: "package_migration list option"

definition MANIFEST_SCHEMA_VERSION :: u32 where
  "MANIFEST_SCHEMA_VERSION = 1"

definition manifest_operation :: "release_manifest \<Rightarrow> operation_kind" where
  "manifest_operation m = (if mf_package_migration m \<noteq> None then PackageMigration else ReleaseUpgrade)"

definition wire_transition :: "vendor_transition_wire \<Rightarrow> vendor_transition" where
  "wire_transition w = \<lparr>vt_from = vw_from w, vt_to = vw_to w, vt_packages = vw_packages w\<rparr>"

definition manifest_solver_policy :: "release_manifest \<Rightarrow> solver_policy" where
  "manifest_solver_policy m =
     \<lparr>sp_allowed_removals = mf_allowed_removals m,
      sp_allowed_vendor_transitions = map wire_transition (mf_allowed_vendor_transitions m),
      sp_lockstep_packages = mf_lockstep_packages m\<rparr>"

section \<open>Package migrations\<close>

datatype migration_error =
  InvalidMigrationPolicy | InstalledIdentity string | UnexpectedTransaction | AlreadyApplied

definition valid_edition :: "string \<Rightarrow> bool" where
  "valid_edition value = (value \<noteq> [] \<and> length value \<le> 256 \<and> is_ascii_alphanumeric (hd value) \<and>
     list_all (\<lambda>b. is_ascii_alphanumeric b \<or> b \<in> set ''._:+~^-'') value)"

definition migration_entry_bad :: "release_manifest \<Rightarrow> package_migration list \<Rightarrow> package_migration \<Rightarrow> bool" where
  "migration_entry_bad m packages p =
     (pm_architecture p \<notin> {''x86_64'', ''noarch''}
      \<or> \<not> valid_edition (pm_from_version p)
      \<or> \<not> valid_edition (pm_to_version p)
      \<or> \<not> valid_vendor (pm_from_vendor p)
      \<or> \<not> valid_vendor (pm_to_vendor p)
      \<or> pm_from_version p = pm_to_version p
      \<or> length (pm_sha256 p) \<noteq> 64
      \<or> \<not> list_all (\<lambda>b. is_ascii_digit b \<or> (CHR ''a'' \<le> b \<and> b \<le> CHR ''f'')) (pm_sha256 p)
      \<or> \<not> list_ex (\<lambda>r. rt_alias r = pm_repository_alias p) (mf_repositories m)
      \<or> pm_repository_alias p \<noteq> pm_repository_alias (hd packages))"

definition migration_rule_bad :: "package_migration list \<Rightarrow> vendor_transition_wire \<Rightarrow> bool" where
  "migration_rule_bad packages rule =
     is_none_or (vw_packages rule) (\<lambda>scope.
       list_ex (\<lambda>name. \<not> list_ex (\<lambda>p. pm_name p = name \<and> pm_from_vendor p = vw_from rule \<and>
                                    pm_to_vendor p = vw_to rule) packages) scope)"

definition validate_migration :: "release_manifest \<Rightarrow> migration_error + unit" where
  "validate_migration m = (case mf_package_migration m of
      None \<Rightarrow> Inr ()
    | Some packages \<Rightarrow>
        if mf_source m \<noteq> mf_target m
           \<or> packages = []
           \<or> 64 < length packages
           \<or> list_all pm_if_installed packages
           \<or> mf_allowed_removals m \<noteq> []
           \<or> mf_lockstep_packages m \<noteq> []
           \<or> any_dup (\<lambda>p. \<not> valid_package (pm_name p)) pm_name (migration_entry_bad m packages) [] packages
           \<or> list_ex (migration_rule_bad packages) (mf_allowed_vendor_transitions m)
        then Inl InvalidMigrationPolicy else Inr ())"

fun pending_from ::
  "installed_package list \<Rightarrow> package_migration list \<Rightarrow> migration_error + package_migration list" where
  "pending_from installed [] = Inr []"
| "pending_from installed (package # rest) =
     (let matching = filter (\<lambda>p. ip_name p = pm_name package) installed
      in if matching = [] \<and> pm_if_installed package then pending_from installed rest
         else (case matching of
             [current] \<Rightarrow>
               if ip_architecture current \<noteq> pm_architecture package
                 then Inl (InstalledIdentity (pm_name package))
               else if ip_version current = pm_to_version package \<and> ip_vendor current = pm_to_vendor package
                 then pending_from installed rest
               else if ip_version current \<noteq> pm_from_version package \<or> ip_vendor current \<noteq> pm_from_vendor package
                 then Inl (InstalledIdentity (pm_name package))
               else rbind (pending_from installed rest) (\<lambda>ps. Inr (package # ps))
           | _ \<Rightarrow> Inl (InstalledIdentity (pm_name package))))"

definition pending_migration ::
  "release_manifest \<Rightarrow> installed_package list \<Rightarrow> migration_error + package_migration list" where
  "pending_migration m installed =
     rbind (validate_migration m) (\<lambda>_.
       pending_from installed (case mf_package_migration m of None \<Rightarrow> [] | Some ps \<Rightarrow> ps))"

definition change_matches :: "package_change \<Rightarrow> package_migration \<Rightarrow> bool" where
  "change_matches change p =
     (pc_name change = pm_name p \<and>
      pc_architecture change = pm_architecture p \<and>
      pc_action change \<in> {Upgrade, Reinstall} \<and>
      current_version change = Some (pm_from_version p) \<and>
      current_vendor change = Some (pm_from_vendor p) \<and>
      proposed_version change = Some (pm_to_version p) \<and>
      proposed_vendor change = Some (pm_to_vendor p) \<and>
      pc_repository_alias change = Some (pm_repository_alias p))"

definition validate_migration_plan ::
  "release_manifest \<Rightarrow> installed_package list \<Rightarrow> package_change list \<Rightarrow> migration_error + unit" where
  "validate_migration_plan m installed cs =
     (if mf_package_migration m = None then Inr ()
      else rbind (pending_migration m installed) (\<lambda>pending.
        if length cs \<noteq> length pending
           \<or> any_dup (\<lambda>_. False) pc_name (\<lambda>change. \<not> list_ex (change_matches change) pending) [] cs
        then Inl UnexpectedTransaction else Inr ()))"

section \<open>Versions\<close>

type_synonym version_triple = "u64 \<times> u64 \<times> u64"

definition semantic_version :: "string \<Rightarrow> version_triple option" where
  "semantic_version value = (case split_on CHR ''.'' value of
      [a, b] \<Rightarrow> (case (parse_u64 a, parse_u64 b) of
          (Some major, Some minor) \<Rightarrow> Some (major, minor, 0)
        | _ \<Rightarrow> None)
    | [a, b, c] \<Rightarrow> (case (parse_u64 a, parse_u64 b, parse_u64 c) of
          (Some major, Some minor, Some patch) \<Rightarrow> Some (major, minor, patch)
        | _ \<Rightarrow> None)
    | _ \<Rightarrow> None)"

definition release_version :: "string \<Rightarrow> (version_triple \<times> bool) option" where
  "release_version value = (case split_once CHR ''-'' value of
      None \<Rightarrow> map_option (\<lambda>version. (version, False)) (semantic_version value)
    | Some (version, suffix) \<Rightarrow>
        if suffix \<noteq> [] \<and> list_all (\<lambda>b. is_ascii_alphanumeric b \<or> b \<in> {CHR ''.'', CHR ''-''}) suffix
        then map_option (\<lambda>v. (v, True)) (semantic_version version)
        else None)"

definition is_prerelease :: "string \<Rightarrow> bool" where
  "is_prerelease value = is_some_and (release_version value) snd"

definition is_legacy_calendar_version :: "string \<Rightarrow> bool" where
  "is_legacy_calendar_version value =
     (value \<in> {''27.02'', ''27.06'', ''28.02''} \<or> starts_with value ''2026.08'' \<or> starts_with value ''27.02-'')"

definition valid_version_transition :: "string \<Rightarrow> string \<Rightarrow> bool" where
  "valid_version_transition source target =
     (if source = target \<or> is_legacy_calendar_version target then False
      else (case release_version target of
          None \<Rightarrow> False
        | Some (t, _) \<Rightarrow>
            if is_legacy_calendar_version source then True
            else is_some_and (release_version source) (\<lambda>(s, _). s < t)))"

section \<open>Routes\<close>

record url =
  scheme :: string
  host_str :: "string option"
  username :: string
  password :: "string option"
  query :: "string option"
  fragment :: "string option"

definition valid_https_url :: "(string \<Rightarrow> url option) \<Rightarrow> string \<Rightarrow> bool" where
  "valid_https_url parse_url value =
     (\<not> list_ex is_whitespace (chars value) \<and>
      is_some_and (parse_url value) (\<lambda>u. scheme u = ''https'' \<and> host_str u \<noteq> None \<and> username u = [] \<and>
        password u = None \<and> query u = None \<and> fragment u = None))"

definition valid_alias :: "string \<Rightarrow> bool" where
  "valid_alias value = (value \<noteq> [] \<and>
     list_all (\<lambda>c. is_ascii_alphanumeric c \<or> c \<in> {CHR ''.'', CHR ''-'', CHR ''_'', CHR '':''}) value)"

definition valid_fingerprint :: "string \<Rightarrow> bool" where
  "valid_fingerprint fingerprint = (length fingerprint = 40 \<and>
     list_all (\<lambda>c. is_ascii_hexdigit c \<and> \<not> is_ascii_lowercase c) fingerprint)"

datatype manifest_error =
    UnsupportedManifestSchema | NotAvailable | PrereleaseNotAllowed | SourceMismatch | TargetNotNewer
  | UnsupportedTarget | Replay | MigrationAlreadyApplied | InvalidMinimumUpdaterVersion
  | UpdaterTooOld | InvalidRepository | DuplicateRepository | InvalidFingerprint | InvalidPolicy

fun check_repositories ::
  "(string \<Rightarrow> url option) \<Rightarrow> string list \<Rightarrow> repository_transition list \<Rightarrow> manifest_error + unit" where
  "check_repositories parse_url aliases [] = Inr ()"
| "check_repositories parse_url aliases (r # rs) =
     (if \<not> valid_alias (rt_alias r) \<or> \<not> valid_https_url parse_url (rt_base_url r)
         \<or> \<not> valid_https_url parse_url (rt_signing_key_url r) \<or> \<not> (1 \<le> rt_priority r \<and> rt_priority r \<le> 200)
      then Inl InvalidRepository
      else if rt_alias r \<in> set aliases then Inl DuplicateRepository
      else if \<not> valid_fingerprint (rt_signing_key_fingerprint r) then Inl InvalidFingerprint
      else check_repositories parse_url (rt_alias r # aliases) rs)"

definition target_supported :: "release_identity \<Rightarrow> bool" where
  "target_supported t = (ri_edition t = ''desktop'' \<and> ri_architecture t = ''x86_64'' \<and> ri_build_id t \<noteq> [] \<and>
     list_all (\<lambda>b. is_ascii_alphanumeric b \<or> b \<in> {CHR ''.'', CHR ''-'', CHR ''_''}) (ri_build_id t))"

definition manifest_policy_bad :: "release_manifest \<Rightarrow> bool" where
  "manifest_policy_bad m =
     (\<not> valid_vendor_transitions (sp_allowed_vendor_transitions (manifest_solver_policy m))
      \<or> mf_minimum_free_space_bytes m = 0
      \<or> list_ex (\<lambda>name. \<not> valid_package name) (mf_allowed_removals m)
      \<or> list_ex (\<lambda>grp. length grp < 2 \<or> list_ex (\<lambda>package. \<not> valid_package package) grp
           \<or> length (remdups grp) \<noteq> length grp) (mf_lockstep_packages m))"

definition validate_manifest_route ::
  "(string \<Rightarrow> url option) \<Rightarrow> release_manifest \<Rightarrow> release_identity \<Rightarrow> u64 option \<Rightarrow> string \<Rightarrow>
   manifest_channel_policy \<Rightarrow> manifest_error + unit" where
  "validate_manifest_route parse_url m installed last_sequence updater_version channel =
     (if mf_schema_version m \<noteq> MANIFEST_SCHEMA_VERSION then Inl UnsupportedManifestSchema
      else if mf_status m \<noteq> StatusAvailable \<and> \<not> (mf_status m = StatusTesting \<and> channel = ChannelTesting)
        then Inl NotAvailable
      else if mf_source m \<noteq> installed then Inl SourceMismatch
      else if \<not> target_supported (mf_target m) then Inl UnsupportedTarget
      else if mf_package_migration m \<noteq> None \<and> validate_migration m \<noteq> Inr () then Inl InvalidPolicy
      else if mf_package_migration m = None
              \<and> \<not> valid_version_transition (ri_version installed) (ri_version (mf_target m))
        then Inl TargetNotNewer
      else if is_prerelease (ri_version (mf_target m)) \<and> channel \<noteq> ChannelTesting
        then Inl PrereleaseNotAllowed
      else if 0 < mf_sequence m \<and> mf_package_migration m \<noteq> None \<and> last_sequence = Some (mf_sequence m)
        then Inl MigrationAlreadyApplied
      else if mf_sequence m = 0 \<or> is_some_and last_sequence (\<lambda>s. mf_sequence m \<le> s) then Inl Replay
      else rbind (ok_or (semantic_version (mf_minimum_updater_version m)) InvalidMinimumUpdaterVersion) (\<lambda>minimum.
           rbind (ok_or (semantic_version updater_version) InvalidMinimumUpdaterVersion) (\<lambda>current.
             if current < minimum then Inl UpdaterTooOld
             else if mf_package_migration m \<noteq> None \<and> minimum < (0, 2, 7) then Inl InvalidMinimumUpdaterVersion
             else if list_ex (\<lambda>rule. vw_packages rule \<noteq> None) (mf_allowed_vendor_transitions m)
                     \<and> minimum < (0, 2, 6) then Inl InvalidMinimumUpdaterVersion
             else if mf_repositories m = [] then Inl InvalidRepository
             else rbind (check_repositories parse_url [] (mf_repositories m)) (\<lambda>_.
               if manifest_policy_bad m then Inl InvalidPolicy else Inr ()))))"

section \<open>Lemmas: repositories and routes\<close>

definition repository_ok :: "(string \<Rightarrow> url option) \<Rightarrow> repository_transition \<Rightarrow> bool" where
  "repository_ok parse_url r =
     (valid_alias (rt_alias r) \<and> valid_https_url parse_url (rt_base_url r) \<and>
      valid_https_url parse_url (rt_signing_key_url r) \<and> 1 \<le> rt_priority r \<and> rt_priority r \<le> 200 \<and>
      valid_fingerprint (rt_signing_key_fingerprint r))"

lemma check_repositories_iff [result_simps]:
  "(check_repositories parse_url aliases rs = Inr ()) =
     ((\<forall>r\<in>set rs. repository_ok parse_url r) \<and> distinct (map rt_alias rs) \<and>
      (\<forall>r\<in>set rs. rt_alias r \<notin> set aliases))"
proof (induction rs arbitrary: aliases)
  case Nil
  then show ?case by simp
next
  case (Cons r rs)
  have fresh: "(rt_alias r \<notin> rt_alias ` set rs) = (\<forall>q\<in>set rs. rt_alias q \<noteq> rt_alias r)"
    by (metis imageE image_eqI)
  have "(check_repositories parse_url aliases (r # rs) = Inr ()) =
      (repository_ok parse_url r \<and> rt_alias r \<notin> set aliases \<and>
       check_repositories parse_url (rt_alias r # aliases) rs = Inr ())"
    unfolding check_repositories.simps guard_Inr_iff repository_ok_def by blast
  also have "\<dots> = (repository_ok parse_url r \<and> rt_alias r \<notin> set aliases \<and>
      (\<forall>r\<in>set rs. repository_ok parse_url r) \<and> distinct (map rt_alias rs) \<and>
      (\<forall>q\<in>set rs. rt_alias q \<notin> set (rt_alias r # aliases)))"
    unfolding Cons.IH ..
  also have "\<dots> = ((\<forall>q\<in>set (r # rs). repository_ok parse_url q) \<and> distinct (map rt_alias (r # rs)) \<and>
      (\<forall>q\<in>set (r # rs). rt_alias q \<notin> set aliases))"
    unfolding list.map distinct.simps list.set set_map fresh by auto
  finally show ?case .
qed

text \<open>The conditions under which a manifest is accepted, as one conjunction.\<close>

definition route_ok ::
  "(string \<Rightarrow> url option) \<Rightarrow> release_manifest \<Rightarrow> release_identity \<Rightarrow> u64 option \<Rightarrow> string \<Rightarrow>
   manifest_channel_policy \<Rightarrow> bool" where
  "route_ok parse_url m installed last_sequence updater_version channel =
     (mf_schema_version m = MANIFEST_SCHEMA_VERSION \<and>
      (mf_status m = StatusAvailable \<or> (mf_status m = StatusTesting \<and> channel = ChannelTesting)) \<and>
      mf_source m = installed \<and> target_supported (mf_target m) \<and>
      (case mf_package_migration m of
         None \<Rightarrow> valid_version_transition (ri_version installed) (ri_version (mf_target m))
       | Some _ \<Rightarrow> validate_migration m = Inr ()) \<and>
      (is_prerelease (ri_version (mf_target m)) \<longrightarrow> channel = ChannelTesting) \<and>
      0 < mf_sequence m \<and> (\<forall>s. last_sequence = Some s \<longrightarrow> s < mf_sequence m) \<and>
      (\<exists>minimum current. semantic_version (mf_minimum_updater_version m) = Some minimum \<and>
         semantic_version updater_version = Some current \<and> minimum \<le> current \<and>
         (mf_package_migration m \<noteq> None \<longrightarrow> (0, 2, 7) \<le> minimum) \<and>
         ((\<exists>rule\<in>set (mf_allowed_vendor_transitions m). vw_packages rule \<noteq> None) \<longrightarrow> (0, 2, 6) \<le> minimum)) \<and>
      mf_repositories m \<noteq> [] \<and> (\<forall>r\<in>set (mf_repositories m). repository_ok parse_url r) \<and>
      distinct (map rt_alias (mf_repositories m)) \<and> \<not> manifest_policy_bad m)"

lemma word_gt_zero_iff: "(0 < (w :: 'w::len word)) = (w \<noteq> 0)"
  by (simp add: word_gt_0)

lemma validate_manifest_route_iff [result_simps]:
  "(validate_manifest_route parse_url m installed last_sequence updater_version channel = Inr ()) =
     route_ok parse_url m installed last_sequence updater_version channel"
proof -
  have fresh: "(\<not> (0 < mf_sequence m \<and> mf_package_migration m \<noteq> None \<and> last_sequence = Some (mf_sequence m)) \<and>
      \<not> (mf_sequence m = 0 \<or> is_some_and last_sequence (\<lambda>s. mf_sequence m \<le> s))) =
    (0 < mf_sequence m \<and> (\<forall>s. last_sequence = Some s \<longrightarrow> s < mf_sequence m))"
    by (cases last_sequence) (auto simp: word_gt_zero_iff not_le)
  have kind: "(\<not> (mf_package_migration m \<noteq> None \<and> validate_migration m \<noteq> Inr ()) \<and>
      \<not> (mf_package_migration m = None
         \<and> \<not> valid_version_transition (ri_version installed) (ri_version (mf_target m)))) =
    (case mf_package_migration m of
         None \<Rightarrow> valid_version_transition (ri_version installed) (ri_version (mf_target m))
       | Some _ \<Rightarrow> validate_migration m = Inr ())"
    by (cases "mf_package_migration m") auto
  have "(validate_manifest_route parse_url m installed last_sequence updater_version channel = Inr ()) =
    (mf_schema_version m = MANIFEST_SCHEMA_VERSION \<and>
     \<not> (mf_status m \<noteq> StatusAvailable \<and> \<not> (mf_status m = StatusTesting \<and> channel = ChannelTesting)) \<and>
     mf_source m = installed \<and> target_supported (mf_target m) \<and>
     (\<not> (mf_package_migration m \<noteq> None \<and> validate_migration m \<noteq> Inr ()) \<and>
      \<not> (mf_package_migration m = None
         \<and> \<not> valid_version_transition (ri_version installed) (ri_version (mf_target m)))) \<and>
     \<not> (is_prerelease (ri_version (mf_target m)) \<and> channel \<noteq> ChannelTesting) \<and>
     (\<not> (0 < mf_sequence m \<and> mf_package_migration m \<noteq> None \<and> last_sequence = Some (mf_sequence m)) \<and>
      \<not> (mf_sequence m = 0 \<or> is_some_and last_sequence (\<lambda>s. mf_sequence m \<le> s))) \<and>
     (\<exists>minimum current. semantic_version (mf_minimum_updater_version m) = Some minimum \<and>
         semantic_version updater_version = Some current \<and> \<not> current < minimum \<and>
         \<not> (mf_package_migration m \<noteq> None \<and> minimum < (0, 2, 7)) \<and>
         \<not> (list_ex (\<lambda>rule. vw_packages rule \<noteq> None) (mf_allowed_vendor_transitions m)
             \<and> minimum < (0, 2, 6))) \<and>
      mf_repositories m \<noteq> [] \<and> check_repositories parse_url [] (mf_repositories m) = Inr () \<and>
      \<not> manifest_policy_bad m)"
    unfolding validate_manifest_route_def
    by (simp only: guard_Inr_iff rbind_Inr_iff ok_or_Inr_iff ex_unit_iff not_not) blast
  also have "\<dots> = route_ok parse_url m installed last_sequence updater_version channel"
    unfolding fresh kind route_ok_def check_repositories_iff list_ex_iff
    by (simp only: not_less list.set empty_iff not_False_eq_True ball_triv simp_thms imp_conv_disj de_Morgan_conj
        de_Morgan_disj not_not conj_assoc)
  finally show ?thesis .
qed

section \<open>Lemmas: versions only move forward\<close>

definition version_rank :: "string \<Rightarrow> version_triple option" where
  "version_rank v = (if is_legacy_calendar_version v then None else map_option fst (release_version v))"

lemma valid_version_transition_rank:
  "valid_version_transition s t \<Longrightarrow> version_rank s < version_rank t"
  by (cases "release_version s")
    (auto simp: valid_version_transition_def version_rank_def split: if_splits option.splits)

inductive upgrade_chain :: "string \<Rightarrow> string \<Rightarrow> bool" where
  one: "valid_version_transition s t \<Longrightarrow> upgrade_chain s t"
| more: "upgrade_chain s t \<Longrightarrow> valid_version_transition t u \<Longrightarrow> upgrade_chain s u"

lemma upgrade_chain_rank: "upgrade_chain s t \<Longrightarrow> version_rank s < version_rank t"
  by (induction rule: upgrade_chain.induct)
    (auto dest!: valid_version_transition_rank intro: less_trans)

section \<open>Lemmas: pending packages\<close>

definition the_installed :: "installed_package list \<Rightarrow> package_migration \<Rightarrow> installed_package list" where
  "the_installed installed p = filter (\<lambda>i. ip_name i = pm_name p) installed"

definition at_source :: "installed_package list \<Rightarrow> package_migration \<Rightarrow> bool" where
  "at_source installed p = (\<exists>c. the_installed installed p = [c] \<and> ip_architecture c = pm_architecture p \<and>
     ip_version c = pm_from_version p \<and> ip_vendor c = pm_from_vendor p)"

definition at_target :: "installed_package list \<Rightarrow> package_migration \<Rightarrow> bool" where
  "at_target installed p = (\<exists>c. the_installed installed p = [c] \<and> ip_architecture c = pm_architecture p \<and>
     ip_version c = pm_to_version p \<and> ip_vendor c = pm_to_vendor p)"

definition absent_allowed :: "installed_package list \<Rightarrow> package_migration \<Rightarrow> bool" where
  "absent_allowed installed p = (the_installed installed p = [] \<and> pm_if_installed p)"

definition nothing_to_do :: "installed_package list \<Rightarrow> package_migration \<Rightarrow> bool" where
  "nothing_to_do installed p = (absent_allowed installed p \<or> at_target installed p)"

lemma pending_from_Cons:
  "pending_from installed (p # ps) =
     (if nothing_to_do installed p then pending_from installed ps
      else if at_source installed p then rbind (pending_from installed ps) (\<lambda>qs. Inr (p # qs))
      else Inl (InstalledIdentity (pm_name p)))"
proof (cases "the_installed installed p")
  case Nil
  then show ?thesis
    by (auto simp: the_installed_def nothing_to_do_def absent_allowed_def at_target_def at_source_def Let_def)
next
  case (Cons c cs)
  then show ?thesis
    by (cases cs)
      (auto simp: the_installed_def nothing_to_do_def absent_allowed_def at_target_def at_source_def Let_def)
qed

declare pending_from.simps(2) [simp del]

lemma pending_from_iff [result_simps]:
  "(pending_from installed ps = Inr qs) =
     ((\<forall>p\<in>set ps. nothing_to_do installed p \<or> at_source installed p) \<and>
      qs = filter (\<lambda>p. \<not> nothing_to_do installed p) ps)"
  by (induction ps arbitrary: qs) (auto simp: pending_from_Cons rbind_Inr_iff)

lemma validate_migration_names:
  assumes "validate_migration m = Inr ()" and "mf_package_migration m = Some ps"
  shows "distinct (map pm_name ps)" and "\<forall>p\<in>set ps. pm_from_version p \<noteq> pm_to_version p"
  using assms by (auto simp: validate_migration_def any_dup_iff migration_entry_bad_def split: if_splits)

lemma pending_migration_iff [result_simps]:
  "(pending_migration m installed = Inr qs) =
     (validate_migration m = Inr () \<and>
      (let ps = (case mf_package_migration m of None \<Rightarrow> [] | Some ps \<Rightarrow> ps)
       in (\<forall>p\<in>set ps. nothing_to_do installed p \<or> at_source installed p) \<and>
          qs = filter (\<lambda>p. \<not> nothing_to_do installed p) ps))"
  by (simp add: pending_migration_def rbind_Inr_iff pending_from_iff Let_def)

text \<open>The installed packages after the package manager has carried out a migration.\<close>

definition migrated :: "package_migration list \<Rightarrow> installed_package \<Rightarrow> installed_package" where
  "migrated pending i = (case find (\<lambda>p. pm_name p = ip_name i) pending of
      None \<Rightarrow> i
    | Some p \<Rightarrow> i\<lparr>ip_version := pm_to_version p, ip_vendor := pm_to_vendor p\<rparr>)"

lemma migrated_keeps [simp]:
  "ip_name (migrated pending i) = ip_name i"
  "ip_architecture (migrated pending i) = ip_architecture i"
  by (simp_all add: migrated_def split: option.splits)

lemma the_installed_migrated:
  "the_installed (map (migrated pending) installed) p = map (migrated pending) (the_installed installed p)"
  by (simp add: the_installed_def filter_map comp_def)

lemma find_unique_name:
  "distinct (map pm_name ps) \<Longrightarrow> p \<in> set ps \<Longrightarrow> find (\<lambda>q. pm_name q = pm_name p) ps = Some p"
  by (induction ps) (auto simp: rev_image_eqI)

lemma find_no_name: "(\<And>q. q \<in> set ps \<Longrightarrow> pm_name q \<noteq> n) \<Longrightarrow> find (\<lambda>q. pm_name q = n) ps = None"
  by (simp add: find_None_iff)

lemma the_installed_name: "the_installed installed p = [c] \<Longrightarrow> ip_name c = pm_name p"
proof -
  assume "the_installed installed p = [c]"
  then have "c \<in> set (the_installed installed p)" by simp
  then show ?thesis by (simp add: the_installed_def)
qed

lemma migrated_settles:
  assumes names: "distinct (map pm_name ps)" and p: "p \<in> set ps"
    and src: "nothing_to_do installed p \<or> at_source installed p"
    and pending: "pending = filter (\<lambda>p. \<not> nothing_to_do installed p) ps"
  shows "nothing_to_do (map (migrated pending) installed) p"
proof (cases "nothing_to_do installed p")
  case True
  have "find (\<lambda>q. pm_name q = pm_name p) pending = None"
  proof (rule find_no_name)
    fix q assume "q \<in> set pending"
    then have "q \<in> set ps" and "\<not> nothing_to_do installed q" using pending by auto
    with True p names show "pm_name q \<noteq> pm_name p"
      by (metis distinct_map inj_onD)
  qed
  then have same: "ip_name c = pm_name p \<Longrightarrow> migrated pending c = c" for c
    by (simp add: migrated_def)
  show ?thesis
    using True unfolding nothing_to_do_def absent_allowed_def at_target_def the_installed_migrated
    by (auto simp: same [OF the_installed_name])
next
  case False
  with src obtain c where c: "the_installed installed p = [c]" "ip_architecture c = pm_architecture p"
    by (auto simp: at_source_def)
  have "p \<in> set pending" using False p pending by simp
  moreover have "distinct (map pm_name pending)" using names pending by (simp add: distinct_map_filter)
  ultimately have "find (\<lambda>q. pm_name q = pm_name p) pending = Some p"
    by (intro find_unique_name)
  with c the_installed_name [OF c(1)]
  have "ip_version (migrated pending c) = pm_to_version p \<and> ip_vendor (migrated pending c) = pm_to_vendor p"
    by (simp add: migrated_def)
  with c show ?thesis
    by (simp add: nothing_to_do_def at_target_def the_installed_migrated)
qed

section \<open>Lemmas: the transaction is exactly the pending migration\<close>

lemma validate_migration_plan_changes:
  assumes ok: "validate_migration_plan m installed cs = Inr ()" and mig: "mf_package_migration m \<noteq> None"
  obtains pending where "pending_migration m installed = Inr pending"
    and "length cs = length pending" and "distinct (map pc_name cs)"
    and "\<forall>c\<in>set cs. \<exists>p\<in>set pending. change_matches c p"
  using assms
  by (auto simp: validate_migration_plan_def rbind_Inr_iff any_dup_iff list_ex_iff split: if_splits)

lemma matching_names_cover:
  assumes len: "length cs = length pending" and dist: "distinct (map pc_name cs)"
    and match: "\<forall>c\<in>set cs. \<exists>p\<in>set pending. change_matches c p"
  shows "set (map pc_name cs) = set (map pm_name pending)"
proof (rule card_seteq)
  show "finite (set (map pm_name pending))" by simp
  show "set (map pc_name cs) \<subseteq> set (map pm_name pending)"
    using match by (fastforce simp: change_matches_def)
  have "card (set (map pm_name pending)) \<le> length pending"
    by (metis card_length length_map)
  also have "\<dots> = card (set (map pc_name cs))"
    using distinct_card [OF dist] len by simp
  finally show "card (set (map pm_name pending)) \<le> card (set (map pc_name cs))" .
qed

section \<open>Properties\<close>


text \<open>
  Upgrades never come back: along any chain of accepted version transitions, legacy calendar
  versions included, the last version differs from the first, so no sequence of signed manifests
  leads to a downgrade or a cycle.
\<close>

theorem no_upgrade_cycle:
  assumes "upgrade_chain s t"
  shows "s \<noteq> t \<and> \<not> upgrade_chain t s"
  using upgrade_chain_rank [OF assms] upgrade_chain_rank [of t s] by auto

theorem no_upgrade_cycle_witness: "upgrade_chain ''27.02'' ''1.2.0'' \<and> ''27.02'' \<noteq> ''1.2.0''"
proof -
  have "valid_version_transition ''27.02'' ''1.2.0''" by code_simp
  then have "upgrade_chain ''27.02'' ''1.2.0''" by (rule upgrade_chain.one)
  with no_upgrade_cycle [OF this] show ?thesis by simp
qed

text \<open>
  C17: A package migration converges: once the package manager has moved the pending packages to
  their target version and vendor, the migration has nothing pending, so applying the same manifest
  again changes nothing.
\<close>

theorem migration_converges:
  assumes "pending_migration m installed = Inr pending"
  shows "pending_migration m (map (migrated pending) installed) = Inr []"
proof -
  define ps where "ps = (case mf_package_migration m of None \<Rightarrow> [] | Some ps \<Rightarrow> ps)"
  from assms have v: "validate_migration m = Inr ()"
    and all: "\<forall>p\<in>set ps. nothing_to_do installed p \<or> at_source installed p"
    and pend: "pending = filter (\<lambda>p. \<not> nothing_to_do installed p) ps"
    by (auto simp: pending_migration_iff Let_def ps_def)
  have "distinct (map pm_name ps)"
    using v validate_migration_names(1) [of m] by (auto simp: ps_def split: option.splits)
  then have "\<forall>p\<in>set ps. nothing_to_do (map (migrated pending) installed) p"
    using migrated_settles all pend by blast
  then show ?thesis by (auto simp: pending_migration_iff Let_def v simp flip: ps_def)
qed

text \<open>
  A migration transaction is exactly the pending migration: when the plan check accepts the
  solver's changes, they are as many as the pending packages, name each of them once, and each moves
  its package from the recorded version and vendor to the recorded target, from the pinned
  repository.
\<close>

theorem migration_transaction_exact:
  assumes "validate_migration_plan m installed cs = Inr ()" and "mf_package_migration m \<noteq> None"
  shows "\<exists>pending. pending_migration m installed = Inr pending \<and> length cs = length pending \<and>
    distinct (map pc_name cs) \<and> set (map pc_name cs) = set (map pm_name pending) \<and>
    (\<forall>c\<in>set cs. \<exists>p\<in>set pending. pc_name c = pm_name p \<and> current_version c = Some (pm_from_version p) \<and>
       proposed_version c = Some (pm_to_version p) \<and> proposed_vendor c = Some (pm_to_vendor p) \<and>
       pc_repository_alias c = Some (pm_repository_alias p) \<and> pc_action c \<in> {Upgrade, Reinstall})"
proof (rule validate_migration_plan_changes [OF assms])
  fix pending
  assume *: "pending_migration m installed = Inr pending" "length cs = length pending"
    "distinct (map pc_name cs)" "\<forall>c\<in>set cs. \<exists>p\<in>set pending. change_matches c p"
  have "set (map pc_name cs) = set (map pm_name pending)" using matching_names_cover *(2-4) .
  moreover have "\<forall>c\<in>set cs. \<exists>p\<in>set pending. pc_name c = pm_name p \<and> current_version c = Some (pm_from_version p) \<and>
       proposed_version c = Some (pm_to_version p) \<and> proposed_vendor c = Some (pm_to_vendor p) \<and>
       pc_repository_alias c = Some (pm_repository_alias p) \<and> pc_action c \<in> {Upgrade, Reinstall}"
    using *(4) unfolding change_matches_def by blast
  ultimately show ?thesis using * by blast
qed

definition example_migration :: package_migration where
  "example_migration = \<lparr>pm_name = ''bash'', pm_architecture = ''x86_64'', pm_from_version = ''1'', pm_from_vendor = ''A'',
     pm_to_version = ''2'', pm_to_vendor = ''B'', pm_repository_alias = ''oss'', pm_sha256 = replicate 64 CHR ''a'',
     pm_if_installed = False\<rparr>"

definition example_manifest :: release_manifest where
  "example_manifest = \<lparr>mf_schema_version = 1, mf_sequence = 5, mf_status = StatusAvailable, mf_valid_from = [],
     mf_valid_until = [], mf_source = example_release, mf_target = example_release,
     mf_minimum_updater_version = ''0.2.7'', mf_minimum_free_space_bytes = 1,
     mf_repositories = [\<lparr>rt_alias = ''oss'', rt_base_url = ''https://a'', rt_signing_key_url = ''https://a'',
       rt_signing_key_fingerprint = replicate 40 CHR ''A'', rt_priority = 90\<rparr>],
     mf_allowed_removals = [], mf_allowed_vendor_transitions =
       [\<lparr>vw_from = ''A'', vw_to = ''B'', vw_packages = Some [''bash'']\<rparr>],
     mf_lockstep_packages = [], mf_package_migration = Some [example_migration]\<rparr>"

definition example_installed :: "installed_package list" where
  "example_installed = [\<lparr>ip_name = ''bash'', ip_version = ''1'', ip_architecture = ''x86_64'', ip_vendor = ''A''\<rparr>]"

theorem migration_converges_witness:
  "pending_migration example_manifest example_installed = Inr [example_migration] \<and>
   pending_migration example_manifest (map (migrated [example_migration]) example_installed) = Inr []"
proof -
  have "pending_migration example_manifest example_installed = Inr [example_migration]" by code_simp
  with migration_converges [OF this] show ?thesis by simp
qed

theorem migration_transaction_exact_witness:
  "\<exists>pending. pending_migration example_manifest example_installed = Inr pending \<and> length [example_change] = length pending"
proof -
  have "validate_migration_plan example_manifest example_installed [example_change] = Inr ()" by code_simp
  moreover have "mf_package_migration example_manifest \<noteq> None" by (simp add: example_manifest_def)
  ultimately show ?thesis using migration_transaction_exact by blast
qed

end
