(* ===== verification/Planner.thy ===== *)
theory Planner
  imports Manifest
begin

text \<open>
  \<open>service/src/planner.rs\<close>, \<open>service/src/migration.rs\<close> and the result check of
  \<open>service/src/inventory.rs\<close>: planning an update or a release upgrade, checking and rebuilding a
  confirmed plan, the arguments of the package manager, the payload check and the comparison of the
  installed packages with the plan.

  The digests (\<open>serde_json\<close> and \<open>sha2\<close>) are parameters. What one planning run sees of the system (the
  simulation root, the discovered facts, the installed packages, the runs of \<open>zypper\<close> in the
  simulation, and the parsed and enriched solver output) is the record \<open>planning_view\<close>; the
  simulation counts as available when its root and the directories below it could be created.
\<close>

section \<open>Package manager arguments\<close>

datatype transaction_mode = ModePlan | ModeDownload | ModeApply

definition transaction_arguments ::
  "release_manifest \<Rightarrow> installed_package list \<Rightarrow> transaction_mode \<Rightarrow> migration_error + string list" where
  "transaction_arguments m installed mode =
     rbind (if mf_package_migration m \<noteq> None then
              rbind (pending_migration m installed) (\<lambda>pending.
                if pending = [] then Inl AlreadyApplied
                else Inr ([''install'', ''--name'', ''--no-recommends'', ''--from'',
                       pm_repository_alias (hd pending)], pending))
            else Inr ([''dist-upgrade''], []))
       (\<lambda>(args, pending).
          Inr (args
            @ (case mode of ModePlan \<Rightarrow> [''--dry-run''] | ModeDownload \<Rightarrow> [''--download-only''] | ModeApply \<Rightarrow> [])
            @ [''--details'', ''--no-allow-downgrade'', ''--no-allow-name-change'', ''--no-allow-arch-change'',
               ''--allow-vendor-change'']
            @ (if mf_package_migration m \<noteq> None
               then ''--'' # map (\<lambda>p. pm_name p @ ''.'' @ pm_architecture p @ ''='' @ pm_to_version p) pending
               else [])))"

section \<open>Payloads\<close>

text \<open>
  The cache directory: regular files with the digest of their content, subdirectories, and anything
  else. A file opened for hashing may have been replaced since it was listed, which \<open>None\<close> stands for.
\<close>

datatype cache_entry = CacheFile string "string option" | CacheDir "cache_entry list" | CacheOther

definition has_rpm_extension :: "string \<Rightarrow> bool" where
  "has_rpm_extension name = (ends_with name ''.rpm'' \<and> length name > 4)"

fun collect :: "nat \<Rightarrow> string option list \<Rightarrow> cache_entry list \<Rightarrow> unit + string option list"
  and collect_entry :: "nat \<Rightarrow> string option list \<Rightarrow> cache_entry \<Rightarrow> unit + string option list" where
  "collect depth files [] = (if 8 < depth then Inl () else Inr files)"
| "collect depth files (e # es) =
     (if 8 < depth then Inl ()
      else rbind (collect_entry depth files e) (\<lambda>files'. collect depth files' es))"
| "collect_entry depth files (CacheDir es) = collect (depth + 1) files es"
| "collect_entry depth files CacheOther = Inl ()"
| "collect_entry depth files (CacheFile name digest) =
     (if has_rpm_extension name then
        (if 64 \<le> length files then Inl () else Inr (files @ [digest]))
      else Inr files)"

fun remove_digests :: "string list \<Rightarrow> string option list \<Rightarrow> unit + string list" where
  "remove_digests remaining [] = Inr remaining"
| "remove_digests remaining (None # ds) = Inl ()"
| "remove_digests remaining (Some d # ds) =
     (if d \<in> set remaining then remove_digests (remove1 d remaining) ds else Inl ())"

definition collect_root :: "cache_entry \<Rightarrow> unit + string option list" where
  "collect_root directory = (case directory of CacheDir es \<Rightarrow> collect 0 [] es | _ \<Rightarrow> Inl ())"

definition verify_payloads ::
  "release_manifest \<Rightarrow> installed_package list \<Rightarrow> cache_entry \<Rightarrow> unit + unit" where
  "verify_payloads m installed directory =
     (if mf_package_migration m = None then Inr ()
      else rbind (map_err (\<lambda>_. ()) (pending_migration m installed)) (\<lambda>pending.
        let remaining = remdups (map pm_sha256 pending) in
        if length remaining \<noteq> length pending \<or> remaining = [] then Inl ()
        else rbind (collect_root directory) (\<lambda>files.
          rbind (remove_digests remaining files) (\<lambda>left.
            if left \<noteq> [] then Inl () else Inr ()))))"

section \<open>The installed packages after a transaction\<close>

definition previous_package :: "package_change \<Rightarrow> string \<Rightarrow> string \<Rightarrow> installed_package" where
  "previous_package c version vendor =
     \<lparr>ip_name = pc_name c, ip_version = version, ip_architecture = pc_architecture c, ip_vendor = vendor\<rparr>"

fun expected_packages ::
  "installed_package list \<Rightarrow> installed_package list \<Rightarrow> package_change list \<Rightarrow>
   unit + installed_package list \<times> installed_package list" where
  "expected_packages required allowed [] = Inr (required, allowed)"
| "expected_packages required allowed (c # cs) =
     rbind (case current_version c of
         None \<Rightarrow> Inr (required, allowed)
       | Some version \<Rightarrow> rbind (ok_or (current_vendor c) ()) (\<lambda>vendor.
           let previous = previous_package c version vendor in
           if previous \<notin> set required then Inl ()
           else Inr (removeAll previous required,
                     if pc_action c = Remove then removeAll previous allowed else allowed)))
       (\<lambda>(required, allowed).
     rbind (case proposed_version c of
         None \<Rightarrow> Inr (required, allowed)
       | Some version \<Rightarrow> rbind (ok_or (proposed_vendor c) ()) (\<lambda>vendor.
           let proposed = previous_package c version vendor in
           Inr (proposed # required, proposed # allowed)))
       (\<lambda>(required, allowed). expected_packages required allowed cs))"

definition verify_result :: "upgrade_plan \<Rightarrow> inventory_report \<Rightarrow> unit + unit" where
  "verify_result plan report =
     (if pl_schema_version plan \<noteq> 3 \<or> pl_installed_packages plan = [] then Inl ()
      else rbind (expected_packages (pl_installed_packages plan) (pl_installed_packages plan) (package_changes plan))
        (\<lambda>(required, allowed).
          let actual = set (iv_installed_packages report) in
          if (pl_operation plan = PackageMigration \<and> actual \<noteq> set required)
             \<or> \<not> set required \<subseteq> actual \<or> \<not> actual \<subseteq> set allowed
          then Inl () else Inr ()))"

section \<open>Planning\<close>

record planned_update =
  pu_facts :: host_facts
  pu_solver :: solver_result
  pu_preflight :: preflight_report
  pu_plan :: upgrade_plan
  pu_plan_sha256 :: string
  pu_manifest :: "release_manifest option"

datatype planner_error =
    PlanMoved | PlanMigration migration_error | PlanDiscovery | PlanSpawn | SolverExit "int option"
  | SolverXml | VendorMetadata | PlanPreflight "preflight_issue list" | PlanInvalid plan_error
  | PlanSerialize | PlanRepositoryKey

type_synonym command_output = "int option \<times> string"

definition success :: "command_output \<Rightarrow> bool" where
  "success output = (fst output = Some 0)"

record planning_view =
  pv_simulation :: bool
  pv_facts :: "host_facts option"
  pv_installed_early :: "installed_package list option"
  pv_installed :: "installed_package list option"
  pv_repository_key :: "repository_transition \<Rightarrow> bool"
  pv_repository_file :: "repository_transition \<Rightarrow> bool"
  pv_zypper :: "string list \<Rightarrow> command_output option"
  pv_parse_solver_xml :: "string \<Rightarrow> string list \<Rightarrow> solver_result option"
  pv_enrich_solver_vendors :: "solver_result \<Rightarrow> solver_result option"

type_synonym plan_digest = "upgrade_plan \<Rightarrow> string option"
type_synonym manifest_digest = "release_manifest \<Rightarrow> string option"

definition run_zypper :: "planning_view \<Rightarrow> string list \<Rightarrow> planner_error + string" where
  "run_zypper view args =
     rbind (ok_or (pv_zypper view args) PlanSpawn) (\<lambda>output.
       if \<not> success output then Inl (SolverExit (fst output)) else Inr (snd output))"

definition discovered_facts :: "planning_view \<Rightarrow> planner_error + host_facts" where
  "discovered_facts view =
     rbind (ok_or (pv_facts view) PlanDiscovery) (\<lambda>facts.
     rbind (ok_or (pv_installed view) VendorMetadata) (\<lambda>packages.
       Inr (facts\<lparr>hf_installed_packages := packages\<rparr>)))"

definition solved :: "planning_view \<Rightarrow> string \<Rightarrow> string list \<Rightarrow> planner_error + solver_result" where
  "solved view xml repositories =
     rbind (ok_or (pv_parse_solver_xml view xml repositories) SolverXml) (\<lambda>solver.
       ok_or (pv_enrich_solver_vendors view solver) VendorMetadata)"

definition manifest_policy :: "release_manifest \<Rightarrow> preflight_policy" where
  "manifest_policy m = default_policy\<lparr>pp_minimum_free_space_bytes := mf_minimum_free_space_bytes m\<rparr>"

definition plan_update_with_cached_metadata ::
  "plan_digest \<Rightarrow> planning_view \<Rightarrow> planner_error + planned_update" where
  "plan_update_with_cached_metadata sha view =
     (if \<not> pv_simulation view then Inl PlanSpawn
      else rbind (discovered_facts view) (\<lambda>facts.
      rbind (run_zypper view [''--xmlout'', ''--non-interactive'', ''--no-refresh'', ''update'', ''--dry-run'',
          ''--details'', ''--no-allow-downgrade'', ''--no-allow-name-change'', ''--no-allow-arch-change'',
          ''--no-allow-vendor-change'']) (\<lambda>xml.
      rbind (solved view xml (map rf_alias (filter (\<lambda>r. rf_enabled r \<and> rf_signing_key_trusted r)
          (hf_repositories facts)))) (\<lambda>solver.
        let preflight = evaluate_solver_preflight facts default_policy solver default_solver_policy in
        if \<not> passed preflight then Inl (PlanPreflight (pr_blockers preflight))
        else rbind (map_err PlanInvalid (build_plan UpdateWithinRelease facts preflight None None solver)) (\<lambda>plan.
          rbind (ok_or (sha plan) PlanSerialize) (\<lambda>plan_sha256.
            Inr \<lparr>pu_facts = facts, pu_solver = solver, pu_preflight = preflight, pu_plan = plan,
                 pu_plan_sha256 = plan_sha256, pu_manifest = None\<rparr>))))))"

fun prepare_repositories :: "planning_view \<Rightarrow> repository_transition list \<Rightarrow> planner_error + unit" where
  "prepare_repositories view [] = Inr ()"
| "prepare_repositories view (r # rs) =
     (if \<not> pv_repository_key view r then Inl PlanRepositoryKey
      else if \<not> pv_repository_file view r then Inl PlanSpawn
      else prepare_repositories view rs)"

definition plan_release_upgrade ::
  "plan_digest \<Rightarrow> manifest_digest \<Rightarrow> planning_view \<Rightarrow> release_manifest \<Rightarrow> planner_error + planned_update" where
  "plan_release_upgrade sha msha view m =
     (if \<not> pv_simulation view then Inl PlanSpawn
      else rbind (prepare_repositories view (mf_repositories m)) (\<lambda>_.
      rbind (run_zypper view [''--non-interactive'', ''refresh'']) (\<lambda>_.
      rbind (ok_or (pv_installed_early view) VendorMetadata) (\<lambda>installed.
      rbind (map_err PlanMigration (transaction_arguments m installed ModePlan)) (\<lambda>arguments.
      rbind (run_zypper view ([''--non-interactive'', ''--xmlout'', ''--no-refresh''] @ arguments)) (\<lambda>xml.
      rbind (discovered_facts view) (\<lambda>facts.
      rbind (solved view xml (map rt_alias (mf_repositories m))) (\<lambda>solver.
      rbind (map_err PlanMigration (validate_migration_plan m (hf_installed_packages facts) (changes solver))) (\<lambda>_.
        let preflight = evaluate_solver_preflight facts (manifest_policy m) solver (manifest_solver_policy m) in
        if \<not> passed preflight then Inl (PlanPreflight (pr_blockers preflight))
        else rbind (ok_or (msha m) PlanSerialize) (\<lambda>manifest_sha256.
          rbind (map_err PlanInvalid (build_plan (manifest_operation m) facts preflight (Some (mf_target m))
              (Some manifest_sha256) solver)) (\<lambda>plan.
          rbind (ok_or (sha plan) PlanSerialize) (\<lambda>plan_sha256.
            Inr \<lparr>pu_facts = facts, pu_solver = solver, pu_preflight = preflight, pu_plan = plan,
                 pu_plan_sha256 = plan_sha256, pu_manifest = Some m\<rparr>))))))))))))"

section \<open>Confirmed plans\<close>

definition check_confirmed_release_plan ::
  "plan_digest \<Rightarrow> manifest_digest \<Rightarrow> release_manifest \<Rightarrow> upgrade_plan \<Rightarrow> string \<Rightarrow> planner_error + unit" where
  "check_confirmed_release_plan sha msha m confirmed expected_hash =
     rbind (ok_or (msha m) PlanSerialize) (\<lambda>manifest_hash.
       if pl_operation confirmed \<noteq> manifest_operation m
          \<or> pl_source confirmed \<noteq> mf_source m
          \<or> pl_target confirmed \<noteq> Some (mf_target m)
          \<or> pl_manifest_sha256 confirmed \<noteq> Some manifest_hash
       then Inl PlanMoved
       else rbind (ok_or (sha confirmed) PlanSerialize) (\<lambda>h.
         if h \<noteq> expected_hash then Inl PlanMoved
         else rbind (map_err PlanMigration (validate_migration_plan m (pl_installed_packages confirmed)
             (package_changes confirmed))) (\<lambda>_.
           let blockers = vendor_policy_blockers (package_changes confirmed) (manifest_solver_policy m) in
           if blockers \<noteq> [] then Inl (PlanPreflight blockers) else Inr ())))"

definition revalidate_release_plan ::
  "plan_digest \<Rightarrow> manifest_digest \<Rightarrow> host_facts \<Rightarrow> solver_result \<Rightarrow> release_manifest \<Rightarrow> upgrade_plan \<Rightarrow> string \<Rightarrow>
   planner_error + unit" where
  "revalidate_release_plan sha msha facts solver m confirmed expected_hash =
     rbind (check_confirmed_release_plan sha msha m confirmed expected_hash) (\<lambda>_.
     rbind (map_err PlanMigration (validate_migration_plan m (hf_installed_packages facts) (changes solver))) (\<lambda>_.
       let report = evaluate_solver_preflight facts (manifest_policy m) solver (manifest_solver_policy m) in
       if \<not> passed report then Inl (PlanPreflight (pr_blockers report))
       else rbind (map_err PlanInvalid (build_plan (manifest_operation m) facts report (Some (mf_target m))
           (pl_manifest_sha256 confirmed) solver)) (\<lambda>rebuilt.
         rbind (ok_or (sha (rebuilt\<lparr>pl_required_bytes := pl_required_bytes confirmed\<rparr>)) PlanSerialize) (\<lambda>h.
           if h \<noteq> expected_hash then Inl PlanMoved else Inr ()))))"

section \<open>Lemmas\<close>

lemma remove_digests_mset:
  "remove_digests remaining files = Inr left \<Longrightarrow> \<exists>ds. files = map Some ds \<and> mset remaining = mset ds + mset left"
proof (induction remaining files arbitrary: left rule: remove_digests.induct)
  case (3 remaining d ds)
  then have d: "d \<in> set remaining" and run: "remove_digests (remove1 d remaining) ds = Inr left"
    by (auto split: if_splits)
  from 3(1) [OF d run] obtain es where es: "ds = map Some es" "mset (remove1 d remaining) = mset es + mset left" by blast
  have "mset remaining = add_mset d (mset (remove1 d remaining))" using d by simp
  also have "\<dots> = add_mset d (mset es + mset left)" unfolding es(2) ..
  finally have "mset remaining = mset (d # es) + mset left" by simp
  with es(1) show ?case by (intro exI [of _ "d # es"]) simp
qed auto

lemma verify_payloads_exact:
  assumes "verify_payloads m installed directory = Inr ()" and "mf_package_migration m \<noteq> None"
  obtains pending ds where "pending_migration m installed = Inr pending" and "pending \<noteq> []"
    and "collect_root directory = Inr (map Some ds)" and "mset ds = mset (map pm_sha256 pending)"
    and "distinct (map pm_sha256 pending)"
proof -
  from assms(1) [unfolded verify_payloads_def Let_def] assms(2) obtain pending files where p: "pending_migration m installed = Inr pending"
    and len: "length (remdups (map pm_sha256 pending)) = length pending" and ne: "remdups (map pm_sha256 pending) \<noteq> []"
    and f: "collect_root directory = Inr files" and r: "remove_digests (remdups (map pm_sha256 pending)) files = Inr []"
    by (simp only: if_False rbind_Inr_iff guard_Inr_iff map_err_Inr_iff de_Morgan_disj not_not) blast
  from len have d: "distinct (map pm_sha256 pending)" using length_remdups_eq [of "map pm_sha256 pending"] by simp
  from remove_digests_mset [OF r] obtain ds where ds: "files = map Some ds"
    "mset (remdups (map pm_sha256 pending)) = mset ds" by auto
  show thesis
    by (rule that [OF p _ _ _ d]) (use f ds d ne in \<open>auto simp: distinct_remdups_id\<close>)
qed

text \<open>The identities a list of changes starts from and leads to.\<close>

definition previous_of :: "package_change \<Rightarrow> installed_package option" where
  "previous_of c = (case (current_version c, current_vendor c) of
      (Some v, Some w) \<Rightarrow> Some (previous_package c v w) | _ \<Rightarrow> None)"

definition proposed_of :: "package_change \<Rightarrow> installed_package option" where
  "proposed_of c = (case (proposed_version c, proposed_vendor c) of
      (Some v, Some w) \<Rightarrow> Some (previous_package c v w) | _ \<Rightarrow> None)"

lemma expected_packages_Cons:
  assumes "expected_packages required allowed (c # cs) = Inr (r, a)"
  obtains required' allowed' where "expected_packages required' allowed' cs = Inr (r, a)"
    and "set required' = (set required - set_option (previous_of c)) \<union> set_option (proposed_of c)"
    and "set allowed' \<subseteq> set allowed \<union> set_option (proposed_of c)"
proof -
  from assms obtain r1 a1 r2 a2 where
    1: "(case current_version c of
         None \<Rightarrow> Inr (required, allowed)
       | Some version \<Rightarrow> rbind (ok_or (current_vendor c) ()) (\<lambda>vendor.
           let previous = previous_package c version vendor in
           if previous \<notin> set required then Inl ()
           else Inr (removeAll previous required,
                     if pc_action c = Remove then removeAll previous allowed else allowed))) = Inr (r1, a1)"
    and 2: "(case proposed_version c of
         None \<Rightarrow> Inr (r1, a1)
       | Some version \<Rightarrow> rbind (ok_or (proposed_vendor c) ()) (\<lambda>vendor.
           let proposed = previous_package c version vendor in
           Inr (proposed # r1, proposed # a1))) = Inr (r2, a2)"
    and 3: "expected_packages r2 a2 cs = Inr (r, a)"
    by (auto simp: rbind_Inr_iff)
  have "set r1 = set required - set_option (previous_of c)" "set a1 \<subseteq> set allowed"
    using 1 by (auto simp: previous_of_def Let_def rbind_Inr_iff ok_or_Inr_iff split: option.splits if_splits)
  moreover have "set r2 = set r1 \<union> set_option (proposed_of c)" "set a2 = set a1 \<union> set_option (proposed_of c)"
    using 2 by (auto simp: proposed_of_def Let_def rbind_Inr_iff ok_or_Inr_iff split: option.splits)
  ultimately show thesis using that [OF 3] by blast
qed

lemma expected_packages_bounds:
  "expected_packages required allowed cs = Inr (r, a) \<Longrightarrow>
     set required - (\<Union>c\<in>set cs. set_option (previous_of c)) \<subseteq> set r \<and>
     (\<Union>c\<in>set cs. set_option (proposed_of c)) - (\<Union>c\<in>set cs. set_option (previous_of c)) \<subseteq> set r \<and>
     set a \<subseteq> set allowed \<union> (\<Union>c\<in>set cs. set_option (proposed_of c))"
proof (induction cs arbitrary: required allowed)
  case (Cons c cs)
  from Cons.prems obtain required' allowed' where run: "expected_packages required' allowed' cs = Inr (r, a)"
    and req: "set required' = (set required - set_option (previous_of c)) \<union> set_option (proposed_of c)"
    and all: "set allowed' \<subseteq> set allowed \<union> set_option (proposed_of c)"
    by (rule expected_packages_Cons)
  from Cons.IH [OF run] req all show ?case by auto
qed simp

lemma check_confirmed_Inr_iff:
  "(check_confirmed_release_plan sha msha m confirmed h = Inr ()) =
     (\<exists>mh. msha m = Some mh \<and> pl_operation confirmed = manifest_operation m \<and> pl_source confirmed = mf_source m \<and>
        pl_target confirmed = Some (mf_target m) \<and> pl_manifest_sha256 confirmed = Some mh \<and> sha confirmed = Some h \<and>
        validate_migration_plan m (pl_installed_packages confirmed) (package_changes confirmed) = Inr () \<and>
        vendor_policy_blockers (package_changes confirmed) (manifest_solver_policy m) = [])"
  unfolding check_confirmed_release_plan_def Let_def
  by (simp only: rbind_Inr_iff ok_or_Inr_iff guard_Inr_iff map_err_Inr_iff ex_unit_iff de_Morgan_disj not_not
      conj_assoc simp_thms) metis

lemma revalidate_Inr_iff:
  "(revalidate_release_plan sha msha facts solver m confirmed h = Inr ()) =
     (check_confirmed_release_plan sha msha m confirmed h = Inr () \<and>
      validate_migration_plan m (hf_installed_packages facts) (changes solver) = Inr () \<and>
      passed (evaluate_solver_preflight facts (manifest_policy m) solver (manifest_solver_policy m)) \<and>
      (\<exists>rebuilt. build_plan (manifest_operation m) facts
           (evaluate_solver_preflight facts (manifest_policy m) solver (manifest_solver_policy m))
           (Some (mf_target m)) (pl_manifest_sha256 confirmed) solver = Inr rebuilt \<and>
         sha (rebuilt\<lparr>pl_required_bytes := pl_required_bytes confirmed\<rparr>) = Some h))"
  unfolding revalidate_release_plan_def Let_def
  by (simp only: rbind_Inr_iff ok_or_Inr_iff guard_Inr_iff map_err_Inr_iff ex_unit_iff not_not conj_assoc) metis

section \<open>Properties\<close>

text \<open>
  Revalidation binds the transaction: if revalidation of a confirmed plan succeeds against
  fresh facts and a fresh solver run, and the digest does not identify different plans, then the
  fresh transaction, the installed packages and the repositories are those of the confirmed plan,
  the host is ready for it and the signed policy allows it.
\<close>

theorem revalidation_binds_transaction:
  assumes "revalidate_release_plan sha msha facts solver m confirmed h = Inr ()"
    and "\<forall>p q. sha p = Some h \<longrightarrow> sha q = Some h \<longrightarrow> p = q"
  shows "sort_key change_key (changes solver) = package_changes confirmed \<and>
    sort_key package_key (hf_installed_packages facts) = pl_installed_packages confirmed \<and>
    sort_key rf_alias (hf_repositories facts) = pl_repositories confirmed \<and>
    hf_release facts = mf_source m \<and>
    host_ready (enrich_facts facts solver) (manifest_policy m) \<and>
    transaction_allowed solver (manifest_solver_policy m)"
proof -
  from assms(1)[unfolded revalidate_Inr_iff] obtain rebuilt where
    conf: "check_confirmed_release_plan sha msha m confirmed h = Inr ()"
    and pass: "passed (evaluate_solver_preflight facts (manifest_policy m) solver (manifest_solver_policy m))"
    and build: "build_plan (manifest_operation m) facts
           (evaluate_solver_preflight facts (manifest_policy m) solver (manifest_solver_policy m))
           (Some (mf_target m)) (pl_manifest_sha256 confirmed) solver = Inr rebuilt"
    and hash: "sha (rebuilt\<lparr>pl_required_bytes := pl_required_bytes confirmed\<rparr>) = Some h"
    by blast
  from conf have "sha confirmed = Some h" and src: "pl_source confirmed = mf_source m"
    by (auto simp: check_confirmed_Inr_iff)
  with assms(2) hash have eq: "confirmed = rebuilt\<lparr>pl_required_bytes := pl_required_bytes confirmed\<rparr>" by blast
  have "package_changes confirmed = package_changes rebuilt" "pl_installed_packages confirmed = pl_installed_packages rebuilt"
    "pl_repositories confirmed = pl_repositories rebuilt" "pl_source confirmed = pl_source rebuilt"
    by (subst eq, simp)+
  moreover have "package_changes rebuilt = sort_key change_key (changes solver)"
    "pl_installed_packages rebuilt = sort_key package_key (hf_installed_packages facts)"
    "pl_repositories rebuilt = sort_key rf_alias (hf_repositories facts)" "pl_source rebuilt = hf_release facts"
    using build by (simp_all add: build_plan_Inr_iff)
  ultimately show ?thesis using pass src by (simp add: solver_preflight_passed_iff)
qed

definition example_migration_facts :: host_facts where
  "example_migration_facts = example_facts\<lparr>hf_installed_packages := example_installed,
     hf_repositories := [\<lparr>rf_alias = ''oss'', rf_enabled = True, rf_official = True, rf_metadata_valid = True,
       rf_signing_key_trusted = True\<rparr>]\<rparr>"

definition example_migration_solver :: solver_result where
  "example_migration_solver = example_solution\<lparr>changes := [example_change]\<rparr>"

definition example_plan :: upgrade_plan where
  "example_plan = \<lparr>pl_schema_version = 3, pl_operation = PackageMigration, pl_source = example_release,
     pl_target = Some example_release, pl_manifest_sha256 = Some (replicate 64 CHR ''b''), pl_required_bytes = 7,
     pl_facts = [(''root_filesystem'', ''btrfs''), (''secure_boot'', ''true'')],
     pl_repositories = hf_repositories example_migration_facts,
     pl_metadata_valid_repositories = [''extra'', ''oss''], pl_third_party_repositories = [],
     pl_held_packages = [''a'', ''b''], pl_installed_packages = example_installed, pl_orphaned_packages = [],
     package_changes = [example_change], pl_reboot_required = True\<rparr>"

definition example_sha :: plan_digest where
  "example_sha p = (if p = example_plan then Some ''h'' else None)"

theorem revalidation_binds_transaction_witness:
  "revalidate_release_plan example_sha (\<lambda>_. Some (replicate 64 CHR ''b'')) example_migration_facts
     example_migration_solver example_manifest example_plan ''h'' = Inr () \<and>
   sort_key change_key (changes example_migration_solver) = package_changes example_plan"
proof -
  have "revalidate_release_plan example_sha (\<lambda>_. Some (replicate 64 CHR ''b'')) example_migration_facts
     example_migration_solver example_manifest example_plan ''h'' = Inr ()" by code_simp
  with revalidation_binds_transaction [OF this] show ?thesis by (simp add: example_sha_def split: if_splits)
qed

text \<open>
  What a transaction may leave behind: every confirmed package that no change replaces or removes, in its exact version, architecture
  and vendor, every proposed package that no change replaces again, and nothing that was neither there before nor proposed.
\<close>

definition as_planned :: "upgrade_plan \<Rightarrow> installed_package set \<Rightarrow> bool" where
  "as_planned plan actual =
     (let previous = (\<Union>c\<in>set (package_changes plan). set_option (previous_of c));
          proposed = (\<Union>c\<in>set (package_changes plan). set_option (proposed_of c)) in
      set (pl_installed_packages plan) - previous \<subseteq> actual \<and> proposed - previous \<subseteq> actual \<and>
      actual \<subseteq> set (pl_installed_packages plan) \<union> proposed)"

lemma result_matches_plan:
  assumes "verify_result plan report = Inr ()"
  shows "as_planned plan (set (iv_installed_packages report))"
proof -
  from assms obtain r a where e: "expected_packages (pl_installed_packages plan) (pl_installed_packages plan)
      (package_changes plan) = Inr (r, a)"
    and sub: "set r \<subseteq> set (iv_installed_packages report)" "set (iv_installed_packages report) \<subseteq> set a"
    by (auto simp: verify_result_def rbind_Inr_iff Let_def split: if_splits)
  from expected_packages_bounds [OF e] sub show ?thesis unfolding as_planned_def Let_def by blast
qed

definition example_report :: inventory_report where
  "example_report = \<lparr>iv_schema_version = 1, iv_installed_packages = [\<lparr>ip_name = ''bash'', ip_version = ''2'',
     ip_architecture = ''x86_64'', ip_vendor = ''B''\<rparr>], iv_configuration_artifacts = []\<rparr>"

text \<open>
  Planning, download and application run the same command: the arguments differ only in the
  flag for a dry run or a mere download, all of them forbid downgrades and changes of name or
  architecture, and a migration names exactly the pending packages with their target versions.
\<close>

theorem transaction_modes_agree:
  assumes "transaction_arguments m installed ModeApply = Inr args"
  shows "\<exists>pre post. args = pre @ post \<and>
    transaction_arguments m installed ModePlan = Inr (pre @ [''--dry-run''] @ post) \<and>
    transaction_arguments m installed ModeDownload = Inr (pre @ [''--download-only''] @ post) \<and>
    {''--no-allow-downgrade'', ''--no-allow-name-change'', ''--no-allow-arch-change''} \<subseteq> set post \<and>
    (mf_package_migration m \<noteq> None \<longrightarrow> (\<exists>pending policy. pending_migration m installed = Inr pending \<and> pending \<noteq> [] \<and>
       post = policy @ ''--'' # map (\<lambda>p. pm_name p @ ''.'' @ pm_architecture p @ ''='' @ pm_to_version p) pending))"
proof (cases "mf_package_migration m")
  case None
  with assms show ?thesis
    by (intro exI [of _ "[''dist-upgrade'']"] exI [of _ "tl args"]) (auto simp: transaction_arguments_def)
next
  case (Some ps)
  with assms obtain pending where p: "pending_migration m installed = Inr pending" "pending \<noteq> []"
    by (auto simp: transaction_arguments_def rbind_Inr_iff split: if_splits)
  with assms Some show ?thesis
    by (intro exI [of _ "[''install'', ''--name'', ''--no-recommends'', ''--from'', pm_repository_alias (hd pending)]"]
        exI [of _ "drop 5 args"]) (auto simp: transaction_arguments_def)
qed

theorem transaction_modes_agree_witness:
  "\<exists>args. transaction_arguments example_manifest example_installed ModeApply = Inr args \<and>
    (\<exists>pre post. args = pre @ post \<and> transaction_arguments example_manifest example_installed ModePlan = Inr (pre @ [''--dry-run''] @ post))"
proof -
  have "is_ok (transaction_arguments example_manifest example_installed ModeApply)" by code_simp
  then obtain args where run: "transaction_arguments example_manifest example_installed ModeApply = Inr args"
    by (auto simp: is_ok_iff)
  from transaction_modes_agree [OF this] run show ?thesis by blast
qed

text \<open>
  Only authorised packages reach an offline migration: when the payload check succeeds, the
  digests of the cached RPM files are, each exactly once, the digests the manifest names for the
  pending packages; an extra, missing, altered or duplicate file is refused.
\<close>

theorem payloads_are_exactly_authorized:
  assumes "verify_payloads m installed directory = Inr ()" and "mf_package_migration m \<noteq> None"
  shows "\<exists>pending ds. pending_migration m installed = Inr pending \<and> pending \<noteq> [] \<and>
    collect_root directory = Inr (map Some ds) \<and> distinct ds \<and> mset ds = mset (map pm_sha256 pending)"
proof (rule verify_payloads_exact [OF assms])
  fix pending ds
  assume *: "pending_migration m installed = Inr pending" "pending \<noteq> []" "collect_root directory = Inr (map Some ds)"
    "mset ds = mset (map pm_sha256 pending)" "distinct (map pm_sha256 pending)"
  have "distinct ds" using *(4,5) by (metis mset_eq_imp_distinct_iff)
  with * show ?thesis by blast
qed

theorem payloads_are_exactly_authorized_witness:
  "\<exists>ds. collect_root (CacheDir [CacheDir [CacheFile ''bash.rpm'' (Some (replicate 64 CHR ''a''))], CacheFile ''readme'' None]) =
    Inr (map Some ds) \<and> distinct ds"
proof -
  have "verify_payloads example_manifest example_installed
    (CacheDir [CacheDir [CacheFile ''bash.rpm'' (Some (replicate 64 CHR ''a''))], CacheFile ''readme'' None]) = Inr ()" by code_simp
  moreover have "mf_package_migration example_manifest \<noteq> None" by (simp add: example_manifest_def)
  ultimately show ?thesis using payloads_are_exactly_authorized by blast
qed

end
