(* ===== verification/File_System.thy ===== *)
theory File_System
  imports Rust_Str "HOL-Library.Sublist"
begin

text \<open>
  The part of the Linux file system and of \<open>std::fs\<close> that the sources rely on. The file system is a
  map from physical paths to nodes. System calls resolve symbolic links in every component but
  (where the call does not follow the last link) the last one. Each call first consumes an entry
  of the fault schedule, so that any call can fail (with EIO) or the process can be stopped in front of it,
  and every change keeps the earlier file systems that a power cut can still bring back.

  \<open>act\<close> is the type of effectful code: the outcome is a value, an error the caller sees, or the
  end of the process. Directory changes reach the disk in order (the journal of the file system),
  and the bytes of a file reach it at the latest with \<open>sync_all\<close>.
\<close>

named_theorems act_simps \<open>how a chain of effects can end\<close>

section \<open>Nodes, worlds and outcomes\<close>

type_synonym path = "string list"

datatype node =
    Dir nat u32
  | File nat u32 string bool
  | Link bool path
  | Special nat

text \<open>
  \<open>Dir uid mode\<close>, \<open>File uid mode bytes synced\<close>, \<open>Link absolute target\<close>, and any other kind of node.
\<close>

type_synonym fs = "path \<Rightarrow> node option"

datatype io_error = ENOENT | EEXIST | ENOTDIR | EISDIR | ELOOP | EINVAL | EIO

datatype fault = Go | Fail | Stop

record world =
  w_fs :: fs
  w_older :: "fs list"
  w_euid :: nat
  w_umask :: u32
  w_faults :: "fault list"

datatype ('e, 'a) outcome = Done 'a | Raised 'e | Stopped

type_synonym ('e, 'a) act = "world \<Rightarrow> ('e, 'a) outcome \<times> world"

definition ret :: "'a \<Rightarrow> ('e, 'a) act" where
  "ret a = (\<lambda>w. (Done a, w))"

definition throw :: "'e \<Rightarrow> ('e, 'a) act" where
  "throw e = (\<lambda>w. (Raised e, w))"

definition abind :: "('e, 'a) act \<Rightarrow> ('a \<Rightarrow> ('e, 'b) act) \<Rightarrow> ('e, 'b) act" where
  "abind m f = (\<lambda>w. case m w of
      (Done a, w') \<Rightarrow> f a w' | (Raised e, w') \<Rightarrow> (Raised e, w') | (Stopped, w') \<Rightarrow> (Stopped, w'))"

text \<open>\<open>match\<close> on a \<open>Result\<close>: the continuation sees the error as a value.\<close>

definition attempt :: "('e, 'a) act \<Rightarrow> ('e + 'a \<Rightarrow> ('f, 'b) act) \<Rightarrow> ('f, 'b) act" where
  "attempt m f = (\<lambda>w. case m w of
      (Done a, w') \<Rightarrow> f (Inr a) w' | (Raised e, w') \<Rightarrow> f (Inl e) w' | (Stopped, w') \<Rightarrow> (Stopped, w'))"

definition raise_as :: "('e \<Rightarrow> 'f) \<Rightarrow> ('e, 'a) act \<Rightarrow> ('f, 'a) act" where
  "raise_as g m = attempt m (\<lambda>r. case r of Inl e \<Rightarrow> throw (g e) | Inr a \<Rightarrow> ret a)"

definition of_result :: "'e + 'a \<Rightarrow> ('e, 'a) act" where
  "of_result r = (case r of Inl e \<Rightarrow> throw e | Inr a \<Rightarrow> ret a)"

definition query :: "(fs \<Rightarrow> io_error + 'a) \<Rightarrow> (io_error, 'a) act" where
  "query op = (\<lambda>w. case w_faults w of
      Stop # _ \<Rightarrow> (Stopped, w)
    | Fail # rest \<Rightarrow> (Raised EIO, w\<lparr>w_faults := rest\<rparr>)
    | sched \<Rightarrow> (case op (w_fs w) of
        Inl e \<Rightarrow> (Raised e, w\<lparr>w_faults := tl sched\<rparr>)
      | Inr a \<Rightarrow> (Done a, w\<lparr>w_faults := tl sched\<rparr>)))"

definition mutate :: "(world \<Rightarrow> io_error + fs) \<Rightarrow> (io_error, unit) act" where
  "mutate op = (\<lambda>w. case w_faults w of
      Stop # _ \<Rightarrow> (Stopped, w)
    | Fail # rest \<Rightarrow> (Raised EIO, w\<lparr>w_faults := rest\<rparr>)
    | sched \<Rightarrow> (case op w of
        Inl e \<Rightarrow> (Raised e, w\<lparr>w_faults := tl sched\<rparr>)
      | Inr fs' \<Rightarrow> (Done (), w\<lparr>w_fs := fs', w_older := w_fs w # w_older w, w_faults := tl sched\<rparr>)))"

section \<open>Path resolution\<close>

text \<open>
  \<open>walk n fs d cs\<close> resolves the components \<open>cs\<close> from the physical directory \<open>d\<close> and follows at
  most \<open>n\<close> symbolic links, of which Linux allows forty.
\<close>

fun is_dir :: "node option \<Rightarrow> bool" where
  "is_dir (Some (Dir _ _)) = True"
| "is_dir _ = False"

fun link_of :: "node option \<Rightarrow> (bool \<times> path) option" where
  "link_of (Some (Link absolute target)) = Some (absolute, target)"
| "link_of _ = None"

function walk :: "nat \<Rightarrow> fs \<Rightarrow> path \<Rightarrow> path \<Rightarrow> io_error + path" where
  "walk n fs d [] = Inr d"
| "walk n fs d (c # cs) =
     (if \<not> is_dir (fs d) then Inl (if fs d = None then ENOENT else ENOTDIR)
      else if c = ''..'' then walk n fs (butlast d) cs
      else if fs (d @ [c]) = None then Inl ENOENT
      else (case link_of (fs (d @ [c])) of
          None \<Rightarrow> walk n fs (d @ [c]) cs
        | Some (absolute, target) \<Rightarrow>
            (case n of 0 \<Rightarrow> Inl ELOOP | Suc n' \<Rightarrow> walk n' fs (if absolute then [] else d) (target @ cs))))"
  by pat_completeness auto
termination by (relation "measures [\<lambda>(n, fs, d, cs). n, \<lambda>(n, fs, d, cs). length cs]") auto

definition MAX_LINKS :: nat where
  "MAX_LINKS = 40"

text \<open>The physical name a path stands for when its last component is not followed.\<close>

definition locate :: "fs \<Rightarrow> path \<Rightarrow> io_error + path" where
  "locate fs p = (if p = [] then Inr []
     else rbind (walk MAX_LINKS fs [] (butlast p)) (\<lambda>d.
       if is_dir (fs d) then Inr (d @ [last p]) else Inl (if fs d = None then ENOENT else ENOTDIR)))"

definition node_at :: "fs \<Rightarrow> path \<Rightarrow> io_error + node" where
  "node_at fs p = rbind (locate fs p) (\<lambda>q. ok_or (fs q) ENOENT)"

definition resolve :: "fs \<Rightarrow> path \<Rightarrow> io_error + path" where
  "resolve fs p = walk MAX_LINKS fs [] p"

section \<open>System calls\<close>

definition geteuid :: "('e, nat) act" where
  "geteuid = (\<lambda>w. (Done (w_euid w), w))"

definition symlink_metadata :: "path \<Rightarrow> (io_error, node) act" where
  "symlink_metadata p = query (\<lambda>fs. node_at fs p)"

definition create_dir :: "path \<Rightarrow> (io_error, unit) act" where
  "create_dir p = mutate (\<lambda>w. rbind (locate (w_fs w) p) (\<lambda>q.
     if w_fs w q \<noteq> None then Inl EEXIST
     else Inr ((w_fs w)(q \<mapsto> Dir (w_euid w) (and 0x1FF (not (w_umask w)))))))"

definition set_mode :: "u32 \<Rightarrow> node \<Rightarrow> node" where
  "set_mode m n = (case n of Dir u _ \<Rightarrow> Dir u m | File u _ c s \<Rightarrow> File u m c s | _ \<Rightarrow> n)"

definition set_permissions :: "path \<Rightarrow> u32 \<Rightarrow> (io_error, unit) act" where
  "set_permissions p m = mutate (\<lambda>w. rbind (resolve (w_fs w) p) (\<lambda>q.
     case w_fs w q of None \<Rightarrow> Inl ENOENT | Some n \<Rightarrow> Inr ((w_fs w)(q \<mapsto> set_mode m n))))"

text \<open>\<open>create_new\<close> with \<open>O_NOFOLLOW\<close>; the handle is the physical path.\<close>

definition create_new :: "path \<Rightarrow> u32 \<Rightarrow> (io_error, path) act" where
  "create_new p m = abind (mutate (\<lambda>w. rbind (locate (w_fs w) p) (\<lambda>q.
     if w_fs w q \<noteq> None then Inl EEXIST
     else Inr ((w_fs w)(q \<mapsto> File (w_euid w) (and m (not (w_umask w))) [] False)))))
     (\<lambda>_ w. case locate (w_fs w) p of Inr q \<Rightarrow> (Done q, w) | Inl e \<Rightarrow> (Raised e, w))"

definition write_byte :: "path \<Rightarrow> char \<Rightarrow> (io_error, unit) act" where
  "write_byte q c = mutate (\<lambda>w. case w_fs w q of
      Some (File u m bytes s) \<Rightarrow> Inr ((w_fs w)(q \<mapsto> File u m (bytes @ [c]) False))
    | _ \<Rightarrow> Inl EIO)"

fun write_all :: "path \<Rightarrow> string \<Rightarrow> (io_error, unit) act" where
  "write_all q [] = ret ()"
| "write_all q (c # cs) = abind (write_byte q c) (\<lambda>_. write_all q cs)"

definition sync_all :: "path \<Rightarrow> (io_error, unit) act" where
  "sync_all q = mutate (\<lambda>w. case w_fs w q of
      Some (File u m bytes s) \<Rightarrow> Inr ((w_fs w)(q \<mapsto> File u m bytes True))
    | _ \<Rightarrow> Inl EIO)"

definition rename :: "path \<Rightarrow> path \<Rightarrow> (io_error, unit) act" where
  "rename a b = mutate (\<lambda>w.
     rbind (locate (w_fs w) a) (\<lambda>p. rbind (locate (w_fs w) b) (\<lambda>q.
       case (w_fs w p, w_fs w q) of
         (None, _) \<Rightarrow> Inl ENOENT
       | (Some (Dir _ _), _) \<Rightarrow> Inl EINVAL
       | (Some _, Some (Dir _ _)) \<Rightarrow> Inl EISDIR
       | (Some n, _) \<Rightarrow> Inr ((w_fs w)(p := None, q \<mapsto> n)))))"

definition remove_file :: "path \<Rightarrow> (io_error, unit) act" where
  "remove_file p = mutate (\<lambda>w. rbind (locate (w_fs w) p) (\<lambda>q. case w_fs w q of
      None \<Rightarrow> Inl ENOENT
    | Some (Dir _ _) \<Rightarrow> Inl EISDIR
    | Some _ \<Rightarrow> Inr ((w_fs w)(q := None))))"

text \<open>Opening with \<open>O_NOFOLLOW\<close> for reading, and reading to the end.\<close>

definition read_nofollow :: "path \<Rightarrow> (io_error, string) act" where
  "read_nofollow p = query (\<lambda>fs. rbind (node_at fs p) (\<lambda>n. case n of
      File _ _ bytes _ \<Rightarrow> Inr bytes
    | Dir _ _ \<Rightarrow> Inl EISDIR
    | Link _ _ \<Rightarrow> Inl ELOOP
    | Special _ \<Rightarrow> Inl EINVAL))"

text \<open>\<open>sync_all\<close> on a directory handle: what came before cannot be lost any more.\<close>

definition sync_dir :: "path \<Rightarrow> (io_error, unit) act" where
  "sync_dir p = abind (query (\<lambda>fs. rbind (resolve fs p) (\<lambda>q. ok_or (fs q) ENOENT)))
     (\<lambda>_ w. (Done (), w\<lparr>w_older := []\<rparr>))"

section \<open>Power cuts\<close>

text \<open>
  After a power cut one of the file systems since the last synchronisation is found, and a file
  that was not synchronised holds some prefix of its bytes.
\<close>

fun torn :: "node \<Rightarrow> node \<Rightarrow> bool" where
  "torn (File u m c s) n = (\<exists>c'. n = File u m c' True \<and> (if s then c' = c else prefix c' c))"
| "torn n n' = (n' = n)"

definition torn_fs :: "fs \<Rightarrow> fs \<Rightarrow> bool" where
  "torn_fs fs fs' = (\<forall>p. rel_option torn (fs p) (fs' p))"

definition power_cut :: "world \<Rightarrow> fs \<Rightarrow> bool" where
  "power_cut w fs' = (\<exists>fs\<in>set (w_fs w # w_older w). torn_fs fs fs')"

definition quiet :: "nat \<Rightarrow> fs \<Rightarrow> world" where
  "quiet uid fs = \<lparr>w_fs = fs, w_older = [], w_euid = uid, w_umask = 0, w_faults = []\<rparr>"

section \<open>Lemmas: outcomes\<close>

lemma ret_Done [act_simps]: "(ret a w = (out, w')) = (out = Done a \<and> w' = w)"
  by (auto simp: ret_def)

lemma throw_Done [act_simps]: "(throw e w = (out, w')) = (out = Raised e \<and> w' = w)"
  by (auto simp: throw_def)

lemma abind_Done [act_simps]:
  "(abind m f w = (Done b, w')) = (\<exists>a v. m w = (Done a, v) \<and> f a v = (Done b, w'))"
  by (auto simp: abind_def split: prod.splits outcome.splits)

lemma abind_ret [simp]: "abind (ret a) f = f a"
  by (simp add: abind_def ret_def)

lemma attempt_Done [act_simps]:
  "(attempt m f w = (Done b, w')) =
     ((\<exists>a v. m w = (Done a, v) \<and> f (Inr a) v = (Done b, w')) \<or>
      (\<exists>e v. m w = (Raised e, v) \<and> f (Inl e) v = (Done b, w')))"
  by (auto simp: attempt_def split: prod.splits outcome.splits)

lemma raise_as_Done [act_simps]: "(raise_as g m w = (Done a, w')) = (m w = (Done a, w'))"
  by (auto simp: raise_as_def attempt_def ret_def throw_def split: prod.splits outcome.splits)

lemma of_result_Done [act_simps]: "(of_result r w = (Done a, w')) = (r = Inr a \<and> w' = w)"
  by (cases r) (auto simp: of_result_def ret_def throw_def)

lemma query_Done [act_simps]:
  "(query op w = (Done a, w')) =
     (op (w_fs w) = Inr a \<and> (\<forall>f fs. w_faults w = f # fs \<longrightarrow> f = Go) \<and> w' = w\<lparr>w_faults := tl (w_faults w)\<rparr>)"
  by (auto simp: query_def split: list.splits fault.splits sum.splits)

lemma query_cases:
  assumes "query op w = (out, w')"
  shows "w_fs w' = w_fs w \<and> w_older w' = w_older w \<and> w_euid w' = w_euid w \<and>
    (\<forall>a. out = Done a \<longrightarrow> op (w_fs w) = Inr a) \<and> (\<forall>e. out = Raised e \<longrightarrow> e = EIO \<or> op (w_fs w) = Inl e)"
  using assms by (auto simp: query_def split: list.splits fault.splits sum.splits)

lemma mutate_Done [act_simps]:
  "(mutate op w = (Done u, w')) =
     (\<exists>fs'. op w = Inr fs' \<and> (\<forall>f fs. w_faults w = f # fs \<longrightarrow> f = Go) \<and>
        w' = w\<lparr>w_fs := fs', w_older := w_fs w # w_older w, w_faults := tl (w_faults w)\<rparr>)"
  by (auto simp: mutate_def split: list.splits fault.splits sum.splits)

section \<open>Lemmas: which file systems an action can leave behind\<close>

text \<open>
  \<open>keeps P m\<close>: whatever happens while \<open>m\<close> runs, also when it fails or is stopped, a property of
  worlds is kept. The properties of interest do not look at the fault schedule.
\<close>

definition keeps :: "(world \<Rightarrow> bool) \<Rightarrow> ('e, 'a) act \<Rightarrow> bool" where
  "keeps P m = (\<forall>w out w'. P w \<longrightarrow> m w = (out, w') \<longrightarrow> P w')"

definition fault_blind :: "(world \<Rightarrow> bool) \<Rightarrow> bool" where
  "fault_blind P = (\<forall>w x. P (w\<lparr>w_faults := x\<rparr>) = P w)"

lemma keepsI: "(\<And>w out w'. P w \<Longrightarrow> m w = (out, w') \<Longrightarrow> P w') \<Longrightarrow> keeps P m"
  by (auto simp: keeps_def)

lemma keepsD: "keeps P m \<Longrightarrow> P w \<Longrightarrow> m w = (out, w') \<Longrightarrow> P w'"
  by (auto simp: keeps_def)

lemma keeps_ret [simp]: "keeps P (ret a)"
  by (auto simp: keeps_def ret_def)

lemma keeps_throw [simp]: "keeps P (throw e)"
  by (auto simp: keeps_def throw_def)

lemma keeps_geteuid [simp]: "keeps P geteuid"
  by (auto simp: keeps_def geteuid_def)

lemma geteuid_Done [act_simps]: "(geteuid w = (out, w')) = (out = Done (w_euid w) \<and> w' = w)"
  by (auto simp: geteuid_def)

lemma keeps_of_result [simp]: "keeps P (of_result r)"
  by (cases r) (simp_all add: of_result_def)

lemma keeps_abind:
  assumes m: "keeps P m" and f: "\<And>a. keeps P (f a)"
  shows "keeps P (abind m f)"
proof (rule keepsI)
  fix w out w'
  assume P: "P w" and run: "abind m f w = (out, w')"
  obtain o1 v where v: "m w = (o1, v)" by fastforce
  have "P v" using keepsD [OF m P v] .
  with run v show "P w'"
    by (cases o1) (auto simp: abind_def dest: keepsD [OF f])
qed

lemma keeps_attempt:
  assumes m: "keeps P m" and f: "\<And>r. keeps P (f r)"
  shows "keeps P (attempt m f)"
proof (rule keepsI)
  fix w out w'
  assume P: "P w" and run: "attempt m f w = (out, w')"
  obtain o1 v where v: "m w = (o1, v)" by fastforce
  have "P v" using keepsD [OF m P v] .
  with run v show "P w'"
    by (cases o1) (auto simp: attempt_def dest: keepsD [OF f])
qed

lemma keeps_raise_as: "keeps P m \<Longrightarrow> keeps P (raise_as g m)"
  unfolding raise_as_def by (rule keeps_attempt) (auto split: sum.splits)

lemma keeps_query: "fault_blind P \<Longrightarrow> keeps P (query op)"
  by (auto simp: keeps_def query_def fault_blind_def split: list.splits fault.splits sum.splits)

lemma mutate_cases:
  assumes "mutate op w = (out, w')"
  obtains (same) x where "w' = w\<lparr>w_faults := x\<rparr>" "out \<noteq> Done ()"
    | (change) fs' x where "op w = Inr fs'" "out = Done ()"
        "w' = (w\<lparr>w_fs := fs', w_older := w_fs w # w_older w\<rparr>)\<lparr>w_faults := x\<rparr>"
proof (cases "op w")
  case (Inl e)
  then have "\<exists>x. w' = w\<lparr>w_faults := x\<rparr> \<and> out \<noteq> Done ()"
    using assms by (auto simp: mutate_def split: list.splits fault.splits intro: exI [of _ "w_faults w"])
  then show ?thesis using same by blast
next
  case (Inr fs')
  then have "(\<exists>x. w' = w\<lparr>w_faults := x\<rparr> \<and> out \<noteq> Done ()) \<or>
      (out = Done () \<and> (\<exists>x. w' = (w\<lparr>w_fs := fs', w_older := w_fs w # w_older w\<rparr>)\<lparr>w_faults := x\<rparr>))"
    using assms by (auto simp: mutate_def split: list.splits fault.splits intro: exI [of _ "w_faults w"])
  then show ?thesis using same change Inr by blast
qed

lemma keeps_mutate:
  assumes "fault_blind P"
    and "\<And>w fs'. P w \<Longrightarrow> op w = Inr fs' \<Longrightarrow> P (w\<lparr>w_fs := fs', w_older := w_fs w # w_older w\<rparr>)"
  shows "keeps P (mutate op)"
proof (rule keepsI)
  fix w out w'
  assume P: "P w" and run: "mutate op w = (out, w')"
  from run show "P w'"
  proof (cases rule: mutate_cases)
    case (same x)
    then show ?thesis using P assms(1) unfolding fault_blind_def by blast
  next
    case (change fs' x)
    then show ?thesis using assms(2) [OF P change(1)] assms(1) unfolding fault_blind_def by blast
  qed
qed

lemma keeps_symlink_metadata: "fault_blind P \<Longrightarrow> keeps P (symlink_metadata p)"
  by (simp add: symlink_metadata_def keeps_query)

lemma keeps_read_nofollow: "fault_blind P \<Longrightarrow> keeps P (read_nofollow p)"
  by (simp add: read_nofollow_def keeps_query)

lemmas keeps_intros = keeps_abind keeps_attempt keeps_raise_as keeps_symlink_metadata keeps_read_nofollow

section \<open>Pre- and postconditions with crashes\<close>

text \<open>
  \<open>triple P m Q E\<close>: from a world with \<open>P\<close>, a value \<open>a\<close> leaves \<open>Q a\<close> behind, and an error or the end
  of the process leaves \<open>E\<close>.
\<close>

definition triple ::
  "(world \<Rightarrow> bool) \<Rightarrow> ('e, 'a) act \<Rightarrow> ('a \<Rightarrow> world \<Rightarrow> bool) \<Rightarrow> (world \<Rightarrow> bool) \<Rightarrow> bool" where
  "triple P m Q E = (\<forall>w out w'. P w \<longrightarrow> m w = (out, w') \<longrightarrow>
     (case out of Done a \<Rightarrow> Q a w' | Raised _ \<Rightarrow> E w' | Stopped \<Rightarrow> E w'))"

lemma tripleI:
  "(\<And>w out w'. P w \<Longrightarrow> m w = (out, w') \<Longrightarrow>
      (case out of Done a \<Rightarrow> Q a w' | Raised _ \<Rightarrow> E w' | Stopped \<Rightarrow> E w')) \<Longrightarrow> triple P m Q E"
  by (simp add: triple_def)

lemma triple_Done: "triple P m Q E \<Longrightarrow> P w \<Longrightarrow> m w = (Done a, w') \<Longrightarrow> Q a w'"
  unfolding triple_def by fastforce

lemma triple_not_Done: "triple P m Q E \<Longrightarrow> P w \<Longrightarrow> m w = (out, w') \<Longrightarrow> (\<And>a. out \<noteq> Done a) \<Longrightarrow> E w'"
  unfolding triple_def by (cases out) fastforce+

lemma triple_abind:
  assumes m: "triple P m R E" and f: "\<And>a. triple (R a) (f a) Q E"
  shows "triple P (abind m f) Q E"
proof (rule tripleI)
  fix w out w'
  assume P: "P w" and run: "abind m f w = (out, w')"
  obtain o1 v where v: "m w = (o1, v)" by fastforce
  show "case out of Done a \<Rightarrow> Q a w' | Raised _ \<Rightarrow> E w' | Stopped \<Rightarrow> E w'"
  proof (cases o1)
    case (Done a)
    then have "R a v" using triple_Done [OF m P] v by simp
    moreover have "f a v = (out, w')" using run v Done by (simp add: abind_def)
    ultimately show ?thesis using f [of a] by (simp add: triple_def)
  next
    case (Raised e)
    then show ?thesis using triple_not_Done [OF m P v] run v by (auto simp: abind_def)
  next
    case Stopped
    then show ?thesis using triple_not_Done [OF m P v] run v by (auto simp: abind_def)
  qed
qed

lemma triple_attempt:
  assumes m: "triple P m R E'" and ok: "\<And>a. triple (R a) (f (Inr a)) Q E"
    and err: "\<And>e. triple E' (f (Inl e)) Q E" and stop: "\<And>w. E' w \<Longrightarrow> E w"
  shows "triple P (attempt m f) Q E"
proof (rule tripleI)
  fix w out w'
  assume P: "P w" and run: "attempt m f w = (out, w')"
  obtain o1 v where v: "m w = (o1, v)" by fastforce
  show "case out of Done a \<Rightarrow> Q a w' | Raised _ \<Rightarrow> E w' | Stopped \<Rightarrow> E w'"
  proof (cases o1)
    case (Done a)
    then have "R a v" using triple_Done [OF m P] v by simp
    moreover have "f (Inr a) v = (out, w')" using run v Done by (simp add: attempt_def)
    ultimately show ?thesis using ok [of a] by (simp add: triple_def)
  next
    case (Raised e)
    then have "E' v" using triple_not_Done [OF m P v] by simp
    moreover have "f (Inl e) v = (out, w')" using run v Raised by (simp add: attempt_def)
    ultimately show ?thesis using err [of e] by (simp add: triple_def)
  next
    case Stopped
    then show ?thesis using triple_not_Done [OF m P v] stop run v by (auto simp: attempt_def)
  qed
qed

lemma triple_ret: "(\<And>w. P w \<Longrightarrow> Q a w) \<Longrightarrow> triple P (ret a) Q E"
  by (auto simp: triple_def ret_def)

lemma triple_throw: "(\<And>w. P w \<Longrightarrow> E w) \<Longrightarrow> triple P (throw e) Q E"
  by (auto simp: triple_def throw_def)

lemma triple_raise_as: "triple P m Q E \<Longrightarrow> triple P (raise_as g m) Q E"
  unfolding raise_as_def by (rule triple_attempt) (auto intro: triple_ret triple_throw)

lemma triple_of_result: "(\<And>w a. P w \<Longrightarrow> r = Inr a \<Longrightarrow> Q a w) \<Longrightarrow> (\<And>w. P w \<Longrightarrow> E w) \<Longrightarrow> triple P (of_result r) Q E"
  by (cases r) (auto simp: of_result_def intro: triple_ret triple_throw)

lemma triple_keeps: "keeps P m \<Longrightarrow> (\<And>w. P w \<Longrightarrow> E w) \<Longrightarrow> triple P m (\<lambda>_. P) E"
  unfolding triple_def keeps_def by (auto split: outcome.splits)

lemma triple_conseq:
  "triple P' m Q' E' \<Longrightarrow> (\<And>w. P w \<Longrightarrow> P' w) \<Longrightarrow> (\<And>a w. Q' a w \<Longrightarrow> Q a w) \<Longrightarrow> (\<And>w. E' w \<Longrightarrow> E w) \<Longrightarrow>
   triple P m Q E"
  unfolding triple_def by (fastforce split: outcome.splits)

text \<open>A value satisfies what is kept in any case and what is known of the value alone.\<close>

lemma triple_keeps_Done:
  assumes "keeps I m" and "\<And>w a w'. I w \<Longrightarrow> P w \<Longrightarrow> m w = (Done a, w') \<Longrightarrow> R a w'"
    and "\<And>w. I w \<Longrightarrow> E w"
  shows "triple (\<lambda>w. I w \<and> P w) m (\<lambda>a w. I w \<and> R a w) E"
  using assms unfolding triple_def keeps_def by (fastforce split: outcome.splits)

section \<open>Lemmas: resolution only looks at directories and links\<close>

text \<open>\<open>grows fs fs'\<close>: every directory and link of the first file system is in the second.\<close>

definition grows :: "fs \<Rightarrow> fs \<Rightarrow> bool" where
  "grows fs fs' = (\<forall>p. (is_dir (fs p) \<longrightarrow> is_dir (fs' p)) \<and>
     (\<forall>x. link_of (fs p) = Some x \<longrightarrow> link_of (fs' p) = Some x))"

lemma grows_refl [simp]: "grows fs fs"
  by (auto simp: grows_def)

lemma grows_trans: "grows a b \<Longrightarrow> grows b c \<Longrightarrow> grows a c"
  unfolding grows_def by metis

lemma link_of_Some [simp]: "link_of x = Some (a, t) \<longleftrightarrow> x = Some (Link a t)"
  by (cases x rule: link_of.cases) auto

lemma is_dir_Some: "is_dir x \<longleftrightarrow> (\<exists>u m. x = Some (Dir u m))"
  by (cases x rule: is_dir.cases) auto

lemma is_dir_not_link [simp]: "is_dir x \<Longrightarrow> link_of x = None"
  by (auto simp: is_dir_Some)

lemma is_dir_not_None [dest]: "is_dir x \<Longrightarrow> x \<noteq> None"
  by (auto simp: is_dir_Some)

lemma walk_dir: "walk n fs d cs = Inr q \<Longrightarrow> is_dir (fs q) \<Longrightarrow> is_dir (fs d)"
  by (cases cs) (auto split: if_splits)

lemma walk_grows:
  "walk n fs d cs = Inr q \<Longrightarrow> grows fs fs' \<Longrightarrow> is_dir (fs q) \<Longrightarrow> walk n fs' d cs = Inr q"
proof (induction n fs d cs rule: walk.induct)
  case (2 n fs d c cs)
  have d: "is_dir (fs d)" using walk_dir [OF 2(4,6)] .
  with 2(5) have d': "is_dir (fs' d)" unfolding grows_def by blast
  show ?case
  proof (cases "c = ''..''")
    case True
    then show ?thesis using 2 d d' by simp
  next
    case False
    with 2(4) d have x: "fs (d @ [c]) \<noteq> None" by (auto split: if_splits)
    show ?thesis
    proof (cases "link_of (fs (d @ [c]))")
      case None
      then have w: "walk n fs (d @ [c]) cs = Inr q" using 2(4) d False x by simp
      then have "is_dir (fs' (d @ [c]))"
        using walk_dir [OF w 2(6)] 2(5) unfolding grows_def by blast
      moreover have "walk n fs' (d @ [c]) cs = Inr q" using 2(2) d False x None w 2(5,6) by blast
      ultimately show ?thesis using d' False by auto
    next
      case (Some l)
      with 2(5) have "link_of (fs' (d @ [c])) = Some l" unfolding grows_def by blast
      with 2 d d' False x Some show ?thesis by (cases n; cases l) auto
    qed
  qed
qed simp

lemma locate_Inr_iff:
  "p \<noteq> [] \<Longrightarrow> (locate fs p = Inr q) =
     (\<exists>d. walk MAX_LINKS fs [] (butlast p) = Inr d \<and> is_dir (fs d) \<and> q = d @ [last p])"
  by (auto simp: locate_def rbind_Inr_iff)

lemma locate_grows: "locate fs p = Inr q \<Longrightarrow> grows fs fs' \<Longrightarrow> locate fs' p = Inr q"
proof (cases "p = []")
  case False
  assume l: "locate fs p = Inr q" and g: "grows fs fs'"
  from l False obtain d where w: "walk MAX_LINKS fs [] (butlast p) = Inr d"
    and d: "is_dir (fs d)" and q: "q = d @ [last p]"
    by (auto simp: locate_Inr_iff)
  have "walk MAX_LINKS fs' [] (butlast p) = Inr d" using walk_grows [OF w g d] .
  moreover have "is_dir (fs' d)" using g d unfolding grows_def by blast
  ultimately show ?thesis using False q by (simp add: locate_def)
qed (simp add: locate_def)

lemma walk_append_dir:
  "walk n fs d cs = Inr q \<Longrightarrow> is_dir (fs q) \<Longrightarrow> c \<noteq> ''..'' \<Longrightarrow>
   fs (q @ [c]) \<noteq> None \<Longrightarrow> link_of (fs (q @ [c])) = None \<Longrightarrow> walk n fs d (cs @ [c]) = Inr (q @ [c])"
proof (induction n fs d cs rule: walk.induct)
  case (2 n fs d c' cs)
  have d: "is_dir (fs d)" using walk_dir [OF 2(4,5)] .
  show ?case
  proof (cases "c' = ''..''")
    case False
    with 2(4) d have x: "fs (d @ [c']) \<noteq> None" by (auto split: if_splits)
    show ?thesis
    proof (cases "link_of (fs (d @ [c']))")
      case (Some l)
      then show ?thesis using 2 d False x by (cases n; cases l) auto
    qed (use 2 d False x in auto)
  qed (use 2 d in simp)
qed auto

text \<open>A located directory that is not a link is where resolution ends.\<close>

lemma resolve_located:
  assumes l: "locate fs p = Inr q" and x: "fs q \<noteq> None" "link_of (fs q) = None"
    and ne: "p \<noteq> []" and dots: "last p \<noteq> ''..''"
  shows "resolve fs p = Inr q"
proof -
  from l ne obtain d where w: "walk MAX_LINKS fs [] (butlast p) = Inr d"
    and d: "is_dir (fs d)" and q: "q = d @ [last p]"
    by (auto simp: locate_Inr_iff)
  have "walk MAX_LINKS fs [] (butlast p @ [last p]) = Inr (d @ [last p])"
    using walk_append_dir [OF w d dots] x q by simp
  then show ?thesis using ne q by (simp add: resolve_def)
qed

lemma locate_child:
  assumes "locate fs p = Inr q" and "is_dir (fs q)" and "p \<noteq> []" and "last p \<noteq> ''..''"
  shows "locate fs (p @ [c]) = Inr (q @ [c])"
proof -
  have "fs q \<noteq> None" using assms(2) by auto
  then have "walk MAX_LINKS fs [] p = Inr q"
    using resolve_located [OF assms(1)] assms(2-4) by (simp add: resolve_def)
  then show ?thesis using assms(2) by (simp add: locate_def)
qed

lemma torn_kind: "torn n n' \<Longrightarrow> is_dir (Some n') = is_dir (Some n) \<and> link_of (Some n') = link_of (Some n)"
  by (cases n) auto

lemma torn_fs_grows: "torn_fs fs fs' \<Longrightarrow> grows fs fs'"
  unfolding torn_fs_def grows_def
proof (intro allI)
  fix p assume "\<forall>p. rel_option torn (fs p) (fs' p)"
  then have "rel_option torn (fs p) (fs' p)" ..
  then show "(is_dir (fs p) \<longrightarrow> is_dir (fs' p)) \<and> (\<forall>x. link_of (fs p) = Some x \<longrightarrow> link_of (fs' p) = Some x)"
    by (cases rule: option.rel_cases) (auto dest: torn_kind)
qed

end
