(* ===== verification/Persistence.thy ===== *)
theory Persistence
  imports Preflight File_System
begin

text \<open>
  \<open>core/src/persistence.rs\<close>: the record of an operation on disk. Serialisation is \<open>serde_json\<close>,
  which is not part of the repository: \<open>to_json\<close> and \<open>from_json\<close> are parameters, and the
  theorems that read back what was written assume that reading inverts writing. The process
  identifier and the clock enter through the suffix \<open>nonce\<close> of the temporary name.
\<close>

section \<open>Definitions\<close>

datatype persistence_error =
  InvalidOperationId | UnsafePath | Io io_error | Json | UnsupportedStateSchema | InvalidState

definition validate_operation_id :: "string \<Rightarrow> persistence_error + unit" where
  "validate_operation_id value =
     ensure (length value = 36 \<and>
       all_indexed (\<lambda>i c. if i \<in> {8, 13, 18, 23} then c = CHR ''-'' else lower_hex c) 0 value)
       InvalidOperationId"

definition validate_state :: "operation_state_record \<Rightarrow> persistence_error + unit" where
  "validate_state r =
     (if is_some_and (recovery r) (\<lambda>goal.
           op_state r \<notin> {NeedsRecovery, Failed, AwaitingReboot, VerifyingBoot, Completed}
           \<or> \<not> goal_valid goal (snapshot_number r)
           \<or> (op_state r \<notin> {NeedsRecovery, Failed} \<and> boot_snapshot goal = None))
        then Inl InvalidState
      else if schema_version r \<noteq> STATE_SCHEMA_VERSION then Inl UnsupportedStateSchema
      else if \<not> is_sha256 (op_plan_sha256 r)
           \<or> is_some_and (op_manifest_sha256 r) (\<lambda>hash. \<not> is_sha256 hash)
           \<or> snapshot_number r = Some 0
           \<or> (op_state r \<in> {Applying, ReadyToReboot, ApplyingOffline, AwaitingReboot, VerifyingBoot,
                 NeedsRecovery, Completed} \<and> snapshot_number r = None)
        then Inl InvalidState
      else ensure (case operation r of
            UpdateWithinRelease \<Rightarrow> op_target r = None \<and> op_manifest_sha256 r = None
          | ReleaseUpgrade \<Rightarrow> op_target r \<noteq> None \<and> op_manifest_sha256 r \<noteq> None
          | PackageMigration \<Rightarrow> op_target r = Some (op_source r) \<and> op_manifest_sha256 r \<noteq> None)
          InvalidState)"

definition reject_symlink :: "path \<Rightarrow> (persistence_error, unit) act" where
  "reject_symlink p = attempt (symlink_metadata p) (\<lambda>r. case r of
      Inr n \<Rightarrow> if link_of (Some n) \<noteq> None then throw UnsafePath else ret ()
    | Inl e \<Rightarrow> if e = ENOENT then ret () else throw (Io e))"

definition uid_of :: "node \<Rightarrow> nat" where
  "uid_of n = (case n of Dir u _ \<Rightarrow> u | File u _ _ _ \<Rightarrow> u | Special u \<Rightarrow> u | Link _ _ \<Rightarrow> 0)"

definition mode_of :: "node \<Rightarrow> u32" where
  "mode_of n = (case n of Dir _ m \<Rightarrow> m | File _ m _ _ \<Rightarrow> m | _ \<Rightarrow> 0)"

text \<open>The sticky bit is bit nine of the mode, and 0o700 is 448.\<close>

definition make_private_dir :: "path \<Rightarrow> (persistence_error, unit) act" where
  "make_private_dir p = abind (raise_as Io (create_dir p)) (\<lambda>_. raise_as Io (set_permissions p 448))"

function ensure_parent_chain :: "path \<Rightarrow> (persistence_error, unit) act" where
  "ensure_parent_chain p = attempt (symlink_metadata p) (\<lambda>r. case r of
      Inr n \<Rightarrow>
        if \<not> is_dir (Some n) then throw UnsafePath
        else abind geteuid (\<lambda>euid.
          if uid_of n \<noteq> euid \<and> \<not> bit (mode_of n) 9 then throw UnsafePath else ret ())
    | Inl e \<Rightarrow>
        if e = ENOENT then
          (if p = [] then throw UnsafePath
           else abind (ensure_parent_chain (butlast p)) (\<lambda>_. make_private_dir p))
        else throw (Io e))"
  by pat_completeness auto
termination by (relation "measure length") (auto simp: length_greater_0_conv [symmetric] simp del: length_greater_0_conv)

declare ensure_parent_chain.simps [simp del]

definition ensure_directory :: "path \<Rightarrow> (persistence_error, unit) act" where
  "ensure_directory p = attempt (symlink_metadata p) (\<lambda>r. case r of
      Inr n \<Rightarrow>
        if \<not> is_dir (Some n) then throw UnsafePath
        else abind geteuid (\<lambda>euid.
          if uid_of n \<noteq> euid then throw UnsafePath else raise_as Io (set_permissions p 448))
    | Inl e \<Rightarrow> if e = ENOENT then make_private_dir p else throw (Io e))"

definition prepare_root :: "path \<Rightarrow> (persistence_error, unit) act" where
  "prepare_root root =
     (if ''..'' \<in> set root then throw UnsafePath
      else abind (reject_symlink root) (\<lambda>_.
           abind (if root = [] then ret () else ensure_parent_chain (butlast root)) (\<lambda>_.
             ensure_directory root)))"

text \<open>
  \<open>serde_json\<close> writes through the unbuffered file and reports a failed write as its own error.
\<close>

definition newline :: char where
  "newline = CHR 0x0A"

definition write_and_replace ::
  "(operation_state_record \<Rightarrow> string option) \<Rightarrow> path \<Rightarrow> path \<Rightarrow> operation_state_record \<Rightarrow>
   (persistence_error, unit) act" where
  "write_and_replace to_json temporary destination r =
     abind (raise_as Io (create_new temporary 384)) (\<lambda>file.
     abind (of_result (ok_or (to_json r) Json)) (\<lambda>bytes.
     abind (raise_as (\<lambda>_. Json) (write_all file bytes)) (\<lambda>_.
     abind (raise_as Io (write_all file [newline])) (\<lambda>_.
     abind (raise_as Io (sync_all file)) (\<lambda>_.
     abind (raise_as Io (rename temporary destination)) (\<lambda>_.
       if destination = [] then throw UnsafePath
       else raise_as Io (sync_dir (butlast destination))))))))"

definition save_state ::
  "(operation_state_record \<Rightarrow> string option) \<Rightarrow> string \<Rightarrow> path \<Rightarrow> operation_state_record \<Rightarrow>
   (persistence_error, unit) act" where
  "save_state to_json nonce root r =
     abind (of_result (validate_operation_id (operation_id r))) (\<lambda>_.
     abind (of_result (validate_state r)) (\<lambda>_.
     abind (prepare_root root) (\<lambda>_.
       let operation_dir = root @ [operation_id r] in
     abind (ensure_directory operation_dir) (\<lambda>_.
       let destination = operation_dir @ [''state.json''] in
     abind (reject_symlink destination) (\<lambda>_.
       let temporary = operation_dir @ [''.state.json.'' @ nonce] in
     attempt (write_and_replace to_json temporary destination r) (\<lambda>result.
       case result of
         Inr u \<Rightarrow> ret u
       | Inl e \<Rightarrow> attempt (remove_file temporary) (\<lambda>_. throw e)))))))"

definition load_state ::
  "(string \<Rightarrow> operation_state_record option) \<Rightarrow> path \<Rightarrow> string \<Rightarrow>
   (persistence_error, operation_state_record) act" where
  "load_state from_json root oid =
     abind (of_result (validate_operation_id oid)) (\<lambda>_.
     abind (reject_symlink root) (\<lambda>_.
       let operation_dir = root @ [oid] in
     abind (reject_symlink operation_dir) (\<lambda>_.
       let p = operation_dir @ [''state.json''] in
     abind (reject_symlink p) (\<lambda>_.
     abind (raise_as Io (read_nofollow p)) (\<lambda>bytes.
     abind (of_result (ok_or (from_json bytes) Json)) (\<lambda>r.
       if schema_version r \<noteq> STATE_SCHEMA_VERSION then throw UnsupportedStateSchema
       else if operation_id r \<noteq> oid then throw UnsafePath
       else abind (of_result (validate_state r)) (\<lambda>_. ret r)))))))"

section \<open>Lemmas: valid records\<close>

lemma validate_state_snapshot:
  "validate_state r = Inr () \<Longrightarrow> after_snapshot (op_state r) \<or> op_state r = NeedsRecovery \<Longrightarrow>
     \<exists>n. snapshot_number r = Some n \<and> n \<noteq> 0"
  by (cases "snapshot_number r") (auto simp: validate_state_def after_snapshot_def split: if_splits)

lemma validate_operation_id_dots: "validate_operation_id oid = Inr () \<Longrightarrow> oid \<noteq> ''..''"
  by (auto simp: validate_operation_id_def ensure_Inr_iff)

section \<open>Lemmas: what a load reads\<close>

text \<open>\<open>real_dir fs p q\<close>: the path \<open>p\<close> names the directory at the physical path \<open>q\<close>, without a link.\<close>

definition real_dir :: "fs \<Rightarrow> path \<Rightarrow> path \<Rightarrow> bool" where
  "real_dir fs p q = (locate fs p = Inr q \<and> is_dir (fs q))"

lemma real_dir_child: "real_dir fs p q \<Longrightarrow> ''..'' \<notin> set p \<Longrightarrow> locate fs (p @ [c]) = Inr (q @ [c])"
proof (cases "p = []")
  case True
  assume "real_dir fs p q" "''..'' \<notin> set p"
  with True show ?thesis by (auto simp: real_dir_def locate_def)
next
  case False
  assume "real_dir fs p q" "''..'' \<notin> set p"
  moreover from this False have "last p \<noteq> ''..''" by (metis last_in_set)
  ultimately show ?thesis using False locate_child by (simp add: real_dir_def)
qed

lemma real_dir_grows: "real_dir fs p q \<Longrightarrow> grows fs fs' \<Longrightarrow> real_dir fs' p q"
  unfolding real_dir_def using locate_grows grows_def by blast

definition readable_record ::
  "(string \<Rightarrow> operation_state_record option) \<Rightarrow> fs \<Rightarrow> path \<Rightarrow> string \<Rightarrow> operation_state_record \<Rightarrow> bool" where
  "readable_record from_json fs d oid r =
     (\<exists>u m bytes s. fs (d @ [''state.json'']) = Some (File u m bytes s) \<and> from_json bytes = Some r \<and>
        schema_version r = STATE_SCHEMA_VERSION \<and> operation_id r = oid \<and> validate_state r = Inr ())"

abbreviation loads ::
  "(string \<Rightarrow> operation_state_record option) \<Rightarrow> path \<Rightarrow> string \<Rightarrow> fs \<Rightarrow> operation_state_record \<Rightarrow> bool" where
  "loads from_json root oid fs r \<equiv> fst (load_state from_json root oid (quiet 0 fs)) = Done r"

lemma quiet_simps [simp]:
  "w_fs (quiet u fs) = fs" "w_faults (quiet u fs) = []" "(quiet u fs)\<lparr>w_faults := []\<rparr> = quiet u fs"
  by (simp_all add: quiet_def)

lemma fst_Done_iff: "(fst (m w) = Done a) = (\<exists>w'. m w = (Done a, w'))"
  by (cases "m w") auto

lemma symlink_metadata_quiet:
  "symlink_metadata p (quiet u fs) = (case node_at fs p of Inl e \<Rightarrow> Raised e | Inr n \<Rightarrow> Done n, quiet u fs)"
  by (auto simp: symlink_metadata_def query_def split: sum.splits)

lemma reject_symlink_quiet:
  "(reject_symlink p (quiet u fs) = (Done a, w')) =
     (w' = quiet u fs \<and> (node_at fs p = Inl ENOENT \<or> (\<exists>n. node_at fs p = Inr n \<and> link_of (Some n) = None)))"
proof (cases "node_at fs p")
  case (Inl e)
  then show ?thesis
    by (auto simp: reject_symlink_def attempt_def ret_def throw_def symlink_metadata_quiet)
next
  case (Inr n)
  then show ?thesis
    by (cases "link_of (Some n)") (auto simp: reject_symlink_def attempt_def ret_def throw_def symlink_metadata_quiet)
qed

lemma read_nofollow_quiet:
  "(read_nofollow p (quiet u fs) = (Done bytes, w')) =
     (w' = quiet u fs \<and> (\<exists>v m s. node_at fs p = Inr (File v m bytes s)))"
proof (cases "node_at fs p")
  case (Inr n)
  then show ?thesis by (cases n) (auto simp: read_nofollow_def query_Done)
qed (simp add: read_nofollow_def query_Done)

lemma walk_snoc:
  "walk n fs d (cs @ [c]) = Inr q \<Longrightarrow> c \<noteq> ''..'' \<Longrightarrow>
     \<exists>d'. walk n fs d cs = Inr d' \<and> is_dir (fs d') \<and> fs (d' @ [c]) \<noteq> None \<and>
       (link_of (fs (d' @ [c])) = None \<longrightarrow> q = d' @ [c])"
proof (induction n fs d cs rule: walk.induct)
  case (1 n fs d)
  then show ?case by (auto split: if_splits option.splits)
next
  case (2 n fs d c' cs)
  then have d: "is_dir (fs d)" by (auto split: if_splits)
  show ?case
  proof (cases "c' = ''..''")
    case False
    with 2 d have x: "fs (d @ [c']) \<noteq> None" by (auto split: if_splits)
    show ?thesis
    proof (cases "link_of (fs (d @ [c']))")
      case (Some l)
      then show ?thesis using 2 d False x by (cases n; cases l) auto
    qed (use 2 d False x in auto)
  qed (use 2 d in simp)
qed

lemma node_at_Inr_iff: "(node_at fs p = Inr n) = (\<exists>q. locate fs p = Inr q \<and> fs q = Some n)"
  by (auto simp: node_at_def rbind_Inr_iff ok_or_Inr_iff)

text \<open>Reading a file two levels below a path that is not a link goes through two real directories.\<close>

lemma located_parent:
  assumes l: "locate fs (p @ [c]) = Inr q" and dots: "''..'' \<notin> set p"
    and ok: "node_at fs p = Inl ENOENT \<or> (\<exists>n. node_at fs p = Inr n \<and> link_of (Some n) = None)"
  shows "\<exists>q'. real_dir fs p q' \<and> q = q' @ [c]"
proof (cases "p = []")
  case True
  with l show ?thesis by (auto simp: real_dir_def locate_def split: if_splits)
next
  case False
  then have lp: "last p \<noteq> ''..''" using dots by (metis last_in_set)
  from l obtain d where w: "walk MAX_LINKS fs [] p = Inr d" and d: "is_dir (fs d)" and q: "q = d @ [c]"
    by (auto simp: locate_Inr_iff)
  from walk_snoc [of MAX_LINKS fs "[]" "butlast p" "last p" d] w False lp
  obtain d' where d': "walk MAX_LINKS fs [] (butlast p) = Inr d'" "is_dir (fs d')"
    "fs (d' @ [last p]) \<noteq> None" "link_of (fs (d' @ [last p])) = None \<longrightarrow> d = d' @ [last p]" by auto
  then have loc: "locate fs p = Inr (d' @ [last p])" using False by (auto simp: locate_Inr_iff)
  with d' ok have "link_of (fs (d' @ [last p])) = None" by (auto simp: node_at_def)
  with d' have "d = d' @ [last p]" by blast
  with loc d q show ?thesis by (auto simp: real_dir_def)
qed

lemma loads_iff:
  assumes dots: "''..'' \<notin> set root"
  shows "loads from_json root oid fs r =
    (validate_operation_id oid = Inr () \<and>
     (\<exists>q. real_dir fs root q \<and> real_dir fs (root @ [oid]) (q @ [oid]) \<and>
          readable_record from_json fs (q @ [oid]) oid r))"
proof
  assume "loads from_json root oid fs r"
  then have v: "validate_operation_id oid = Inr ()"
    and r1: "node_at fs root = Inl ENOENT \<or> (\<exists>n. node_at fs root = Inr n \<and> link_of (Some n) = None)"
    and r2: "node_at fs (root @ [oid]) = Inl ENOENT \<or>
      (\<exists>n. node_at fs (root @ [oid]) = Inr n \<and> link_of (Some n) = None)"
    and rd: "\<exists>v m bytes s. node_at fs (root @ [oid] @ [''state.json'']) = Inr (File v m bytes s) \<and>
      from_json bytes = Some r \<and> schema_version r = STATE_SCHEMA_VERSION \<and> operation_id r = oid \<and>
      validate_state r = Inr ()"
    unfolding fst_Done_iff load_state_def
    by (auto simp: act_simps reject_symlink_quiet read_nofollow_quiet ok_or_Inr_iff Let_def split: if_splits)
  from rd obtain u m bytes s q3 where l3: "locate fs ((root @ [oid]) @ [''state.json'']) = Inr q3"
    and f: "fs q3 = Some (File u m bytes s)"
    and ok: "from_json bytes = Some r" "schema_version r = STATE_SCHEMA_VERSION" "operation_id r = oid"
      "validate_state r = Inr ()"
    by (auto simp: node_at_Inr_iff)
  have dots2: "''..'' \<notin> set (root @ [oid])" using dots validate_operation_id_dots [OF v] by auto
  from located_parent [OF l3 dots2 r2] obtain q2 where q2: "real_dir fs (root @ [oid]) q2"
    "q3 = q2 @ [''state.json'']" by blast
  then have "locate fs (root @ [oid]) = Inr q2" by (simp add: real_dir_def)
  from located_parent [OF this dots r1] obtain q1 where "real_dir fs root q1" "q2 = q1 @ [oid]" by blast
  with q2 f ok v show "validate_operation_id oid = Inr () \<and>
     (\<exists>q. real_dir fs root q \<and> real_dir fs (root @ [oid]) (q @ [oid]) \<and>
          readable_record from_json fs (q @ [oid]) oid r)"
    by (auto simp: readable_record_def)
next
  assume "validate_operation_id oid = Inr () \<and>
     (\<exists>q. real_dir fs root q \<and> real_dir fs (root @ [oid]) (q @ [oid]) \<and>
          readable_record from_json fs (q @ [oid]) oid r)"
  then obtain q u m bytes s where v: "validate_operation_id oid = Inr ()" and q: "real_dir fs root q"
    and q2: "real_dir fs (root @ [oid]) (q @ [oid])"
    and f: "fs ((q @ [oid]) @ [''state.json'']) = Some (File u m bytes s)"
    and ok: "from_json bytes = Some r" "schema_version r = STATE_SCHEMA_VERSION" "operation_id r = oid"
      "validate_state r = Inr ()"
    by (auto simp: readable_record_def)
  have dots2: "''..'' \<notin> set (root @ [oid])" using dots validate_operation_id_dots [OF v] by auto
  have "locate fs ((root @ [oid]) @ [''state.json'']) = Inr ((q @ [oid]) @ [''state.json''])"
    by (rule real_dir_child [OF q2 dots2])
  then have n3: "node_at fs (root @ [oid] @ [''state.json'']) = Inr (File u m bytes s)"
    using f by (simp add: node_at_Inr_iff)
  have n1: "\<exists>n. node_at fs root = Inr n \<and> link_of (Some n) = None"
    using q by (auto simp: node_at_Inr_iff real_dir_def is_dir_Some)
  have n2: "\<exists>n. node_at fs (root @ [oid]) = Inr n \<and> link_of (Some n) = None"
    using q2 by (auto simp: node_at_Inr_iff real_dir_def is_dir_Some)
  show "loads from_json root oid fs r"
    unfolding fst_Done_iff load_state_def using v ok n1 n2 n3
    by (auto simp: act_simps reject_symlink_quiet read_nofollow_quiet ok_or_Inr_iff Let_def)
qed

section \<open>Lemmas: how a save changes the file system\<close>

text \<open>
  \<open>evolves X fs fs'\<close>: directories and links stay, and so do the bytes of every file whose physical
  path is not in \<open>X\<close>; permissions may change and new nodes may appear.
\<close>

definition evolves :: "path set \<Rightarrow> fs \<Rightarrow> fs \<Rightarrow> bool" where
  "evolves X fs fs' = (grows fs fs' \<and>
     (\<forall>p u m c s. p \<notin> X \<longrightarrow> fs p = Some (File u m c s) \<longrightarrow> (\<exists>m'. fs' p = Some (File u m' c s))))"

lemma evolves_refl [simp]: "evolves X fs fs"
  by (simp add: evolves_def)

lemma evolves_mono: "evolves X fs fs' \<Longrightarrow> X \<subseteq> Y \<Longrightarrow> evolves Y fs fs'"
  unfolding evolves_def by blast

lemma evolves_grows: "evolves X fs fs' \<Longrightarrow> grows fs fs'"
  by (simp add: evolves_def)

lemma evolves_new: "evolves X fs fs' \<Longrightarrow> fs q = None \<Longrightarrow> evolves X fs (fs'(q := n))"
  unfolding evolves_def grows_def by auto

lemma evolves_add: "evolves X fs fs' \<Longrightarrow> fs' q = None \<Longrightarrow> evolves X fs (fs'(q \<mapsto> n))"
  unfolding evolves_def grows_def by (auto; metis is_dir.simps(3) option.distinct(1) link_of.simps(5))

lemma set_mode_kind [simp]:
  "is_dir (Some (set_mode m n)) = is_dir (Some n)" "link_of (Some (set_mode m n)) = link_of (Some n)"
  by (cases n; simp add: set_mode_def)+

lemma evolves_set_mode:
  assumes e: "evolves X fs fs'" and q: "fs' q = Some n"
  shows "evolves X fs (fs'(q \<mapsto> set_mode m n))"
  unfolding evolves_def grows_def
proof (intro conjI allI impI)
  fix p
  show "is_dir ((fs'(q \<mapsto> set_mode m n)) p)" if "is_dir (fs p)"
    using e that q unfolding evolves_def grows_def by (cases "p = q") auto
next
  fix p x
  assume "link_of (fs p) = Some x"
  then have "link_of (fs' p) = Some x" using e unfolding evolves_def grows_def by blast
  then show "link_of ((fs'(q \<mapsto> set_mode m n)) p) = Some x"
    using q by (cases "p = q") simp_all
next
  fix p u k c s
  assume "p \<notin> X" "fs p = Some (File u k c s)"
  then obtain m' where "fs' p = Some (File u m' c s)" using e unfolding evolves_def by blast
  then show "\<exists>m'. (fs'(q \<mapsto> set_mode m n)) p = Some (File u m' c s)"
    using q by (cases "p = q") (auto simp: set_mode_def)
qed

text \<open>The predicate every step of a save keeps until the rename.\<close>

definition all_evolved :: "path set \<Rightarrow> fs \<Rightarrow> fs list \<Rightarrow> world \<Rightarrow> bool" where
  "all_evolved X fs old w = (evolves X fs (w_fs w) \<and> (\<forall>s\<in>set (w_older w). s \<in> set old \<or> evolves X fs s))"

lemma fault_blind_all_evolved [simp]: "fault_blind (all_evolved X fs old)"
  by (simp add: fault_blind_def all_evolved_def)

lemma all_evolved_push:
  "all_evolved X fs old w \<Longrightarrow> evolves X fs fs' \<Longrightarrow>
     all_evolved X fs old (w\<lparr>w_fs := fs', w_older := w_fs w # w_older w\<rparr>)"
  by (simp add: all_evolved_def)

lemma keeps_create_dir: "keeps (all_evolved X fs old) (create_dir p)"
  unfolding create_dir_def
  by (rule keeps_mutate)
    (auto simp: rbind_Inr_iff split: if_splits intro!: all_evolved_push evolves_add simp: all_evolved_def)

lemma keeps_set_permissions: "keeps (all_evolved X fs old) (set_permissions p m)"
  unfolding set_permissions_def
  by (rule keeps_mutate)
    (auto simp: rbind_Inr_iff split: option.splits intro!: all_evolved_push evolves_set_mode simp: all_evolved_def)

lemma keeps_reject_symlink: "fault_blind P \<Longrightarrow> keeps P (reject_symlink p)"
  unfolding reject_symlink_def by (intro keeps_intros) (auto split: sum.splits)

lemma keeps_make_private_dir: "keeps (all_evolved X fs old) (make_private_dir p)"
  unfolding make_private_dir_def by (intro keeps_intros keeps_create_dir keeps_set_permissions)

lemma keeps_ensure_parent_chain: "keeps (all_evolved X fs old) (ensure_parent_chain p)"
proof (induction p rule: ensure_parent_chain.induct)
  case (1 p)
  show ?case
    unfolding ensure_parent_chain.simps [of p]
    by (intro keeps_attempt keeps_symlink_metadata fault_blind_all_evolved)
      (auto split: sum.splits intro!: keeps_abind keeps_make_private_dir 1)
qed

lemma keeps_ensure_directory: "keeps (all_evolved X fs old) (ensure_directory p)"
  unfolding ensure_directory_def
  by (intro keeps_attempt keeps_symlink_metadata fault_blind_all_evolved)
    (auto split: sum.splits intro!: keeps_abind keeps_make_private_dir keeps_raise_as keeps_set_permissions)

lemma keeps_prepare_root: "keeps (all_evolved X fs old) (prepare_root root)"
  unfolding prepare_root_def
  by (auto intro!: keeps_abind keeps_reject_symlink keeps_ensure_parent_chain keeps_ensure_directory)

text \<open>Writing through a handle that is new with respect to the first file system.\<close>

lemma keeps_write_byte: "fs q = None \<Longrightarrow> keeps (all_evolved X fs old) (write_byte q c)"
  unfolding write_byte_def
  by (rule keeps_mutate)
    (auto split: option.splits node.splits intro!: all_evolved_push evolves_new simp: all_evolved_def)

lemma keeps_write_all: "fs q = None \<Longrightarrow> keeps (all_evolved X fs old) (write_all q bs)"
  by (induction bs) (auto intro!: keeps_abind keeps_write_byte)

lemma keeps_sync_all: "fs q = None \<Longrightarrow> keeps (all_evolved X fs old) (sync_all q)"
  unfolding sync_all_def
  by (rule keeps_mutate)
    (auto split: option.splits node.splits intro!: all_evolved_push evolves_new simp: all_evolved_def)

lemma make_private_dir_Done: "make_private_dir p w = (Done u, w') \<Longrightarrow> \<exists>q. real_dir (w_fs w') p q"
proof -
  assume "make_private_dir p w = (Done u, w')"
  then obtain q r n where q: "locate (w_fs w) p = Inr q" "w_fs w q = None"
    and r: "((w_fs w)(q \<mapsto> Dir (w_euid w) (and 0x1FF (not (w_umask w))))) r = Some n"
    and w': "w_fs w' = (w_fs w)(q \<mapsto> Dir (w_euid w) (and 0x1FF (not (w_umask w))), r \<mapsto> set_mode 448 n)"
    by (auto simp: make_private_dir_def act_simps create_dir_def set_permissions_def rbind_Inr_iff
        split: if_splits option.splits)
  let ?fs1 = "(w_fs w)(q \<mapsto> Dir (w_euid w) (and 0x1FF (not (w_umask w))))"
  have e1: "evolves {} (w_fs w) ?fs1" using q(2) by (simp add: evolves_add)
  then have "evolves {} (w_fs w) (w_fs w')" using r w' by (simp add: evolves_set_mode)
  then have "locate (w_fs w') p = Inr q" using q(1) evolves_grows locate_grows by blast
  moreover have "is_dir (w_fs w' q)" using r w' by (cases "q = r") auto
  ultimately show ?thesis by (auto simp: real_dir_def)
qed

lemma ensure_directory_Done: "ensure_directory p w = (Done u, w') \<Longrightarrow> \<exists>q. real_dir (w_fs w') p q"
proof -
  assume run: "ensure_directory p w = (Done u, w')"
  obtain out v where v: "symlink_metadata p w = (out, v)" by fastforce
  then have same: "w_fs v = w_fs w" and found: "\<And>n. out = Done n \<Longrightarrow> node_at (w_fs w) p = Inr n"
    unfolding symlink_metadata_def by (auto dest: query_cases)
  show ?thesis
  proof (cases out)
    case (Done n)
    from found [OF this] obtain q where q: "locate (w_fs w) p = Inr q" "w_fs w q = Some n"
      by (auto simp: node_at_Inr_iff)
    from run v Done have n: "is_dir (Some n)" and sp: "raise_as Io (set_permissions p 448) v = (Done u, w')"
      by (auto simp: ensure_directory_def attempt_def abind_Done geteuid_Done throw_def split: if_splits)
    have "evolves {} (w_fs v) (w_fs w')"
      using keepsD [OF keeps_set_permissions, of "{}" "w_fs v" "w_older v" v] sp
      by (auto simp: act_simps all_evolved_def)
    then have g: "grows (w_fs w) (w_fs w')" using same evolves_grows by simp
    then have "real_dir (w_fs w') p q" using q n by (intro real_dir_grows [OF _ g]) (simp add: real_dir_def)
    then show ?thesis by blast
  next
    case (Raised e)
    then have "make_private_dir p v = (Done u, w')"
      using run v by (auto simp: ensure_directory_def attempt_def throw_def split: if_splits)
    then show ?thesis by (rule make_private_dir_Done)
  next
    case Stopped
    then show ?thesis using run v by (simp add: ensure_directory_def attempt_def)
  qed
qed

lemma link_of_None_iff: "(link_of (Some n) = None) = (\<forall>a t. n \<noteq> Link a t)"
  by (cases n) auto

lemma reject_symlink_Done:
  assumes "reject_symlink p w = (Done u, w')"
  shows "w_fs w' = w_fs w" and "w_euid w' = w_euid w"
    and "node_at (w_fs w) p = Inl ENOENT \<or> (\<exists>n. node_at (w_fs w) p = Inr n \<and> link_of (Some n) = None)"
proof -
  obtain out v where v: "symlink_metadata p w = (out, v)" by fastforce
  have q: "w_fs v = w_fs w \<and> w_older v = w_older w \<and> w_euid v = w_euid w \<and>
    (\<forall>a. out = Done a \<longrightarrow> node_at (w_fs w) p = Inr a) \<and>
    (\<forall>e. out = Raised e \<longrightarrow> e = EIO \<or> node_at (w_fs w) p = Inl e)"
    using query_cases v unfolding symlink_metadata_def .
  have "w' = v \<and> (node_at (w_fs w) p = Inl ENOENT \<or> (\<exists>n. node_at (w_fs w) p = Inr n \<and> link_of (Some n) = None))"
    using assms v q
    by (cases out) (auto simp: reject_symlink_def attempt_def ret_def throw_def link_of_None_iff split: if_splits)
  with q show "w_fs w' = w_fs w" "w_euid w' = w_euid w"
    "node_at (w_fs w) p = Inl ENOENT \<or> (\<exists>n. node_at (w_fs w) p = Inr n \<and> link_of (Some n) = None)"
    by auto
qed

lemma write_all_Done:
  "w_fs w q = Some (File u m c s) \<Longrightarrow> write_all q bs w = (Done x, w') \<Longrightarrow>
     \<exists>s'. w_fs w' = (w_fs w)(q \<mapsto> File u m (c @ bs) s')"
proof (induction bs arbitrary: w c s)
  case Nil
  then show ?case by (auto simp: ret_def intro!: exI [of _ s])
next
  case (Cons b bs)
  from Cons.prems obtain v where v: "write_byte q b w = (Done (), v)" and rest: "write_all q bs v = (Done x, w')"
    by (auto simp: abind_Done)
  from v Cons.prems(1) have fs: "w_fs v = (w_fs w)(q \<mapsto> File u m (c @ [b]) False)"
    by (auto simp: write_byte_def mutate_Done)
  then have "w_fs v q = Some (File u m (c @ [b]) False)" by simp
  from Cons.IH [OF this rest] obtain s' where "w_fs w' = (w_fs v)(q \<mapsto> File u m ((c @ [b]) @ bs) s')" by blast
  with fs have "w_fs w' = (w_fs w)(q \<mapsto> File u m (c @ b # bs) s')" by simp
  then show ?case by blast
qed

section \<open>Lemmas: replacing the record\<close>

text \<open>
  \<open>written fs q bytes fs'\<close>: the file at \<open>q\<close> holds the bytes and is synchronised, everything else of
  \<open>fs\<close> is there. \<open>old_or_written\<close>: a power cut finds a file system from before the save, one in
  which the save has not touched the record, or one in which it is complete.
\<close>

definition written :: "fs \<Rightarrow> path \<Rightarrow> string \<Rightarrow> fs \<Rightarrow> bool" where
  "written fs q bytes fs' = (evolves {q} fs fs' \<and> (\<exists>u m. fs' q = Some (File u m bytes True)))"

definition old_or_written :: "fs \<Rightarrow> path \<Rightarrow> string \<Rightarrow> fs list \<Rightarrow> world \<Rightarrow> bool" where
  "old_or_written fs q bytes old w = ((evolves {} fs (w_fs w) \<or> written fs q bytes (w_fs w)) \<and>
     (\<forall>x\<in>set (w_older w). x \<in> set old \<or> evolves {} fs x \<or> written fs q bytes x))"

lemma fault_blind_old_or_written [simp]: "fault_blind (old_or_written fs q bytes old)"
  by (simp add: fault_blind_def old_or_written_def)

lemma all_evolved_old: "all_evolved {} fs old w \<Longrightarrow> old_or_written fs q bytes old w"
  by (auto simp: all_evolved_def old_or_written_def)

lemma written_new: "written fs q bytes fs' \<Longrightarrow> fs p = None \<Longrightarrow> p \<noteq> q \<Longrightarrow> written fs q bytes (fs'(p := n))"
  by (auto simp: written_def evolves_new)

definition holds_file :: "path \<Rightarrow> string \<Rightarrow> (bool \<Rightarrow> bool) \<Rightarrow> world \<Rightarrow> bool" where
  "holds_file q c S w = (\<exists>u m s. w_fs w q = Some (File u m c s) \<and> S s)"

lemma keeps_create_new: "keeps (all_evolved {} fs old) (create_new p k)"
proof -
  have "keeps (all_evolved {} fs old) (mutate (\<lambda>w. rbind (locate (w_fs w) p) (\<lambda>q.
     if w_fs w q \<noteq> None then Inl EEXIST
     else Inr ((w_fs w)(q \<mapsto> File (w_euid w) (and k (not (w_umask w))) [] False)))))"
    by (rule keeps_mutate)
      (auto simp: rbind_Inr_iff split: if_splits intro!: all_evolved_push evolves_add simp: all_evolved_def)
  then show ?thesis
    unfolding create_new_def
    by (rule keeps_abind) (auto simp: keeps_def split: sum.splits)
qed

lemma create_new_Done:
  assumes "create_new p k w = (Done h, w')" and l: "locate (w_fs w) p = Inr q"
  shows "h = q" and "w_fs w q = None" and "holds_file q [] (\<lambda>_. True) w'"
proof -
  from assms obtain f where n: "w_fs w q = None" and w': "w_fs w' = (w_fs w)(q \<mapsto> File (w_euid w) f [] False)"
    and h: "locate (w_fs w') p = Inr h"
    by (auto simp: create_new_def abind_Done mutate_Done rbind_Inr_iff split: if_splits sum.splits)
  have "grows (w_fs w) (w_fs w')" using n w' by (simp add: evolves_add evolves_grows [where X = "{}"])
  then have "locate (w_fs w') p = Inr q" using l locate_grows by blast
  with h n w' show "h = q" "w_fs w q = None" "holds_file q [] (\<lambda>_. True) w'"
    by (auto simp: holds_file_def)
qed

text \<open>The steps of \<open>write_and_replace\<close> on one directory.\<close>

definition replaceable :: "fs \<Rightarrow> path \<Rightarrow> path \<Rightarrow> string \<Rightarrow> string \<Rightarrow> bool" where
  "replaceable fs dir d tmp dst = (real_dir fs dir d \<and> ''..'' \<notin> set dir \<and> tmp \<noteq> dst \<and>
     fs (d @ [tmp]) = None \<and> link_of (fs (d @ [dst])) = None)"

lemma locate_in_dir:
  assumes "replaceable fs dir d tmp dst" and "evolves X fs fs'"
  shows "locate fs' (dir @ [n]) = Inr (d @ [n])"
  using assms real_dir_child real_dir_grows evolves_grows unfolding replaceable_def by blast

lemma create_tmp:
  assumes R: "replaceable fs dir d tmp dst"
  shows "triple (all_evolved {} fs old) (create_new (dir @ [tmp]) k)
     (\<lambda>h w. all_evolved {} fs old w \<and> (h = d @ [tmp] \<and> holds_file (d @ [tmp]) [] (\<lambda>_. True) w))
     (all_evolved {} fs old)"
proof -
  have "triple (\<lambda>w. all_evolved {} fs old w \<and> True) (create_new (dir @ [tmp]) k)
     (\<lambda>h w. all_evolved {} fs old w \<and> (h = d @ [tmp] \<and> holds_file (d @ [tmp]) [] (\<lambda>_. True) w))
     (all_evolved {} fs old)"
  proof (rule triple_keeps_Done [OF keeps_create_new])
    fix w h w'
    assume "all_evolved {} fs old w" and run: "create_new (dir @ [tmp]) k w = (Done h, w')"
    then have "locate (w_fs w) (dir @ [tmp]) = Inr (d @ [tmp])"
      by (auto simp: all_evolved_def intro: locate_in_dir [OF R])
    from create_new_Done [OF run this]
    show "h = d @ [tmp] \<and> holds_file (d @ [tmp]) [] (\<lambda>_. True) w'" by blast
  qed
  then show ?thesis by simp
qed

lemma write_tmp:
  assumes R: "replaceable fs dir d tmp dst"
  shows "triple (\<lambda>w. all_evolved {} fs old w \<and> holds_file (d @ [tmp]) c (\<lambda>_. True) w) (write_all (d @ [tmp]) bs)
     (\<lambda>_ w. all_evolved {} fs old w \<and> holds_file (d @ [tmp]) (c @ bs) (\<lambda>_. True) w) (all_evolved {} fs old)"
proof (rule triple_keeps_Done [OF keeps_write_all])
  show "fs (d @ [tmp]) = None" using R by (simp add: replaceable_def)
  fix w x w'
  assume "holds_file (d @ [tmp]) c (\<lambda>_. True) w" and run: "write_all (d @ [tmp]) bs w = (Done x, w')"
  then obtain u m s where "w_fs w (d @ [tmp]) = Some (File u m c s)" by (auto simp: holds_file_def)
  from write_all_Done [OF this run] show "holds_file (d @ [tmp]) (c @ bs) (\<lambda>_. True) w'"
    by (auto simp: holds_file_def)
qed

lemma sync_tmp:
  assumes R: "replaceable fs dir d tmp dst"
  shows "triple (\<lambda>w. all_evolved {} fs old w \<and> holds_file (d @ [tmp]) c (\<lambda>_. True) w) (sync_all (d @ [tmp]))
     (\<lambda>_ w. all_evolved {} fs old w \<and> holds_file (d @ [tmp]) c (\<lambda>s. s) w) (all_evolved {} fs old)"
proof (rule triple_keeps_Done [OF keeps_sync_all])
  show "fs (d @ [tmp]) = None" using R by (simp add: replaceable_def)
  fix w x w'
  assume "holds_file (d @ [tmp]) c (\<lambda>_. True) w" and "sync_all (d @ [tmp]) w = (Done x, w')"
  then show "holds_file (d @ [tmp]) c (\<lambda>s. s) w'"
    by (auto simp: holds_file_def sync_all_def mutate_Done ex_bool_eq)
qed simp

lemma rename_evolves:
  assumes R: "replaceable fs dir d tmp dst" and e: "evolves {} fs fs'" and "\<not> is_dir (fs' (d @ [dst]))"
  shows "written fs (d @ [dst]) c (fs'(d @ [tmp] := None, d @ [dst] \<mapsto> File u m c True))"
proof -
  have "\<not> is_dir (fs (d @ [dst]))" using assms(2,3) unfolding evolves_def grows_def by blast
  moreover have "evolves {} fs (fs'(d @ [tmp] := None))" using e R by (intro evolves_new) (simp_all add: replaceable_def)
  ultimately have "evolves {d @ [dst]} fs (fs'(d @ [tmp] := None, d @ [dst] \<mapsto> File u m c True))"
    using R unfolding replaceable_def evolves_def grows_def by auto
  then show ?thesis by (simp add: written_def)
qed

lemma rename_tmp:
  assumes R: "replaceable fs dir d tmp dst"
  shows "triple (\<lambda>w. all_evolved {} fs old w \<and> holds_file (d @ [tmp]) c (\<lambda>s. s) w)
     (rename (dir @ [tmp]) (dir @ [dst]))
     (\<lambda>_ w. old_or_written fs (d @ [dst]) c old w \<and> written fs (d @ [dst]) c (w_fs w))
     (old_or_written fs (d @ [dst]) c old)"
proof (rule tripleI)
  fix w out w'
  assume pre: "all_evolved {} fs old w \<and> holds_file (d @ [tmp]) c (\<lambda>s. s) w"
    and run: "rename (dir @ [tmp]) (dir @ [dst]) w = (out, w')"
  then obtain u m where f: "w_fs w (d @ [tmp]) = Some (File u m c True)" and e: "evolves {} fs (w_fs w)"
    by (auto simp: holds_file_def all_evolved_def)
  from run [unfolded rename_def]
  show "case out of Done a \<Rightarrow> old_or_written fs (d @ [dst]) c old w' \<and> written fs (d @ [dst]) c (w_fs w')
    | Raised _ \<Rightarrow> old_or_written fs (d @ [dst]) c old w' | Stopped \<Rightarrow> old_or_written fs (d @ [dst]) c old w'"
  proof (cases rule: mutate_cases)
    case (same x)
    then have "old_or_written fs (d @ [dst]) c old w'" using pre
      by (auto simp: old_or_written_def all_evolved_def)
    with same show ?thesis by (cases out) auto
  next
    case (change fs' x)
    from change(1) have "fs' = (w_fs w)(d @ [tmp] := None, d @ [dst] \<mapsto> File u m c True)"
      and nd: "\<not> is_dir (w_fs w (d @ [dst]))"
      using f by (auto simp: rbind_Inr_iff locate_in_dir [OF R e] split: option.splits node.splits)
    then have "written fs (d @ [dst]) c fs'" using rename_evolves [OF R e nd] by simp
    with change pre show ?thesis
      by (auto simp: old_or_written_def all_evolved_def)
  qed
qed

lemma sync_written:
  "triple (\<lambda>w. old_or_written fs q c old w \<and> written fs q c (w_fs w)) (sync_dir p)
     (\<lambda>_ w. w_older w = [] \<and> written fs q c (w_fs w)) (old_or_written fs q c old)"
proof (rule tripleI)
  fix w out w'
  assume pre: "old_or_written fs q c old w \<and> written fs q c (w_fs w)" and run: "sync_dir p w = (out, w')"
  obtain o1 v where v: "query (\<lambda>fs. rbind (resolve fs p) (\<lambda>q. ok_or (fs q) ENOENT)) w = (o1, v)" by fastforce
  have "w_fs v = w_fs w \<and> w_older v = w_older w" using query_cases [OF v] by blast
  with pre run v show "case out of Done a \<Rightarrow> w_older w' = [] \<and> written fs q c (w_fs w')
    | Raised _ \<Rightarrow> old_or_written fs q c old w' | Stopped \<Rightarrow> old_or_written fs q c old w'"
    by (cases o1) (auto simp: sync_dir_def abind_def old_or_written_def)
qed

lemma replace_triple:
  assumes R: "replaceable fs dir d tmp dst" and json: "to_json r = Some bytes"
  shows "triple (all_evolved {} fs old) (write_and_replace to_json (dir @ [tmp]) (dir @ [dst]) r)
     (\<lambda>_ w. w_older w = [] \<and> written fs (d @ [dst]) (bytes @ [newline]) (w_fs w))
     (old_or_written fs (d @ [dst]) (bytes @ [newline]) old)"
    (is "triple ?A _ ?D ?E")
proof -
  have weak: "\<And>w. ?A w \<Longrightarrow> ?E w" by (rule all_evolved_old)
  note step = triple_abind [OF triple_raise_as]
  show ?thesis
    unfolding write_and_replace_def json ok_or_simps
  proof (rule step [OF triple_conseq [OF create_tmp [OF R] _ _ weak]], assumption, assumption)
    fix h
    show "triple (\<lambda>w. ?A w \<and> (h = d @ [tmp] \<and> holds_file (d @ [tmp]) [] (\<lambda>_. True) w))
      (abind (of_result (Inr bytes)) (\<lambda>bytes. abind (raise_as (\<lambda>_. Json) (write_all h bytes)) (\<lambda>_.
       abind (raise_as Io (write_all h [newline])) (\<lambda>_. abind (raise_as Io (sync_all h)) (\<lambda>_.
       abind (raise_as Io (rename (dir @ [tmp]) (dir @ [dst]))) (\<lambda>_.
         if dir @ [dst] = [] then throw UnsafePath
         else raise_as Io (sync_dir (butlast (dir @ [dst]))))))))) ?D ?E"
    proof (cases "h = d @ [tmp]")
      case True
      show ?thesis
        unfolding True of_result_def sum.case abind_ret
        apply (rule triple_abind [where R = "\<lambda>_ w. ?A w \<and> holds_file (d @ [tmp]) bytes (\<lambda>_. True) w"])
         apply (rule triple_raise_as, rule triple_conseq [OF write_tmp [OF R, of old "[]" bytes] _ _ weak], simp, simp, simp)
        apply (rule triple_abind [where R = "\<lambda>_ w. ?A w \<and> holds_file (d @ [tmp]) (bytes @ [newline]) (\<lambda>_. True) w"])
         apply (rule triple_raise_as, rule triple_conseq [OF write_tmp [OF R, of old bytes "[newline]"] _ _ weak], simp, simp, simp)
        apply (rule triple_abind [where R = "\<lambda>_ w. ?A w \<and> holds_file (d @ [tmp]) (bytes @ [newline]) (\<lambda>s. s) w"])
         apply (rule triple_raise_as, rule triple_conseq [OF sync_tmp [OF R, of old "bytes @ [newline]"] _ _ weak], simp, simp, simp)
        apply (rule step [OF rename_tmp [OF R]])
        apply (simp add: triple_raise_as [OF sync_written])
        done
    qed (auto simp: triple_def)
  qed
qed

lemma replace_triple_no_json:
  assumes json: "to_json r = None"
  shows "triple (all_evolved {} fs old) (write_and_replace to_json tmp dst r) (\<lambda>_ _. False) (all_evolved {} fs old)"
  unfolding write_and_replace_def json ok_or_simps
proof (rule triple_abind [where R = "\<lambda>_. all_evolved {} fs old"])
  show "triple (all_evolved {} fs old) (raise_as Io (create_new tmp 384)) (\<lambda>_. all_evolved {} fs old)
      (all_evolved {} fs old)"
    by (intro triple_raise_as triple_keeps keeps_create_new)
qed (auto simp: triple_def abind_def of_result_def throw_def)

lemma keeps_remove_tmp:
  assumes R: "replaceable fs dir d tmp dst"
  shows "keeps (old_or_written fs (d @ [dst]) c old) (remove_file (dir @ [tmp]))"
  unfolding remove_file_def
proof (rule keeps_mutate)
  fix w fs'
  assume pre: "old_or_written fs (d @ [dst]) c old w"
    and op: "rbind (locate (w_fs w) (dir @ [tmp])) (\<lambda>q. case w_fs w q of None \<Rightarrow> Inl ENOENT
      | Some (Dir _ _) \<Rightarrow> Inl EISDIR | Some _ \<Rightarrow> Inr ((w_fs w)(q := None))) = Inr fs'"
  have "\<exists>X. evolves X fs (w_fs w)" using pre by (auto simp: old_or_written_def written_def)
  then have "locate (w_fs w) (dir @ [tmp]) = Inr (d @ [tmp])" using locate_in_dir [OF R] by blast
  with op have "fs' = (w_fs w)(d @ [tmp] := None)"
    by (auto split: option.splits node.splits)
  moreover have "d @ [tmp] \<noteq> d @ [dst]" "fs (d @ [tmp]) = None" using R by (auto simp: replaceable_def)
  ultimately show "old_or_written fs (d @ [dst]) c old (w\<lparr>w_fs := fs', w_older := w_fs w # w_older w\<rparr>)"
    using pre by (auto simp: old_or_written_def evolves_new written_new)
qed simp

section \<open>Lemmas: saving\<close>

text \<open>What the theorems assume of \<open>serde_json\<close>: reading inverts the writing of the record, up to the final newline.\<close>

definition json_codec ::
  "(operation_state_record \<Rightarrow> string option) \<Rightarrow> (string \<Rightarrow> operation_state_record option) \<Rightarrow>
   operation_state_record \<Rightarrow> bool" where
  "json_codec to_json from_json r = (\<forall>bytes. to_json r = Some bytes \<longrightarrow> from_json (bytes @ [newline]) = Some r)"

definition safely_stored ::
  "(string \<Rightarrow> operation_state_record option) \<Rightarrow> path \<Rightarrow> operation_state_record \<Rightarrow> fs \<Rightarrow> bool" where
  "safely_stored from_json root r fs = (validate_operation_id (operation_id r) = Inr () \<and>
     schema_version r = STATE_SCHEMA_VERSION \<and> validate_state r = Inr () \<and>
     (\<exists>q u m bytes. real_dir fs root q \<and> real_dir fs (root @ [operation_id r]) (q @ [operation_id r]) \<and>
        fs ((q @ [operation_id r]) @ [''state.json'']) = Some (File u m bytes True) \<and> from_json bytes = Some r))"

definition durable ::
  "(string \<Rightarrow> operation_state_record option) \<Rightarrow> path \<Rightarrow> operation_state_record \<Rightarrow> world \<Rightarrow> bool" where
  "durable from_json root r w = (\<forall>fs\<in>set (w_fs w # w_older w). safely_stored from_json root r fs)"

lemma torn_fs_file: "torn_fs fs fs' \<Longrightarrow> fs p = Some (File u m c True) \<Longrightarrow> fs' p = Some (File u m c True)"
  unfolding torn_fs_def by (drule spec [of _ p]) (auto elim: option.rel_cases)

lemma safely_stored_loads:
  assumes "safely_stored from_json root r fs" and "torn_fs fs fs'" and dots: "''..'' \<notin> set root"
  shows "loads from_json root (operation_id r) fs' r"
proof -
  have g: "grows fs fs'" using assms(2) by (rule torn_fs_grows)
  from assms(1) obtain q u m bytes where v: "validate_operation_id (operation_id r) = Inr ()"
    "schema_version r = STATE_SCHEMA_VERSION" "validate_state r = Inr ()"
    and q: "real_dir fs root q" "real_dir fs (root @ [operation_id r]) (q @ [operation_id r])"
    and f: "fs ((q @ [operation_id r]) @ [''state.json'']) = Some (File u m bytes True)" "from_json bytes = Some r"
    unfolding safely_stored_def by blast
  have "real_dir fs' root q" "real_dir fs' (root @ [operation_id r]) (q @ [operation_id r])"
    using q g by (auto intro: real_dir_grows)
  moreover have "readable_record from_json fs' (q @ [operation_id r]) (operation_id r) r"
    unfolding readable_record_def using torn_fs_file [OF assms(2) f(1)] f(2) v by blast
  ultimately show ?thesis unfolding loads_iff [OF dots] using v by blast
qed

lemma safely_stored_evolves:
  assumes "safely_stored from_json root r fs" and "evolves {} fs fs'"
  shows "safely_stored from_json root r fs'"
  using assms real_dir_grows [OF _ evolves_grows [OF assms(2)]]
  unfolding safely_stored_def evolves_def by (meson empty_iff)

lemma written_safely_stored:
  assumes "written fs ((q @ [operation_id r]) @ [''state.json'']) (bytes @ [newline]) fs'"
    and "real_dir fs root q" and "real_dir fs (root @ [operation_id r]) (q @ [operation_id r])"
    and "json_codec to_json from_json r" and "to_json r = Some bytes"
    and "validate_operation_id (operation_id r) = Inr ()" and "validate_state r = Inr ()"
  shows "safely_stored from_json root r fs'"
proof -
  have "schema_version r = STATE_SCHEMA_VERSION"
    using assms(7) by (auto simp: validate_state_def split: if_splits)
  moreover have "grows fs fs'" using assms(1) by (simp add: written_def evolves_def)
  then have "real_dir fs' root q" "real_dir fs' (root @ [operation_id r]) (q @ [operation_id r])"
    using assms(2,3) by (auto intro: real_dir_grows)
  moreover have "from_json (bytes @ [newline]) = Some r"
    using assms(4,5) by (simp add: json_codec_def)
  ultimately show ?thesis
    using assms(1,6,7) unfolding safely_stored_def written_def by blast
qed

abbreviation temporary_name :: "string \<Rightarrow> string" where
  "temporary_name nonce \<equiv> ''.state.json.'' @ nonce"

lemma temporary_name_differs: "temporary_name nonce \<noteq> ''state.json''"
  by simp

text \<open>A save that returns went through the directories and replaced the record.\<close>

lemma save_state_Done:
  assumes run: "save_state to_json nonce root r w = (Done u, w')"
  obtains v :: world and q bytes where "validate_operation_id (operation_id r) = Inr ()" and "validate_state r = Inr ()"
    and "''..'' \<notin> set root" and "evolves {} (w_fs w) (w_fs v)" and "real_dir (w_fs v) root q"
    and "real_dir (w_fs v) (root @ [operation_id r]) (q @ [operation_id r])" and "to_json r = Some bytes"
    and "w_older w' = []"
    and "written (w_fs v) ((q @ [operation_id r]) @ [''state.json'']) (bytes @ [newline]) (w_fs w')"
proof -
  let ?dir = "root @ [operation_id r]"
  from run obtain w1 w2 v where v1: "validate_operation_id (operation_id r) = Inr ()"
    and v2: "validate_state r = Inr ()" and p: "prepare_root root w = (Done (), w1)"
    and e: "ensure_directory ?dir w1 = (Done (), w2)"
    and j: "reject_symlink (?dir @ [''state.json'']) w2 = (Done (), v)"
    and wr: "write_and_replace to_json (?dir @ [temporary_name nonce]) (?dir @ [''state.json'']) r v = (Done u, w')"
    by (auto simp: save_state_def Let_def act_simps)
  from p have dots: "''..'' \<notin> set root" by (auto simp: prepare_root_def throw_def split: if_splits)
  then have dots2: "''..'' \<notin> set ?dir" using validate_operation_id_dots [OF v1] by auto
  from p obtain w0 where "ensure_directory root w0 = (Done (), w1)"
    by (auto simp: prepare_root_def act_simps split: if_splits)
  then obtain q where q1: "real_dir (w_fs w1) root q" using ensure_directory_Done by blast
  have "all_evolved {} (w_fs w) (w_older w) w" by (auto simp: all_evolved_def)
  then have "all_evolved {} (w_fs w) (w_older w) w1" using keepsD [OF keeps_prepare_root] p by blast
  then have "all_evolved {} (w_fs w) (w_older w) w2" using keepsD [OF keeps_ensure_directory] e by blast
  then have ev: "evolves {} (w_fs w) (w_fs v)" using reject_symlink_Done(1) [OF j] by (simp add: all_evolved_def)
  have "all_evolved {} (w_fs w1) (w_older w1) w1" by (auto simp: all_evolved_def)
  then have "all_evolved {} (w_fs w1) (w_older w1) w2" using keepsD [OF keeps_ensure_directory] e by blast
  then have "grows (w_fs w1) (w_fs v)" using reject_symlink_Done(1) [OF j] by (simp add: all_evolved_def evolves_def)
  then have q: "real_dir (w_fs v) root q" using q1 real_dir_grows by blast
  obtain q2 where "real_dir (w_fs v) ?dir q2"
    using ensure_directory_Done [OF e] reject_symlink_Done(1) [OF j] by auto
  then have d: "real_dir (w_fs v) ?dir (q @ [operation_id r])"
    using real_dir_child [OF q dots] by (simp add: real_dir_def)
  have dst: "locate (w_fs v) (?dir @ [''state.json'']) = Inr ((q @ [operation_id r]) @ [''state.json''])"
    and tmp: "locate (w_fs v) (?dir @ [temporary_name nonce]) = Inr ((q @ [operation_id r]) @ [temporary_name nonce])"
    using real_dir_child [OF d dots2] by blast+
  have "link_of (w_fs v ((q @ [operation_id r]) @ [''state.json''])) = None"
    using reject_symlink_Done(1,3) [OF j] dst
    by (cases "w_fs v ((q @ [operation_id r]) @ [''state.json''])") (auto simp: node_at_def)
  moreover have "w_fs v ((q @ [operation_id r]) @ [temporary_name nonce]) = None"
    using wr create_new_Done(2) [OF _ tmp] by (auto simp: write_and_replace_def act_simps)
  ultimately have R: "replaceable (w_fs v) ?dir (q @ [operation_id r]) (temporary_name nonce) ''state.json''"
    using d dots2 by (simp add: replaceable_def)
  obtain bytes where bytes: "to_json r = Some bytes"
    using wr by (auto simp: write_and_replace_def act_simps ok_or_Inr_iff)
  have "all_evolved {} (w_fs v) (w_older v) v" by (auto simp: all_evolved_def)
  from triple_Done [OF replace_triple [where to_json = to_json, OF R bytes] this wr] show thesis
    using that [OF v1 v2 dots ev q d bytes] by blast
qed

lemma save_state_durable:
  assumes run: "save_state to_json nonce root r w = (Done u, w')" and codec: "json_codec to_json from_json r"
  shows "durable from_json root r w' \<and> ''..'' \<notin> set root"
proof (rule save_state_Done [OF run])
  fix v :: world and q bytes
  assume *: "validate_operation_id (operation_id r) = Inr ()" "validate_state r = Inr ()"
    "''..'' \<notin> set root" "real_dir (w_fs v) root q"
    "real_dir (w_fs v) (root @ [operation_id r]) (q @ [operation_id r])" "to_json r = Some bytes" "w_older w' = []"
    "written (w_fs v) ((q @ [operation_id r]) @ [''state.json'']) (bytes @ [newline]) (w_fs w')"
  have "safely_stored from_json root r (w_fs w')"
    by (rule written_safely_stored [OF *(8,4,5) codec *(6,1,2)])
  with * show ?thesis by (simp add: durable_def)
qed

text \<open>Whatever happens during a save over a stored record.\<close>

lemma save_state_triple:
  assumes R: "replaceable fs (root @ [operation_id r]) d (temporary_name nonce) ''state.json''"
    and bytes: "\<And>b. to_json r = Some b \<Longrightarrow> b = bytes"
  shows "triple (all_evolved {} fs old) (save_state to_json nonce root r) (\<lambda>_ _. True)
    (old_or_written fs (d @ [''state.json'']) (bytes @ [newline]) old)"
    (is "triple ?A _ ?T ?E")
proof -
  let ?dir = "root @ [operation_id r]"
  have weak: "\<And>w. ?A w \<Longrightarrow> ?E w" by (rule all_evolved_old)
  have wr: "triple ?A (write_and_replace to_json (?dir @ [temporary_name nonce]) (?dir @ [''state.json'']) r)
      (\<lambda>_ _. True) ?E"
  proof (cases "to_json r")
    case None
    from replace_triple_no_json [where to_json = to_json, OF this] show ?thesis
      by (rule triple_conseq) (auto dest: weak)
  next
    case (Some b)
    then have "to_json r = Some bytes" using bytes by simp
    from replace_triple [where to_json = to_json, OF R this] show ?thesis by (rule triple_conseq) auto
  qed
  have rm: "triple ?E (attempt (remove_file (?dir @ [temporary_name nonce])) (\<lambda>_. throw e)) (\<lambda>_ _. True) ?E"
    for e :: persistence_error
    by (rule triple_attempt [OF triple_keeps [OF keeps_remove_tmp [OF R]]]) (auto intro: triple_throw)
  have tail: "triple ?A (attempt (write_and_replace to_json (?dir @ [temporary_name nonce])
      (?dir @ [''state.json'']) r) (\<lambda>result. case result of Inr u \<Rightarrow> ret u
      | Inl e \<Rightarrow> attempt (remove_file (?dir @ [temporary_name nonce])) (\<lambda>_. throw e))) (\<lambda>_ _. True) ?E"
    by (rule triple_attempt [OF wr], unfold sum.case) (rule triple_ret, simp, rule rm, assumption)
  show ?thesis
    unfolding save_state_def Let_def
    by (rule triple_abind [OF triple_of_result [where Q = "\<lambda>_. ?A"]], assumption, erule weak)+
      (rule triple_abind [OF triple_keeps [OF keeps_prepare_root weak]], assumption,
       rule triple_abind [OF triple_keeps [OF keeps_ensure_directory weak]], assumption,
       rule triple_abind [OF triple_keeps [OF keeps_reject_symlink weak]], simp, assumption, rule tail)
qed

lemma save_state_invalid: "validate_state r = Inl e \<Longrightarrow> snd (save_state to_json nonce root r w) = w"
  by (cases "validate_operation_id (operation_id r)")
    (simp_all add: save_state_def of_result_def abind_def throw_def ret_def)

text \<open>Every file system a power cut can leave during a save holds the old record or the new one.\<close>

definition old_or_new ::
  "(string \<Rightarrow> operation_state_record option) \<Rightarrow> path \<Rightarrow> operation_state_record \<Rightarrow> operation_state_record \<Rightarrow> world \<Rightarrow> bool" where
  "old_or_new from_json root r0 r w =
     (\<forall>x\<in>set (w_fs w # w_older w). safely_stored from_json root r0 x \<or> safely_stored from_json root r x)"

lemma save_state_unwritten:
  assumes R: "replaceable (w_fs w) (root @ [operation_id r]) d (temporary_name nonce) ''state.json''"
    and json: "to_json r = None" and run: "save_state to_json nonce root r w = (out, w')"
    and x: "x \<in> set (w_fs w' # w_older w')"
  shows "x \<in> set (w_older w) \<or> evolves {} (w_fs w) x"
proof -
  have A: "all_evolved {} (w_fs w) (w_older w) w" by (auto simp: all_evolved_def)
  have fails: "out \<noteq> Done a" for a using run json save_state_Done by (metis option.distinct(1))
  have "old_or_written (w_fs w) (d @ [''state.json'']) (b @ [newline]) (w_older w) w'" for b
    by (rule triple_not_Done [OF save_state_triple [OF R] A run]) (use fails json in auto)
  then have ow: "x \<in> set (w_older w) \<or> evolves {} (w_fs w) x \<or> written (w_fs w) (d @ [''state.json'']) (b @ [newline]) x"
    for b using x by (auto simp: old_or_written_def)
  have "\<not> (written (w_fs w) p ([] @ [newline]) x \<and> written (w_fs w) p ([newline] @ [newline]) x)" for p
    by (auto simp: written_def)
  with ow [of "[]"] ow [of "[newline]"] show ?thesis by blast
qed

lemma save_state_crash:
  assumes dur: "durable from_json root r0 w" and same: "operation_id r0 = operation_id r"
    and dots: "''..'' \<notin> set root"
    and fresh: "node_at (w_fs w) (root @ [operation_id r, temporary_name nonce]) = Inl ENOENT"
    and codec: "json_codec to_json from_json r"
    and run: "save_state to_json nonce root r w = (out, w')" and valid: "validate_state r = Inr ()"
    and fails: "\<And>u. out \<noteq> Done u"
  shows "old_or_new from_json root r0 r w'"
  unfolding old_or_new_def
proof
  fix x assume x: "x \<in> set (w_fs w' # w_older w')"
  let ?dir = "root @ [operation_id r]"
  have s0: "safely_stored from_json root r0 (w_fs w)" using dur by (simp add: durable_def)
  then obtain q u m c where q: "real_dir (w_fs w) root q" and d: "real_dir (w_fs w) ?dir (q @ [operation_id r])"
    and f: "w_fs w ((q @ [operation_id r]) @ [''state.json'']) = Some (File u m c True)"
    and v1: "validate_operation_id (operation_id r) = Inr ()"
    unfolding safely_stored_def same by blast
  have dots2: "''..'' \<notin> set ?dir" using dots validate_operation_id_dots [OF v1] by auto
  have "locate (w_fs w) (?dir @ [temporary_name nonce]) = Inr ((q @ [operation_id r]) @ [temporary_name nonce])"
    by (rule real_dir_child [OF d dots2])
  with fresh have "w_fs w ((q @ [operation_id r]) @ [temporary_name nonce]) = None"
    by (cases "w_fs w ((q @ [operation_id r]) @ [temporary_name nonce])") (auto simp: node_at_def)
  with d dots2 f have R: "replaceable (w_fs w) ?dir (q @ [operation_id r]) (temporary_name nonce) ''state.json''"
    by (simp add: replaceable_def)
  have A: "all_evolved {} (w_fs w) (w_older w) w" by (auto simp: all_evolved_def)
  have "x \<in> set (w_older w) \<or> evolves {} (w_fs w) x \<or> safely_stored from_json root r x"
  proof (cases "to_json r")
    case None
    then show ?thesis using save_state_unwritten [where to_json = to_json, OF R None run x] by blast
  next
    case (Some bytes)
    have "old_or_written (w_fs w) ((q @ [operation_id r]) @ [''state.json'']) (bytes @ [newline]) (w_older w) w'"
      by (rule triple_not_Done [OF save_state_triple [OF R] A run]) (use fails Some in auto)
    then show ?thesis using x written_safely_stored [OF _ q d codec Some v1 valid]
      by (auto simp: old_or_written_def)
  qed
  then show "safely_stored from_json root r0 x \<or> safely_stored from_json root r x"
    using dur s0 safely_stored_evolves by (auto simp: durable_def)
qed

lemma save_state_old_or_new:
  assumes "durable from_json root r0 w" and "operation_id r0 = operation_id r" and "''..'' \<notin> set root"
    and "node_at (w_fs w) (root @ [operation_id r, temporary_name nonce]) = Inl ENOENT"
    and codec: "json_codec to_json from_json r"
    and run: "save_state to_json nonce root r w = (out, w')"
  shows "old_or_new from_json root r0 r w'"
proof (cases "\<exists>u. out = Done u")
  case True
  then show ?thesis using save_state_durable [OF _ codec] run by (auto simp: durable_def old_or_new_def)
next
  case False
  show ?thesis
  proof (cases "validate_state r")
    case (Inl e)
    then have "w' = w" using save_state_invalid [OF Inl, of to_json nonce root w] run by simp
    with assms(1) show ?thesis by (simp add: durable_def old_or_new_def)
  next
    case (Inr a)
    then show ?thesis using save_state_crash [OF assms] False by simp
  qed
qed

section \<open>Lemmas: other operations\<close>

lemma save_state_frame:
  assumes run: "save_state to_json nonce root r w = (Done u, w')" and other: "oid \<noteq> operation_id r"
    and before: "loads from_json root oid (w_fs w) r1"
  shows "loads from_json root oid (w_fs w') r1"
proof (rule save_state_Done [OF run])
  fix v :: world and q bytes
  assume dots: "''..'' \<notin> set root" and ev: "evolves {} (w_fs w) (w_fs v)"
    and wr: "written (w_fs v) ((q @ [operation_id r]) @ [''state.json'']) (bytes @ [newline]) (w_fs w')"
  from before [unfolded loads_iff [OF dots]] obtain p c u m s where v: "validate_operation_id oid = Inr ()"
    and p: "real_dir (w_fs w) root p" "real_dir (w_fs w) (root @ [oid]) (p @ [oid])"
    and f: "w_fs w ((p @ [oid]) @ [''state.json'']) = Some (File u m c s)" and ok: "from_json c = Some r1"
      "schema_version r1 = STATE_SCHEMA_VERSION" "operation_id r1 = oid" "validate_state r1 = Inr ()"
    unfolding readable_record_def by blast
  obtain m1 where "w_fs v ((p @ [oid]) @ [''state.json'']) = Some (File u m1 c s)"
    using ev f unfolding evolves_def by blast
  moreover have "(p @ [oid]) @ [''state.json''] \<noteq> (q @ [operation_id r]) @ [''state.json'']" using other by simp
  ultimately obtain m2 where "w_fs w' ((p @ [oid]) @ [''state.json'']) = Some (File u m2 c s)"
    using wr unfolding written_def evolves_def by blast
  then have "readable_record from_json (w_fs w') (p @ [oid]) oid r1"
    unfolding readable_record_def using ok by blast
  moreover have "grows (w_fs w) (w_fs v)" "grows (w_fs v) (w_fs w')"
    using ev wr by (simp_all add: written_def evolves_def)
  then have "grows (w_fs w) (w_fs w')" by (rule grows_trans)
  then have "real_dir (w_fs w') root p" "real_dir (w_fs w') (root @ [oid]) (p @ [oid])"
    using p by (auto intro: real_dir_grows)
  ultimately show ?thesis unfolding loads_iff [OF dots] using v by blast
qed

section \<open>Lemmas: loading\<close>

lemma load_state_loads:
  assumes "load_state from_json root oid w = (Done r, w')"
  shows "loads from_json root oid (w_fs w) r"
proof -
  have query: "query op (w :: world) = (Done a, v) \<Longrightarrow> query op (quiet 0 (w_fs w)) = (Done a, quiet 0 (w_fs w)) \<and> w_fs v = w_fs w"
    for op :: "fs \<Rightarrow> io_error + 'x" and a w v by (auto simp: query_Done)
  have reject: "reject_symlink p w = (Done u, v) \<Longrightarrow> reject_symlink p (quiet 0 (w_fs w)) = (Done u, quiet 0 (w_fs w)) \<and> w_fs v = w_fs w"
    for p u w v using reject_symlink_Done [of p w u v] by (simp add: reject_symlink_quiet)
  from assms obtain w1 w2 w3 w4 bytes where *: "validate_operation_id oid = Inr ()" "reject_symlink root w = (Done (), w1)"
    "reject_symlink (root @ [oid]) w1 = (Done (), w2)" "reject_symlink (root @ [oid, ''state.json'']) w2 = (Done (), w3)"
    "read_nofollow (root @ [oid, ''state.json'']) w3 = (Done bytes, w4)" "from_json bytes = Some r"
    "schema_version r = STATE_SCHEMA_VERSION" "operation_id r = oid" "validate_state r = Inr ()"
    by (auto simp: load_state_def act_simps Let_def ok_or_Inr_iff split: if_splits)
  have fs: "w_fs w1 = w_fs w" "w_fs w2 = w_fs w" "w_fs w3 = w_fs w"
    using reject [OF *(2)] reject [OF *(3)] reject [OF *(4)] by simp_all
  have "read_nofollow (root @ [oid, ''state.json'']) (quiet 0 (w_fs w)) = (Done bytes, quiet 0 (w_fs w))"
    using query [OF *(5) [unfolded read_nofollow_def]] fs by (simp add: read_nofollow_def)
  moreover note reject [OF *(2)] reject [OF *(3)] reject [OF *(4)]
  ultimately show ?thesis
    using * fs by (simp add: load_state_def abind_def of_result_def ret_def raise_as_def attempt_def Let_def)
qed

lemma loads_unique: "loads from_json root oid fs r \<Longrightarrow> loads from_json root oid fs r' \<Longrightarrow> r' = r"
  by simp

lemma durable_loads:
  assumes "durable from_json root r w" and dots: "''..'' \<notin> set root"
  shows "loads from_json root (operation_id r) (w_fs w) r"
proof -
  have "safely_stored from_json root r (w_fs w)" using assms(1) by (simp add: durable_def)
  then show ?thesis unfolding loads_iff [OF dots] safely_stored_def readable_record_def by blast
qed

section \<open>Properties\<close>

text \<open>An example: the directory \<open>/var\<close> with the record of one operation.\<close>

definition example_fs :: fs where
  "example_fs = (\<lambda>_. None)([] \<mapsto> Dir 0 493, [''var''] \<mapsto> Dir 0 448, [''var'', operation_id example_record] \<mapsto> Dir 0 448,
     [''var'', operation_id example_record, ''state.json''] \<mapsto> File 0 384 ''1'' True)"

definition example_from_json :: "string \<Rightarrow> operation_state_record option" where
  "example_from_json s = (if s = ''1'' then Some example_record
     else if s = ''2'' @ [newline] then Some example_applying else None)"

definition example_world :: "fault list \<Rightarrow> world" where
  "example_world faults = \<lparr>w_fs = example_fs, w_older = [], w_euid = 0, w_umask = 0, w_faults = faults\<rparr>"

lemma example_ids [simp]: "operation_id example_applying = operation_id example_record"
  by (simp add: example_applying_def)

lemma example_codec: "json_codec (\<lambda>_. Some ''2'') example_from_json example_applying"
  by (simp add: json_codec_def example_from_json_def newline_def)

lemma example_save_returns:
  "\<exists>w'. save_state (\<lambda>_. Some ''2'') ''9'' [''var''] example_applying (example_world []) = (Done (), w')"
proof -
  have "fst (save_state (\<lambda>_. Some ''2'') ''9'' [''var''] example_applying (example_world [])) = Done ()" by code_simp
  then show ?thesis by (metis prod.collapse)
qed

lemma example_durable: "durable example_from_json [''var''] example_record (example_world faults)"
proof -
  have "validate_operation_id (operation_id example_record) = Inr ()" by code_simp
  moreover have "validate_state example_record = Inr ()" by code_simp
  moreover have "real_dir example_fs [''var''] [''var'']"
    by (simp add: real_dir_def locate_def example_fs_def)
  moreover have "real_dir example_fs [''var'', operation_id example_record] [''var'', operation_id example_record]"
    by (simp add: real_dir_def locate_def example_fs_def example_record_def)
  moreover have "example_fs [''var'', operation_id example_record, ''state.json''] = Some (File 0 384 ''1'' True)"
    by (simp add: example_fs_def)
  moreover have "schema_version example_record = STATE_SCHEMA_VERSION" by (simp add: example_record_def)
  moreover have "example_from_json ''1'' = Some example_record" by (simp add: example_from_json_def)
  ultimately have "safely_stored example_from_json [''var''] example_record example_fs"
    unfolding safely_stored_def
    by (intro conjI exI [of _ "[''var'']"] exI [of _ "0 :: nat"] exI [of _ "384 :: u32"] exI [of _ "''1''"]) simp_all
  then show ?thesis by (simp add: durable_def example_world_def)
qed

text \<open>
  C2: A saved record is durable: once \<open>save_state\<close> has returned, from any file system and under any
  schedule of faults, whatever a power cut leaves behind loads exactly the saved record.
\<close>

theorem saved_record_survives_power_cut:
  assumes "save_state to_json nonce root r w = (Done u, w')" and "json_codec to_json from_json r"
  shows "\<forall>fs'. power_cut w' fs' \<longrightarrow> loads from_json root (operation_id r) fs' r"
  using save_state_durable [OF assms] safely_stored_loads unfolding power_cut_def durable_def by blast

theorem saved_record_survives_power_cut_witness:
  "\<exists>w'. save_state (\<lambda>_. Some ''2'') ''9'' [''var''] example_applying (example_world []) = (Done (), w') \<and>
    (\<forall>fs'. power_cut w' fs' \<longrightarrow> loads example_from_json [''var''] (operation_id example_applying) fs' example_applying)"
  using example_save_returns saved_record_survives_power_cut [OF _ example_codec] by blast

text \<open>
  C3: A save is atomic: when a stored record is replaced and a system call fails, the process is
  killed or the power is cut at any point, what is found afterwards loads the old record or the new
  one, never a mixture and never nothing.
\<close>

theorem save_is_atomic:
  assumes "durable from_json root r0 w" and "operation_id r0 = operation_id r" and "''..'' \<notin> set root"
    and "node_at (w_fs w) (root @ [operation_id r, ''.state.json.'' @ nonce]) = Inl ENOENT"
    and "json_codec to_json from_json r" and "save_state to_json nonce root r w = (out, w')"
  shows "\<forall>fs'. power_cut w' fs' \<longrightarrow>
    loads from_json root (operation_id r) fs' r0 \<or> loads from_json root (operation_id r) fs' r"
proof (intro allI impI)
  fix fs' assume "power_cut w' fs'"
  then obtain x where x: "x \<in> set (w_fs w' # w_older w')" "torn_fs x fs'" by (auto simp: power_cut_def)
  have "old_or_new from_json root r0 r w'" by (rule save_state_old_or_new [OF assms])
  with x(1) have "safely_stored from_json root r0 x \<or> safely_stored from_json root r x"
    unfolding old_or_new_def by blast
  then show "loads from_json root (operation_id r) fs' r0 \<or> loads from_json root (operation_id r) fs' r"
    using safely_stored_loads [OF _ x(2) assms(3)] assms(2) by metis
qed

theorem save_is_atomic_witness:
  "\<exists>out w'. save_state (\<lambda>_. Some ''2'') ''9'' [''var''] example_applying (example_world (replicate 7 Go @ [Stop])) = (out, w') \<and>
    (\<forall>fs'. power_cut w' fs' \<longrightarrow>
      loads example_from_json [''var''] (operation_id example_applying) fs' example_record \<or>
      loads example_from_json [''var''] (operation_id example_applying) fs' example_applying)"
proof -
  obtain out w' where run:
    "save_state (\<lambda>_. Some ''2'') ''9'' [''var''] example_applying (example_world (replicate 7 Go @ [Stop])) = (out, w')"
    by fastforce
  have fresh: "node_at (w_fs (example_world (replicate 7 Go @ [Stop])))
      ([''var''] @ [operation_id example_applying, ''.state.json.'' @ ''9'']) = Inl ENOENT"
    by (simp add: node_at_def locate_def example_world_def example_fs_def MAX_LINKS_def)
  from save_is_atomic [OF example_durable _ _ fresh example_codec run] run show ?thesis by simp
qed

text \<open>
  Saving one operation leaves the others alone: a record of another operation that could be
  loaded before is loaded unchanged after.
\<close>

theorem save_keeps_other_operations:
  assumes "save_state to_json nonce root r w = (Done u, w')" and "oid \<noteq> operation_id r"
    and "loads from_json root oid (w_fs w) r1"
  shows "loads from_json root oid (w_fs w') r1"
  by (rule save_state_frame [OF assms])

definition other_record :: operation_state_record where
  "other_record = example_applying\<lparr>operation_id := ''11234567-89ab-cdef-0123-456789abcdef''\<rparr>"

theorem save_keeps_other_operations_witness:
  "\<exists>w'. save_state (\<lambda>_. Some ''2'') ''9'' [''var''] other_record (example_world []) = (Done (), w') \<and>
    loads example_from_json [''var''] (operation_id example_record) (w_fs w') example_record"
proof -
  have "fst (save_state (\<lambda>_. Some ''2'') ''9'' [''var''] other_record (example_world [])) = Done ()" by code_simp
  then obtain w' where run: "save_state (\<lambda>_. Some ''2'') ''9'' [''var''] other_record (example_world []) = (Done (), w')"
    by (metis prod.collapse)
  have "loads example_from_json [''var''] (operation_id example_record) (w_fs (example_world [])) example_record"
    by code_simp
  with run save_keeps_other_operations [OF run, of "operation_id example_record"] show ?thesis
    by (auto simp: other_record_def example_record_def)
qed

text \<open>
  Only valid records come back: under any faults, a record that is loaded has the requested
  identifier and the supported schema, satisfies the shape of its kind, and has a positive snapshot
  number in every state in which packages may have changed, the need for recovery included.
\<close>

theorem loaded_record_is_valid:
  assumes "load_state from_json root oid w = (Done r, w')"
  shows "operation_id r = oid \<and> schema_version r = STATE_SCHEMA_VERSION \<and> validate_state r = Inr () \<and>
    (after_snapshot (op_state r) \<or> op_state r = NeedsRecovery \<longrightarrow>
       (\<exists>n. snapshot_number r = Some n \<and> n \<noteq> 0))"
proof -
  from assms have "operation_id r = oid \<and> schema_version r = STATE_SCHEMA_VERSION \<and> validate_state r = Inr ()"
    by (auto simp: load_state_def act_simps Let_def split: if_splits)
  then show ?thesis using validate_state_snapshot by blast
qed

theorem loaded_record_is_valid_witness:
  "\<exists>w'. load_state example_from_json [''var''] (operation_id example_record) (example_world []) = (Done example_record, w') \<and>
    validate_state example_record = Inr ()"
proof -
  have "fst (load_state example_from_json [''var''] (operation_id example_record) (example_world [])) = Done example_record"
    by code_simp
  then obtain w' where run: "load_state example_from_json [''var''] (operation_id example_record) (example_world []) =
    (Done example_record, w')" by (metis prod.collapse)
  with loaded_record_is_valid [OF run] show ?thesis by blast
qed

end
