(* ===== verification/Effect_Monad.thy ===== *)
theory Effect_Monad
  imports Prelude
begin

text \<open>
  Code that changes a state and may return early with an error: the state is kept in both cases,
  as a Rust function that mutates its arguments through references keeps it. \<open>valid P m Q E\<close> says
  that from a state with \<open>P\<close> a result \<open>a\<close> leaves \<open>Q a\<close> and an error leaves \<open>E\<close>; the rules follow the
  structure of the code.
\<close>

named_theorems valid_rules \<open>rules for pre- and postconditions of effectful code\<close>

type_synonym ('s, 'e, 'a) prog = "'s \<Rightarrow> ('e + 'a) \<times> 's"

definition pret :: "'a \<Rightarrow> ('s, 'e, 'a) prog" where
  "pret a = (\<lambda>s. (Inr a, s))"

definition pfail :: "'e \<Rightarrow> ('s, 'e, 'a) prog" where
  "pfail e = (\<lambda>s. (Inl e, s))"

definition pbind :: "('s, 'e, 'a) prog \<Rightarrow> ('a \<Rightarrow> ('s, 'e, 'b) prog) \<Rightarrow> ('s, 'e, 'b) prog" where
  "pbind m f = (\<lambda>s. case m s of (Inl e, t) \<Rightarrow> (Inl e, t) | (Inr a, t) \<Rightarrow> f a t)"

definition pthen :: "('s, 'e, unit) prog \<Rightarrow> ('s, 'e, 'b) prog \<Rightarrow> ('s, 'e, 'b) prog" where
  "pthen m k = pbind m (\<lambda>_. k)"

definition pget :: "('s \<Rightarrow> 'a) \<Rightarrow> ('s, 'e, 'a) prog" where
  "pget f = (\<lambda>s. (Inr (f s), s))"

definition pupd :: "('s \<Rightarrow> 's) \<Rightarrow> ('s, 'e, unit) prog" where
  "pupd f = (\<lambda>s. (Inr (), f s))"

definition plift :: "'e + 'a \<Rightarrow> ('s, 'e, 'a) prog" where
  "plift r = (\<lambda>s. (r, s))"

definition pguard :: "bool \<Rightarrow> 'e \<Rightarrow> ('s, 'e, unit) prog" where
  "pguard b e = (\<lambda>s. (if b then Inr () else Inl e, s))"

definition pmap_err :: "('e \<Rightarrow> 'f) \<Rightarrow> ('s, 'e, 'a) prog \<Rightarrow> ('s, 'f, 'a) prog" where
  "pmap_err g m = (\<lambda>s. case m s of (Inl e, t) \<Rightarrow> (Inl (g e), t) | (Inr a, t) \<Rightarrow> (Inr a, t))"

text \<open>Code that looks at the result of a call instead of returning its error.\<close>

definition ptry :: "('s, 'e, 'a) prog \<Rightarrow> ('e + 'a \<Rightarrow> ('s, 'f, 'b) prog) \<Rightarrow> ('s, 'f, 'b) prog" where
  "ptry m f = (\<lambda>s. f (fst (m s)) (snd (m s)))"

fun peach :: "('x \<Rightarrow> ('s, 'e, unit) prog) \<Rightarrow> 'x list \<Rightarrow> ('s, 'e, unit) prog" where
  "peach f [] = pret ()"
| "peach f (x # xs) = pthen (f x) (peach f xs)"

section \<open>Pre- and postconditions\<close>

definition valid :: "('s \<Rightarrow> bool) \<Rightarrow> ('s, 'e, 'a) prog \<Rightarrow> ('a \<Rightarrow> 's \<Rightarrow> bool) \<Rightarrow> ('e \<Rightarrow> 's \<Rightarrow> bool) \<Rightarrow> bool" where
  "valid P m Q E = (\<forall>s. P s \<longrightarrow> (case m s of (Inl e, t) \<Rightarrow> E e t | (Inr a, t) \<Rightarrow> Q a t))"

lemma validI: "(\<And>s. P s \<Longrightarrow> case m s of (Inl e, t) \<Rightarrow> E e t | (Inr a, t) \<Rightarrow> Q a t) \<Longrightarrow> valid P m Q E"
  by (simp add: valid_def)

lemma valid_Inr: "valid P m Q E \<Longrightarrow> P s \<Longrightarrow> m s = (Inr a, t) \<Longrightarrow> Q a t"
  unfolding valid_def by fastforce

lemma valid_Inl: "valid P m Q E \<Longrightarrow> P s \<Longrightarrow> m s = (Inl e, t) \<Longrightarrow> E e t"
  unfolding valid_def by fastforce

lemma valid_any: "valid P m (\<lambda>_. R) (\<lambda>_. R) \<Longrightarrow> P s \<Longrightarrow> m s = (r, t) \<Longrightarrow> R t"
  unfolding valid_def by (cases r) fastforce+

lemma valid_pbind [valid_rules]:
  assumes "valid P m R E" and "\<And>a. valid (R a) (f a) Q E"
  shows "valid P (pbind m f) Q E"
  using assms unfolding valid_def pbind_def
  by (fastforce split: prod.splits sum.splits)

lemma valid_pthen [valid_rules]:
  "valid P m (\<lambda>_. R) E \<Longrightarrow> valid R k Q E \<Longrightarrow> valid P (pthen m k) Q E"
  unfolding pthen_def by (rule valid_pbind)

lemma valid_pret: "(\<And>s. P s \<Longrightarrow> Q a s) \<Longrightarrow> valid P (pret a) Q E"
  by (simp add: valid_def pret_def)

lemma valid_pfail: "(\<And>s. P s \<Longrightarrow> E e s) \<Longrightarrow> valid P (pfail e) Q E"
  by (simp add: valid_def pfail_def)

lemma valid_pget: "(\<And>s. P s \<Longrightarrow> Q (f s) s) \<Longrightarrow> valid P (pget f) Q E"
  by (simp add: valid_def pget_def)

lemma valid_pupd: "(\<And>s. P s \<Longrightarrow> Q () (f s)) \<Longrightarrow> valid P (pupd f) Q E"
  by (simp add: valid_def pupd_def)

lemma valid_plift: "(\<And>s a. P s \<Longrightarrow> r = Inr a \<Longrightarrow> Q a s) \<Longrightarrow> (\<And>s e. P s \<Longrightarrow> r = Inl e \<Longrightarrow> E e s) \<Longrightarrow> valid P (plift r) Q E"
  by (cases r) (auto simp: valid_def plift_def)

lemma valid_pguard: "(\<And>s. P s \<Longrightarrow> b \<Longrightarrow> Q () s) \<Longrightarrow> (\<And>s. P s \<Longrightarrow> E e s) \<Longrightarrow> valid P (pguard b e) Q E"
  by (auto simp: valid_def pguard_def)

lemma valid_pmap_err [valid_rules]: "valid P m Q (\<lambda>e. E (g e)) \<Longrightarrow> valid P (pmap_err g m) Q E"
  unfolding valid_def pmap_err_def by (fastforce split: prod.splits sum.splits)

lemma valid_ptry:
  "valid P m (\<lambda>a. R (Inr a)) (\<lambda>e. R (Inl e)) \<Longrightarrow> (\<And>r. valid (R r) (f r) Q E) \<Longrightarrow> valid P (ptry m f) Q E"
  unfolding valid_def ptry_def by (fastforce split: prod.splits sum.splits)

lemma valid_if [valid_rules]:
  "(b \<Longrightarrow> valid P m Q E) \<Longrightarrow> (\<not> b \<Longrightarrow> valid P k Q E) \<Longrightarrow> valid P (if b then m else k) Q E"
  by simp

lemma valid_conseq:
  "valid P' m Q' E' \<Longrightarrow> (\<And>s. P s \<Longrightarrow> P' s) \<Longrightarrow> (\<And>a s. Q' a s \<Longrightarrow> Q a s) \<Longrightarrow> (\<And>e s. E' e s \<Longrightarrow> E e s) \<Longrightarrow> valid P m Q E"
  unfolding valid_def by (fastforce split: prod.splits sum.splits)

lemma valid_conj:
  "valid P m Q E \<Longrightarrow> valid P' m Q' E' \<Longrightarrow>
   valid (\<lambda>s. P s \<and> P' s) m (\<lambda>a s. Q a s \<and> Q' a s) (\<lambda>e s. E e s \<and> E' e s)"
  unfolding valid_def by (fastforce split: prod.splits sum.splits)

text \<open>Invariants: what a program keeps whether it returns or fails.\<close>

definition maintains :: "('s \<Rightarrow> bool) \<Rightarrow> ('s, 'e, 'a) prog \<Rightarrow> bool" where
  "maintains I m = valid I m (\<lambda>_. I) (\<lambda>_. I)"

lemma maintains_pbind: "maintains I m \<Longrightarrow> (\<And>a. maintains I (f a)) \<Longrightarrow> maintains I (pbind m f)"
  unfolding maintains_def by (rule valid_pbind)

lemma maintains_pthen: "maintains I m \<Longrightarrow> maintains I k \<Longrightarrow> maintains I (pthen m k)"
  unfolding maintains_def by (rule valid_pthen)

lemma maintains_basic [simp]:
  "maintains I (pret a)" "maintains I (pfail e)" "maintains I (pget f)" "maintains I (plift r)" "maintains I (pguard b e)"
  by (auto simp: maintains_def intro: valid_pret valid_pfail valid_pget valid_plift valid_pguard)

lemma maintains_pupd: "(\<And>s. I s \<Longrightarrow> I (f s)) \<Longrightarrow> maintains I (pupd f)"
  unfolding maintains_def by (rule valid_pupd)

lemma maintains_if: "maintains I m \<Longrightarrow> maintains I k \<Longrightarrow> maintains I (if b then m else k)"
  by simp

lemma maintains_peach: "(\<And>x. x \<in> set xs \<Longrightarrow> maintains I (f x)) \<Longrightarrow> maintains I (peach f xs)"
  by (induction xs) (auto intro: maintains_pthen)

lemma maintains_pmap_err: "maintains I m \<Longrightarrow> maintains I (pmap_err g m)"
  unfolding maintains_def by (rule valid_pmap_err)

lemma maintains_ptry: "maintains I m \<Longrightarrow> (\<And>r. maintains I (f r)) \<Longrightarrow> maintains I (ptry m f)"
  unfolding maintains_def by (rule valid_ptry)

lemma maintainsD: "maintains I m \<Longrightarrow> I s \<Longrightarrow> m s = (r, t) \<Longrightarrow> I t"
  unfolding maintains_def by (rule valid_any)

lemmas maintains_intros = maintains_pbind maintains_pthen maintains_if

section \<open>Runs that succeed\<close>

text \<open>\<open>succeeds P m Q\<close>: from a state with \<open>P\<close> the program returns a result, with \<open>Q\<close>.\<close>

definition succeeds :: "('s \<Rightarrow> bool) \<Rightarrow> ('s, 'e, 'a) prog \<Rightarrow> ('a \<Rightarrow> 's \<Rightarrow> bool) \<Rightarrow> bool" where
  "succeeds P m Q = (\<forall>s. P s \<longrightarrow> (\<exists>a t. m s = (Inr a, t) \<and> Q a t))"

lemma succeeds_pbind: "succeeds P m R \<Longrightarrow> (\<And>a. succeeds (R a) (f a) Q) \<Longrightarrow> succeeds P (pbind m f) Q"
  unfolding succeeds_def pbind_def by fastforce

lemma succeeds_pthen: "succeeds P m (\<lambda>_. R) \<Longrightarrow> succeeds R k Q \<Longrightarrow> succeeds P (pthen m k) Q"
  unfolding pthen_def by (rule succeeds_pbind)

lemma succeeds_keep: "succeeds P m (\<lambda>_. P) \<Longrightarrow> succeeds P k Q \<Longrightarrow> succeeds P (pthen m k) Q"
  by (rule succeeds_pthen)

lemma succeeds_pret: "(\<And>s. P s \<Longrightarrow> Q a s) \<Longrightarrow> succeeds P (pret a) Q"
  by (simp add: succeeds_def pret_def)

lemma succeeds_fact:
  "succeeds P m (\<lambda>a s. F a \<and> R s) \<Longrightarrow> (\<And>a. F a \<Longrightarrow> succeeds R (f a) Q) \<Longrightarrow> succeeds P (pbind m f) Q"
  unfolding succeeds_def pbind_def by fastforce

lemma succeeds_guard: "b \<Longrightarrow> succeeds P k Q \<Longrightarrow> succeeds P (pthen (pguard b e) k) Q"
  by (simp add: succeeds_def pthen_def pbind_def pguard_def)

lemma succeeds_lifted: "r = Inr a \<Longrightarrow> succeeds P (f a) Q \<Longrightarrow> succeeds P (pbind (plift r) f) Q"
  by (simp add: succeeds_def pbind_def plift_def)

lemma succeeds_checked: "r = Inr () \<Longrightarrow> succeeds P k Q \<Longrightarrow> succeeds P (pthen (plift r) k) Q"
  by (simp add: succeeds_def pbind_def pthen_def plift_def)

lemma succeeds_peach: "(\<And>x. x \<in> set xs \<Longrightarrow> succeeds P (f x) (\<lambda>_. P)) \<Longrightarrow> succeeds P (peach f xs) (\<lambda>_. P)"
  by (induction xs) (auto intro: succeeds_pret succeeds_pthen)

lemma succeeds_pmap_err: "succeeds P m Q \<Longrightarrow> succeeds P (pmap_err g m) Q"
  unfolding succeeds_def pmap_err_def by fastforce

section \<open>Results of runs\<close>

lemma pbind_Inr_iff [result_simps]:
  "(pbind m f s = (Inr b, t)) = (\<exists>a u. m s = (Inr a, u) \<and> f a u = (Inr b, t))"
  by (auto simp: pbind_def split: prod.splits sum.splits)

lemma pmap_err_Inr_iff [result_simps]: "(pmap_err g m s = (Inr b, t)) = (m s = (Inr b, t))"
  by (auto simp: pmap_err_def split: prod.splits sum.splits)

lemma pmap_err_Inl_iff: "(pmap_err g m s = (Inl e, t)) = (\<exists>e'. e = g e' \<and> m s = (Inl e', t))"
  by (auto simp: pmap_err_def split: prod.splits sum.splits)

lemma ptry_iff: "(ptry m f s = x) = (\<exists>r t. m s = (r, t) \<and> f r t = x)"
  by (cases "m s") (simp add: ptry_def)

lemma pthen_Inr_iff [result_simps]:
  "(pthen m k s = (Inr b, t)) = (\<exists>u. m s = (Inr (), u) \<and> k u = (Inr b, t))"
  by (simp add: pthen_def pbind_Inr_iff)

lemma pguard_Inr_iff: "(pguard b e s = (Inr u, t)) = (b \<and> t = s)"
  by (auto simp: pguard_def)

lemma plift_Inr_iff: "(plift r s = (Inr a, t)) = (r = Inr a \<and> t = s)"
  by (auto simp: plift_def)

lemma pget_Inr_iff: "(pget f s = (Inr a, t)) = (a = f s \<and> t = s)"
  by (auto simp: pget_def)

lemma pupd_Inr_iff: "(pupd f s = (Inr u, t)) = (t = f s)"
  by (auto simp: pupd_def)

lemma pret_Inr_iff: "(pret b s = (Inr a, t)) = (a = b \<and> t = s)"
  by (auto simp: pret_def)

lemma pfail_Inr_iff: "(pfail e s = (Inr a, t)) = False"
  by (auto simp: pfail_def)

lemmas prog_Inr = pbind_Inr_iff pthen_Inr_iff pmap_err_Inr_iff pguard_Inr_iff plift_Inr_iff pget_Inr_iff pupd_Inr_iff
  pret_Inr_iff pfail_Inr_iff

lemma pthen_tail: "pthen m k s = (Inr b, t) \<Longrightarrow> \<exists>u. k u = (Inr b, t)"
  by (auto simp: pthen_Inr_iff)

lemma pbind_tail: "pbind m f s = (Inr b, t) \<Longrightarrow> \<exists>a u. f a u = (Inr b, t)"
  by (auto simp: pbind_Inr_iff)

text \<open>
  Running a program on a concrete state: the definitions unfold only when they meet a state, so that
  the simplifier follows the order of execution.
\<close>

lemmas prog_run = pbind_def [THEN fun_cong] pthen_def [THEN fun_cong] pret_def [THEN fun_cong] pfail_def [THEN fun_cong]
  pget_def [THEN fun_cong] pupd_def [THEN fun_cong] plift_def [THEN fun_cong] pguard_def [THEN fun_cong]
  pmap_err_def [THEN fun_cong] ptry_def [THEN fun_cong]

end
