(* ===== verification/Executor.thy ===== *)
theory Executor
  imports Planner Persistence Effect_Monad
begin

text \<open>
  \<open>service/src/executor.rs\<close> with the prepared repository context of \<open>repository_context.rs\<close>: the two
  ways a confirmed operation is carried out, online by \<open>execute_update\<close> and by staging an offline
  upgrade in \<open>stage_release_upgrade\<close>. The mutable record, the record on disk and the sequence of
  effects so far form the state. Everything outside the program (the package manager, snapper, the
  kernel, the clock, the planner's view of the host) is the record \<open>surroundings\<close>, whose
  answers depend on the whole history of effects, so any behaviour over time is covered. Another
  process of the service may cancel the operation in front of every effect.

  Saving a record is one step here: that it is atomic and durable is shown in the theory Persistence.
  The event log that the observer writes does not influence the execution and is not part of the state.
\<close>

section \<open>Errors\<close>

datatype execution_error =
    PlanChanged | Refresh command_output | Replan planner_error | Download command_output
  | Snapshot command_output | InvalidSnapshot | Persist persistence_error | Apply command_output
  | PackageManagerRestart command_output | Initramfs command_output | Grub command_output
  | Transition transition_error | Stage | SystemUpdateExists | Busy | Cancelled | RepositoryKey | Inventory

fun code :: "execution_error \<Rightarrow> string" where
  "code PlanChanged = ''PLAN_CHANGED''"
| "code (Refresh _) = ''METADATA_REFRESH_FAILED''"
| "code (Replan _) = ''PLAN_REVALIDATION_FAILED''"
| "code (Download _) = ''DOWNLOAD_FAILED''"
| "code (Snapshot _) = ''SNAPSHOT_FAILED''"
| "code InvalidSnapshot = ''SNAPSHOT_FAILED''"
| "code (Persist _) = ''STATE_WRITE_FAILED''"
| "code (Apply _) = ''ZYPPER_APPLY_FAILED''"
| "code (PackageManagerRestart _) = ''ZYPPER_RESTART_REQUIRED''"
| "code (Initramfs _) = ''INITRAMFS_FAILED''"
| "code (Grub _) = ''BOOTLOADER_FAILED''"
| "code (Transition _) = ''INVALID_STATE_TRANSITION''"
| "code Stage = ''OFFLINE_STAGE_FAILED''"
| "code SystemUpdateExists = ''SYSTEM_UPDATE_BUSY''"
| "code Busy = ''TRANSACTION_BUSY''"
| "code Cancelled = ''CANCELLED''"
| "code RepositoryKey = ''REPOSITORY_KEY_FAILED''"
| "code Inventory = ''PACKAGE_PRESERVATION_FAILED''"

fun is_blocking :: "execution_error \<Rightarrow> bool" where
  "is_blocking PlanChanged = True"
| "is_blocking (Refresh _) = True"
| "is_blocking (Replan _) = True"
| "is_blocking (Download _) = True"
| "is_blocking Busy = True"
| "is_blocking RepositoryKey = True"
| "is_blocking _ = False"

definition failure_state :: "execution_error \<Rightarrow> bool \<Rightarrow> operation_state" where
  "failure_state error has_snapshot =
     (if is_blocking error \<and> \<not> has_snapshot then Blocked
      else if has_snapshot then NeedsRecovery else Failed)"

section \<open>State and surroundings\<close>

datatype effect =
    Saved operation_state_record
  | Notified operation_state
  | Ran string "string list"
  | WroteFile string
  | LinkedMarker
  | UnlinkedMarker
  | UserCancelled

record exec_state =
  es_record :: operation_state_record
  es_disk :: "operation_state_record option"
  es_trace :: "effect list"

text \<open>
  A save can fail before the record on disk is replaced, or after it (when only the synchronisation
  of the directory fails), and so can the creation of the link at \<open>/system-update\<close>, the marker.
\<close>

datatype save_outcome = SaveOk | SaveLost persistence_error | SaveUnsynced persistence_error
datatype lock_outcome = LockAcquired | LockUnavailable | LockHeld
datatype link_outcome = LinkMade | LinkUnsynced | LinkRefused
datatype marker = NoMarker | MarkerLink bool | MarkerOther | MarkerError

type_synonym history = "effect list"

record surroundings =
  on_lock :: "history \<Rightarrow> lock_outcome"
  on_save :: "history \<Rightarrow> save_outcome"
  on_load :: "history \<Rightarrow> bool"
  on_cancel :: "history \<Rightarrow> bool"
  on_run :: "history \<Rightarrow> string \<Rightarrow> string list \<Rightarrow> command_output"
  on_write :: "history \<Rightarrow> string \<Rightarrow> bool"
  on_plan :: "history \<Rightarrow> planning_view"
  on_inventory :: "history \<Rightarrow> inventory_report option"
  on_manifest :: "history \<Rightarrow> release_manifest option"
  on_repository_key :: "history \<Rightarrow> repository_transition \<Rightarrow> bool"
  on_payloads :: "history \<Rightarrow> cache_entry"
  on_manifest_time :: "history \<Rightarrow> bool"
  on_marker :: "history \<Rightarrow> marker"
  on_link :: "history \<Rightarrow> link_outcome"
  on_now :: "history \<Rightarrow> string"

section \<open>The other process: cancelling\<close>

definition cancelled_record :: "string \<Rightarrow> operation_state_record \<Rightarrow> operation_state_record" where
  "cancelled_record time r = r\<lparr>op_state := Failed, error_code := Some ''CANCELLED'',
     op_sequence := sat_add (op_sequence r) 1, updated_at := time\<rparr>"

definition interfere :: "surroundings \<Rightarrow> exec_state \<Rightarrow> exec_state" where
  "interfere env s = (case es_disk s of
      None \<Rightarrow> s
    | Some d \<Rightarrow>
        if on_cancel env (es_trace s) \<and> is_cancelable (op_state d)
        then s\<lparr>es_disk := Some (cancelled_record (on_now env (es_trace s)) d),
               es_trace := UserCancelled # es_trace s\<rparr>
        else s)"

section \<open>Effects\<close>

type_synonym 'a exec = "(exec_state, execution_error, 'a) prog"

definition with_history :: "surroundings \<Rightarrow> (history \<Rightarrow> 'a) \<Rightarrow> 'a exec" where
  "with_history env f = (\<lambda>s. let s' = interfere env s in (Inr (f (es_trace s')), s'))"

definition emit :: "effect \<Rightarrow> unit exec" where
  "emit e = pupd (\<lambda>s. s\<lparr>es_trace := e # es_trace s\<rparr>)"

definition acquire_lock :: "surroundings \<Rightarrow> unit exec" where
  "acquire_lock env = pbind (with_history env (on_lock env)) (\<lambda>l. case l of
      LockAcquired \<Rightarrow> pret () | LockUnavailable \<Rightarrow> pfail Stage | LockHeld \<Rightarrow> pfail Busy)"

definition check_record :: "operation_state_record \<Rightarrow> persistence_error + unit" where
  "check_record r = rbind (validate_operation_id (operation_id r)) (\<lambda>_. validate_state r)"

definition save :: "surroundings \<Rightarrow> unit exec" where
  "save env = pbind (with_history env (on_save env)) (\<lambda>outcome.
     pbind (pget es_record) (\<lambda>r. case check_record r of
       Inl e \<Rightarrow> pfail (Persist e)
     | Inr _ \<Rightarrow> (case outcome of
         SaveLost e \<Rightarrow> pfail (Persist e)
       | SaveUnsynced e \<Rightarrow> pthen (pupd (\<lambda>s. s\<lparr>es_disk := Some r\<rparr>)) (pfail (Persist e))
       | SaveOk \<Rightarrow> pthen (pupd (\<lambda>s. s\<lparr>es_disk := Some r\<rparr>)) (emit (Saved r)))))"

definition persist :: "surroundings \<Rightarrow> unit exec" where
  "persist env = pthen (save env) (pbind (pget (\<lambda>s. op_state (es_record s))) (\<lambda>st. emit (Notified st)))"

definition transition :: "operation_state \<Rightarrow> unit exec" where
  "transition next = pbind (pget (\<lambda>s. transition_to (es_record s) next)) (\<lambda>r. case r of
      Inl e \<Rightarrow> pfail (Transition e)
    | Inr r' \<Rightarrow> pupd (\<lambda>s. s\<lparr>es_record := r'\<rparr>))"

definition run_observed :: "surroundings \<Rightarrow> string \<Rightarrow> string list \<Rightarrow> command_output exec" where
  "run_observed env program args =
     pbind (with_history env (\<lambda>h. on_run env h program args)) (\<lambda>out.
       pthen (emit (Ran program args)) (pret out))"

definition require_success ::
  "(command_output \<Rightarrow> execution_error) \<Rightarrow> command_output exec \<Rightarrow> command_output exec" where
  "require_success e m = pbind m (\<lambda>out. if success out then pret out else pfail (e out))"

definition cancel_requested :: "surroundings \<Rightarrow> bool exec" where
  "cancel_requested env = pbind (with_history env (on_load env)) (\<lambda>readable.
     pget (\<lambda>s. readable \<and> is_some_and (es_disk s) (\<lambda>d. error_code d = Some ''CANCELLED'')))"

definition stop_if_cancelled :: "surroundings \<Rightarrow> unit exec" where
  "stop_if_cancelled env = pbind (cancel_requested env) (\<lambda>c. if c then pfail Cancelled else pret ())"

definition write_private :: "surroundings \<Rightarrow> string \<Rightarrow> unit exec" where
  "write_private env name = pbind (with_history env (\<lambda>h. on_write env h name)) (\<lambda>ok.
     if ok then emit (WroteFile name) else pfail Stage)"

definition capture_inventory :: "surroundings \<Rightarrow> execution_error \<Rightarrow> inventory_report exec" where
  "capture_inventory env e = pbind (with_history env (on_inventory env)) (\<lambda>r. plift (ok_or r e))"

text \<open>Planning again on the metadata that is cached at this point.\<close>

definition replan :: "surroundings \<Rightarrow> plan_digest \<Rightarrow> planned_update exec" where
  "replan env sha = pbind (with_history env (on_plan env)) (\<lambda>view.
     plift (map_err Replan (plan_update_with_cached_metadata sha view)))"

fun first_number :: "string list \<Rightarrow> u64 option" where
  "first_number [] = None"
| "first_number (line # ls) = (case parse_u64 (trim line) of Some n \<Rightarrow> Some n | None \<Rightarrow> first_number ls)"

definition parse_snapshot_number :: "string \<Rightarrow> execution_error + u64" where
  "parse_snapshot_number stdout =
     ok_or (opt_filter (\<lambda>n. 0 < n) (first_number (rev (str_lines stdout)))) InvalidSnapshot"

definition snapshot_arguments :: "string \<Rightarrow> string list" where
  "snapshot_arguments description = [''--no-dbus'', ''--config'', ''root'', ''create'', ''--read-only'',
     ''--description'', description, ''--print-number'']"

definition create_snapshot :: "surroundings \<Rightarrow> string \<Rightarrow> unit exec" where
  "create_snapshot env description =
     pbind (require_success Snapshot (run_observed env ''snapper'' (snapshot_arguments description))) (\<lambda>out.
     pbind (plift (parse_snapshot_number (snd out))) (\<lambda>n.
     pthen (pupd (\<lambda>s. s\<lparr>es_record := (es_record s)\<lparr>snapshot_number := Some n\<rparr>\<rparr>))
       (save env)))"

section \<open>Online updates\<close>

definition ZYPPER_UPDATE_POLICY :: "string list" where
  "ZYPPER_UPDATE_POLICY = [''--no-allow-downgrade'', ''--no-allow-name-change'', ''--no-allow-arch-change'',
     ''--no-allow-vendor-change'']"

definition apply_arguments :: "string list" where
  "apply_arguments = [''--xmlout'', ''--non-interactive'', ''--no-refresh'', ''update'', ''--details'']
     @ ZYPPER_UPDATE_POLICY"

definition download_arguments :: "string list" where
  "download_arguments = [''--xmlout'', ''--non-interactive'', ''--no-refresh'', ''update'', ''--download-only'',
     ''--details''] @ ZYPPER_UPDATE_POLICY"

datatype apply_exit = ExitCompleted | ExitRebootRequired
datatype apply_exit_error = RestartPackageManager | ExitFailed

definition classify_apply_exit :: "int option \<Rightarrow> apply_exit_error + apply_exit" where
  "classify_apply_exit c =
     (if c = Some 0 then Inr ExitCompleted else if c = Some 102 then Inr ExitRebootRequired
      else if c = Some 103 then Inl RestartPackageManager else Inl ExitFailed)"

record execution_outcome =
  eo_reboot_required :: bool
  eo_package_manager_restart :: bool

definition touches_boot :: "package_change list \<Rightarrow> bool" where
  "touches_boot cs = list_ex (\<lambda>c. starts_with (pc_name c) ''kernel-'' \<or>
     pc_name c \<in> {''dracut'', ''shim'', ''grub2'', ''grub2-x86_64-efi''}) cs"

definition rebuild_boot :: "surroundings \<Rightarrow> unit exec" where
  "rebuild_boot env =
     pbind (require_success Initramfs (run_observed env ''dracut'' [''--regenerate-all'', ''--force''])) (\<lambda>_.
     pbind (require_success Grub (run_observed env ''grub2-mkconfig'' [''-o'', ''/boot/grub2/grub.cfg''])) (\<lambda>_.
       pret ()))"

definition apply_update :: "surroundings \<Rightarrow> command_output exec" where
  "apply_update env = pbind (run_observed env ''zypper'' apply_arguments) (\<lambda>out.
     case classify_apply_exit (fst out) of
       Inr _ \<Rightarrow> pret out
     | Inl RestartPackageManager \<Rightarrow> pfail (PackageManagerRestart out)
     | Inl ExitFailed \<Rightarrow> pfail (Apply out))"

text \<open>The steps up to the download, and the second comparison with the confirmed plan.\<close>

definition prepare_update :: "surroundings \<Rightarrow> plan_digest \<Rightarrow> planned_update \<Rightarrow> planned_update exec" where
  "prepare_update env sha confirmed =
     pthen (write_private env ''plan.json'') (
     pbind (capture_inventory env Stage) (\<lambda>_.
     pthen (write_private env ''inventory-before.json'') (
     pthen (transition Downloading) (
     pthen (persist env) (
     pbind (require_success Refresh (run_observed env ''zypper'' [''--non-interactive'', ''refresh''])) (\<lambda>_.
     pthen (stop_if_cancelled env) (
     pbind (replan env sha) (\<lambda>fresh.
     pthen (pguard (pu_plan_sha256 fresh = pu_plan_sha256 confirmed) PlanChanged) (
     pbind (require_success Download (run_observed env ''zypper'' download_arguments)) (\<lambda>_.
     pthen (stop_if_cancelled env) (
     pbind (replan env sha) (\<lambda>current.
     pthen (pguard (sha ((pu_plan current)\<lparr>pl_required_bytes := pl_required_bytes (pu_plan confirmed)\<rparr>)
            = Some (pu_plan_sha256 confirmed)) PlanChanged) (
       pret fresh)))))))))))))"

definition execute_update ::
  "surroundings \<Rightarrow> plan_digest \<Rightarrow> planned_update \<Rightarrow> execution_outcome exec" where
  "execute_update env sha confirmed =
     pthen (acquire_lock env) (
     pbind (prepare_update env sha confirmed) (\<lambda>fresh.
     pthen (transition Snapshotting) (
     pthen (persist env) (
     pthen (create_snapshot env ''Lyra Upgrade'') (
     pthen (transition Applying) (
     pthen (persist env) (
     pbind (apply_update env) (\<lambda>out.
     pthen (if touches_boot (changes (pu_solver fresh)) then rebuild_boot env else pret ()) (
       let reboot_required = (sr_reboot_required (pu_solver fresh) \<or> fst out = Some 102
             \<or> touches_boot (changes (pu_solver fresh))) in
     pbind (capture_inventory env Inventory) (\<lambda>report.
     pthen (write_private env ''inventory-after.json'') (
     pthen (plift (map_err (\<lambda>_. Inventory) (verify_result (pu_plan confirmed) report))) (
     pthen (transition (if reboot_required then AwaitingReboot else Completed)) (
     pthen (persist env) (
       pret \<lparr>eo_reboot_required = reboot_required, eo_package_manager_restart = False\<rparr>))))))))))))))"

section \<open>Staging an offline upgrade\<close>

definition context_arguments :: "string \<Rightarrow> string list" where
  "context_arguments dir = [''--reposd-dir'', dir @ ''/repos.d'', ''--cache-dir'', dir @ ''/cache'',
     ''--raw-cache-dir'', dir @ ''/cache/raw'', ''--solv-cache-dir'', dir @ ''/cache/solv'',
     ''--pkg-cache-dir'', dir @ ''/cache/packages'']"

definition revalidation_error :: "planner_error \<Rightarrow> execution_error" where
  "revalidation_error e = (case e of PlanMoved \<Rightarrow> PlanChanged | _ \<Rightarrow> Replan e)"

definition revalidate_staged_solver ::
  "surroundings \<Rightarrow> plan_digest \<Rightarrow> manifest_digest \<Rightarrow> string \<Rightarrow> release_manifest \<Rightarrow> planned_update \<Rightarrow> unit exec" where
  "revalidate_staged_solver env sha msha xml m confirmed =
     pbind (with_history env (on_plan env)) (\<lambda>view.
     pbind (pget (\<lambda>s. op_plan_sha256 (es_record s))) (\<lambda>expected_hash.
       plift (map_err revalidation_error
         (rbind (discovered_facts view) (\<lambda>facts.
          rbind (solved view xml (map rt_alias (mf_repositories m))) (\<lambda>solver.
            revalidate_release_plan sha msha facts solver m (pu_plan confirmed) expected_hash))))))"

definition stage_repository :: "surroundings \<Rightarrow> repository_transition \<Rightarrow> unit exec" where
  "stage_repository env r =
     pbind (with_history env (\<lambda>h. on_repository_key env h r)) (\<lambda>ok.
       if ok then write_private env (''repos.d/'' @ rt_alias r @ ''.repo'') else pfail RepositoryKey)"

definition stage_files :: "surroundings \<Rightarrow> release_manifest \<Rightarrow> unit exec" where
  "stage_files env m =
     pbind (capture_inventory env Stage) (\<lambda>_.
     pthen (write_private env ''inventory-before.json'') (
     pthen (write_private env ''manifest.signed.json'') (
     pthen (write_private env ''manifest.signed.json.asc'') (
     pthen (write_private env ''repos.d'') (
     pthen (write_private env ''cache/packages'') (
     pthen (write_private env ''keys'') (
     pthen (peach (stage_repository env) (mf_repositories m)) (
     pthen (write_private env ''manifest.json'') (
       write_private env ''plan.json'')))))))))"

definition stage_run ::
  "surroundings \<Rightarrow> plan_digest \<Rightarrow> manifest_digest \<Rightarrow> string list \<Rightarrow> release_manifest \<Rightarrow> planned_update \<Rightarrow>
   transaction_mode \<Rightarrow> unit exec" where
  "stage_run env sha msha common m confirmed mode =
     pbind (plift (map_err (\<lambda>e. Replan (PlanMigration e))
        (transaction_arguments m (pl_installed_packages (pu_plan confirmed)) mode))) (\<lambda>args.
     pbind (require_success Download (run_observed env ''zypper''
        (common @ [''--xmlout'', ''--no-refresh''] @ args))) (\<lambda>out.
     pthen (revalidate_staged_solver env sha msha (snd out) m confirmed)
       (stop_if_cancelled env)))"

definition stage_system_update :: "surroundings \<Rightarrow> unit exec" where
  "stage_system_update env = pbind (with_history env (on_marker env)) (\<lambda>node. case node of
      MarkerLink ours \<Rightarrow> if ours then pret () else pfail SystemUpdateExists
    | MarkerOther \<Rightarrow> pfail SystemUpdateExists
    | NoMarker \<Rightarrow> pbind (with_history env (on_link env)) (\<lambda>outcome. case outcome of
        LinkMade \<Rightarrow> emit LinkedMarker
      | LinkUnsynced \<Rightarrow> pthen (emit LinkedMarker) (pfail Stage)
      | LinkRefused \<Rightarrow> pfail Stage)
    | MarkerError \<Rightarrow> pfail Stage)"

definition stage_checks ::
  "surroundings \<Rightarrow> plan_digest \<Rightarrow> manifest_digest \<Rightarrow> planned_update \<Rightarrow> release_manifest \<Rightarrow> unit exec" where
  "stage_checks env sha msha confirmed m =
     pbind (pget es_record) (\<lambda>r.
     pthen (pguard (operation r = manifest_operation m \<and> pl_target (pu_plan confirmed) = Some (mf_target m) \<and>
        pl_manifest_sha256 (pu_plan confirmed) = op_manifest_sha256 r) PlanChanged) (
     pthen (plift (map_err revalidation_error
        (check_confirmed_release_plan sha msha m (pu_plan confirmed) (op_plan_sha256 r)))) (
     pbind (with_history env (on_manifest env)) (\<lambda>verified.
     pbind (plift (ok_or verified RepositoryKey)) (\<lambda>current.
       pguard (current = m) PlanChanged)))))"

definition stage_download ::
  "surroundings \<Rightarrow> plan_digest \<Rightarrow> manifest_digest \<Rightarrow> string \<Rightarrow> planned_update \<Rightarrow> release_manifest \<Rightarrow> unit exec" where
  "stage_download env sha msha dir confirmed m =
     (let common = ''--non-interactive'' # context_arguments dir in
     pthen (transition Downloading) (
     pthen (persist env) (
     pbind (require_success Refresh (run_observed env ''zypper'' (common @ [''refresh'']))) (\<lambda>_.
     pthen (stop_if_cancelled env) (
     pthen (stage_run env sha msha common m confirmed ModePlan) (
     pthen (stage_run env sha msha common m confirmed ModeDownload) (
     pbind (with_history env (on_payloads env)) (\<lambda>packages.
     pthen (plift (map_err (\<lambda>_. Stage)
        (verify_payloads m (pl_installed_packages (pu_plan confirmed)) packages))) (
     pbind (with_history env (on_manifest_time env)) (\<lambda>in_time.
       pguard in_time RepositoryKey))))))))))"

definition stage_release_upgrade ::
  "surroundings \<Rightarrow> plan_digest \<Rightarrow> manifest_digest \<Rightarrow> string \<Rightarrow> planned_update \<Rightarrow> release_manifest \<Rightarrow> execution_outcome exec" where
  "stage_release_upgrade env sha msha dir confirmed m =
     pthen (acquire_lock env) (
     pthen (stage_checks env sha msha confirmed m) (
     pthen (stage_files env m) (
     pthen (stage_download env sha msha dir confirmed m) (
     pthen (transition Snapshotting) (
     pthen (persist env) (
     pthen (create_snapshot env ''Lyra release upgrade'') (
     pthen (stage_system_update env) (
     pthen (transition ReadyToReboot) (
     pthen (persist env) (
       pret \<lparr>eo_reboot_required = True, eo_package_manager_restart = False\<rparr>))))))))))"

section \<open>The worker\<close>

text \<open>The thread that \<open>start\<close> spawns in \<open>service/src/main.rs\<close>, with its handling of errors.\<close>

definition failed_record :: "string \<Rightarrow> execution_error \<Rightarrow> operation_state_record \<Rightarrow> operation_state_record" where
  "failed_record time e r = r\<lparr>op_state := failure_state e (snapshot_number r \<noteq> None), error_code := Some (code e),
     op_sequence := sat_add (op_sequence r) 1, updated_at := time\<rparr>"

definition run_operation ::
  "surroundings \<Rightarrow> plan_digest \<Rightarrow> manifest_digest \<Rightarrow> string \<Rightarrow> planned_update \<Rightarrow> release_manifest option \<Rightarrow>
   execution_outcome exec" where
  "run_operation env sha msha dir planned m =
     pbind (pget (\<lambda>s. operation (es_record s))) (\<lambda>k. case k of
       UpdateWithinRelease \<Rightarrow> execute_update env sha planned
     | _ \<Rightarrow> (case m of
         Some m \<Rightarrow> stage_release_upgrade env sha msha dir planned m
       | None \<Rightarrow> pfail PlanChanged))"

definition worker ::
  "surroundings \<Rightarrow> plan_digest \<Rightarrow> manifest_digest \<Rightarrow> string \<Rightarrow> planned_update \<Rightarrow> release_manifest option \<Rightarrow>
   exec_state \<Rightarrow> exec_state" where
  "worker env sha msha dir planned m s =
     (case run_operation env sha msha dir planned m s of
        (Inr _, s1) \<Rightarrow> s1
      | (Inl e, s1) \<Rightarrow>
          (case cancel_requested env s1 of
             (Inr True, s2) \<Rightarrow> s2
           | (_, s2) \<Rightarrow>
               snd (save env (s2\<lparr>es_record := failed_record (on_now env (es_trace s2)) e (es_record s2)\<rparr>))))"

section \<open>Lemmas: what a program adds to the history\<close>

text \<open>\<open>adds_only A m\<close>: whatever happens, \<open>m\<close> adds only effects of \<open>A\<close> to the history.\<close>

definition adds_only :: "(effect \<Rightarrow> bool) \<Rightarrow> (exec_state, 'e, 'a) prog \<Rightarrow> bool" where
  "adds_only A m = (\<forall>h0. maintains (\<lambda>s. \<exists>es. es_trace s = es @ h0 \<and> list_all A es) m)"

lemma adds_only_pbind: "adds_only A m \<Longrightarrow> (\<And>a. adds_only A (f a)) \<Longrightarrow> adds_only A (pbind m f)"
  unfolding adds_only_def by (blast intro: maintains_pbind)

lemma adds_only_pthen: "adds_only A m \<Longrightarrow> adds_only A k \<Longrightarrow> adds_only A (pthen m k)"
  unfolding adds_only_def by (blast intro: maintains_pthen)

lemma adds_only_if: "adds_only A m \<Longrightarrow> adds_only A k \<Longrightarrow> adds_only A (if b then m else k)"
  by simp

lemma adds_only_basic [simp]:
  "adds_only A (pret a)" "adds_only A (pfail e)" "adds_only A (pget f)" "adds_only A (plift r)" "adds_only A (pguard b e)"
  by (simp_all add: adds_only_def)

lemma adds_only_pupd: "(\<And>s. es_trace (f s) = es_trace s) \<Longrightarrow> adds_only A (pupd f)"
  unfolding adds_only_def by (auto intro!: maintains_pupd)

lemma adds_only_emit: "A e \<Longrightarrow> adds_only A (emit e)"
  unfolding adds_only_def emit_def
proof (intro allI maintains_pupd)
  fix h0 and s :: exec_state
  assume A: "A e" and "\<exists>es. es_trace s = es @ h0 \<and> list_all A es"
  then obtain es where "es_trace s = es @ h0" "list_all A es" by blast
  with A show "\<exists>es. es_trace (s\<lparr>es_trace := e # es_trace s\<rparr>) = es @ h0 \<and> list_all A es"
    by (intro exI [of _ "e # es"]) simp
qed

lemma es_trace_interfere:
  "es_trace (interfere env s) = es_trace s \<or> es_trace (interfere env s) = UserCancelled # es_trace s"
  by (auto simp: interfere_def split: option.splits)

lemma adds_only_with_history: "A UserCancelled \<Longrightarrow> adds_only A (with_history env f)"
  unfolding adds_only_def maintains_def with_history_def valid_def Let_def
proof (intro allI impI)
  fix h0 and s :: exec_state
  assume A: "A UserCancelled" and "\<exists>es. es_trace s = es @ h0 \<and> list_all A es"
  then obtain es where es: "es_trace s = es @ h0" "list_all A es" by blast
  have "\<exists>es. es_trace (interfere env s) = es @ h0 \<and> list_all A es"
    using es_trace_interfere [of env s]
  proof
    assume "es_trace (interfere env s) = UserCancelled # es_trace s"
    with es A show ?thesis by (intro exI [of _ "UserCancelled # es"]) simp
  qed (use es in auto)
  then show "case (Inr (f (es_trace (interfere env s))), interfere env s) of
      (Inl e, t) \<Rightarrow> \<exists>es. es_trace t = es @ h0 \<and> list_all A es
    | (Inr a, t) \<Rightarrow> \<exists>es. es_trace t = es @ h0 \<and> list_all A es" by simp
qed

lemma adds_only_pmap_err: "adds_only A m \<Longrightarrow> adds_only A (pmap_err g m)"
  unfolding adds_only_def by (blast intro: maintains_pmap_err)

lemma adds_only_ptry: "adds_only A m \<Longrightarrow> (\<And>r. adds_only A (f r)) \<Longrightarrow> adds_only A (ptry m f)"
  unfolding adds_only_def by (blast intro: maintains_ptry)

lemma adds_only_peach: "(\<And>x. x \<in> set xs \<Longrightarrow> adds_only A (f x)) \<Longrightarrow> adds_only A (peach f xs)"
  by (induction xs) (auto intro: adds_only_pthen)

text \<open>The effects that do not touch the packages: everything but commands and the marker, and benign commands.\<close>

definition harmless :: "(string \<Rightarrow> string list \<Rightarrow> bool) \<Rightarrow> effect \<Rightarrow> bool" where
  "harmless C e = (case e of Ran p args \<Rightarrow> C p args | LinkedMarker \<Rightarrow> False | _ \<Rightarrow> True)"

lemma harmless_simps [simp]:
  "harmless C (Saved r)" "harmless C (Notified st)" "harmless C (WroteFile f)" "harmless C UserCancelled" "harmless C UnlinkedMarker"
  "harmless C (Ran p args) = C p args" "\<not> harmless C LinkedMarker"
  by (simp_all add: harmless_def)

lemma adds_only_steps:
  "adds_only (harmless C) (acquire_lock env)" "adds_only (harmless C) (save env)"
  "adds_only (harmless C) (persist env)" "adds_only (harmless C) (transition st)"
  "adds_only (harmless C) (stop_if_cancelled env)" "adds_only (harmless C) (write_private env f)"
  "adds_only (harmless C) (capture_inventory env e)" "adds_only (harmless C) (replan env sha)"
  "adds_only (harmless C) (stage_repository env r)"
  "adds_only (harmless C) (revalidate_staged_solver env sha msha xml m confirmed)"
  "adds_only (harmless C) (stage_checks env sha msha confirmed m)"
proof -
  note rules = adds_only_pbind adds_only_pthen adds_only_if adds_only_with_history adds_only_pupd adds_only_emit
  show 1: "adds_only (harmless C) (save env)"
    unfolding save_def by (intro rules) (auto split: sum.splits save_outcome.splits intro!: rules)
  show "adds_only (harmless C) (acquire_lock env)"
    unfolding acquire_lock_def by (intro rules) (auto split: lock_outcome.splits)
  show "adds_only (harmless C) (persist env)" unfolding persist_def by (intro rules 1) simp_all
  show "adds_only (harmless C) (transition st)"
    unfolding transition_def by (intro rules) (auto split: sum.splits intro!: rules)
  show "adds_only (harmless C) (stop_if_cancelled env)"
    unfolding stop_if_cancelled_def cancel_requested_def by (intro rules) simp_all
  show 2: "adds_only (harmless C) (write_private env f)" for f unfolding write_private_def by (intro rules) simp_all
  show "adds_only (harmless C) (capture_inventory env e)" unfolding capture_inventory_def by (intro rules) simp_all
  show "adds_only (harmless C) (replan env sha)" unfolding replan_def by (intro rules) simp_all
  show "adds_only (harmless C) (stage_repository env r)"
    unfolding stage_repository_def by (intro rules 2) simp_all
  show "adds_only (harmless C) (revalidate_staged_solver env sha msha xml m confirmed)"
    unfolding revalidate_staged_solver_def by (intro rules) simp_all
  show "adds_only (harmless C) (stage_checks env sha msha confirmed m)"
    unfolding stage_checks_def by (intro rules) simp_all
qed

lemma adds_only_run: "C p args \<Longrightarrow> adds_only (harmless C) (run_observed env p args)"
  unfolding run_observed_def
  by (intro adds_only_pbind adds_only_pthen adds_only_with_history adds_only_emit) simp_all

lemma adds_only_require: "adds_only A m \<Longrightarrow> adds_only A (require_success e m)"
  unfolding require_success_def by (intro adds_only_pbind adds_only_if) simp_all

lemmas adds_only_rules = adds_only_pbind adds_only_pthen adds_only_if adds_only_steps adds_only_require
  adds_only_run adds_only_pupd adds_only_peach adds_only_with_history

lemma adds_only_mono: "adds_only A m \<Longrightarrow> (\<And>e. A e \<Longrightarrow> B e) \<Longrightarrow> adds_only B m"
proof -
  assume A: "adds_only A m" and AB: "\<And>e. A e \<Longrightarrow> B e"
  show ?thesis
    unfolding adds_only_def maintains_def valid_def
  proof (intro allI impI)
    fix h0 and s :: exec_state
    assume "\<exists>es. es_trace s = es @ h0 \<and> list_all B es"
    then obtain es where es: "es_trace s = es @ h0" "list_all B es" by blast
    obtain r t where run: "m s = (r, t)" by fastforce
    have "maintains (\<lambda>s'. \<exists>es'. es_trace s' = es' @ es_trace s \<and> list_all A es') m"
      using A unfolding adds_only_def by blast
    from maintainsD [OF this _ run] obtain es' where "es_trace t = es' @ es_trace s" "list_all A es'" by auto
    with es AB have "es_trace t = (es' @ es) @ h0" "list_all B (es' @ es)" by (auto simp: list_all_iff)
    then have "\<exists>es. es_trace t = es @ h0 \<and> list_all B es" by blast
    with run show "case m s of (Inl e, t) \<Rightarrow> \<exists>es. es_trace t = es @ h0 \<and> list_all B es
      | (Inr a, t) \<Rightarrow> \<exists>es. es_trace t = es @ h0 \<and> list_all B es" by (cases r) auto
  qed
qed

lemma adds_onlyD: "adds_only A m \<Longrightarrow> m s = (r, t) \<Longrightarrow> \<exists>es. es_trace t = es @ es_trace s \<and> list_all A es"
  unfolding adds_only_def using maintainsD [of "\<lambda>s'. \<exists>es'. es_trace s' = es' @ es_trace s \<and> list_all A es'" m s r t] by auto

section \<open>Lemmas: what must precede a change of the system\<close>

text \<open>\<open>guarded c G h\<close>: in front of every effect with \<open>c\<close> in the history, \<open>G\<close> held.\<close>

fun guarded :: "(effect \<Rightarrow> bool) \<Rightarrow> (history \<Rightarrow> bool) \<Rightarrow> history \<Rightarrow> bool" where
  "guarded c G [] = True"
| "guarded c G (e # h) = ((c e \<longrightarrow> G h) \<and> guarded c G h)"

lemma guarded_append: "list_all (\<lambda>e. \<not> c e) es \<Longrightarrow> guarded c G (es @ h) = guarded c G h"
  by (induction es) auto

lemma guardedD: "guarded c G (xs @ e # ys) \<Longrightarrow> c e \<Longrightarrow> G ys"
  by (induction xs) auto

lemma maintains_guarded:
  assumes m: "adds_only A m" and "\<And>e. A e \<Longrightarrow> \<not> c e"
  shows "maintains (\<lambda>s. guarded c G (es_trace s)) m"
  unfolding maintains_def valid_def
proof (intro allI impI)
  fix s :: exec_state
  assume g: "guarded c G (es_trace s)"
  obtain r t where run: "m s = (r, t)" by fastforce
  from adds_onlyD [OF m run] obtain es where es: "es_trace t = es @ es_trace s" "list_all A es" by blast
  then have "list_all (\<lambda>e. \<not> c e) es" using assms(2) by (auto simp: list_all_iff)
  with es g have "guarded c G (es_trace t)" by (simp add: guarded_append)
  with run show "case m s of (Inl e, t) \<Rightarrow> guarded c G (es_trace t) | (Inr a, t) \<Rightarrow> guarded c G (es_trace t)"
    by (cases r) auto
qed

lemma guarded_when: "guarded c G h \<Longrightarrow> G h \<Longrightarrow> (\<And>e h. G h \<Longrightarrow> G (e # h)) \<Longrightarrow> guarded c G (es @ h) \<and> G (es @ h)"
  by (induction es) auto

lemma maintains_guarded_when:
  assumes m: "adds_only (\<lambda>_. True) m" and mono: "\<And>e h. G h \<Longrightarrow> G (e # h)"
  shows "maintains (\<lambda>s. guarded c G (es_trace s) \<and> G (es_trace s)) m"
  unfolding maintains_def valid_def
proof (intro allI impI)
  fix s :: exec_state
  assume g: "guarded c G (es_trace s) \<and> G (es_trace s)"
  obtain r t where run: "m s = (r, t)" by fastforce
  from adds_onlyD [OF m run] obtain es where es: "es_trace t = es @ es_trace s" by blast
  have "guarded c G (es_trace t) \<and> G (es_trace t)"
    unfolding es by (rule guarded_when) (use g mono in auto)
  with run show "case m s of (Inl e, t) \<Rightarrow> guarded c G (es_trace t) \<and> G (es_trace t)
      | (Inr a, t) \<Rightarrow> guarded c G (es_trace t) \<and> G (es_trace t)"
    by (cases r) auto
qed

text \<open>
  The effects that commit the system to new packages: a run of the package manager that is neither a
  refresh nor a dry run nor a download, and the marker that makes the next boot apply the upgrade.
\<close>

definition commits :: "effect \<Rightarrow> bool" where
  "commits e = (case e of
      LinkedMarker \<Rightarrow> True
    | Ran p args \<Rightarrow> p = ''zypper'' \<and> ''refresh'' \<notin> set args \<and> ''--dry-run'' \<notin> set args \<and> ''--download-only'' \<notin> set args
    | _ \<Rightarrow> False)"

definition snapshot_saved :: "history \<Rightarrow> bool" where
  "snapshot_saved h = (\<exists>r n. Saved r \<in> set h \<and> snapshot_number r = Some n \<and> n \<noteq> 0)"

abbreviation harmless_run :: "string \<Rightarrow> string list \<Rightarrow> bool" where
  "harmless_run p args \<equiv> \<not> commits (Ran p args)"

lemma harmless_not_commits: "harmless harmless_run e \<Longrightarrow> \<not> commits e"
  by (cases e) (auto simp: commits_def)

lemma snapshot_saved_mono: "snapshot_saved h \<Longrightarrow> snapshot_saved (e # h)"
  by (auto simp: snapshot_saved_def)

lemma es_record_interfere [simp]: "es_record (interfere env s) = es_record s"
  by (auto simp: interfere_def split: option.splits)

lemma save_eq:
  "save env s = (let s' = interfere env s; r = es_record s in case check_record r of
      Inl e \<Rightarrow> (Inl (Persist e), s')
    | Inr _ \<Rightarrow> (case on_save env (es_trace s') of
        SaveLost e \<Rightarrow> (Inl (Persist e), s')
      | SaveUnsynced e \<Rightarrow> (Inl (Persist e), s'\<lparr>es_disk := Some r\<rparr>)
      | SaveOk \<Rightarrow> (Inr (), s'\<lparr>es_disk := Some r, es_trace := Saved r # es_trace s'\<rparr>)))"
  by (simp add: save_def pbind_def with_history_def pget_def Let_def pfail_def pthen_def pupd_def emit_def
      split: sum.splits save_outcome.splits)

definition stored :: "exec_state \<Rightarrow> bool" where
  "stored s = (es_disk s = Some (es_record s) \<and> Saved (es_record s) \<in> set (es_trace s) \<and>
     check_record (es_record s) = Inr ())"

lemma save_stored: "save env s = (Inr u, t) \<Longrightarrow> stored t \<and> es_record t = es_record s"
  by (auto simp: save_eq Let_def stored_def split: sum.splits save_outcome.splits)

lemma persist_stored: "persist env s = (Inr u, t) \<Longrightarrow> stored t \<and> es_record t = es_record s"
  by (auto simp: persist_def result_simps pget_def emit_def pupd_def stored_def dest!: save_stored)

lemma check_record_iff: "(check_record r = Inr ()) = (validate_operation_id (operation_id r) = Inr () \<and> validate_state r = Inr ())"
  by (simp add: check_record_def rbind_Inr_iff ex_unit_iff)

lemma stored_snapshot: "stored s \<Longrightarrow> snapshot_number (es_record s) \<noteq> None \<Longrightarrow> snapshot_saved (es_trace s)"
  by (auto simp: stored_def snapshot_saved_def check_record_iff validate_state_def split: if_splits)

lemma create_snapshot_saved: "create_snapshot env d s = (Inr u, t) \<Longrightarrow> snapshot_saved (es_trace t)"
proof -
  assume "create_snapshot env d s = (Inr u, t)"
  then obtain v n where v: "save env (v\<lparr>es_record := (es_record v)\<lparr>snapshot_number := Some n\<rparr>\<rparr>) = (Inr (), t)"
    by (auto simp: create_snapshot_def result_simps pupd_def)
  from save_stored [OF v] show ?thesis by (auto intro!: stored_snapshot)
qed

lemma adds_only_plift: "(\<And>a. r = Inr a \<Longrightarrow> adds_only A (f a)) \<Longrightarrow> adds_only A (pbind (plift r) f)"
  by (cases r) (simp_all add: pbind_def plift_def adds_only_def maintains_def valid_def)

lemma harmless_commands:
  "harmless_run ''zypper'' [''--non-interactive'', ''refresh'']" "harmless_run ''zypper'' download_arguments"
  "harmless_run ''snapper'' args" "harmless_run ''dracut'' args" "harmless_run ''grub2-mkconfig'' args"
  "harmless_run ''zypper'' (common @ [''refresh''])"
  by (simp_all add: commits_def download_arguments_def)

lemma transaction_flag:
  "transaction_arguments m installed ModePlan = Inr args \<Longrightarrow> ''--dry-run'' \<in> set args"
  "transaction_arguments m installed ModeDownload = Inr args \<Longrightarrow> ''--download-only'' \<in> set args"
  by (auto simp: transaction_arguments_def rbind_Inr_iff split: if_splits)

lemma prepare_update_harmless: "adds_only (harmless harmless_run) (prepare_update env sha confirmed)"
  unfolding prepare_update_def by (intro adds_only_rules harmless_commands) simp_all

lemma create_snapshot_harmless: "adds_only (harmless harmless_run) (create_snapshot env d)"
  unfolding create_snapshot_def by (intro adds_only_rules harmless_commands) simp_all

lemma stage_run_harmless:
  "mode \<noteq> ModeApply \<Longrightarrow> adds_only (harmless harmless_run) (stage_run env sha msha common m confirmed mode)"
  unfolding stage_run_def
  by (rule adds_only_plift, intro adds_only_rules)
    (cases mode; auto simp: map_err_Inr_iff commits_def dest: transaction_flag)

lemma stage_files_harmless: "adds_only (harmless harmless_run) (stage_files env m)"
  unfolding stage_files_def by (intro adds_only_rules)

lemma stage_download_harmless: "adds_only (harmless harmless_run) (stage_download env sha msha dir confirmed m)"
  unfolding stage_download_def Let_def
  by (intro adds_only_rules stage_run_harmless harmless_commands) simp_all

lemma adds_anything:
  "adds_only (\<lambda>_. True) (run_observed env p args)"
  "adds_only (harmless C) m \<Longrightarrow> adds_only (\<lambda>_. True) m"
  "adds_only (\<lambda>_. True) (stage_system_update env)"
proof -
  show 1: "adds_only (harmless C) m \<Longrightarrow> adds_only (\<lambda>_. True) m" for C and m :: "(exec_state, 'y, 'x) prog"
    by (erule adds_only_mono) simp
  show "adds_only (\<lambda>_. True) (run_observed env p args)" by (rule 1, rule adds_only_run [of "\<lambda>_ _. True"]) simp
  show "adds_only (\<lambda>_. True) (stage_system_update env)"
    unfolding stage_system_update_def
    by (intro adds_only_pbind adds_only_with_history)
      (auto split: marker.splits link_outcome.splits intro!: adds_only_pbind adds_only_pthen adds_only_with_history adds_only_emit)
qed

abbreviation change_guarded :: "exec_state \<Rightarrow> bool" where
  "change_guarded s \<equiv> guarded commits snapshot_saved (es_trace s)"

lemma create_snapshot_guard:
  "valid change_guarded (create_snapshot env d) (\<lambda>_ s. change_guarded s \<and> snapshot_saved (es_trace s)) (\<lambda>_. change_guarded)"
proof (rule validI)
  fix s assume g: "change_guarded s"
  obtain r t where run: "create_snapshot env d s = (r, t)" by fastforce
  have "change_guarded t"
    by (rule maintainsD [OF maintains_guarded [OF create_snapshot_harmless harmless_not_commits] g run])
  with run create_snapshot_saved show "case create_snapshot env d s of (Inl e, t) \<Rightarrow> change_guarded t
    | (Inr a, t) \<Rightarrow> change_guarded t \<and> snapshot_saved (es_trace t)" by (cases r) auto
qed

lemma guarded_step:
  "adds_only (harmless harmless_run) m \<Longrightarrow> valid change_guarded m (\<lambda>_. change_guarded) (\<lambda>_. change_guarded)"
  unfolding maintains_def [symmetric] by (erule maintains_guarded) (rule harmless_not_commits)

lemma guarded_rest:
  "adds_only (\<lambda>_. True) m \<Longrightarrow>
   valid (\<lambda>s. change_guarded s \<and> snapshot_saved (es_trace s)) m (\<lambda>_. change_guarded) (\<lambda>_. change_guarded)"
  by (rule valid_conseq [OF maintains_guarded_when [where G = snapshot_saved and c = commits, unfolded maintains_def]])
    (auto intro: snapshot_saved_mono)

lemma execute_update_guarded: "maintains change_guarded (execute_update env sha confirmed)"
  unfolding maintains_def execute_update_def Let_def
proof (rule valid_pthen [OF guarded_step], rule adds_only_steps,
    rule valid_pbind [OF guarded_step], rule prepare_update_harmless,
    rule valid_pthen [OF guarded_step], rule adds_only_steps,
    rule valid_pthen [OF guarded_step], rule adds_only_steps,
    rule valid_pthen [OF create_snapshot_guard], rule guarded_rest)
  fix fresh :: planned_update
  have a: "adds_only (\<lambda>_. True) (apply_update env)"
    unfolding apply_update_def
    by (intro adds_only_pbind adds_anything) (auto split: sum.splits apply_exit_error.splits)
  have b: "adds_only (\<lambda>_. True) (rebuild_boot env)"
    unfolding rebuild_boot_def by (intro adds_only_pbind adds_only_require adds_anything) simp
  show "adds_only (\<lambda>_. True) (pthen (transition Applying) (pthen (persist env) (pbind (apply_update env) (\<lambda>out.
     pthen (if touches_boot (changes (pu_solver fresh)) then rebuild_boot env else pret ()) (
     pbind (capture_inventory env Inventory) (\<lambda>report.
     pthen (write_private env ''inventory-after.json'') (
     pthen (plift (map_err (\<lambda>_. Inventory) (verify_result (pu_plan confirmed) report))) (
     pthen (transition (if sr_reboot_required (pu_solver fresh) \<or> fst out = Some 102
             \<or> touches_boot (changes (pu_solver fresh)) then AwaitingReboot else Completed)) (
     pthen (persist env) (
       pret \<lparr>eo_reboot_required = (sr_reboot_required (pu_solver fresh) \<or> fst out = Some 102
             \<or> touches_boot (changes (pu_solver fresh))), eo_package_manager_restart = False\<rparr>))))))))))"
    by (intro adds_only_pthen adds_only_pbind adds_only_if a b adds_only_basic
        adds_only_steps [THEN adds_anything(2)])
qed

lemma stage_release_upgrade_guarded: "maintains change_guarded (stage_release_upgrade env sha msha dir confirmed m)"
  unfolding maintains_def stage_release_upgrade_def
  by (rule valid_pthen [OF guarded_step], rule adds_only_steps,
      rule valid_pthen [OF guarded_step], rule adds_only_steps,
      rule valid_pthen [OF guarded_step], rule stage_files_harmless,
      rule valid_pthen [OF guarded_step], rule stage_download_harmless,
      rule valid_pthen [OF guarded_step], rule adds_only_steps,
      rule valid_pthen [OF guarded_step], rule adds_only_steps,
      rule valid_pthen [OF create_snapshot_guard], rule guarded_rest,
      intro adds_only_pthen adds_anything(3) adds_only_basic adds_only_steps [THEN adds_anything(2)])

lemma run_operation_guarded: "maintains change_guarded (run_operation env sha msha dir planned m)"
  unfolding run_operation_def
  by (intro maintains_pbind)
    (auto split: operation_kind.splits option.splits intro: execute_update_guarded stage_release_upgrade_guarded)

lemma save_guarded: "maintains change_guarded (save env)"
  using guarded_step [OF adds_only_steps(2)] by (simp add: maintains_def)

lemma cancel_requested_guarded: "maintains change_guarded (cancel_requested env)"
proof -
  have "adds_only (harmless harmless_run) (cancel_requested env)"
    unfolding cancel_requested_def by (intro adds_only_pbind adds_only_with_history) simp_all
  then show ?thesis using guarded_step by (simp add: maintains_def)
qed

lemma worker_guarded:
  assumes "change_guarded s"
  shows "change_guarded (worker env sha msha dir planned m s)"
proof -
  obtain r s1 where run: "run_operation env sha msha dir planned m s = (r, s1)" by fastforce
  have g1: "change_guarded s1" by (rule maintainsD [OF run_operation_guarded assms run])
  show ?thesis
  proof (cases r)
    case (Inl e)
    obtain c s2 where c: "cancel_requested env s1 = (c, s2)" by fastforce
    have g2: "change_guarded s2" by (rule maintainsD [OF cancel_requested_guarded g1 c])
    let ?s3 = "s2\<lparr>es_record := failed_record (on_now env (es_trace s2)) e (es_record s2)\<rparr>"
    have "change_guarded (snd (save env ?s3))"
      using maintainsD [OF save_guarded, of ?s3 env "fst (save env ?s3)" "snd (save env ?s3)"] g2 by simp
    with g2 Inl run c show ?thesis
      by (auto simp: worker_def split: sum.splits bool.splits)
  next
    case (Inr o)
    then show ?thesis using run g1 by (simp add: worker_def)
  qed
qed

section \<open>Lemmas: the record during a run\<close>

text \<open>What makes a record storable apart from its state.\<close>

definition operation_shape :: "operation_state_record \<Rightarrow> bool" where
  "operation_shape r = (case operation r of
      UpdateWithinRelease \<Rightarrow> op_target r = None \<and> op_manifest_sha256 r = None
    | ReleaseUpgrade \<Rightarrow> op_target r \<noteq> None \<and> op_manifest_sha256 r \<noteq> None
    | PackageMigration \<Rightarrow> op_target r = Some (op_source r) \<and> op_manifest_sha256 r \<noteq> None)"

lemma operation_shape_updates [simp]:
  "operation_shape (r\<lparr>snapshot_number := n\<rparr>) = operation_shape r"
  "operation_shape (r\<lparr>op_state := st\<rparr>) = operation_shape r"
  "operation_shape (r\<lparr>op_sequence := q\<rparr>) = operation_shape r"
  "operation_shape (r\<lparr>error_code := c\<rparr>) = operation_shape r"
  "operation_shape (r\<lparr>updated_at := time\<rparr>) = operation_shape r"
  by (simp_all add: operation_shape_def cong: operation_kind.case_cong)

definition storable :: "operation_state_record \<Rightarrow> bool" where
  "storable r = (validate_operation_id (operation_id r) = Inr () \<and> recovery r = None \<and>
     schema_version r = STATE_SCHEMA_VERSION \<and> is_sha256 (op_plan_sha256 r) \<and>
     (\<forall>h. op_manifest_sha256 r = Some h \<longrightarrow> is_sha256 h) \<and> snapshot_number r \<noteq> Some 0 \<and> operation_shape r)"

lemma check_record_storable:
  assumes "recovery r = None"
  shows "(check_record r = Inr ()) = (storable r \<and>
    (after_snapshot (op_state r) \<or> op_state r = NeedsRecovery \<longrightarrow> snapshot_number r \<noteq> None))"
proof -
  have "(validate_state r = Inr ()) = (schema_version r = STATE_SCHEMA_VERSION \<and> is_sha256 (op_plan_sha256 r) \<and>
     (\<forall>h. op_manifest_sha256 r = Some h \<longrightarrow> is_sha256 h) \<and> snapshot_number r \<noteq> Some 0 \<and>
     (after_snapshot (op_state r) \<or> op_state r = NeedsRecovery \<longrightarrow> snapshot_number r \<noteq> None) \<and> operation_shape r)"
    using assms
    by (cases "op_manifest_sha256 r")
      (auto simp: validate_state_def after_snapshot_def operation_shape_def ensure_Inr_iff)
  then show ?thesis using assms by (auto simp: check_record_iff storable_def)
qed

definition record_ok :: "exec_state \<Rightarrow> bool" where
  "record_ok s = storable (es_record s)"

lemma transition_Inr: "transition next s = (Inr u, t) \<Longrightarrow>
  transition_to (es_record s) next = Inr (es_record t) \<and> es_trace t = es_trace s \<and> es_disk t = es_disk s"
  by (auto simp: transition_def pbind_def pget_def pupd_def pfail_def split: sum.splits)

lemma record_ok_updates [simp]:
  "record_ok (s\<lparr>es_trace := h\<rparr>) = record_ok s" "record_ok (s\<lparr>es_disk := d\<rparr>) = record_ok s"
  by (simp_all add: record_ok_def)

lemma record_ok_steps:
  "maintains record_ok (with_history env f)" "maintains record_ok (emit e)" "maintains record_ok (save env)"
  "maintains record_ok (persist env)" "maintains record_ok (transition st)"
proof -
  show 1: "maintains record_ok (with_history env f)" for env and f :: "history \<Rightarrow> 'x"
    by (simp add: maintains_def valid_def with_history_def Let_def record_ok_def)
  show 2: "maintains record_ok (emit e)" for e unfolding emit_def by (rule maintains_pupd) simp
  show 3: "maintains record_ok (save env)"
    unfolding save_def
    by (intro maintains_intros 1) (auto split: sum.splits save_outcome.splits intro!: maintains_intros maintains_pupd 2)
  show "maintains record_ok (persist env)" unfolding persist_def by (intro maintains_intros 2 3) simp
  show "maintains record_ok (transition st)"
    unfolding maintains_def valid_def
    by (auto simp: transition_def pbind_def pget_def pupd_def pfail_def record_ok_def storable_def
        transition_to_Inr_iff split: sum.splits)
qed

lemma record_ok_run: "maintains record_ok (run_observed env p args)"
  unfolding run_observed_def by (intro maintains_intros record_ok_steps) simp

lemma record_ok_require: "maintains record_ok m \<Longrightarrow> maintains record_ok (require_success e m)"
  unfolding require_success_def by (intro maintains_intros) simp_all

lemma parse_snapshot_positive: "parse_snapshot_number out = Inr n \<Longrightarrow> n \<noteq> 0"
  by (auto simp: parse_snapshot_number_def ok_or_Inr_iff opt_filter_Some_iff)

lemma record_ok_more:
  "maintains record_ok (acquire_lock env)" "maintains record_ok (stop_if_cancelled env)"
  "maintains record_ok (write_private env f)" "maintains record_ok (capture_inventory env e)"
  "maintains record_ok (replan env sha)" "maintains record_ok (stage_repository env r)"
  "maintains record_ok (revalidate_staged_solver env sha msha xml m confirmed)"
  "maintains record_ok (stage_checks env sha msha confirmed m)" "maintains record_ok (create_snapshot env d)"
  "maintains record_ok (stage_system_update env)"
proof -
  note rules = maintains_intros record_ok_steps
  show "maintains record_ok (acquire_lock env)"
    unfolding acquire_lock_def by (intro rules) (auto split: lock_outcome.splits)
  show "maintains record_ok (stop_if_cancelled env)"
    unfolding stop_if_cancelled_def cancel_requested_def by (intro rules) simp_all
  show 1: "maintains record_ok (write_private env f)" for f unfolding write_private_def by (intro rules) simp
  show "maintains record_ok (capture_inventory env e)" unfolding capture_inventory_def by (intro rules) simp
  show "maintains record_ok (replan env sha)" unfolding replan_def by (intro rules) simp
  show "maintains record_ok (stage_repository env r)" unfolding stage_repository_def by (intro rules 1) simp
  show "maintains record_ok (revalidate_staged_solver env sha msha xml m confirmed)"
    unfolding revalidate_staged_solver_def by (intro rules) simp_all
  show "maintains record_ok (stage_checks env sha msha confirmed m)"
    unfolding stage_checks_def by (intro rules) simp_all
  show "maintains record_ok (stage_system_update env)"
    unfolding stage_system_update_def by (intro rules) (auto split: marker.splits link_outcome.splits intro!: rules)
  have "maintains record_ok (pbind (plift (parse_snapshot_number out)) (\<lambda>n.
     pthen (pupd (\<lambda>s. s\<lparr>es_record := (es_record s)\<lparr>snapshot_number := Some n\<rparr>\<rparr>)) (save env)))" for out
  proof (cases "parse_snapshot_number out")
    case (Inr n)
    then have "n \<noteq> 0" by (rule parse_snapshot_positive)
    with Inr show ?thesis
      by (auto simp: pbind_def plift_def intro!: rules maintains_pupd)
        (auto simp: record_ok_def storable_def)
  qed (simp add: pbind_def plift_def maintains_def valid_def)
  then show "maintains record_ok (create_snapshot env d)"
    unfolding create_snapshot_def by (rule maintains_pbind [OF record_ok_require [OF record_ok_run]])
qed

lemmas record_ok_rules = maintains_intros record_ok_steps record_ok_more record_ok_run record_ok_require maintains_peach
  maintains_basic

lemma record_ok_execute_update: "maintains record_ok (execute_update env sha confirmed)"
  unfolding execute_update_def prepare_update_def apply_update_def rebuild_boot_def Let_def
  by (intro record_ok_rules) (auto split: sum.splits apply_exit_error.splits)

lemma record_ok_stage: "maintains record_ok (stage_release_upgrade env sha msha dir confirmed m)"
  unfolding stage_release_upgrade_def stage_files_def stage_download_def stage_run_def Let_def
  by (intro record_ok_rules)

lemma record_ok_run_operation: "maintains record_ok (run_operation env sha msha dir planned m)"
  unfolding run_operation_def
  by (intro maintains_pbind)
    (auto split: operation_kind.splits option.splits intro: record_ok_execute_update record_ok_stage)

lemma failed_record_storable: "storable r \<Longrightarrow> check_record (failed_record time e r) = Inr ()"
  by (subst check_record_storable)
    (auto simp: failed_record_def storable_def failure_state_def after_snapshot_def)

section \<open>Lemmas: cancellation\<close>

text \<open>Programs that never end with \<open>Cancelled\<close>.\<close>

definition never_cancels :: "'a exec \<Rightarrow> bool" where
  "never_cancels m = valid (\<lambda>_. True) m (\<lambda>_ _. True) (\<lambda>e _. e \<noteq> Cancelled)"

lemma never_cancels_basic [simp]:
  "never_cancels (pret a)" "never_cancels (pget f)" "never_cancels (pupd g)" "never_cancels (with_history env h)"
  "never_cancels (emit e)" "e' \<noteq> Cancelled \<Longrightarrow> never_cancels (pfail e')"
  by (auto simp: never_cancels_def valid_def pret_def pget_def pupd_def with_history_def Let_def emit_def pfail_def)

lemma never_cancels_pbind: "never_cancels m \<Longrightarrow> (\<And>a. never_cancels (f a)) \<Longrightarrow> never_cancels (pbind m f)"
  unfolding never_cancels_def by (rule valid_pbind) (auto simp: valid_def split: prod.splits sum.splits)

lemma never_cancels_pthen: "never_cancels m \<Longrightarrow> never_cancels k \<Longrightarrow> never_cancels (pthen m k)"
  unfolding pthen_def by (rule never_cancels_pbind)

lemma never_cancels_plift: "r \<noteq> Inl Cancelled \<Longrightarrow> never_cancels (plift r)"
  by (cases r) (auto simp: never_cancels_def valid_def plift_def)

lemma never_cancels_if: "never_cancels m \<Longrightarrow> never_cancels k \<Longrightarrow> never_cancels (if b then m else k)"
  by simp

lemma never_cancels_require: "never_cancels m \<Longrightarrow> (\<And>out. e out \<noteq> Cancelled) \<Longrightarrow> never_cancels (require_success e m)"
  unfolding require_success_def by (intro never_cancels_pbind never_cancels_if) simp_all

lemma never_cancels_steps:
  "never_cancels (save env)" "never_cancels (persist env)" "never_cancels (transition st)"
  "never_cancels (write_private env f)" "e \<noteq> Cancelled \<Longrightarrow> never_cancels (capture_inventory env e)"
  "never_cancels (run_observed env p args)" "never_cancels (create_snapshot env d)"
  "never_cancels (stage_system_update env)"
proof -
  note rules = never_cancels_pbind never_cancels_pthen never_cancels_if never_cancels_plift
  show 1: "never_cancels (save env)"
    unfolding save_def by (intro rules) (auto split: sum.splits save_outcome.splits intro!: rules)
  show 2: "never_cancels (run_observed env p args)" for p args unfolding run_observed_def by (intro rules) simp_all
  show "never_cancels (persist env)" unfolding persist_def by (intro rules 1) simp_all
  show "never_cancels (transition st)" unfolding transition_def by (intro rules) (auto split: sum.splits)
  show "never_cancels (write_private env f)" unfolding write_private_def by (intro rules) simp_all
  show "e \<noteq> Cancelled \<Longrightarrow> never_cancels (capture_inventory env e)"
    unfolding capture_inventory_def by (intro rules) (auto simp: ok_or_Inl_iff)
  show "never_cancels (create_snapshot env d)"
    unfolding create_snapshot_def
    by (intro rules 1 never_cancels_require 2) (auto simp: parse_snapshot_number_def ok_or_Inl_iff)
  show "never_cancels (stage_system_update env)"
    unfolding stage_system_update_def by (intro rules) (auto split: marker.splits link_outcome.splits intro!: rules)
qed

text \<open>Commands that neither take a snapshot nor change packages, and a history with no other command.\<close>

definition mild :: "string \<Rightarrow> string list \<Rightarrow> bool" where
  "mild p args = (p \<noteq> ''snapper'' \<and> harmless_run p args)"

abbreviation untouched :: "exec_state \<Rightarrow> bool" where
  "untouched s \<equiv> list_all (harmless mild) (es_trace s)"

abbreviation cancelled_early :: "execution_error \<Rightarrow> exec_state \<Rightarrow> bool" where
  "cancelled_early e s \<equiv> e = Cancelled \<longrightarrow> untouched s"

lemma early_step:
  assumes "adds_only (harmless mild) m"
  shows "valid untouched m (\<lambda>_. untouched) cancelled_early"
proof (rule validI)
  fix s assume s: "untouched s"
  obtain r t where run: "m s = (r, t)" by fastforce
  from adds_onlyD [OF assms run] s have "untouched t" by auto
  with run show "case m s of (Inl e, t) \<Rightarrow> cancelled_early e t | (Inr a, t) \<Rightarrow> untouched t" by (cases r) auto
qed

lemma mild_commands:
  "mild ''zypper'' [''--non-interactive'', ''refresh'']" "mild ''zypper'' download_arguments"
  "mild ''zypper'' (common @ [''refresh''])"
  by (simp_all add: mild_def harmless_commands)

lemma late_step: "never_cancels m \<Longrightarrow> valid untouched m (\<lambda>_ _. True) cancelled_early"
  unfolding never_cancels_def by (erule valid_conseq) auto

lemma execute_update_cancel: "valid untouched (execute_update env sha confirmed) (\<lambda>_ _. True) cancelled_early"
proof -
  note nc = never_cancels_pbind never_cancels_pthen never_cancels_if never_cancels_steps never_cancels_require never_cancels_plift
  have prep: "adds_only (harmless mild) (prepare_update env sha confirmed)"
    unfolding prepare_update_def by (intro adds_only_rules mild_commands) simp_all
  show ?thesis
    unfolding execute_update_def
    apply (rule valid_pthen [OF early_step], rule adds_only_steps)
    apply (rule valid_pbind [OF early_step], rule prep)
    apply (rule late_step, unfold apply_update_def rebuild_boot_def Let_def)
    apply (intro nc)
    apply (auto simp: map_err_def split: sum.splits apply_exit_error.splits)
    done
qed

lemma stage_cancel: "valid untouched (stage_release_upgrade env sha msha dir confirmed m) (\<lambda>_ _. True) cancelled_early"
proof -
  note nc = never_cancels_pbind never_cancels_pthen never_cancels_if never_cancels_steps never_cancels_require never_cancels_plift
  have files: "adds_only (harmless mild) (stage_files env m)"
    unfolding stage_files_def by (intro adds_only_rules)
  have run: "adds_only (harmless mild) (stage_run env sha msha common m confirmed mode)" if "mode \<noteq> ModeApply" for common mode
    unfolding stage_run_def using that
    by (intro adds_only_plift adds_only_rules)
      (cases mode; auto simp: mild_def map_err_Inr_iff commits_def dest: transaction_flag)
  have down: "adds_only (harmless mild) (stage_download env sha msha dir confirmed m)"
    unfolding stage_download_def Let_def by (intro adds_only_rules run mild_commands) simp_all
  show ?thesis
    unfolding stage_release_upgrade_def
    apply (rule valid_pthen [OF early_step], rule adds_only_steps)
    apply (rule valid_pthen [OF early_step], rule adds_only_steps)
    apply (rule valid_pthen [OF early_step], rule files)
    apply (rule valid_pthen [OF early_step], rule down)
    apply (rule late_step, intro nc)
    apply simp
    done
qed

lemma run_operation_cancel:
  "valid untouched (run_operation env sha msha dir planned m) (\<lambda>_ _. True) cancelled_early"
  unfolding run_operation_def
proof (rule valid_pbind [where R = "\<lambda>_. untouched"])
  fix k
  show "valid untouched (case k of UpdateWithinRelease \<Rightarrow> execute_update env sha planned
     | _ \<Rightarrow> (case m of Some m \<Rightarrow> stage_release_upgrade env sha msha dir planned m | None \<Rightarrow> pfail PlanChanged))
     (\<lambda>_ _. True) cancelled_early"
    by (cases k; cases m)
      (auto intro: execute_update_cancel stage_cancel valid_pfail)
qed (rule valid_pget)

lemmas step_run = prog_run with_history_def [THEN fun_cong] emit_def [THEN fun_cong] acquire_lock_def [THEN fun_cong]
  persist_def [THEN fun_cong] transition_def [THEN fun_cong] run_observed_def [THEN fun_cong] require_success_def [THEN fun_cong]
  cancel_requested_def [THEN fun_cong] stop_if_cancelled_def [THEN fun_cong] write_private_def [THEN fun_cong]
  capture_inventory_def [THEN fun_cong] save_eq

section \<open>A store that works\<close>

text \<open>Saving succeeds and no other process changes the record: the contract that the results of whole runs rely on.\<close>

locale reliable_store =
  fixes env :: surroundings
  assumes saves: "on_save env h = SaveOk"
    and quiet: "\<not> on_cancel env h"
begin

lemma no_interference [simp]: "interfere env s = s"
  by (simp add: interfere_def quiet split: option.splits)

lemma history_result: "with_history env f s = (Inr (f (es_trace s)), s)"
  by (simp add: with_history_def Let_def)

lemma save_result:
  "check_record (es_record s) = Inr () \<Longrightarrow>
   save env s = (Inr (), s\<lparr>es_disk := Some (es_record s), es_trace := Saved (es_record s) # es_trace s\<rparr>)"
  by (simp add: save_eq Let_def saves)

lemma save_cases:
  "save env s = (r, t) \<Longrightarrow> (is_ok r \<and> es_disk t = Some (es_record s)) \<or> (\<not> is_ok r \<and> es_disk t = es_disk s)"
  by (auto simp: save_eq Let_def saves split: sum.splits)

lemma save_keeps_record: "save env s = (r, t) \<Longrightarrow> es_record t = es_record s"
  by (auto simp: save_eq Let_def saves split: sum.splits)

end

end
