(* ===== verification/Execution.thy ===== *)
theory Execution
  imports Executor
begin

text \<open>
  What the executor and the worker thread guarantee: the order of snapshot and package changes, the
  state an operation is left in, the result of a successful update or staging, and how cancelling
  interacts with a running operation. The definitions are those of the theory Executor.
\<close>

section \<open>An example host\<close>

definition example_update_change :: package_change where
  "example_update_change = example_change\<lparr>proposed_vendor := Some ''A''\<rparr>"

definition example_view :: planning_view where
  "example_view = \<lparr>pv_simulation = True, pv_facts = Some example_facts, pv_installed_early = Some example_installed,
     pv_installed = Some example_installed, pv_repository_key = (\<lambda>_. True), pv_repository_file = (\<lambda>_. True),
     pv_zypper = (\<lambda>_. Some (Some 0, [])), pv_parse_solver_xml = (\<lambda>_ _. Some (example_solution\<lparr>changes := [example_update_change]\<rparr>)),
     pv_enrich_solver_vendors = Some\<rparr>"

definition example_digest :: plan_digest where
  "example_digest p = Some (replicate 64 CHR ''a'')"

definition example_planned :: planned_update where
  "example_planned = projr (plan_update_with_cached_metadata example_digest example_view)"

definition example_updated :: inventory_report where
  "example_updated = \<lparr>iv_schema_version = 1, iv_installed_packages = [\<lparr>ip_name = ''bash'', ip_version = ''2'',
     ip_architecture = ''x86_64'', ip_vendor = ''A''\<rparr>], iv_configuration_artifacts = []\<rparr>"

definition example_surroundings :: surroundings where
  "example_surroundings = \<lparr>on_lock = (\<lambda>_. LockAcquired), on_save = (\<lambda>_. SaveOk), on_load = (\<lambda>_. True),
     on_cancel = (\<lambda>_. False), on_run = (\<lambda>_ p _. (Some 0, if p = ''snapper'' then ''4'' else [])),
     on_write = (\<lambda>_ _. True), on_plan = (\<lambda>_. example_view), on_inventory = (\<lambda>_. Some example_updated),
     on_manifest = (\<lambda>_. None), on_repository_key = (\<lambda>_ _. True), on_payloads = (\<lambda>_. CacheOther),
     on_manifest_time = (\<lambda>_. True), on_marker = (\<lambda>_. NoMarker), on_link = (\<lambda>_. LinkMade), on_now = (\<lambda>_. ''2027'')\<rparr>"

definition example_start :: exec_state where
  "example_start = \<lparr>es_record = example_record\<lparr>op_state := AwaitingConfirmation\<rparr>,
     es_disk = Some (example_record\<lparr>op_state := AwaitingConfirmation\<rparr>), es_trace = []\<rparr>"

lemma storable_updates [simp]:
  "storable (r\<lparr>op_state := st\<rparr>) = storable r" "storable (r\<lparr>op_sequence := q\<rparr>) = storable r"
  "storable (r\<lparr>error_code := c\<rparr>) = storable r" "storable (r\<lparr>updated_at := time\<rparr>) = storable r"
  "storable r \<Longrightarrow> storable (r\<lparr>snapshot_number := Some n\<rparr>) = (n \<noteq> 0)"
  by (auto simp: storable_def)

lemma check_storable:
  "storable r \<Longrightarrow> after_snapshot (op_state r) \<or> op_state r = NeedsRecovery \<Longrightarrow> snapshot_number r \<noteq> None \<Longrightarrow> check_record r = Inr ()"
  "storable r \<Longrightarrow> \<not> after_snapshot (op_state r) \<Longrightarrow> op_state r \<noteq> NeedsRecovery \<Longrightarrow> check_record r = Inr ()"
  by (subst check_record_storable; simp add: storable_def)+

lemma example_storable: "storable example_record"
proof -
  have "validate_operation_id (operation_id example_record) = Inr ()" "is_sha256 (op_plan_sha256 example_record)" by code_simp+
  then show ?thesis by (simp add: storable_def operation_shape_def example_record_def)
qed

text \<open>An accepted online plan is the one built from the host's facts and the solver's answer.\<close>

lemma plan_update_Inr:
  assumes "plan_update_with_cached_metadata sha view = Inr p"
  shows "\<exists>facts xml aliases. discovered_facts view = Inr facts \<and> solved view xml aliases = Inr (pu_solver p) \<and>
    build_plan UpdateWithinRelease facts (pu_preflight p) None None (pu_solver p) = Inr (pu_plan p) \<and>
    sha (pu_plan p) = Some (pu_plan_sha256 p) \<and> pu_facts p = facts \<and> pu_manifest p = None"
  using assms
  by (auto simp: plan_update_with_cached_metadata_def rbind_Inr_iff ok_or_Inr_iff map_err_Inr_iff Let_def
      split: if_splits) blast

lemma example_planned_fields:
  "plan_update_with_cached_metadata example_digest example_view = Inr example_planned"
  "pu_plan_sha256 example_planned = replicate 64 CHR ''a''"
  "changes (pu_solver example_planned) = [example_update_change]"
  "sr_reboot_required (pu_solver example_planned) = False"
  "package_changes (pu_plan example_planned) = [example_update_change]"
  "pl_installed_packages (pu_plan example_planned) = example_installed"
  "pl_schema_version (pu_plan example_planned) = 3" "pl_operation (pu_plan example_planned) = UpdateWithinRelease"
proof -
  have "is_ok (plan_update_with_cached_metadata example_digest example_view)" by code_simp
  then show ok: "plan_update_with_cached_metadata example_digest example_view = Inr example_planned"
    by (auto simp: is_ok_iff example_planned_def)
  from plan_update_Inr [OF ok] obtain facts xml aliases where
    f: "discovered_facts example_view = Inr facts" and so: "solved example_view xml aliases = Inr (pu_solver example_planned)"
    and b: "build_plan UpdateWithinRelease facts (pu_preflight example_planned) None None (pu_solver example_planned) =
      Inr (pu_plan example_planned)" and d: "example_digest (pu_plan example_planned) = Some (pu_plan_sha256 example_planned)"
    by blast
  show "pu_plan_sha256 example_planned = replicate 64 CHR ''a''" using d by (simp add: example_digest_def)
  have facts: "hf_installed_packages facts = example_installed"
    using f by (auto simp: discovered_facts_def example_view_def ok_or_Inr_iff rbind_Inr_iff)
  show c: "changes (pu_solver example_planned) = [example_update_change]"
    "sr_reboot_required (pu_solver example_planned) = False"
    using so [symmetric] by (auto simp: solved_def example_view_def ok_or_def rbind_Inr_iff example_solution_def)
  show "package_changes (pu_plan example_planned) = [example_update_change]"
    "pl_installed_packages (pu_plan example_planned) = example_installed"
    "pl_schema_version (pu_plan example_planned) = 3" "pl_operation (pu_plan example_planned) = UpdateWithinRelease"
    using b c facts by (auto simp: build_plan_Inr_iff example_installed_def PLAN_SCHEMA_VERSION_def)
qed

lemma example_planned_checks:
  "verify_result (pu_plan example_planned) example_updated = Inr ()"
  "touches_boot [example_update_change] = False"
proof -
  let ?p = "example_plan\<lparr>pl_operation := UpdateWithinRelease, package_changes := [example_update_change]\<rparr>"
  have "verify_result (pu_plan example_planned) example_updated = verify_result ?p example_updated"
    by (simp only: verify_result_def example_planned_fields) (simp add: example_plan_def)
  also have "\<dots> = Inr ()" by code_simp
  finally show "verify_result (pu_plan example_planned) example_updated = Inr ()" .
  show "touches_boot [example_update_change] = False" by code_simp
qed

section \<open>Runs that succeed\<close>

lemma transition_to_step:
  "schema_version r = STATE_SCHEMA_VERSION \<Longrightarrow>
   (next \<in> {Applying, ReadyToReboot, ApplyingOffline} \<longrightarrow> snapshot_number r \<noteq> None) \<Longrightarrow>
   valid_transition (operation r) (op_state r) next \<Longrightarrow>
   transition_to r next = Inr (r\<lparr>op_state := next, op_sequence := sat_add (op_sequence r) 1\<rparr>)"
  by (simp add: transition_to_Inr_iff)

text \<open>An operation with kind and digests \<open>k\<close> that is in state \<open>st\<close> and could be saved.\<close>

type_synonym confirmed_identity = "operation_kind \<times> string \<times> string option"

definition ready :: "confirmed_identity \<Rightarrow> operation_state \<Rightarrow> exec_state \<Rightarrow> bool" where
  "ready k st s = (storable (es_record s) \<and>
     (operation (es_record s), op_plan_sha256 (es_record s), op_manifest_sha256 (es_record s)) = k \<and> op_state (es_record s) = st \<and>
     error_code (es_record s) = None \<and>
     (after_snapshot st \<longrightarrow> snapshot_number (es_record s) \<noteq> None))"

definition at :: "confirmed_identity \<Rightarrow> operation_state \<Rightarrow> exec_state \<Rightarrow> bool" where
  "at k st s = (ready k st s \<and> is_none_or (es_disk s) (\<lambda>d. error_code d = None))"

abbreviation at_snapshot :: "confirmed_identity \<Rightarrow> operation_state \<Rightarrow> exec_state \<Rightarrow> bool" where
  "at_snapshot k st s \<equiv> at k st s \<and> snapshot_number (es_record s) \<noteq> None"

lemma at_trace [simp]:
  "ready k st (s\<lparr>es_trace := h\<rparr>) = ready k st s" "at k st (s\<lparr>es_trace := h\<rparr>) = at k st s"
  by (simp_all add: at_def ready_def)

lemma succeeds_transition:
  assumes "valid_transition (fst k) st st'" and "st' \<notin> {Applying, ReadyToReboot, ApplyingOffline}" and "\<not> after_snapshot st'"
  shows "succeeds (ready k st) (transition st') (\<lambda>_. ready k st')" "succeeds (at k st) (transition st') (\<lambda>_. at k st')"
  using assms
  by (auto simp: succeeds_def at_def ready_def transition_def pbind_def pget_def pupd_def transition_to_step storable_def)

lemma succeeds_transition_snapshot:
  assumes "valid_transition (fst k) st st'"
  shows "succeeds (at_snapshot k st) (transition st') (\<lambda>_. at_snapshot k st')"
  using assms
  by (auto simp: succeeds_def at_def ready_def transition_def pbind_def pget_def pupd_def transition_to_step storable_def)

locale quiet_host = reliable_store +
  assumes lock_free: "on_lock env h = LockAcquired"
    and writes: "on_write env h f"
    and runs: "fst (on_run env h p args) = Some 0"
    and snapshots: "is_ok (parse_snapshot_number (snd (on_run env h ''snapper'' args)))"
begin

lemma succeeds_history: "(\<And>h. R (f h)) \<Longrightarrow> succeeds P (with_history env f) (\<lambda>a s. R a \<and> P s)"
  by (auto simp: succeeds_def history_result)

lemma succeeds_lock: "succeeds P (acquire_lock env) (\<lambda>_. P)"
  by (auto simp: succeeds_def acquire_lock_def pbind_def history_result lock_free pret_def)

lemma ready_checked: "ready k st s \<Longrightarrow> st \<noteq> NeedsRecovery \<Longrightarrow> check_record (es_record s) = Inr ()"
  unfolding ready_def by (cases "after_snapshot st") (auto intro: check_storable)

lemma succeeds_persist:
  "st \<noteq> NeedsRecovery \<Longrightarrow> succeeds (ready k st) (persist env) (\<lambda>_. at k st)"
  "st \<noteq> NeedsRecovery \<Longrightarrow> succeeds (at k st) (persist env) (\<lambda>_. at k st)"
  "st \<noteq> NeedsRecovery \<Longrightarrow> succeeds (at_snapshot k st) (persist env) (\<lambda>_. at_snapshot k st)"
  by (auto simp: succeeds_def persist_def pthen_def pbind_def save_result ready_checked at_def pget_def emit_def pupd_def)
    (auto simp: ready_def)

lemma succeeds_run:
  assumes "\<And>s h. P s \<Longrightarrow> P (s\<lparr>es_trace := h\<rparr>)"
  shows "succeeds P (run_observed env p args) 
    (\<lambda>out s. (fst out = Some 0 \<and> (p = ''snapper'' \<longrightarrow> is_ok (parse_snapshot_number (snd out)))) \<and> P s)"
  using assms snapshots
  by (auto simp: succeeds_def run_observed_def pthen_def pbind_def history_result emit_def pupd_def pret_def runs)

lemma succeeds_required:
  assumes "\<And>s h. P s \<Longrightarrow> P (s\<lparr>es_trace := h\<rparr>)"
  shows "succeeds P (require_success e (run_observed env p args))
    (\<lambda>out s. (p = ''snapper'' \<longrightarrow> is_ok (parse_snapshot_number (snd out))) \<and> P s)"
  unfolding require_success_def
proof (rule succeeds_pbind)
  show "succeeds P (run_observed env p args)
    (\<lambda>out s. (fst out = Some 0 \<and> (p = ''snapper'' \<longrightarrow> is_ok (parse_snapshot_number (snd out)))) \<and> P s)"
    using assms by (rule succeeds_run)
qed (auto simp: succeeds_def pret_def success_def)

lemma succeeds_write:
  assumes "\<And>s h. P s \<Longrightarrow> P (s\<lparr>es_trace := h\<rparr>)"
  shows "succeeds P (write_private env f) (\<lambda>_. P)"
  using assms by (auto simp: succeeds_def write_private_def pbind_def history_result writes emit_def pupd_def)

lemma succeeds_not_cancelled: "succeeds (at k st) (stop_if_cancelled env) (\<lambda>_. at k st)"
  by (auto simp: succeeds_def stop_if_cancelled_def cancel_requested_def pbind_def history_result pget_def pret_def at_def ready_def
      is_some_and_def is_none_or_def split: option.splits)

lemma succeeds_snapshot: "succeeds (at k Snapshotting) (create_snapshot env d) (\<lambda>_. at_snapshot k Snapshotting)"
proof -
  have "succeeds (\<lambda>s. is_ok (parse_snapshot_number (snd out)) \<and> at k Snapshotting s)
     (pbind (plift (parse_snapshot_number (snd out))) (\<lambda>n.
       pthen (pupd (\<lambda>s. s\<lparr>es_record := (es_record s)\<lparr>snapshot_number := Some n\<rparr>\<rparr>)) (save env)))
     (\<lambda>_. at_snapshot k Snapshotting)" for out :: command_output
  proof (cases "parse_snapshot_number (snd out)")
    case (Inr n)
    then have n: "n \<noteq> 0" by (rule parse_snapshot_positive)
    have "check_record ((es_record s)\<lparr>snapshot_number := Some n\<rparr>) = Inr ()" if "at k Snapshotting s" for s
      using that n by (intro check_storable(2)) (auto simp: at_def ready_def after_snapshot_def)
    with n Inr show ?thesis
      by (auto simp: succeeds_def pbind_def plift_def pthen_def pupd_def save_result)
        (auto simp: at_def ready_def after_snapshot_def)
  qed (simp add: succeeds_def)
  then show ?thesis
    unfolding create_snapshot_def
    by (intro succeeds_pbind [OF succeeds_required]) auto
qed

end

text \<open>The host for an online update: the plan stays what was confirmed, and the result is as planned.\<close>

locale updating_host = quiet_host +
  fixes sha :: plan_digest and confirmed :: planned_update
  assumes plans: "plan_update_with_cached_metadata sha (on_plan env h) = Inr confirmed"
    and inventory: "\<exists>report. on_inventory env h = Some report \<and> verify_result (pu_plan confirmed) report = Inr ()"
begin

lemma confirmed_digest: "sha (pu_plan confirmed) = Some (pu_plan_sha256 confirmed)"
  using plan_update_Inr [OF plans] by blast

lemma succeeds_replan: "succeeds P (replan env sha) (\<lambda>fresh s. fresh = confirmed \<and> P s)"
  by (auto simp: succeeds_def replan_def pbind_def history_result plift_def plans map_err_def)

lemma succeeds_capture:
  "succeeds P (capture_inventory env e) (\<lambda>report s. verify_result (pu_plan confirmed) report = Inr () \<and> P s)"
  unfolding succeeds_def
proof (intro allI impI)
  fix s assume "P s"
  moreover obtain report where "on_inventory env (es_trace s) = Some report" "verify_result (pu_plan confirmed) report = Inr ()"
    using inventory by blast
  ultimately show "\<exists>report t. capture_inventory env e s = (Inr report, t) \<and>
      verify_result (pu_plan confirmed) report = Inr () \<and> P t"
    by (simp add: capture_inventory_def pbind_def history_result plift_def ok_or_def)
qed

lemma same_required: "(pu_plan confirmed)\<lparr>pl_required_bytes := pl_required_bytes (pu_plan confirmed)\<rparr> = pu_plan confirmed"
  by simp

lemma succeeds_prepare:
  "succeeds (ready (UpdateWithinRelease, digest, None) AwaitingConfirmation) (prepare_update env sha confirmed)
     (\<lambda>fresh s. fresh = confirmed \<and> at (UpdateWithinRelease, digest, None) Downloading s)"
  unfolding prepare_update_def
  apply (rule succeeds_pthen [OF succeeds_write], simp)
  apply (rule succeeds_fact [OF succeeds_capture])
  apply (rule succeeds_pthen [OF succeeds_write], simp)
  apply (rule succeeds_pthen [OF succeeds_transition(1)], simp add: valid_transition_def, simp, simp add: after_snapshot_def)
  apply (rule succeeds_pthen [OF succeeds_persist(1)], simp)
  apply (rule succeeds_fact [OF succeeds_required], simp)
  apply (rule succeeds_pthen [OF succeeds_not_cancelled])
  apply (rule succeeds_fact [OF succeeds_replan])
  apply (rule succeeds_guard, simp)
  apply (rule succeeds_fact [OF succeeds_required], simp)
  apply (rule succeeds_pthen [OF succeeds_not_cancelled])
  apply (rule succeeds_fact [OF succeeds_replan])
  apply (rule succeeds_guard, simp add: confirmed_digest)
  apply (auto intro!: succeeds_pret)
  done

abbreviation needs_reboot :: bool where
  "needs_reboot \<equiv> sr_reboot_required (pu_solver confirmed) \<or> touches_boot (changes (pu_solver confirmed))"

lemma succeeds_apply:
  "succeeds (at_snapshot k st) (apply_update env) (\<lambda>out s. fst out = Some 0 \<and> at_snapshot k st s)"
  unfolding apply_update_def
  by (rule succeeds_fact [OF succeeds_run]) (auto simp: succeeds_def classify_apply_exit_def pret_def)

lemma succeeds_boot:
  "succeeds (at_snapshot k st) (if b then rebuild_boot env else pret ()) (\<lambda>_. at_snapshot k st)"
proof -
  have "succeeds (at_snapshot k st) (rebuild_boot env) (\<lambda>_. at_snapshot k st)"
    unfolding rebuild_boot_def
    by (intro succeeds_fact [OF succeeds_required] succeeds_pret) auto
  then show ?thesis by (auto intro: succeeds_pret)
qed

lemma succeeds_update:
  "succeeds (ready (UpdateWithinRelease, digest, None) AwaitingConfirmation) (execute_update env sha confirmed)
     (\<lambda>out s. at_snapshot (UpdateWithinRelease, digest, None) (if needs_reboot then AwaitingReboot else Completed) s)"
  unfolding execute_update_def Let_def
  apply (rule succeeds_pthen [OF succeeds_lock])
  apply (rule succeeds_fact [OF succeeds_prepare])
  apply (rule succeeds_pthen [OF succeeds_transition(2)], simp add: valid_transition_def, simp, simp add: after_snapshot_def)
  apply (rule succeeds_pthen [OF succeeds_persist(2)], simp)
  apply (rule succeeds_pthen [OF succeeds_snapshot])
  apply (rule succeeds_pthen [OF succeeds_transition_snapshot], simp add: valid_transition_def)
  apply (rule succeeds_pthen [OF succeeds_persist(3)], simp)
  apply (rule succeeds_fact [OF succeeds_apply])
  apply (rule succeeds_pthen [OF succeeds_boot])
  apply (rule succeeds_fact [OF succeeds_capture])
  apply (rule succeeds_pthen [OF succeeds_write], simp)
  apply (rule succeeds_checked, simp add: map_err_def)
  apply (rule succeeds_pthen [OF succeeds_transition_snapshot], simp add: valid_transition_def)
  apply (rule succeeds_pthen [OF succeeds_persist(3)], simp)
  apply (auto intro!: succeeds_pret split: if_splits)
  done

end

text \<open>The host for staging an offline upgrade: the signed manifest and the solver's answer stay the confirmed ones.\<close>

locale staging_host = quiet_host +
  fixes sha :: plan_digest and msha :: manifest_digest and m :: release_manifest and confirmed :: planned_update
    and digest :: string
  assumes target: "pl_target (pu_plan confirmed) = Some (mf_target m)"
    and signed_plan: "check_confirmed_release_plan sha msha m (pu_plan confirmed) digest = Inr ()"
    and signed_manifest: "on_manifest env h = Some m"
    and keys: "on_repository_key env h r"
    and solver: "\<exists>facts solution. discovered_facts (on_plan env h) = Inr facts \<and>
      solved (on_plan env h) xml (map rt_alias (mf_repositories m)) = Inr solution \<and>
      revalidate_release_plan sha msha facts solution m (pu_plan confirmed) digest = Inr ()"
    and arguments: "is_ok (transaction_arguments m (pl_installed_packages (pu_plan confirmed)) mode)"
    and payloads: "verify_payloads m (pl_installed_packages (pu_plan confirmed)) (on_payloads env h) = Inr ()"
    and in_time: "on_manifest_time env h"
    and captures: "on_inventory env h \<noteq> None"
    and marker: "on_marker env h = NoMarker \<and> on_link env h = LinkMade"
begin

abbreviation staged_identity :: confirmed_identity where
  "staged_identity \<equiv> (manifest_operation m, digest, pl_manifest_sha256 (pu_plan confirmed))"

abbreviation staging :: "operation_state \<Rightarrow> exec_state \<Rightarrow> bool" where
  "staging st \<equiv> at staged_identity st"

lemma staged_transitions:
  "valid_transition (fst staged_identity) AwaitingConfirmation Downloading"
  "valid_transition (fst staged_identity) Downloading Snapshotting"
  "valid_transition (fst staged_identity) Snapshotting ReadyToReboot"
  by (simp_all add: manifest_operation_def valid_transition_def)

lemma succeeds_captured: "succeeds P (capture_inventory env e) (\<lambda>_. P)"
  unfolding succeeds_def
proof (intro allI impI)
  fix s assume "P s"
  with captures [of "es_trace s"] show "\<exists>a t. capture_inventory env e s = (Inr a, t) \<and> P t"
    by (auto simp: capture_inventory_def pbind_def history_result plift_def ok_or_def)
qed

lemma succeeds_checks: "succeeds (staging st) (stage_checks env sha msha confirmed m) (\<lambda>_. staging st)"
  by (auto simp: succeeds_def stage_checks_def pbind_def pthen_def pget_def pguard_def plift_def history_result at_def ready_def
      target signed_plan signed_manifest map_err_def ok_or_def)

lemma succeeds_repository: "succeeds (staging st) (stage_repository env r) (\<lambda>_. staging st)"
  unfolding stage_repository_def
  by (rule succeeds_fact [OF succeeds_history [where R = "\<lambda>ok. ok"]]) (auto simp: keys intro: succeeds_write)

lemma succeeds_files: "succeeds (staging st) (stage_files env m) (\<lambda>_. staging st)"
  unfolding stage_files_def
  by (rule succeeds_pbind [OF succeeds_captured]) (intro succeeds_keep succeeds_write succeeds_peach succeeds_repository; simp)

lemma succeeds_revalidate: "succeeds (staging st) (revalidate_staged_solver env sha msha xml m confirmed) (\<lambda>_. staging st)"
  unfolding succeeds_def
proof (intro allI impI)
  fix s assume s: "staging st s"
  obtain facts solution where "discovered_facts (on_plan env (es_trace s)) = Inr facts"
      "solved (on_plan env (es_trace s)) xml (map rt_alias (mf_repositories m)) = Inr solution"
      "revalidate_release_plan sha msha facts solution m (pu_plan confirmed) digest = Inr ()"
    using solver by blast
  with s show "\<exists>a t. revalidate_staged_solver env sha msha xml m confirmed s = (Inr a, t) \<and> staging st t"
    by (simp add: revalidate_staged_solver_def pbind_def history_result pget_def plift_def map_err_def rbind_def at_def ready_def)
qed

lemma succeeds_stage_run: "succeeds (staging st) (stage_run env sha msha common m confirmed mode) (\<lambda>_. staging st)"
proof -
  obtain args where args: "transaction_arguments m (pl_installed_packages (pu_plan confirmed)) mode = Inr args"
    using arguments by (auto simp: is_ok_iff)
  show ?thesis
    unfolding stage_run_def
    by (rule succeeds_lifted [of _ args], simp add: args map_err_def, rule succeeds_fact [OF succeeds_required], simp)
      (intro succeeds_keep succeeds_revalidate succeeds_not_cancelled)
qed

lemma succeeds_download:
  "succeeds (staging AwaitingConfirmation) (stage_download env sha msha dir confirmed m) (\<lambda>_. staging Downloading)"
  unfolding stage_download_def Let_def
  apply (rule succeeds_pthen [OF succeeds_transition(2)], rule staged_transitions, simp, simp add: after_snapshot_def)
  apply (rule succeeds_pthen [OF succeeds_persist(2)], simp)
  apply (rule succeeds_fact [OF succeeds_required], simp)
  apply (rule succeeds_pthen [OF succeeds_not_cancelled])
  apply (rule succeeds_pthen [OF succeeds_stage_run])
  apply (rule succeeds_pthen [OF succeeds_stage_run])
  apply (rule succeeds_fact [OF succeeds_history [where R = "\<lambda>packages. verify_payloads m (pl_installed_packages (pu_plan confirmed)) packages = Inr ()"]])
   apply (rule payloads)
  apply (rule succeeds_checked, simp add: map_err_def)
  apply (rule succeeds_fact [OF succeeds_history [where R = "\<lambda>ok. ok"]], rule in_time)
  apply (simp add: succeeds_def pguard_def)
  done

lemma succeeds_marker: "succeeds (at_snapshot k st) (stage_system_update env) (\<lambda>_. at_snapshot k st)"
  by (simp add: succeeds_def stage_system_update_def pbind_def history_result marker emit_def pupd_def)

lemma succeeds_staging:
  "succeeds (staging AwaitingConfirmation) (stage_release_upgrade env sha msha dir confirmed m)
     (\<lambda>out s. at_snapshot staged_identity ReadyToReboot s)"
  unfolding stage_release_upgrade_def
  apply (rule succeeds_pthen [OF succeeds_lock])
  apply (rule succeeds_pthen [OF succeeds_checks])
  apply (rule succeeds_pthen [OF succeeds_files])
  apply (rule succeeds_pthen [OF succeeds_download])
  apply (rule succeeds_pthen [OF succeeds_transition(2)], rule staged_transitions, simp, simp add: after_snapshot_def)
  apply (rule succeeds_pthen [OF succeeds_persist(2)], simp)
  apply (rule succeeds_pthen [OF succeeds_snapshot])
  apply (rule succeeds_pthen [OF succeeds_marker])
  apply (rule succeeds_pthen [OF succeeds_transition_snapshot], rule staged_transitions)
  apply (rule succeeds_pthen [OF succeeds_persist(3)], simp)
  apply (auto intro!: succeeds_pret)
  done

end

section \<open>The example host\<close>

interpretation example_host: quiet_host example_surroundings
proof
  have "is_ok (parse_snapshot_number ''4'')" by code_simp
  then show "is_ok (parse_snapshot_number (snd (on_run example_surroundings h ''snapper'' args)))" for h args
    by (simp add: example_surroundings_def)
qed (simp_all add: example_surroundings_def)

interpretation example_update: updating_host example_surroundings example_digest example_planned
  by unfold_locales
    (simp_all add: example_surroundings_def example_planned_fields example_planned_checks)

lemma example_start_at: "ready (UpdateWithinRelease, replicate 64 CHR ''a'', None) AwaitingConfirmation example_start"
proof -
  have "storable (example_record\<lparr>op_state := AwaitingConfirmation\<rparr>)" using example_storable by simp
  then show ?thesis by (simp add: ready_def example_start_def after_snapshot_def) (simp add: example_record_def)
qed

definition example_result :: exec_state where
  "example_result = snd (execute_update example_surroundings example_digest example_planned example_start)"

lemma example_run_succeeds:
  "\<exists>out. execute_update example_surroundings example_digest example_planned example_start = (Inr out, example_result)"
  using example_update.succeeds_update example_start_at unfolding succeeds_def example_result_def by fastforce

section \<open>Results of successful operations\<close>

lemma with_history_Inr: "with_history env f s = (Inr a, t) \<Longrightarrow> t = interfere env s \<and> a = f (es_trace t)"
  by (auto simp: with_history_def Let_def)

lemma apply_update_ran: "apply_update env s = (Inr out, t) \<Longrightarrow> Ran ''zypper'' apply_arguments \<in> set (es_trace t)"
proof -
  assume "apply_update env s = (Inr out, t)"
  then obtain o' u where run: "run_observed env ''zypper'' apply_arguments s = (Inr o', u)"
    and rest: "(case classify_apply_exit (fst o') of Inr _ \<Rightarrow> pret o' | Inl RestartPackageManager \<Rightarrow> pfail (PackageManagerRestart o')
       | Inl ExitFailed \<Rightarrow> pfail (Apply o')) u = (Inr out, t)"
    by (auto simp: apply_update_def pbind_Inr_iff)
  have "t = u" using rest
    by (cases "classify_apply_exit (fst o')") (auto simp: pret_def pfail_def split: apply_exit_error.splits)
  with run show ?thesis by (auto simp: run_observed_def result_simps emit_def pupd_def pret_def)
qed

lemma set_trace_mono:
  "adds_only A m \<Longrightarrow> m s = (r, t) \<Longrightarrow> set (es_trace s) \<subseteq> set (es_trace t)"
  by (auto dest: adds_onlyD)

lemma capture_inventory_Inr:
  "capture_inventory env e s = (Inr rep, t) \<Longrightarrow> on_inventory env (es_trace t) = Some rep"
  by (auto simp: capture_inventory_def result_simps plift_def ok_or_Inr_iff dest!: with_history_Inr)

lemma snapshot_kept:
  "maintains (\<lambda>s. R (es_record s)) (with_history env f)" "maintains (\<lambda>s. R (es_record s)) (emit e)"
  "maintains (\<lambda>s. R (es_record s)) (write_private env g)" "maintains (\<lambda>s. R (es_record s)) (capture_inventory env e')"
  "maintains (\<lambda>s. R (es_record s)) (require_success e'' (run_observed env p args))"
  "maintains (\<lambda>s. R (es_record s)) (apply_update env)" "maintains (\<lambda>s. R (es_record s)) (rebuild_boot env)"
proof -
  show 1: "maintains (\<lambda>s. R (es_record s)) (with_history env f)" for env and f :: "history \<Rightarrow> 'x"
    by (simp add: maintains_def valid_def with_history_def Let_def)
  show 2: "maintains (\<lambda>s. R (es_record s)) (emit e)" for e unfolding emit_def by (rule maintains_pupd) simp
  have 3: "maintains (\<lambda>s. R (es_record s)) (run_observed env p args)" for p args
    unfolding run_observed_def by (intro maintains_intros 1 2) simp
  show 4: "maintains (\<lambda>s. R (es_record s)) (require_success e'' (run_observed env p args))" for p args e''
    unfolding require_success_def by (intro maintains_intros 3) simp_all
  show "maintains (\<lambda>s. R (es_record s)) (write_private env g)"
    unfolding write_private_def by (intro maintains_intros 1 2) simp
  show "maintains (\<lambda>s. R (es_record s)) (capture_inventory env e')"
    unfolding capture_inventory_def by (intro maintains_intros 1) simp
  show "maintains (\<lambda>s. R (es_record s)) (apply_update env)"
    unfolding apply_update_def by (intro maintains_intros 3) (auto split: sum.splits apply_exit_error.splits)
  show "maintains (\<lambda>s. R (es_record s)) (rebuild_boot env)"
    unfolding rebuild_boot_def by (intro maintains_intros 4) simp
qed

text \<open>What the last steps of both kinds of operation establish.\<close>

lemma transition_persisted:
  assumes "pthen (transition st) (pthen (persist env) (pret out)) s = (Inr out', t)"
  shows "es_disk t = Some (es_record t) \<and> op_state (es_record t) = st \<and>
    snapshot_number (es_record t) = snapshot_number (es_record s) \<and> set (es_trace s) \<subseteq> set (es_trace t) \<and> out' = out \<and>
    check_record (es_record t) = Inr ()"
proof -
  from assms obtain u where u: "transition st s = (Inr (), u)" and p: "persist env u = (Inr (), t)" and o: "out' = out"
    by (auto simp: result_simps pret_def)
  from transition_Inr [OF u] have "op_state (es_record u) = st" "snapshot_number (es_record u) = snapshot_number (es_record s)"
    "es_trace u = es_trace s"
    by (auto simp: transition_to_Inr_iff)
  with persist_stored [OF p] set_trace_mono [OF adds_only_steps(3) p] o show ?thesis by (auto simp: stored_def)
qed

lemma update_tail:
  assumes "(pbind (apply_update env) (\<lambda>out.
     pthen (if touches_boot (changes (pu_solver fresh)) then rebuild_boot env else pret ()) (
       let reboot_required = (sr_reboot_required (pu_solver fresh) \<or> fst out = Some 102
             \<or> touches_boot (changes (pu_solver fresh))) in
     pbind (capture_inventory env Inventory) (\<lambda>report.
     pthen (write_private env ''inventory-after.json'') (
     pthen (plift (map_err (\<lambda>_. Inventory) (verify_result (pu_plan confirmed) report))) (
     pthen (transition (if reboot_required then AwaitingReboot else Completed)) (
     pthen (persist env) (
       pret \<lparr>eo_reboot_required = reboot_required, eo_package_manager_restart = False\<rparr>)))))))) s = (Inr out, t)"
    and "snapshot_number (es_record s) \<noteq> None"
  shows "es_disk t = Some (es_record t) \<and> snapshot_number (es_record t) \<noteq> None \<and>
    op_state (es_record t) = (if eo_reboot_required out then AwaitingReboot else Completed) \<and>
    Ran ''zypper'' apply_arguments \<in> set (es_trace t) \<and>
    (\<exists>h report. on_inventory env h = Some report \<and> verify_result (pu_plan confirmed) report = Inr () \<and>
       Ran ''zypper'' apply_arguments \<in> set h)"
proof -
  let ?S = "\<lambda>s. snapshot_number (es_record s) \<noteq> None"
  let ?boot = "if touches_boot (changes (pu_solver fresh)) then rebuild_boot env else pret ()"
  let ?b = "\<lambda>o'. sr_reboot_required (pu_solver fresh) \<or> fst o' = Some 102 \<or> touches_boot (changes (pu_solver fresh))"
  from assms(1) obtain o' s1 s2 rep s3 s4 where
    a: "apply_update env s = (Inr o', s1)" and r: "?boot s1 = (Inr (), s2)"
    and c: "capture_inventory env Inventory s2 = (Inr rep, s3)" and w: "write_private env ''inventory-after.json'' s3 = (Inr (), s4)"
    and v: "verify_result (pu_plan confirmed) rep = Inr ()"
    and tail: "pthen (transition (if ?b o' then AwaitingReboot else Completed)) (pthen (persist env)
       (pret \<lparr>eo_reboot_required = ?b o', eo_package_manager_restart = False\<rparr>)) s4 = (Inr out, t)"
    by (simp only: Let_def pbind_Inr_iff pthen_Inr_iff plift_def map_err_Inr_iff prod.inject) blast
  have S1: "?S s1" by (rule maintainsD [OF snapshot_kept(6) [where R = "\<lambda>r. snapshot_number r \<noteq> None"] _ a]) (fact assms(2))
  have boot: "maintains ?S ?boot"
    using snapshot_kept(7) [where R = "\<lambda>r. snapshot_number r \<noteq> None"] by simp
  have S2: "?S s2" by (rule maintainsD [OF boot S1 r])
  have S3: "?S s3" by (rule maintainsD [OF snapshot_kept(4) [where R = "\<lambda>r. snapshot_number r \<noteq> None"] _ c]) (fact S2)
  have S4: "?S s4" by (rule maintainsD [OF snapshot_kept(3) [where R = "\<lambda>r. snapshot_number r \<noteq> None"] _ w]) (fact S3)
  have B: "adds_only (harmless (\<lambda>_ _. True)) ?boot"
    unfolding rebuild_boot_def by (intro adds_only_if adds_only_pbind adds_only_require adds_only_run) simp_all
  have mono: "set (es_trace s1) \<subseteq> set (es_trace s3)" "set (es_trace s3) \<subseteq> set (es_trace s4)"
    using set_trace_mono [OF B r] set_trace_mono [OF adds_only_steps(7) c] set_trace_mono [OF adds_only_steps(6) w] by blast+
  from transition_persisted [OF tail] apply_update_ran [OF a] capture_inventory_Inr [OF c] mono S4 v
  show ?thesis by (intro conjI exI [of _ "es_trace s3"] exI [of _ rep]) auto
qed

lemma stage_checks_Inr:
  assumes "stage_checks env sha msha confirmed m s = (Inr u, t)"
  shows "check_confirmed_release_plan sha msha m (pu_plan confirmed) (op_plan_sha256 (es_record s)) = Inr () \<and>
    operation (es_record s) = manifest_operation m \<and> (\<exists>h. on_manifest env h = Some m)"
  using assms
  by (auto simp: stage_checks_def pbind_Inr_iff pthen_Inr_iff pget_def pguard_def plift_def map_err_Inr_iff ok_or_Inr_iff
      split: if_splits dest!: with_history_Inr)

lemma stage_download_Inr:
  assumes "stage_download env sha msha dir confirmed m s = (Inr u, t)"
  shows "(\<exists>h. verify_payloads m (pl_installed_packages (pu_plan confirmed)) (on_payloads env h) = Inr ()) \<and>
    (\<exists>h. on_manifest_time env h)"
  using assms unfolding stage_download_def Let_def
  apply -
  apply (drule pthen_tail, erule exE)
  apply (drule pthen_tail, erule exE)
  apply (drule pbind_tail, elim exE)
  apply (drule pthen_tail, erule exE)
  apply (drule pthen_tail, erule exE)
  apply (drule pthen_tail, erule exE)
  apply (auto simp: pthen_Inr_iff pbind_Inr_iff plift_Inr_iff pguard_Inr_iff map_err_Inr_iff dest!: with_history_Inr)
  done

lemma stage_system_update_Inr:
  assumes "stage_system_update env s = (Inr u, t)"
  shows "LinkedMarker \<in> set (es_trace t) \<or> (\<exists>h. on_marker env h = MarkerLink True)"
proof -
  from assms obtain node v where w: "with_history env (on_marker env) s = (Inr node, v)"
    and rest: "(case node of
      MarkerLink ours \<Rightarrow> if ours then pret () else pfail SystemUpdateExists
    | MarkerOther \<Rightarrow> pfail SystemUpdateExists
    | NoMarker \<Rightarrow> pbind (with_history env (on_link env)) (\<lambda>outcome. case outcome of
        LinkMade \<Rightarrow> emit LinkedMarker
      | LinkUnsynced \<Rightarrow> pthen (emit LinkedMarker) (pfail Stage)
      | LinkRefused \<Rightarrow> pfail Stage)
    | MarkerError \<Rightarrow> pfail Stage) v = (Inr u, t)"
    unfolding stage_system_update_def pbind_Inr_iff by blast
  show ?thesis
  proof (cases node)
    case NoMarker
    with rest obtain o' v' where "(case o' of LinkMade \<Rightarrow> emit LinkedMarker
      | LinkUnsynced \<Rightarrow> pthen (emit LinkedMarker) (pfail Stage) | LinkRefused \<Rightarrow> pfail Stage) v' = (Inr u, t)"
      by (auto simp: pbind_Inr_iff)
    then show ?thesis by (cases o') (auto simp: emit_def pupd_def pfail_def pthen_def pbind_def)
  next
    case (MarkerLink ours)
    with rest have "ours" by (cases ours) (auto simp: pfail_def)
    with MarkerLink with_history_Inr [OF w] show ?thesis by metis
  qed (use rest in \<open>auto simp: pfail_def\<close>)
qed

lemma create_snapshot_number: "create_snapshot env d s = (Inr u, t) \<Longrightarrow> snapshot_number (es_record t) \<noteq> None"
proof -
  assume "create_snapshot env d s = (Inr u, t)"
  then obtain v n where v: "save env (v\<lparr>es_record := (es_record v)\<lparr>snapshot_number := Some n\<rparr>\<rparr>) = (Inr (), t)"
    by (auto simp: create_snapshot_def result_simps pupd_def)
  from save_stored [OF v] show ?thesis by auto
qed

lemma marker_keeps_record: "stage_system_update env s = (r, t) \<Longrightarrow> es_record t = es_record s"
proof -
  assume run: "stage_system_update env s = (r, t)"
  have "maintains (\<lambda>u. es_record u = es_record s) (stage_system_update env)"
    unfolding stage_system_update_def
    by (intro maintains_intros snapshot_kept(1) [where R = "\<lambda>r. r = es_record s"])
      (auto split: marker.splits link_outcome.splits intro!: maintains_intros snapshot_kept(1,2) [where R = "\<lambda>r. r = es_record s"])
  from maintainsD [OF this _ run] show ?thesis by simp
qed

section \<open>The worker's resting states\<close>

text \<open>A record that carries the code of a cancellation is only ever the one that \<open>cancel\<close> wrote.\<close>

definition cancel_marks :: "exec_state \<Rightarrow> bool" where
  "cancel_marks s = (error_code (es_record s) = None \<and>
     (\<forall>d. es_disk s = Some d \<longrightarrow> error_code d = Some ''CANCELLED'' \<longrightarrow> op_state d = Failed))"

lemma cancel_marks_interfere: "cancel_marks s \<Longrightarrow> cancel_marks (interfere env s)"
  by (auto simp: cancel_marks_def interfere_def cancelled_record_def split: option.splits if_splits)

lemma cancel_marks_steps:
  "maintains cancel_marks (with_history env f)" "maintains cancel_marks (emit e)" "maintains cancel_marks (save env)"
  "maintains cancel_marks (persist env)" "maintains cancel_marks (transition st)"
proof -
  show 1: "maintains cancel_marks (with_history env f)" for env and f :: "history \<Rightarrow> 'x"
    by (simp add: maintains_def valid_def with_history_def Let_def cancel_marks_interfere)
  show 2: "maintains cancel_marks (emit e)" for e unfolding emit_def by (rule maintains_pupd) (simp add: cancel_marks_def)
  show 3: "maintains cancel_marks (save env)"
    unfolding maintains_def valid_def
    by (auto simp: save_eq Let_def split: sum.splits save_outcome.splits dest: cancel_marks_interfere [of _ env])
      (auto simp: cancel_marks_def)
  show "maintains cancel_marks (persist env)" unfolding persist_def by (intro maintains_intros 2 3) simp
  show "maintains cancel_marks (transition st)"
    unfolding maintains_def valid_def
    by (auto simp: transition_def pbind_def pget_def pupd_def pfail_def cancel_marks_def
        transition_to_Inr_iff split: sum.splits)
qed

lemma cancel_marks_more:
  "maintains cancel_marks (acquire_lock env)" "maintains cancel_marks (stop_if_cancelled env)"
  "maintains cancel_marks (write_private env f)" "maintains cancel_marks (capture_inventory env e)"
  "maintains cancel_marks (replan env sha)" "maintains cancel_marks (stage_repository env r)"
  "maintains cancel_marks (revalidate_staged_solver env sha msha xml m confirmed)"
  "maintains cancel_marks (stage_checks env sha msha confirmed m)" "maintains cancel_marks (create_snapshot env d)"
  "maintains cancel_marks (stage_system_update env)" "maintains cancel_marks (run_observed env p args)"
proof -
  note rules = maintains_intros cancel_marks_steps
  show "maintains cancel_marks (acquire_lock env)"
    unfolding acquire_lock_def by (intro rules) (auto split: lock_outcome.splits)
  show "maintains cancel_marks (stop_if_cancelled env)"
    unfolding stop_if_cancelled_def cancel_requested_def by (intro rules) simp_all
  show 1: "maintains cancel_marks (write_private env f)" for f unfolding write_private_def by (intro rules) simp
  show 2: "maintains cancel_marks (run_observed env p args)" for p args unfolding run_observed_def by (intro rules) simp
  show "maintains cancel_marks (capture_inventory env e)" unfolding capture_inventory_def by (intro rules) simp
  show "maintains cancel_marks (replan env sha)" unfolding replan_def by (intro rules) simp
  show "maintains cancel_marks (stage_repository env r)" unfolding stage_repository_def by (intro rules 1) simp
  show "maintains cancel_marks (revalidate_staged_solver env sha msha xml m confirmed)"
    unfolding revalidate_staged_solver_def by (intro rules) simp_all
  show "maintains cancel_marks (stage_checks env sha msha confirmed m)"
    unfolding stage_checks_def by (intro rules) simp_all
  show "maintains cancel_marks (stage_system_update env)"
    unfolding stage_system_update_def by (intro rules) (auto split: marker.splits link_outcome.splits intro!: rules)
  show "maintains cancel_marks (create_snapshot env d)"
    unfolding create_snapshot_def require_success_def
    by (intro rules 2 maintains_pupd) (auto simp: cancel_marks_def)
qed

lemma cancel_marks_require: "maintains cancel_marks m \<Longrightarrow> maintains cancel_marks (require_success e m)"
  unfolding require_success_def by (intro maintains_intros) simp_all

lemma cancel_marks_run: "maintains cancel_marks (run_operation env sha msha dir planned m)"
proof -
  note rules = maintains_intros cancel_marks_steps cancel_marks_more cancel_marks_require maintains_peach maintains_basic
  have u: "maintains cancel_marks (execute_update env sha planned)"
    unfolding execute_update_def prepare_update_def apply_update_def rebuild_boot_def Let_def
    by (intro rules) (auto split: sum.splits apply_exit_error.splits)
  have st: "maintains cancel_marks (stage_release_upgrade env sha msha dir planned m')" for m'
    unfolding stage_release_upgrade_def stage_files_def stage_download_def stage_run_def Let_def
    by (intro rules)
  show ?thesis
    unfolding run_operation_def
    by (intro maintains_pbind) (auto split: operation_kind.splits option.splits intro: u st)
qed

lemma example_worker:
  "worker example_surroundings example_digest (\<lambda>_. None) ''dir'' example_planned None example_start = example_result"
  using example_run_succeeds
  by (auto simp: worker_def run_operation_def pbind_def pget_def example_start_def example_record_def)

text \<open>A host for staging the example migration.\<close>

definition staging_digest :: plan_digest where
  "staging_digest p = (if p = example_plan then Some (replicate 64 CHR ''a'') else None)"

definition staging_manifest_digest :: manifest_digest where
  "staging_manifest_digest m = Some (replicate 64 CHR ''b'')"

definition staging_planned :: planned_update where
  "staging_planned = \<lparr>pu_facts = example_migration_facts, pu_solver = example_migration_solver,
     pu_preflight = evaluate_solver_preflight example_migration_facts (manifest_policy example_manifest)
       example_migration_solver (manifest_solver_policy example_manifest),
     pu_plan = example_plan, pu_plan_sha256 = replicate 64 CHR ''a'', pu_manifest = Some example_manifest\<rparr>"

definition staging_surroundings :: surroundings where
  "staging_surroundings = example_surroundings\<lparr>on_manifest := (\<lambda>_. Some example_manifest),
     on_plan := (\<lambda>_. example_view\<lparr>pv_facts := Some example_migration_facts,
       pv_parse_solver_xml := (\<lambda>_ _. Some example_migration_solver)\<rparr>),
     on_payloads := (\<lambda>_. CacheDir [CacheFile ''bash.rpm'' (Some (replicate 64 CHR ''a''))])\<rparr>"

definition staging_start :: exec_state where
  "staging_start = \<lparr>es_record = example_record\<lparr>op_state := AwaitingConfirmation, operation := PackageMigration,
       op_target := Some example_release, op_manifest_sha256 := Some (replicate 64 CHR ''b'')\<rparr>,
     es_disk = None, es_trace = []\<rparr>"

interpretation staging_quiet: quiet_host staging_surroundings
  using example_host.snapshots
  by unfold_locales (simp_all add: staging_surroundings_def example_surroundings_def)

interpretation staging_example: staging_host staging_surroundings staging_digest staging_manifest_digest
  example_manifest staging_planned "replicate 64 CHR ''a''"
proof
  have facts: "discovered_facts (on_plan staging_surroundings h) = Inr example_migration_facts" for h
    by (simp add: staging_surroundings_def example_view_def discovered_facts_def ok_or_def rbind_def
        example_migration_facts_def)
  have solver: "solved (on_plan staging_surroundings h) xml aliases = Inr example_migration_solver" for h xml aliases
    by (simp add: staging_surroundings_def example_view_def solved_def ok_or_def rbind_def)
  have valid: "revalidate_release_plan staging_digest staging_manifest_digest example_migration_facts example_migration_solver
    example_manifest example_plan (replicate 64 CHR ''a'') = Inr ()" by code_simp
  then have check: "check_confirmed_release_plan staging_digest staging_manifest_digest example_manifest example_plan
    (replicate 64 CHR ''a'') = Inr ()" by (simp add: revalidate_Inr_iff)
  show "\<exists>facts solution. discovered_facts (on_plan staging_surroundings h) = Inr facts \<and>
      solved (on_plan staging_surroundings h) xml (map rt_alias (mf_repositories example_manifest)) = Inr solution \<and>
      revalidate_release_plan staging_digest staging_manifest_digest facts solution example_manifest
        (pu_plan staging_planned) (replicate 64 CHR ''a'') = Inr ()" for h xml
    using facts solver valid by (simp add: staging_planned_def)
  show "check_confirmed_release_plan staging_digest staging_manifest_digest example_manifest (pu_plan staging_planned)
    (replicate 64 CHR ''a'') = Inr ()" using check by (simp add: staging_planned_def)
  have "is_ok (transaction_arguments example_manifest example_installed ModePlan)"
    "is_ok (transaction_arguments example_manifest example_installed ModeDownload)"
    "is_ok (transaction_arguments example_manifest example_installed ModeApply)" by code_simp+
  then show "is_ok (transaction_arguments example_manifest (pl_installed_packages (pu_plan staging_planned)) mode)" for mode
    by (cases mode) (simp_all add: staging_planned_def example_plan_def)
  have "verify_payloads example_manifest example_installed (CacheDir [CacheFile ''bash.rpm'' (Some (replicate 64 CHR ''a''))]) = Inr ()"
    by code_simp
  then show "verify_payloads example_manifest (pl_installed_packages (pu_plan staging_planned)) (on_payloads staging_surroundings h) = Inr ()" for h
    by (simp add: staging_planned_def example_plan_def staging_surroundings_def)
qed (simp_all add: staging_surroundings_def example_surroundings_def staging_planned_def example_plan_def example_manifest_def)

lemma staging_start_at: "staging_example.staging AwaitingConfirmation staging_start"
proof -
  have "list_all lower_hex (replicate 64 CHR ''b'')" by code_simp
  then have "storable (es_record staging_start)"
    using example_storable by (simp add: storable_def staging_start_def example_record_def operation_shape_def is_sha256_def)
  then show ?thesis
    by (simp add: at_def ready_def after_snapshot_def)
      (simp add: staging_start_def example_record_def staging_planned_def example_plan_def example_manifest_def manifest_operation_def is_none_or_def)
qed

lemma staging_run_succeeds:
  "\<exists>out t. stage_release_upgrade staging_surroundings staging_digest staging_manifest_digest ''dir'' staging_planned example_manifest
     staging_start = (Inr out, t)"
  using staging_example.succeeds_staging staging_start_at unfolding succeeds_def by blast

section \<open>Properties\<close>

text \<open>
  C1: The packages are never changed without a way back: whatever the host, the package manager and
  other processes do, every effect of the worker that commits the system to new packages (a run of
  zypper that is not a refresh, a dry run or a download, or the marker for the offline upgrade) comes
  after a record with a snapshot number has been saved.
\<close>

theorem changes_follow_saved_snapshot:
  assumes "es_trace s = []" and "es_trace (worker env sha msha dir planned m s) = later @ e # earlier" and "commits e"
  shows "\<exists>r n. Saved r \<in> set earlier \<and> snapshot_number r = Some n \<and> n \<noteq> 0"
proof -
  have "change_guarded (worker env sha msha dir planned m s)"
    by (rule worker_guarded) (simp add: assms(1))
  then have "snapshot_saved earlier" using assms(2,3) by (auto dest: guardedD)
  then show ?thesis by (simp add: snapshot_saved_def)
qed

lemma execute_update_tail:
  assumes "execute_update env sha confirmed s = (Inr out, t)"
  shows "es_disk t = Some (es_record t) \<and> snapshot_number (es_record t) \<noteq> None \<and>
    op_state (es_record t) = (if eo_reboot_required out then AwaitingReboot else Completed) \<and>
    Ran ''zypper'' apply_arguments \<in> set (es_trace t) \<and>
    (\<exists>h report. on_inventory env h = Some report \<and> verify_result (pu_plan confirmed) report = Inr () \<and>
       Ran ''zypper'' apply_arguments \<in> set h)"
  using assms unfolding execute_update_def
  apply -
  apply (drule pthen_tail, erule exE)
  apply (drule pbind_tail, elim exE)
  apply (drule pthen_tail, erule exE)
  apply (drule pthen_tail, erule exE)
  apply (drule pthen_Inr_iff [THEN iffD1], elim exE conjE, drule create_snapshot_number)
  apply (drule pthen_Inr_iff [THEN iffD1], elim exE conjE, drule transition_Inr)
  apply (drule pthen_Inr_iff [THEN iffD1], elim exE conjE, drule persist_stored)
  apply (rule update_tail, assumption)
  apply (simp add: transition_to_Inr_iff)
  done

theorem changes_follow_saved_snapshot_witness:
  "\<exists>later earlier. es_trace (worker example_surroundings example_digest (\<lambda>_. None) ''dir'' example_planned None example_start)
     = later @ Ran ''zypper'' apply_arguments # earlier \<and> commits (Ran ''zypper'' apply_arguments) \<and>
     (\<exists>r n. Saved r \<in> set earlier \<and> snapshot_number r = Some n \<and> n \<noteq> 0)"
proof -
  have c: "commits (Ran ''zypper'' apply_arguments)" by code_simp
  have e: "es_trace example_start = []" by (simp add: example_start_def)
  obtain out where "execute_update example_surroundings example_digest example_planned example_start = (Inr out, example_result)"
    using example_run_succeeds by blast
  from execute_update_tail [OF this] have "Ran ''zypper'' apply_arguments \<in> set (es_trace example_result)" by blast
  then obtain later earlier where "es_trace example_result = later @ Ran ''zypper'' apply_arguments # earlier"
    by (meson split_list)
  then have w: "es_trace (worker example_surroundings example_digest (\<lambda>_. None) ''dir'' example_planned None example_start)
     = later @ Ran ''zypper'' apply_arguments # earlier" by (simp add: example_worker)
  from changes_follow_saved_snapshot [OF e w c] w c show ?thesis by blast
qed

text \<open>
  C12: A successful online update did what was confirmed: the package manager was run, an inventory taken
  after that run contains exactly what the confirmed plan allows (\<open>as_planned\<close>), and the record on disk
  names a snapshot and the state that fits: waiting for a reboot if the outcome asks for one, completed otherwise.
\<close>

theorem online_update_result:
  assumes "execute_update env sha confirmed s = (Inr out, t)"
  shows "es_disk t = Some (es_record t) \<and> snapshot_number (es_record t) \<noteq> None \<and>
    op_state (es_record t) = (if eo_reboot_required out then AwaitingReboot else Completed) \<and>
    (\<exists>h report. on_inventory env h = Some report \<and> as_planned (pu_plan confirmed) (set (iv_installed_packages report)) \<and>
       Ran ''zypper'' apply_arguments \<in> set h)"
  using execute_update_tail [OF assms] result_matches_plan by blast

theorem online_update_result_witness:
  "es_disk example_result = Some (es_record example_result) \<and> snapshot_number (es_record example_result) \<noteq> None"
proof -
  obtain out where "execute_update example_surroundings example_digest example_planned example_start = (Inr out, example_result)"
    using example_run_succeeds by blast
  from online_update_result [OF this] show ?thesis by blast
qed

text \<open>
  C13: A successfully staged offline upgrade is bound to what was signed and confirmed: the confirmed plan
  has the digest of the record and passed the manifest's policy, the signed manifest was verified again, the
  cached packages are the authorised ones, and the record on disk is ready to reboot with a snapshot.
\<close>

theorem staged_upgrade_result:
  assumes "stage_release_upgrade env sha msha dir confirmed m s = (Inr out, t)"
  shows "es_disk t = Some (es_record t) \<and> op_state (es_record t) = ReadyToReboot \<and> snapshot_number (es_record t) \<noteq> None \<and>
    (LinkedMarker \<in> set (es_trace t) \<or> (\<exists>h. on_marker env h = MarkerLink True)) \<and>
    (\<exists>h. on_manifest env h = Some m) \<and> (\<exists>h. on_manifest_time env h) \<and>
    (\<exists>h. verify_payloads m (pl_installed_packages (pu_plan confirmed)) (on_payloads env h) = Inr ()) \<and>
    check_confirmed_release_plan sha msha m (pu_plan confirmed) (op_plan_sha256 (es_record s)) = Inr ()"
proof -
  from assms obtain s1 s2 s3 s4 s5 s6 s7 s8 where lock: "acquire_lock env s = (Inr (), s1)"
    and c: "stage_checks env sha msha confirmed m s1 = (Inr (), s2)"
    and d: "stage_download env sha msha dir confirmed m s3 = (Inr (), s4)"
    and n: "create_snapshot env ''Lyra release upgrade'' s6 = (Inr (), s7)"
    and mk: "stage_system_update env s7 = (Inr (), s8)"
    and tail: "pthen (transition ReadyToReboot) (pthen (persist env)
       (pret \<lparr>eo_reboot_required = True, eo_package_manager_restart = False\<rparr>)) s8 = (Inr out, t)"
    unfolding stage_release_upgrade_def by (simp only: pthen_Inr_iff) blast
  have "maintains (\<lambda>u. es_record u = es_record s) (acquire_lock env)"
    unfolding acquire_lock_def
    by (intro maintains_intros snapshot_kept(1) [where R = "\<lambda>r. r = es_record s"]) (auto split: lock_outcome.splits)
  from maintainsD [OF this _ lock] have "es_record s1 = es_record s" by simp
  with transition_persisted [OF tail] stage_checks_Inr [OF c] stage_download_Inr [OF d] create_snapshot_number [OF n]
    stage_system_update_Inr [OF mk] marker_keeps_record [OF mk] show ?thesis by auto
qed

theorem staged_upgrade_result_witness:
  "\<exists>out t. stage_release_upgrade staging_surroundings staging_digest staging_manifest_digest ''dir'' staging_planned example_manifest
     staging_start = (Inr out, t) \<and> op_state (es_record t) = ReadyToReboot"
  using staging_run_succeeds staged_upgrade_result by blast



lemma run_operation_success:
  assumes "run_operation env sha msha dir planned m s = (Inr out, t)"
  shows "es_disk t = Some (es_record t) \<and> op_state (es_record t) \<in> {Completed, AwaitingReboot, ReadyToReboot}"
proof -
  have staged: "es_disk t = Some (es_record t) \<and> op_state (es_record t) = ReadyToReboot"
    if run: "stage_release_upgrade env sha msha dir planned m' s = (Inr out, t)" for m'
  proof -
    from run obtain s8 where "pthen (transition ReadyToReboot) (pthen (persist env)
       (pret \<lparr>eo_reboot_required = True, eo_package_manager_restart = False\<rparr>)) s8 = (Inr out, t)"
      unfolding stage_release_upgrade_def by (simp only: pthen_Inr_iff) blast
    from transition_persisted [OF this] show ?thesis by blast
  qed
  from assms show ?thesis
    by (auto simp: run_operation_def pbind_def pget_def pfail_def split: operation_kind.splits option.splits
        dest!: staged execute_update_tail split: if_splits)
qed

lemma worker_rests:
  assumes "\<forall>h. on_save env h = SaveOk" and "storable (es_record s)" and "error_code (es_record s) = None"
    and "es_disk s = Some (es_record s)"
  shows "\<exists>d. es_disk (worker env sha msha dir planned m s) = Some d \<and>
    op_state d \<in> {Completed, AwaitingReboot, ReadyToReboot, Blocked, Failed, NeedsRecovery} \<and>
    (op_state d = NeedsRecovery \<longrightarrow> snapshot_number d \<noteq> None)"
proof -
  obtain r s1 where run: "run_operation env sha msha dir planned m s = (r, s1)" by fastforce
  have marks1: "cancel_marks s1" by (rule maintainsD [OF cancel_marks_run _ run]) (simp add: cancel_marks_def assms(3,4))
  have ok1: "storable (es_record s1)"
    using maintainsD [OF record_ok_run_operation _ run] assms(2) by (simp add: record_ok_def)
  show ?thesis
  proof (cases r)
    case (Inr out)
    with run run_operation_success [of env sha msha dir planned m s out s1] show ?thesis by (auto simp: worker_def)
  next
    case (Inl e)
    let ?s2 = "interfere env s1"
    let ?s3 = "?s2\<lparr>es_record := failed_record (on_now env (es_trace ?s2)) e (es_record ?s2)\<rparr>"
    have marks2: "cancel_marks ?s2" using marks1 by (rule cancel_marks_interfere)
    let ?c = "on_load env (es_trace ?s2) \<and> is_some_and (es_disk ?s2) (\<lambda>d. error_code d = Some ''CANCELLED'')"
    have c: "cancel_requested env s1 = (Inr ?c, ?s2)"
      by (simp add: cancel_requested_def pbind_def with_history_def Let_def pget_def)
    show ?thesis
    proof (cases ?c)
      case True
      then have "worker env sha msha dir planned m s = ?s2" using run Inl c by (simp add: worker_def)
      with True marks2 show ?thesis by (auto simp: cancel_marks_def is_some_and_def split: option.splits)
    next
      case False
      have "check_record (es_record ?s3) = Inr ()" using ok1 by (simp add: failed_record_storable)
      then have "es_disk (snd (save env ?s3)) = Some (es_record ?s3)" using assms(1) by (simp add: save_eq Let_def)
      moreover have "worker env sha msha dir planned m s = snd (save env ?s3)"
        using run Inl c False by (simp add: worker_def)
      ultimately show ?thesis by (simp add: failed_record_def failure_state_def)
    qed
  qed
qed

text \<open>
  C10: The worker leaves no operation hanging: when saving works, the record on disk ends in a state a user
  can act on, whatever else fails or interferes: completed, waiting for a reboot, blocked, failed or in need
  of recovery, the last only with a snapshot to go back to.
\<close>

theorem worker_ends_at_rest:
  assumes "\<forall>h. on_save env h = SaveOk" and "storable (es_record s)" and "error_code (es_record s) = None"
    and "es_disk s = Some (es_record s)"
  shows "\<exists>d. es_disk (worker env sha msha dir planned m s) = Some d \<and>
    op_state d \<in> {Completed, AwaitingReboot, ReadyToReboot, Blocked, Failed, NeedsRecovery} \<and>
    (op_state d = NeedsRecovery \<longrightarrow> snapshot_number d \<noteq> None)"
  by (rule worker_rests [OF assms])

theorem worker_ends_at_rest_witness:
  "\<exists>d. es_disk (worker example_surroundings example_digest (\<lambda>_. None) ''dir'' example_planned None example_start) = Some d \<and>
    op_state d \<in> {Completed, AwaitingReboot, ReadyToReboot, Blocked, Failed, NeedsRecovery}"
proof -
  have "\<forall>h. on_save example_surroundings h = SaveOk" by (simp add: example_surroundings_def)
  moreover have "storable (es_record example_start)" using example_storable by (simp add: example_start_def)
  ultimately show ?thesis
    using worker_ends_at_rest [of example_surroundings example_start]
    by (simp add: example_start_def example_record_def) blast
qed

text \<open>
  A run that stops because of a cancellation has changed nothing: no snapshot command was run and
  nothing that commits the system to new packages.
\<close>

theorem cancelled_run_changes_nothing:
  assumes "run_operation env sha msha dir planned m s = (Inl Cancelled, t)" and "es_trace s = []"
  shows "(\<forall>args. Ran ''snapper'' args \<notin> set (es_trace t)) \<and> (\<forall>e \<in> set (es_trace t). \<not> commits e)"
proof -
  have "untouched t" using valid_Inl [OF run_operation_cancel _ assms(1)] assms(2) by simp
  then have "harmless mild e" if "e \<in> set (es_trace t)" for e using that by (simp add: list_all_iff)
  moreover have "\<not> commits e \<and> (\<forall>args. e \<noteq> Ran ''snapper'' args)" if "harmless mild e" for e
    using that by (cases e) (auto simp: mild_def commits_def)
  ultimately show ?thesis by blast
qed

definition cancelling_surroundings :: surroundings where
  "cancelling_surroundings = example_surroundings\<lparr>on_cancel := (\<lambda>h. case h of Notified st # _ \<Rightarrow> st = Downloading | _ \<Rightarrow> False)\<rparr>"

lemmas exec_run = step_run prepare_update_def [THEN fun_cong] execute_update_def [THEN fun_cong]
  run_operation_def [THEN fun_cong]

lemma cancelling_fields:
  "on_lock cancelling_surroundings h = LockAcquired" "on_save cancelling_surroundings h = SaveOk"
  "on_load cancelling_surroundings h = True"
  "on_run cancelling_surroundings h q args = (Some 0, if q = ''snapper'' then ''4'' else [])"
  "on_write cancelling_surroundings h f = True"
  "on_inventory cancelling_surroundings h = Some example_updated"
  by (simp_all add: cancelling_surroundings_def example_surroundings_def)

lemma cancelling_interfere:
  "interfere cancelling_surroundings s = (case es_trace s of Notified Downloading # h \<Rightarrow>
     (case es_disk s of None \<Rightarrow> s | Some d \<Rightarrow> if is_cancelable (op_state d) then
        s\<lparr>es_disk := Some (cancelled_record ''2027'' d), es_trace := UserCancelled # es_trace s\<rparr> else s) | _ \<Rightarrow> s)"
  by (auto simp: interfere_def cancelling_surroundings_def example_surroundings_def split: option.splits list.splits effect.splits operation_state.splits)

lemma example_record_fields:
  "operation example_record = UpdateWithinRelease" "error_code example_record = None"
  by (simp_all add: example_record_def)

lemma example_downloading: "check_record (example_record\<lparr>op_state := Downloading, op_sequence := q\<rparr>) = Inr ()"
  using example_storable by (intro check_storable(2)) (simp_all add: after_snapshot_def)

lemma example_transition: "transition_to (example_record\<lparr>op_state := AwaitingConfirmation\<rparr>) Downloading =
  Inr (example_record\<lparr>op_state := Downloading, op_sequence := 8\<rparr>)"
  by code_simp

lemma cancelled_run:
  "fst (run_operation cancelling_surroundings example_digest (\<lambda>_. None) ''dir'' example_planned None example_start) = Inl Cancelled"
  unfolding example_start_def
  by (simp add: exec_run cancelling_fields cancelling_interfere example_transition example_downloading Let_def ok_or_def success_def is_some_and_def
    cancelled_record_def is_cancelable_def example_record_fields)

theorem cancelled_run_changes_nothing_witness:
  "\<exists>t. run_operation cancelling_surroundings example_digest (\<lambda>_. None) ''dir'' example_planned None example_start = (Inl Cancelled, t) \<and>
     (\<forall>e \<in> set (es_trace t). \<not> commits e)"
proof -
  obtain t where t: "run_operation cancelling_surroundings example_digest (\<lambda>_. None) ''dir'' example_planned None example_start
      = (Inl Cancelled, t)" using cancelled_run by (metis prod.collapse)
  with cancelled_run_changes_nothing [OF t] show ?thesis by (simp add: example_start_def)
qed


definition example_cancelled :: exec_state where
  "example_cancelled = example_start\<lparr>es_disk := Some (cancelled_record ''2027'' (es_record example_start))\<rparr>"


end
