(* ===== verification/Rollback.thy ===== *)
theory Rollback
  imports Execution
begin

text \<open>
  \<open>service/src/recovery.rs\<close>: scheduling an explicit rollback. The intent is saved before snapper changes the
  selected boot root, and the result is only accepted when the new root is the default subvolume and a clone
  of the recorded snapshot with the release it had. The state is that of the theory Executor; what the code
  reads of the snapshots is the record \<open>snapshots_view\<close>, whose answers depend on the history of effects.
\<close>

section \<open>Scheduling\<close>

type_synonym 'a rolling = "(exec_state, string, 'a) prog"

record snapshots_view =
  sn_release :: "history \<Rightarrow> string \<Rightarrow> release_identity option"
  sn_text :: "history \<Rightarrow> string \<Rightarrow> string option"
  sn_btrfs :: "history \<Rightarrow> btrfs_probe"

definition observe :: "surroundings \<Rightarrow> (history \<Rightarrow> 'a) \<Rightarrow> 'a rolling" where
  "observe env f = pmap_err (\<lambda>_. []) (with_history env f)"

definition save_or :: "surroundings \<Rightarrow> unit rolling" where
  "save_or env = pmap_err (\<lambda>_. ''STATE_WRITE_FAILED'') (save env)"

text \<open>Reading the record again under the lock: \<open>load_state\<close> refuses a record that does not validate.\<close>

definition reload :: "surroundings \<Rightarrow> unit rolling" where
  "reload env = pbind (observe env (on_load env)) (\<lambda>readable. pbind (pget es_disk) (\<lambda>d. case d of
      Some r \<Rightarrow> if readable \<and> check_record r = Inr () then pupd (\<lambda>s. s\<lparr>es_record := r\<rparr>) else pfail ''STATE_READ_FAILED''
    | None \<Rightarrow> pfail ''STATE_READ_FAILED''))"

definition rollback_arguments :: "u64 \<Rightarrow> string list" where
  "rollback_arguments number = [''--no-dbus'', ''--ambit'', ''classic'', ''--quiet'', ''--config'', ''root'',
     ''rollback'', ''--print-number'', show_u64 number]"

definition rolled_number :: "command_output \<Rightarrow> string + u64" where
  "rolled_number out = (if \<not> success out then Inl ''ROLLBACK_FAILED''
     else ok_or (opt_filter (\<lambda>n. 0 < n) (parse_u64 (trim (snd out)))) ''ROLLBACK_RESULT_INVALID'')"

text \<open>The three comparisons are made in order, and a probe that fails ends the check with its own error.\<close>

definition check_new_root :: "btrfs_probe \<Rightarrow> (string \<Rightarrow> release_identity option) \<Rightarrow> rollback_goal \<Rightarrow> release_identity \<Rightarrow> u64
    \<Rightarrow> subvolume_identity \<Rightarrow> string + unit" where
  "check_new_root btrfs release goal source boot_number boot =
     (if sv_parent_uuid boot \<noteq> Some (sv_uuid (source_snapshot goal)) then Inl ''ROLLBACK_RESULT_INVALID''
      else rbind (default_subvolume_id btrfs) (\<lambda>d.
        if d \<noteq> sv_id boot then Inl ''ROLLBACK_RESULT_INVALID''
        else rbind (ok_or (release (snapshot_path boot_number)) ''SNAPSHOT_IDENTITY_INVALID'') (\<lambda>rel.
          if rel \<noteq> source then Inl ''ROLLBACK_RESULT_INVALID'' else Inr ())))"

definition finish_rollback :: "surroundings \<Rightarrow> snapshots_view \<Rightarrow> u64 \<Rightarrow> unit rolling" where
  "finish_rollback env view number =
     pbind (pmap_err (\<lambda>_. []) (run_observed env ''snapper'' (rollback_arguments number))) (\<lambda>out.
     pbind (plift (rolled_number out)) (\<lambda>boot_number.
     pbind (observe env (sn_btrfs view)) (\<lambda>btrfs.
     pbind (plift (inspect_subvolume btrfs (snapshot_path boot_number))) (\<lambda>boot.
     pbind (pget es_record) (\<lambda>r.
     pbind (plift (ok_or (recovery r) ''ROLLBACK_INTENT_INCOMPLETE'')) (\<lambda>goal.
     pbind (observe env (sn_release view)) (\<lambda>release.
     pthen (plift (check_new_root btrfs release goal (op_source r) boot_number boot)) (
     pthen (pupd (\<lambda>s. s\<lparr>es_record := (es_record s)\<lparr>recovery := Some (goal\<lparr>boot_snapshot := Some boot\<rparr>),
       op_state := AwaitingReboot, op_sequence := sat_add (op_sequence r) 1, error_code := None,
       last_completed_step := Some ''rollback-scheduled''\<rparr>\<rparr>)) (
       save_or env)))))))))"

text \<open>The checks in front of the intent; they give the snapshot's number and identity.\<close>

definition rollback_source :: "surroundings \<Rightarrow> snapshots_view \<Rightarrow> string \<Rightarrow> (u64 \<times> subvolume_identity) rolling" where
  "rollback_source env view state_root =
     pbind (pget es_record) (\<lambda>r.
     pthen (pguard (op_state r = NeedsRecovery) ''RECOVERY_NOT_REQUIRED'') (
     pthen (pguard (\<not> is_some_and (recovery r) (\<lambda>goal. boot_snapshot goal = None)) ''ROLLBACK_INTENT_INCOMPLETE'') (
     pbind (plift (ok_or (snapshot_number r) ''SNAPSHOT_NOT_AVAILABLE'')) (\<lambda>number.
     pbind (observe env (sn_release view)) (\<lambda>release.
     pbind (plift (ok_or (release (snapshot_path number)) ''SNAPSHOT_IDENTITY_INVALID'')) (\<lambda>found.
     pthen (pguard (found = op_source r) ''SNAPSHOT_IDENTITY_MISMATCH'') (
     pbind (observe env (sn_text view)) (\<lambda>text.
     pthen (pguard (text (snapshot_path number @ ''/usr/lib/lyra-upgrade/recovery-format'') = Some (''1'' @ [CHR 0x0A]))
        ''SNAPSHOT_RECOVERY_UNSUPPORTED'') (
     pbind (observe env (sn_btrfs view)) (\<lambda>btrfs.
     pbind (plift (containing_subvolume_id btrfs state_root)) (\<lambda>state_id.
     pbind (plift (containing_subvolume_id btrfs ''/'')) (\<lambda>root_id.
     pthen (pguard (state_id \<noteq> root_id) ''RECOVERY_STATE_NOT_PERSISTENT'') (
     pbind (plift (inspect_subvolume btrfs (snapshot_path number))) (\<lambda>source.
       pret (number, source)))))))))))))))"

definition rollback_intent :: "string \<Rightarrow> u64 \<Rightarrow> subvolume_identity \<Rightarrow> operation_state_record \<Rightarrow> operation_state_record" where
  "rollback_intent time number source r = r\<lparr>recovery := Some \<lparr>source_snapshot_number = number,
       source_snapshot = source, boot_snapshot = None\<rparr>,
     op_sequence := sat_add (op_sequence r) 1, updated_at := time, last_completed_step := Some ''rollback-preparing'',
     boot_verification := Some BootPending\<rparr>"

definition rollback_failed :: "string \<Rightarrow> operation_state_record \<Rightarrow> operation_state_record" where
  "rollback_failed error r = r\<lparr>op_state := NeedsRecovery, error_code := Some error, op_sequence := sat_add (op_sequence r) 1\<rparr>"

definition schedule_rollback :: "surroundings \<Rightarrow> snapshots_view \<Rightarrow> string \<Rightarrow> string \<Rightarrow> unit rolling" where
  "schedule_rollback env view state_root time =
     pthen (pmap_err (\<lambda>_. ''TRANSACTION_BUSY'') (acquire_lock env)) (
     pthen (reload env) (
     pbind (rollback_source env view state_root) (\<lambda>(number, source).
     pthen (pupd (\<lambda>s. s\<lparr>es_record := rollback_intent time number source (es_record s)\<rparr>)) (
     pthen (save_or env) (
     ptry (finish_rollback env view number) (\<lambda>result. case result of
        Inr _ \<Rightarrow> pret ()
      | Inl e \<Rightarrow> pthen (pupd (\<lambda>s. s\<lparr>es_record := rollback_failed e (es_record s)\<rparr>)) (
          pthen (save_or env) (pfail e))))))))"

section \<open>Lemmas\<close>

lemma observe_Inr: "observe env f s = (r, t) \<Longrightarrow> r = Inr (f (es_trace t)) \<and> t = interfere env s"
  by (auto simp: observe_def pmap_err_def with_history_def Let_def)

lemma adds_only_observe: "adds_only (harmless C) (observe env f)"
  unfolding observe_def by (intro adds_only_pmap_err adds_only_with_history) simp

lemmas rollback_rules = adds_only_pmap_err adds_only_observe adds_only_pbind adds_only_pthen adds_only_if adds_only_pupd
  adds_only_steps adds_only_run

lemma adds_only_save_or: "adds_only (harmless C) (save_or env)"
  unfolding save_or_def by (intro rollback_rules)

lemma adds_only_reload: "adds_only (harmless C) (reload env)"
  unfolding reload_def by (intro rollback_rules) (auto split: option.splits intro!: rollback_rules)

lemma adds_only_source: "adds_only (harmless C) (rollback_source env view root)"
  unfolding rollback_source_def by (intro rollback_rules) simp_all

text \<open>A change of the selected boot root, and the saved intent that has to precede it.\<close>

definition rolls_back :: "effect \<Rightarrow> bool" where
  "rolls_back e = (case e of Ran p args \<Rightarrow> p = ''snapper'' \<and> ''rollback'' \<in> set args | _ \<Rightarrow> False)"

definition intent_saved :: "history \<Rightarrow> bool" where
  "intent_saved h = (\<exists>r g. Saved r \<in> set h \<and> recovery r = Some g \<and> op_state r = NeedsRecovery \<and>
     boot_snapshot g = None \<and> snapshot_number r = Some (source_snapshot_number g))"

abbreviation mild_run :: "string \<Rightarrow> string list \<Rightarrow> bool" where
  "mild_run p args \<equiv> \<not> rolls_back (Ran p args)"

lemma harmless_rolls: "harmless mild_run e \<Longrightarrow> \<not> rolls_back e"
  by (cases e) (auto simp: rolls_back_def)

lemma save_or_stored: "save_or env s = (Inr u, t) \<Longrightarrow> stored t \<and> es_record t = es_record s"
  by (auto simp: save_or_def pmap_err_Inr_iff dest: save_stored)

lemma observe_keeps: "observe env f s = (r, t) \<Longrightarrow> es_record t = es_record s"
  by (auto dest!: observe_Inr)

lemma source_Inr:
  assumes "rollback_source env view root s = (Inr x, t)"
  shows "es_record t = es_record s \<and> op_state (es_record s) = NeedsRecovery \<and> snapshot_number (es_record s) = Some (fst x) \<and>
    \<not> is_some_and (recovery (es_record s)) (\<lambda>goal. boot_snapshot goal = None) \<and> subvolume_valid (snd x)"
  using assms unfolding rollback_source_def
  apply (clarsimp simp: pbind_Inr_iff pthen_Inr_iff pget_def pguard_def plift_def pret_def ok_or_Inr_iff split: if_splits)
  apply (auto dest!: observe_keeps simp: inspect_subvolume_def rbind_Inr_iff parse_subvolume_def Let_def split: if_splits)
  done

abbreviation selection_guarded :: "exec_state \<Rightarrow> bool" where
  "selection_guarded s \<equiv> guarded rolls_back intent_saved (es_trace s)"

lemma selection_step:
  "adds_only (harmless mild_run) m \<Longrightarrow> valid selection_guarded m (\<lambda>_. selection_guarded) (\<lambda>_. selection_guarded)"
  unfolding maintains_def [symmetric] by (erule maintains_guarded) (rule harmless_rolls)

lemma intent_saved_mono: "intent_saved h \<Longrightarrow> intent_saved (e # h)"
  by (auto simp: intent_saved_def)

lemma selection_rest:
  "adds_only (\<lambda>_. True) m \<Longrightarrow>
   valid (\<lambda>s. selection_guarded s \<and> intent_saved (es_trace s)) m (\<lambda>_. selection_guarded) (\<lambda>_. selection_guarded)"
  by (rule valid_conseq [OF maintains_guarded_when [where G = intent_saved and c = rolls_back, unfolded maintains_def]])
    (auto intro: intent_saved_mono)

lemma source_step:
  "valid selection_guarded (rollback_source env view root)
     (\<lambda>x s. selection_guarded s \<and> op_state (es_record s) = NeedsRecovery \<and> snapshot_number (es_record s) = Some (fst x))
     (\<lambda>_. selection_guarded)"
proof (rule validI)
  fix s assume g: "selection_guarded s"
  obtain r t where run: "rollback_source env view root s = (r, t)" by fastforce
  have "selection_guarded t" by (rule valid_any [OF selection_step [OF adds_only_source] g run])
  with run source_Inr [of env view root s _ t]
  show "case rollback_source env view root s of (Inl e, t) \<Rightarrow> selection_guarded t
    | (Inr x, t) \<Rightarrow> selection_guarded t \<and> op_state (es_record t) = NeedsRecovery \<and> snapshot_number (es_record t) = Some (fst x)"
    by (cases r) auto
qed

lemma intent_step:
  "valid (\<lambda>s. selection_guarded s \<and> op_state (es_record s) = NeedsRecovery \<and> snapshot_number (es_record s) = Some number)
     (pthen (pupd (\<lambda>s. s\<lparr>es_record := rollback_intent time number source (es_record s)\<rparr>)) (save_or env))
     (\<lambda>_ s. selection_guarded s \<and> intent_saved (es_trace s)) (\<lambda>_. selection_guarded)"
proof (rule validI)
  fix s :: exec_state
  let ?m = "pthen (pupd (\<lambda>s. s\<lparr>es_record := rollback_intent time number source (es_record s)\<rparr>)) (save_or env)"
  assume g: "selection_guarded s \<and> op_state (es_record s) = NeedsRecovery \<and> snapshot_number (es_record s) = Some number"
  obtain r t where run: "?m s = (r, t)" by fastforce
  have "adds_only (harmless mild_run) ?m" by (intro rollback_rules adds_only_save_or) simp
  from valid_any [OF selection_step [OF this] _ run] g have "selection_guarded t" by blast
  moreover have "intent_saved (es_trace t)" if "r = Inr ()"
  proof -
    have "save_or env (s\<lparr>es_record := rollback_intent time number source (es_record s)\<rparr>) = (Inr (), t)"
      using run that by (simp add: pthen_Inr_iff pupd_def)
    from save_or_stored [OF this] have "Saved (rollback_intent time number source (es_record s)) \<in> set (es_trace t)"
      by (auto simp: stored_def)
    then show ?thesis using g
      by (auto simp: intent_saved_def rollback_intent_def intro!: exI [of _ "rollback_intent time number source (es_record s)"])
  qed
  ultimately show "case ?m s of (Inl e, t) \<Rightarrow> selection_guarded t | (Inr a, t) \<Rightarrow> selection_guarded t \<and> intent_saved (es_trace t)"
    using run by (cases r) auto
qed

lemma adds_only_finish: "adds_only (harmless (\<lambda>_ _. True)) (finish_rollback env view number)"
  unfolding finish_rollback_def by (intro rollback_rules adds_only_save_or) simp_all

lemma pthen_assoc: "pthen m (pthen k l) = pthen (pthen m k) l"
  by (auto simp: pthen_def pbind_def fun_eq_iff split: prod.splits sum.splits)

lemma schedule_guarded: "maintains selection_guarded (schedule_rollback env view root time)"
  unfolding maintains_def schedule_rollback_def
proof (rule valid_pthen [OF selection_step], intro rollback_rules, rule valid_pthen [OF selection_step], rule adds_only_reload,
    rule valid_pbind [OF source_step])
  fix x :: "u64 \<times> subvolume_identity"
  obtain number source where x: "x = (number, source)" by (cases x)
  have rest: "adds_only (\<lambda>_. True) (ptry (finish_rollback env view number) (\<lambda>result. case result of
        Inr _ \<Rightarrow> pret ()
      | Inl e \<Rightarrow> pthen (pupd (\<lambda>s. s\<lparr>es_record := rollback_failed e (es_record s)\<rparr>)) (pthen (save_or env) (pfail e))))"
    by (rule adds_anything(2) [where C = "\<lambda>_ _. True"], intro adds_only_ptry adds_only_finish)
      (auto split: sum.splits intro!: rollback_rules adds_only_save_or)
  show "valid (\<lambda>s. selection_guarded s \<and> op_state (es_record s) = NeedsRecovery \<and> snapshot_number (es_record s) = Some (fst x))
     (case x of (number, source) \<Rightarrow>
     pthen (pupd (\<lambda>s. s\<lparr>es_record := rollback_intent time number source (es_record s)\<rparr>)) (
     pthen (save_or env) (
     ptry (finish_rollback env view number) (\<lambda>result. case result of
        Inr _ \<Rightarrow> pret ()
      | Inl e \<Rightarrow> pthen (pupd (\<lambda>s. s\<lparr>es_record := rollback_failed e (es_record s)\<rparr>)) (
          pthen (save_or env) (pfail e)))))) (\<lambda>_. selection_guarded) (\<lambda>_. selection_guarded)"
    unfolding x prod.case fst_conv
    by (subst pthen_assoc, rule valid_pthen [OF intent_step selection_rest [OF rest]])
qed

lemma run_keeps_record: "run_observed env p args s = (Inr out, t) \<Longrightarrow> es_record t = es_record s"
  by (auto simp: run_observed_def result_simps emit_def pupd_def pret_def with_history_def Let_def)

lemma finish_Inr:
  assumes "finish_rollback env view number s = (Inr u, t)"
  shows "\<exists>g boot h n. recovery (es_record s) = Some g \<and>
    es_record t = (es_record s)\<lparr>recovery := Some (g\<lparr>boot_snapshot := Some boot\<rparr>), op_state := AwaitingReboot,
      op_sequence := sat_add (op_sequence (es_record s)) 1, error_code := None, last_completed_step := Some ''rollback-scheduled''\<rparr> \<and>
    stored t \<and> inspect_subvolume (sn_btrfs view h) (snapshot_path n) = Inr boot \<and>
    (\<exists>h'. check_new_root (sn_btrfs view h) (sn_release view h') g (op_source (es_record s)) n boot = Inr ())"
proof -
  from assms obtain out s1 n btrfs s2 boot g release s3 where
    run: "run_observed env ''snapper'' (rollback_arguments number) s = (Inr out, s1)"
    and b: "observe env (sn_btrfs view) s1 = (Inr btrfs, s2)" and i: "inspect_subvolume btrfs (snapshot_path n) = Inr boot"
    and g: "recovery (es_record s2) = Some g" and r: "observe env (sn_release view) s2 = (Inr release, s3)"
    and c: "check_new_root btrfs release g (op_source (es_record s2)) n boot = Inr ()"
    and sv: "save_or env (s3\<lparr>es_record := (es_record s3)\<lparr>recovery := Some (g\<lparr>boot_snapshot := Some boot\<rparr>),
       op_state := AwaitingReboot, op_sequence := sat_add (op_sequence (es_record s2)) 1, error_code := None,
       last_completed_step := Some ''rollback-scheduled''\<rparr>\<rparr>) = (Inr u, t)"
    unfolding finish_rollback_def
    by (simp only: prog_Inr ok_or_Inr_iff) blast
  have e: "es_record s1 = es_record s" "es_record s2 = es_record s" "es_record s3 = es_record s"
    using run_keeps_record [OF run] observe_keeps [OF b] observe_keeps [OF r] by simp_all
  have h: "btrfs = sn_btrfs view (es_trace s2)" "release = sn_release view (es_trace s3)"
    using observe_Inr [OF b] observe_Inr [OF r] by simp_all
  show ?thesis
    using i c g e save_or_stored [OF sv] unfolding h
    by (intro exI [of _ g] exI [of _ boot] exI [of _ "es_trace s2"] exI [of _ n]) auto
qed

section \<open>Failed attempts\<close>

lemma valid_ex: "(\<And>d. valid (P d) m Q E) \<Longrightarrow> valid (\<lambda>s. \<exists>d. P d s) m Q E"
  unfolding valid_def by (intro allI impI) (elim exE, simp)

definition recovering :: "operation_state_record option \<Rightarrow> bool" where
  "recovering d = (\<exists>r. d = Some r \<and> op_state r = NeedsRecovery \<and> recovery r \<noteq> None)"

context reliable_store
begin

lemma observe_result: "observe env f s = (Inr (f (es_trace s)), s)"
  by (simp add: observe_def pmap_err_def history_result)

lemma observe_maintains: "maintains I (observe env f)"
  by (simp add: maintains_def valid_def observe_result)

lemma disk_kept:
  "maintains (\<lambda>s. R (es_disk s) (es_record s)) (pmap_err g (run_observed env p args))"
  "maintains (\<lambda>s. R (es_disk s) (es_record s)) (pmap_err g (acquire_lock env))"
  "maintains (\<lambda>s. es_disk s = D) (reload env)"
  "maintains (\<lambda>s. R (es_disk s) (es_record s)) (rollback_source env view root)"
proof -
  have 0: "maintains (\<lambda>s. R (es_disk s) (es_record s)) (with_history env f)" for f :: "history \<Rightarrow> 'x"
    by (simp add: maintains_def valid_def history_result)
  show "maintains (\<lambda>s. R (es_disk s) (es_record s)) (pmap_err g (run_observed env p args))"
    unfolding run_observed_def emit_def by (intro maintains_pmap_err maintains_intros 0 maintains_pupd) simp_all
  show "maintains (\<lambda>s. R (es_disk s) (es_record s)) (pmap_err g (acquire_lock env))"
    unfolding acquire_lock_def
    by (intro maintains_pmap_err maintains_intros 0) (auto split: lock_outcome.splits)
  show "maintains (\<lambda>s. es_disk s = D) (reload env)"
    unfolding reload_def
    by (intro maintains_intros observe_maintains)
      (auto split: option.splits intro!: maintains_intros maintains_pupd)
  show "maintains (\<lambda>s. R (es_disk s) (es_record s)) (rollback_source env view root)"
    unfolding rollback_source_def by (intro maintains_intros observe_maintains) simp_all
qed

lemma finish_fails:
  "valid (\<lambda>s. es_disk s = D \<and> recovery (es_record s) \<noteq> None) (finish_rollback env view number) (\<lambda>_ _. True)
     (\<lambda>_ s. es_disk s = D \<and> recovery (es_record s) \<noteq> None)"
proof -
  let ?I = "\<lambda>s. es_disk s = D \<and> recovery (es_record s) \<noteq> None"
  note kept = observe_maintains [of ?I, unfolded maintains_def]
    disk_kept(1) [where R = "\<lambda>d r. d = D \<and> recovery r \<noteq> None", unfolded maintains_def]
  have lift: "valid ?I (plift r) (\<lambda>_. ?I) (\<lambda>_. ?I)" for r :: "string + 'x" by (rule valid_plift)
  have last: "valid ?I (save_or env) (\<lambda>_ _. True) (\<lambda>_. ?I)"
    unfolding valid_def save_or_def
    by (auto simp: pmap_err_def split: prod.splits sum.splits dest: save_cases save_keeps_record)
  show ?thesis
    unfolding finish_rollback_def
    by (intro valid_pbind [OF kept(2)] valid_pbind [OF kept(1)] valid_pbind [OF lift] valid_pthen [OF lift]
        valid_pbind [where R = "\<lambda>_. ?I" and m = "pget es_record"] valid_pget valid_pthen [OF valid_pupd last]) simp_all
qed

lemma recovery_step:
  "valid (\<lambda>s. es_disk s = Some d \<and> op_state d = NeedsRecovery \<and> recovery d \<noteq> None \<and> recovery (es_record s) \<noteq> None)
     (ptry (finish_rollback env view number) (\<lambda>result. case result of
        Inr _ \<Rightarrow> pret ()
      | Inl e \<Rightarrow> pthen (pupd (\<lambda>s. s\<lparr>es_record := rollback_failed e (es_record s)\<rparr>)) (
          pthen (save_or env) (pfail e))))
     (\<lambda>_ _. True) (\<lambda>_ s. \<exists>d. es_disk s = Some d \<and> op_state d = NeedsRecovery \<and> recovery d \<noteq> None)"
proof (rule validI)
  fix s :: exec_state
  let ?last = "\<lambda>e. pthen (pupd (\<lambda>s. s\<lparr>es_record := rollback_failed e (es_record s)\<rparr>)) (pthen (save_or env) (pfail e))"
  assume s: "es_disk s = Some d \<and> op_state d = NeedsRecovery \<and> recovery d \<noteq> None \<and> recovery (es_record s) \<noteq> None"
  obtain r t where f: "finish_rollback env view number s = (r, t)" by fastforce
  show "case ptry (finish_rollback env view number) (\<lambda>result. case result of Inr _ \<Rightarrow> pret () | Inl e \<Rightarrow> ?last e) s of
      (Inl e, t) \<Rightarrow> \<exists>d. es_disk t = Some d \<and> op_state d = NeedsRecovery \<and> recovery d \<noteq> None
    | (Inr a, t) \<Rightarrow> True"
  proof (cases r)
    case (Inl e)
    with f finish_fails s have t: "es_disk t = Some d" "recovery (es_record t) \<noteq> None"
      using valid_Inl [OF finish_fails [of "Some d"], of s view number e t] by auto
    obtain r' t' where l: "save env (t\<lparr>es_record := rollback_failed e (es_record t)\<rparr>) = (r', t')" by fastforce
    from save_cases [OF l] s t have "\<exists>d. es_disk t' = Some d \<and> op_state d = NeedsRecovery \<and> recovery d \<noteq> None"
      by (auto simp: rollback_failed_def)
    with f Inl l show ?thesis
      by (cases r') (auto simp: ptry_def pthen_def pbind_def pupd_def save_or_def pmap_err_def pfail_def)
  next
    case (Inr u)
    with f show ?thesis by (simp add: ptry_def pret_def)
  qed
qed

lemma intent_fails:
  "valid (\<lambda>s. es_disk s = D \<and> op_state (es_record s) = NeedsRecovery)
     (pthen (pupd (\<lambda>s. s\<lparr>es_record := rollback_intent time number source (es_record s)\<rparr>)) (save_or env))
     (\<lambda>_ s. recovering (es_disk s) \<and> recovery (es_record s) \<noteq> None) (\<lambda>_ s. es_disk s = D)"
proof (rule validI)
  fix s :: exec_state
  let ?s = "s\<lparr>es_record := rollback_intent time number source (es_record s)\<rparr>"
  assume s: "es_disk s = D \<and> op_state (es_record s) = NeedsRecovery"
  obtain r t where l: "save env ?s = (r, t)" by fastforce
  from save_cases [OF l] save_keeps_record [OF l] s l
  show "case pthen (pupd (\<lambda>s. s\<lparr>es_record := rollback_intent time number source (es_record s)\<rparr>)) (save_or env) s of
      (Inl e, t) \<Rightarrow> es_disk t = D | (Inr a, t) \<Rightarrow> recovering (es_disk t) \<and> recovery (es_record t) \<noteq> None"
    by (cases r) (auto simp: pthen_def pbind_def pupd_def save_or_def pmap_err_def recovering_def rollback_intent_def)
qed

lemma source_fails:
  "valid (\<lambda>s. es_disk s = D) (rollback_source env view root)
     (\<lambda>_ s. es_disk s = D \<and> op_state (es_record s) = NeedsRecovery) (\<lambda>_ s. es_disk s = D)"
proof (rule validI)
  fix s :: exec_state
  assume s: "es_disk s = D"
  obtain r t where run: "rollback_source env view root s = (r, t)" by fastforce
  from maintainsD [OF disk_kept(4) [where R = "\<lambda>d _. d = D"] s run] source_Inr [of env view root s _ t] run
  show "case rollback_source env view root s of (Inl e, t) \<Rightarrow> es_disk t = D
    | (Inr a, t) \<Rightarrow> es_disk t = D \<and> op_state (es_record t) = NeedsRecovery" by (cases r) auto
qed

lemma schedule_fails:
  "valid (\<lambda>s. es_disk s = D) (schedule_rollback env view root time) (\<lambda>_ _. True) (\<lambda>_ s. es_disk s = D \<or> recovering (es_disk s))"
proof -
  let ?E = "\<lambda>(_ :: string) s. es_disk s = D \<or> recovering (es_disk s)"
  have weaken: "valid P m Q ?E" if "valid P m Q (\<lambda>_ s. es_disk s = D)" for P and m :: "'x rolling" and Q
    using that by (rule valid_conseq) auto
  have last: "valid (\<lambda>s. recovering (es_disk s) \<and> recovery (es_record s) \<noteq> None)
     (ptry (finish_rollback env view number) (\<lambda>result. case result of
        Inr _ \<Rightarrow> pret ()
      | Inl e \<Rightarrow> pthen (pupd (\<lambda>s. s\<lparr>es_record := rollback_failed e (es_record s)\<rparr>)) (
          pthen (save_or env) (pfail e)))) (\<lambda>_ _. True) ?E" for number
    by (rule valid_conseq [OF valid_ex [OF recovery_step]]) (auto simp: recovering_def)
  show ?thesis
    unfolding schedule_rollback_def
    apply (rule valid_pthen [OF weaken [OF disk_kept(2) [where R = "\<lambda>d _. d = D", unfolded maintains_def]]])
    apply (rule valid_pthen [OF weaken [OF disk_kept(3) [unfolded maintains_def]]])
    apply (rule valid_pbind [OF weaken [OF source_fails]])
    apply (case_tac a, simp only: prod.case)
    apply (subst pthen_assoc, rule valid_pthen [OF weaken [OF intent_fails] last])
    done
qed

end

section \<open>Properties\<close>

text \<open>
  C7: The selected boot root is never changed without a durable intent: every rollback command is preceded
  by a saved record in need of recovery that names the snapshot and does not yet name a new root.
\<close>

theorem rollback_follows_intent:
  assumes "es_trace s = []" and "es_trace (snd (schedule_rollback env view root time s)) = later @ e # earlier" and "rolls_back e"
  shows "\<exists>r g. Saved r \<in> set earlier \<and> recovery r = Some g \<and> op_state r = NeedsRecovery \<and>
     boot_snapshot g = None \<and> snapshot_number r = Some (source_snapshot_number g)"
proof -
  obtain r t where run: "schedule_rollback env view root time s = (r, t)" by fastforce
  have "selection_guarded t" by (rule maintainsD [OF schedule_guarded _ run]) (simp add: assms(1))
  then have "intent_saved earlier" using assms(2,3) run by (auto dest: guardedD)
  then show ?thesis by (simp add: intent_saved_def)
qed

definition example_snapshots :: snapshots_view where
  "example_snapshots = \<lparr>sn_release = (\<lambda>_ _. Some example_release), sn_text = (\<lambda>_ _. Some (''1'' @ [CHR 0x0A])),
     sn_btrfs = (\<lambda>_ args p. if args = [''inspect-internal'', ''rootid''] then Some (if p = ''/'' then ''256'' else ''257'')
       else example_btrfs args (if p = snapshot_path 5 then ''/'' else p))\<rparr>"

definition rollback_surroundings :: surroundings where
  "rollback_surroundings = example_surroundings\<lparr>on_run := (\<lambda>_ _ _. (Some 0, ''5''))\<rparr>"

definition rollback_record :: operation_state_record where
  "rollback_record = example_record\<lparr>op_state := NeedsRecovery, snapshot_number := Some 4\<rparr>"

definition rollback_start :: exec_state where
  "rollback_start = \<lparr>es_record = rollback_record, es_disk = Some rollback_record, es_trace = []\<rparr>"

definition rollback_result :: exec_state where
  "rollback_result = snd (schedule_rollback rollback_surroundings example_snapshots ''/var'' ''2027'' rollback_start)"

lemmas rollback_run = step_run observe_def [THEN fun_cong] save_or_def [THEN fun_cong] reload_def [THEN fun_cong]
  finish_rollback_def [THEN fun_cong] rollback_source_def [THEN fun_cong] schedule_rollback_def [THEN fun_cong]

lemma rollback_fields:
  "on_lock rollback_surroundings h = LockAcquired" "on_save rollback_surroundings h = SaveOk" "on_load rollback_surroundings h"
  "on_run rollback_surroundings h q args = (Some 0, ''5'')" "interfere rollback_surroundings s = s"
  by (auto simp: rollback_surroundings_def example_surroundings_def interfere_def split: option.splits)

definition rollback_prepared :: operation_state_record where
  "rollback_prepared = rollback_intent ''2027'' 4 (source_snapshot example_goal) rollback_record"

definition rollback_scheduled :: operation_state_record where
  "rollback_scheduled = rollback_prepared\<lparr>recovery := Some example_goal, op_state := AwaitingReboot,
     op_sequence := sat_add (op_sequence rollback_prepared) 1, error_code := None, last_completed_step := Some ''rollback-scheduled''\<rparr>"

lemma rollback_probes:
  "containing_subvolume_id (sn_btrfs example_snapshots h) ''/var'' = Inr 257"
  "containing_subvolume_id (sn_btrfs example_snapshots h) ''/'' = Inr 256"
  "inspect_subvolume (sn_btrfs example_snapshots h) (snapshot_path 4) = Inr (source_snapshot example_goal)"
  "inspect_subvolume (sn_btrfs example_snapshots h) (snapshot_path 5) = Inr (the (boot_snapshot example_goal))"
  "default_subvolume_id (sn_btrfs example_snapshots h) = Inr 301"
  "rolled_number (Some 0, ''5'') = Inr 5"
  "check_record rollback_record = Inr ()" "check_record rollback_prepared = Inr ()" "check_record rollback_scheduled = Inr ()"
  by code_simp+

lemma rollback_record_fields:
  "op_state rollback_record = NeedsRecovery" "snapshot_number rollback_record = Some 4" "recovery rollback_record = None"
  "op_source rollback_record = example_release" "sn_release example_snapshots h q = Some example_release"
  "sn_text example_snapshots h q = Some (''1'' @ [CHR 0x0A])"
  by (simp_all add: rollback_record_def example_record_def example_snapshots_def)

lemma rollback_source_run:
  "rollback_source rollback_surroundings example_snapshots ''/var'' rollback_start =
     (Inr (4, source_snapshot example_goal), rollback_start)"
  by (simp add: rollback_run rollback_fields rollback_probes rollback_start_def Let_def rollback_record_fields ok_or_def
      is_some_and_def)

definition rollback_ready :: exec_state where
  "rollback_ready = \<lparr>es_record = rollback_prepared, es_disk = Some rollback_prepared, es_trace = [Saved rollback_prepared]\<rparr>"

lemma rollback_prepared_fields:
  "recovery rollback_prepared = Some (example_goal\<lparr>boot_snapshot := None\<rparr>)" "op_source rollback_prepared = example_release"
  "rollback_prepared\<lparr>recovery := Some (example_goal\<lparr>boot_snapshot := Some (the (boot_snapshot example_goal))\<rparr>), op_state := AwaitingReboot,
     op_sequence := sat_add (op_sequence rollback_prepared) 1, error_code := None, last_completed_step := Some ''rollback-scheduled''\<rparr>
   = rollback_scheduled"
  by (simp_all add: rollback_prepared_def rollback_intent_def rollback_record_fields example_goal_def rollback_scheduled_def)

lemma rollback_new_root:
  "check_new_root (sn_btrfs example_snapshots h) (sn_release example_snapshots h') (example_goal\<lparr>boot_snapshot := None\<rparr>) example_release 5
     (the (boot_snapshot example_goal)) = Inr ()"
  by (simp add: check_new_root_def rollback_probes rbind_def rollback_record_fields ok_or_def) (simp add: example_goal_def)

lemma rollback_finish_run:
  "finish_rollback rollback_surroundings example_snapshots 4 rollback_ready =
     (Inr (), \<lparr>es_record = rollback_scheduled, es_disk = Some rollback_scheduled,
        es_trace = [Saved rollback_scheduled, Ran ''snapper'' (rollback_arguments 4), Saved rollback_prepared]\<rparr>)"
  by (simp add: rollback_run rollback_fields rollback_probes rollback_ready_def Let_def rollback_prepared_fields ok_or_def
      rollback_new_root)

lemma rollback_schedule_run:
  "schedule_rollback rollback_surroundings example_snapshots ''/var'' ''2027'' rollback_start =
     (Inr (), \<lparr>es_record = rollback_scheduled, es_disk = Some rollback_scheduled,
        es_trace = [Saved rollback_scheduled, Ran ''snapper'' (rollback_arguments 4), Saved rollback_prepared]\<rparr>)"
proof -
  have "pthen (pmap_err (\<lambda>_. ''TRANSACTION_BUSY'') (acquire_lock rollback_surroundings)) (pthen (reload rollback_surroundings) k) rollback_start
    = k rollback_start" for k :: "unit rolling"
    by (simp add: rollback_run rollback_fields rollback_probes rollback_start_def Let_def)
  moreover have "save_or rollback_surroundings (rollback_start\<lparr>es_record := rollback_prepared\<rparr>) = (Inr (), rollback_ready)"
    by (simp add: rollback_run rollback_fields rollback_probes rollback_start_def Let_def rollback_ready_def)
  moreover have "rollback_intent ''2027'' 4 (source_snapshot example_goal) (es_record rollback_start) = rollback_prepared"
    by (simp add: rollback_start_def rollback_prepared_def)
  ultimately show ?thesis
    unfolding schedule_rollback_def
    by (simp add: pbind_def rollback_source_run) (simp add: pthen_def pbind_def pupd_def ptry_def rollback_finish_run pret_def)
qed

theorem rollback_follows_intent_witness:
  "rolls_back (Ran ''snapper'' (rollback_arguments 4)) \<and>
   (\<exists>r g. Saved r \<in> {Saved rollback_prepared} \<and> recovery r = Some g \<and> op_state r = NeedsRecovery \<and> boot_snapshot g = None)"
proof -
  have b: "rolls_back (Ran ''snapper'' (rollback_arguments 4))" by (simp add: rolls_back_def rollback_arguments_def)
  have e: "es_trace rollback_start = []" by (simp add: rollback_start_def)
  have t: "es_trace (snd (schedule_rollback rollback_surroundings example_snapshots ''/var'' ''2027'' rollback_start)) =
    [Saved rollback_scheduled] @ Ran ''snapper'' (rollback_arguments 4) # [Saved rollback_prepared]"
    by (simp add: rollback_schedule_run)
  from rollback_follows_intent [OF e t b] b show ?thesis by auto
qed

text \<open>
  C6: A rollback that is reported as scheduled leads back: the record on disk awaits a reboot into a
  subvolume that was inspected, is the default, is a clone of the recorded snapshot and holds the release the
  operation started from.
\<close>

theorem scheduled_rollback_leads_back:
  assumes "schedule_rollback env view root time s = (Inr u, t)"
  shows "\<exists>r g boot n h h'. es_disk t = Some r \<and> op_state r = AwaitingReboot \<and> recovery r = Some g \<and>
    boot_snapshot g = Some boot \<and> sv_parent_uuid boot = Some (sv_uuid (source_snapshot g)) \<and>
    snapshot_number r = Some (source_snapshot_number g) \<and> goal_valid g (snapshot_number r) \<and>
    inspect_subvolume (sn_btrfs view h) (snapshot_path n) = Inr boot \<and>
    default_subvolume_id (sn_btrfs view h) = Inr (sv_id boot) \<and> sn_release view h' (snapshot_path n) = Some (op_source r)"
proof -
  from assms obtain s1 x s2 s3 where src: "rollback_source env view root s1 = (Inr x, s2)"
    and sv: "save_or env (s2\<lparr>es_record := rollback_intent time (fst x) (snd x) (es_record s2)\<rparr>) = (Inr (), s3)"
    and rest: "ptry (finish_rollback env view (fst x)) (\<lambda>result. case result of
        Inr _ \<Rightarrow> pret ()
      | Inl e \<Rightarrow> pthen (pupd (\<lambda>s. s\<lparr>es_record := rollback_failed e (es_record s)\<rparr>)) (
          pthen (save_or env) (pfail e))) s3 = (Inr u, t)"
    unfolding schedule_rollback_def
    by (clarsimp simp: pbind_Inr_iff pthen_Inr_iff pmap_err_Inr_iff pupd_def split: prod.splits)
  obtain r' t' where f: "finish_rollback env view (fst x) s3 = (r', t')" by fastforce
  with rest have fin: "finish_rollback env view (fst x) s3 = (Inr (), t)"
    by (cases r') (auto simp: ptry_def prog_Inr)
  have r3: "es_record s3 = rollback_intent time (fst x) (snd x) (es_record s2)" using save_or_stored [OF sv] by simp
  from finish_Inr [OF fin] obtain g boot h n h' where g: "recovery (es_record s3) = Some g"
    and t: "es_record t = (es_record s3)\<lparr>recovery := Some (g\<lparr>boot_snapshot := Some boot\<rparr>), op_state := AwaitingReboot,
      op_sequence := sat_add (op_sequence (es_record s3)) 1, error_code := None, last_completed_step := Some ''rollback-scheduled''\<rparr>"
    and st: "stored t" and i: "inspect_subvolume (sn_btrfs view h) (snapshot_path n) = Inr boot"
    and c: "check_new_root (sn_btrfs view h) (sn_release view h') g (op_source (es_record s3)) n boot = Inr ()" by blast
  have valid: "goal_valid (g\<lparr>boot_snapshot := Some boot\<rparr>) (snapshot_number (es_record t))"
    using st t by (auto simp: stored_def check_record_iff validate_state_def split: if_splits)
  then show ?thesis
    using st t g i c r3
    by (intro exI [of _ "es_record t"] exI [of _ "g\<lparr>boot_snapshot := Some boot\<rparr>"] exI [of _ boot] exI [of _ n] exI [of _ h] exI [of _ h'])
      (auto simp: stored_def check_new_root_def rbind_Inr_iff ok_or_Inr_iff goal_valid_def split: if_splits)
qed

theorem scheduled_rollback_leads_back_witness:
  "\<exists>t r g. schedule_rollback rollback_surroundings example_snapshots ''/var'' ''2027'' rollback_start = (Inr (), t) \<and>
     es_disk t = Some r \<and> op_state r = AwaitingReboot \<and> recovery r = Some g \<and> boot_snapshot g \<noteq> None"
  using rollback_schedule_run scheduled_rollback_leads_back [OF rollback_schedule_run] by fastforce


definition refusing_surroundings :: surroundings where
  "refusing_surroundings = example_surroundings\<lparr>on_lock := (\<lambda>_. LockHeld)\<rparr>"


text \<open>
  A rollback is never repeated blindly: while the record on disk has an intent without a new root, an
  attempt runs no rollback command, fails and leaves that record as it is.
\<close>

theorem incomplete_intent_is_not_repeated:
  assumes "es_trace s = []" and "es_disk s = Some r" and "op_state r = NeedsRecovery" and "recovery r = Some g" and "boot_snapshot g = None"
  shows "(\<forall>e \<in> set (es_trace (snd (schedule_rollback env view root time s))). \<not> rolls_back e) \<and>
    \<not> is_ok (fst (schedule_rollback env view root time s)) \<and> es_disk (snd (schedule_rollback env view root time s)) = Some r"
proof -
  have still: "interfere env (s\<lparr>es_record := x\<rparr>) = s\<lparr>es_record := x\<rparr>" "interfere env s = s" for x
    using assms(2,3) by (simp_all add: interfere_def is_cancelable_def)
  show ?thesis
    using assms
    by (auto simp: schedule_rollback_def rollback_run Let_def still is_some_and_def rolls_back_def
        split: lock_outcome.splits sum.splits if_splits)
qed

theorem incomplete_intent_is_not_repeated_witness:
  "es_disk (snd (schedule_rollback rollback_surroundings example_snapshots ''/var'' ''2027'' (rollback_ready\<lparr>es_trace := []\<rparr>))) =
     Some rollback_prepared"
proof -
  have "op_state rollback_prepared = NeedsRecovery"
    by (simp add: rollback_prepared_def rollback_intent_def rollback_record_fields)
  then show ?thesis
    using incomplete_intent_is_not_repeated [of "rollback_ready\<lparr>es_trace := []\<rparr>" rollback_prepared]
    by (simp add: rollback_ready_def rollback_prepared_fields)
qed

end
