(* ===== verification/Offline.thy ===== *)
theory Offline
  imports Execution
begin

text \<open>
  The offline executor: \<open>offline/src/request.rs\<close>, which decides whether the marker \<open>/system-update\<close> belongs to
  a Lyra operation, and \<open>offline/src/main.rs\<close>, which applies a staged upgrade during the boot, records the
  result and removes the marker. State and effects are those of the theory Executor. What the program reads of the
  file system (the marker, the staged files) is the record \<open>offline_view\<close>, whose answers depend on the history
  of effects; the package manager, snapper, the clock and the RPM database are the surroundings.
\<close>

section \<open>Requests\<close>

datatype request_error =
    MarkerUnreadable io_error | NotDirectlyBelow | RootUnresolved io_error | OperationUnresolved io_error
  | OutsideDirectory | NotADirectory | MarkerMoved | MarkerNotRemoved

definition read_link :: "fs \<Rightarrow> path \<Rightarrow> io_error + bool \<times> path" where
  "read_link fs p = rbind (node_at fs p) (\<lambda>n. ok_or (link_of (Some n)) EINVAL)"

text \<open>
  The components of a path with \<open>..\<close> removed lexically; \<open>pop\<close> does nothing at the root. The iterator over the
  components of an absolute path leaves out \<open>.\<close>, for \<open>starts_with\<close> too.
\<close>

fun normalize_onto :: "path \<Rightarrow> path \<Rightarrow> path" where
  "normalize_onto acc [] = acc"
| "normalize_onto acc (c # cs) = normalize_onto (if c = ''..'' then butlast acc else if c = ''.'' then acc else acc @ [c]) cs"

definition resolve_request :: "fs \<Rightarrow> path \<Rightarrow> path \<Rightarrow> request_error + path option" where
  "resolve_request fs marker root = (case read_link fs marker of
      Inl e \<Rightarrow> if e = ENOENT then Inr None else Inl (MarkerUnreadable e)
    | Inr (absolute, target) \<Rightarrow>
        let whole = filter (\<lambda>c. c \<noteq> ''.'') (if absolute then target else butlast marker @ target);
            normalized = normalize_onto [] whole in
        if \<not> prefix root whole \<and> \<not> prefix root normalized then Inr None
        else if normalized = [] \<or> butlast normalized \<noteq> root then Inl NotDirectlyBelow
        else rbind (map_err RootUnresolved (resolve fs root)) (\<lambda>canonical_root.
          rbind (map_err OperationUnresolved (resolve fs normalized)) (\<lambda>directory.
            if directory = [] \<or> butlast directory \<noteq> canonical_root \<or> directory \<noteq> canonical_root @ [last normalized]
            then Inl OutsideDirectory
            else if \<not> is_dir (fs directory) then Inl NotADirectory
            else Inr (Some directory))))"

definition require_current_in :: "fs \<Rightarrow> path \<Rightarrow> path \<Rightarrow> path \<Rightarrow> request_error + unit" where
  "require_current_in fs marker root dir =
     rbind (resolve_request fs marker root) (\<lambda>found. ensure (found = Some dir) MarkerMoved)"

definition STATE_ROOT :: path where
  "STATE_ROOT = [''var'', ''lib'', ''lyra-upgrade'', ''operations'']"

definition MARKER :: path where
  "MARKER = [''system-update'']"

definition show_path :: "path \<Rightarrow> string" where
  "show_path p = concat (map (\<lambda>c. ''/'' @ c) p)"

section \<open>The live repository set\<close>

text \<open>
  \<open>install_repository_set\<close>: the three directories of \<open>/etc/zypp\<close> it works on, each absent or holding named
  files. Every system call can fail, as the list of answers decides in the order of the calls; a write that
  breaks leaves some of the bytes.
\<close>

type_synonym repo_files = "(string \<times> string) list"

datatype answer = Works | Breaks nat

record repo_dirs =
  rd_live :: "repo_files option"
  rd_staging :: "repo_files option"
  rd_backup :: "repo_files option"
  rd_answers :: "answer list"

type_synonym 'a installing = "(repo_dirs, unit, 'a) prog"

definition rd_call :: "(nat \<Rightarrow> repo_dirs \<Rightarrow> repo_dirs) \<Rightarrow> (repo_dirs \<Rightarrow> repo_dirs option) \<Rightarrow> unit installing" where
  "rd_call broken op = (\<lambda>s. case rd_answers s of
      Breaks n # rest \<Rightarrow> (Inl (), broken n (s\<lparr>rd_answers := rest\<rparr>))
    | answers \<Rightarrow> (case op (s\<lparr>rd_answers := tl answers\<rparr>) of None \<Rightarrow> (Inl (), s\<lparr>rd_answers := tl answers\<rparr>) | Some t \<Rightarrow> (Inr (), t)))"

definition repo_content :: "string \<Rightarrow> repository_transition \<Rightarrow> string" where
  "repo_content oid r = ''['' @ rt_alias r @ '']'' @ [CHR 0x0A] @ ''name='' @ rt_alias r @ [CHR 0x0A] @ ''enabled=1'' @ [CHR 0x0A] @
     ''autorefresh=1'' @ [CHR 0x0A] @ ''keeppackages=0'' @ [CHR 0x0A] @ ''baseurl='' @ rt_base_url r @ [CHR 0x0A] @
     ''gpgkey=file:///var/lib/lyra-upgrade/operations/'' @ oid @ ''/keys/'' @ rt_alias r @ ''.asc'' @ [CHR 0x0A] @
     ''type=rpm-md'' @ [CHR 0x0A] @ ''gpgcheck=1'' @ [CHR 0x0A] @ ''priority='' @ show_nat (unat (rt_priority r)) @ [CHR 0x0A]"

definition repo_name :: "repository_transition \<Rightarrow> string" where
  "repo_name r = rt_alias r @ ''.repo''"

text \<open>The file is opened with \<open>create_new\<close>, so a second file of the same name is an error.\<close>

definition write_repo :: "string \<Rightarrow> repository_transition \<Rightarrow> unit installing" where
  "write_repo oid r =
     pthen (rd_call (\<lambda>_ s. s) (\<lambda>s. case rd_staging s of None \<Rightarrow> None | Some files \<Rightarrow>
        if repo_name r \<in> fst ` set files then None else Some (s\<lparr>rd_staging := Some (files @ [(repo_name r, [])])\<rparr>))) (
     rd_call (\<lambda>n s. s\<lparr>rd_staging := map_option (\<lambda>files. butlast files @ [(repo_name r, take n (repo_content oid r))]) (rd_staging s)\<rparr>)
       (\<lambda>s. Some (s\<lparr>rd_staging := map_option (\<lambda>files. butlast files @ [(repo_name r, repo_content oid r)]) (rd_staging s)\<rparr>)))"

definition rename_live_away :: "unit installing" where
  "rename_live_away = rd_call (\<lambda>_ s. s) (\<lambda>s. case rd_live s of None \<Rightarrow> None
     | Some files \<Rightarrow> Some (s\<lparr>rd_live := None, rd_backup := Some files\<rparr>))"

definition rename_staging_in :: "unit installing" where
  "rename_staging_in = rd_call (\<lambda>_ s. s) (\<lambda>s. case rd_staging s of None \<Rightarrow> None
     | Some files \<Rightarrow> Some (s\<lparr>rd_live := Some files, rd_staging := None\<rparr>))"

definition rename_backup_back :: "unit installing" where
  "rename_backup_back = rd_call (\<lambda>_ s. s) (\<lambda>s. case rd_backup s of None \<Rightarrow> None
     | Some files \<Rightarrow> Some (s\<lparr>rd_live := Some files, rd_backup := None\<rparr>))"

definition install_repository_set :: "release_manifest \<Rightarrow> string \<Rightarrow> unit installing" where
  "install_repository_set m oid =
     pbind (pget (\<lambda>s. rd_staging s \<noteq> None \<or> rd_backup s \<noteq> None)) (\<lambda>exists.
     pthen (pguard (\<not> exists) ()) (
     pthen (rd_call (\<lambda>_ s. s) (\<lambda>s. Some (s\<lparr>rd_staging := Some []\<rparr>))) (
     pthen (rd_call (\<lambda>_ s. s) Some) (
     pthen (peach (write_repo oid) (mf_repositories m)) (
     pthen rename_live_away (
     ptry rename_staging_in (\<lambda>r. case r of
        Inr _ \<Rightarrow> pret ()
      | Inl _ \<Rightarrow> ptry rename_backup_back (\<lambda>_. pfail ()))))))))"

section \<open>Applying a staged upgrade\<close>

datatype offline_error =
    OffRequest request_error | OffLoad | OffNotReady | OffTransition | OffManifest | OffPlan | OffPlanMismatch
  | OffManifestMismatch | OffAuthentication | OffManifestDiffers | OffPersist | OffRevalidation | OffArguments
  | OffSpawn | OffPayload | OffZypper | OffRepositories | OffDracut | OffGrub | OffInventory | OffReboot

type_synonym 'a off = "(exec_state, offline_error, 'a) prog"

record offline_view =
  of_fs :: "history \<Rightarrow> fs"
  of_manifest :: "history \<Rightarrow> release_manifest option"
  of_plan :: "history \<Rightarrow> upgrade_plan option"
  of_signed :: "history \<Rightarrow> release_manifest option"
  of_dirs :: "history \<Rightarrow> repo_dirs"
  of_unlink :: "history \<Rightarrow> bool"

definition look :: "surroundings \<Rightarrow> (history \<Rightarrow> 'a) \<Rightarrow> 'a off" where
  "look env f = pmap_err (\<lambda>_. OffLoad) (with_history env f)"

definition require_current :: "surroundings \<Rightarrow> offline_view \<Rightarrow> path \<Rightarrow> unit off" where
  "require_current env view dir = pbind (look env (of_fs view)) (\<lambda>fs.
     plift (map_err OffRequest (require_current_in fs MARKER STATE_ROOT dir)))"

definition remove_current :: "surroundings \<Rightarrow> offline_view \<Rightarrow> path \<Rightarrow> unit off" where
  "remove_current env view dir = pthen (require_current env view dir) (
     pbind (look env (of_unlink view)) (\<lambda>ok.
       if ok then pmap_err (\<lambda>_. OffLoad) (emit UnlinkedMarker) else pfail (OffRequest MarkerNotRemoved)))"

definition load_operation :: "surroundings \<Rightarrow> string \<Rightarrow> unit off" where
  "load_operation env oid = pbind (look env (on_load env)) (\<lambda>readable. pbind (pget es_disk) (\<lambda>d. case d of
      Some r \<Rightarrow> if readable \<and> check_record r = Inr () \<and> operation_id r = oid
                then pupd (\<lambda>s. s\<lparr>es_record := r\<rparr>) else pfail OffLoad
    | None \<Rightarrow> pfail OffLoad))"

definition prepare_offline_state :: "unit off" where
  "prepare_offline_state = pbind (pget es_record) (\<lambda>r.
     if op_state r \<noteq> ReadyToReboot \<or> snapshot_number r = None then pfail OffNotReady
     else pmap_err (\<lambda>_. OffTransition) (transition ApplyingOffline))"

definition release_command :: "surroundings \<Rightarrow> string \<Rightarrow> string list \<Rightarrow> command_output off" where
  "release_command env dir args = pmap_err (\<lambda>_. OffSpawn) (run_observed env ''zypper''
     (context_arguments dir @ [''--xmlout'', ''--non-interactive'', ''--no-refresh''] @ args))"

definition revalidate_plan ::
  "surroundings \<Rightarrow> plan_digest \<Rightarrow> manifest_digest \<Rightarrow> string \<Rightarrow> release_manifest \<Rightarrow> upgrade_plan \<Rightarrow> string \<Rightarrow> unit off" where
  "revalidate_plan env sha msha dir m confirmed expected_hash =
     pthen (plift (map_err (\<lambda>_. OffRevalidation) (check_confirmed_release_plan sha msha m confirmed expected_hash))) (
     pbind (plift (map_err (\<lambda>_. OffArguments) (transaction_arguments m (pl_installed_packages confirmed) ModePlan))) (\<lambda>args.
     pbind (release_command env dir args) (\<lambda>out.
     pthen (pguard (success out) OffRevalidation) (
     pbind (look env (on_plan env)) (\<lambda>view.
       plift (map_err (\<lambda>_. OffRevalidation)
         (rbind (discovered_facts view) (\<lambda>facts.
          rbind (solved view (snd out) (map rt_alias (mf_repositories m))) (\<lambda>solver.
            revalidate_release_plan sha msha facts solver m confirmed expected_hash)))))))))"

text \<open>The checks on the staged files, which authenticate the manifest again.\<close>

definition authenticate ::
  "surroundings \<Rightarrow> offline_view \<Rightarrow> plan_digest \<Rightarrow> manifest_digest \<Rightarrow> (release_manifest \<times> upgrade_plan) off" where
  "authenticate env view sha msha =
     pbind (look env (of_manifest view)) (\<lambda>read.
     pbind (plift (ok_or read OffManifest)) (\<lambda>m.
     pbind (look env (of_plan view)) (\<lambda>read_plan.
     pbind (plift (ok_or read_plan OffPlan)) (\<lambda>confirmed.
     pbind (pget es_record) (\<lambda>r.
     pthen (pguard (operation r = manifest_operation m \<and> op_target r = Some (mf_target m)) OffPlanMismatch) (
     pbind (plift (ok_or (sha confirmed) OffPlan)) (\<lambda>h.
     pthen (pguard (h = op_plan_sha256 r) OffPlanMismatch) (
     pbind (plift (ok_or (msha m) OffManifest)) (\<lambda>mh.
     pthen (pguard (op_manifest_sha256 r = Some mh) OffManifestMismatch) (
     pbind (look env (of_signed view)) (\<lambda>verified.
     pbind (plift (ok_or verified OffAuthentication)) (\<lambda>signed.
     pthen (pguard (signed = m) OffManifestDiffers) (
       pret (m, confirmed))))))))))))))"

definition apply_staged ::
  "surroundings \<Rightarrow> offline_view \<Rightarrow> string \<Rightarrow> string \<Rightarrow> release_manifest \<Rightarrow> upgrade_plan \<Rightarrow> unit off" where
  "apply_staged env view dir oid m confirmed =
     pbind (look env (on_payloads env)) (\<lambda>packages.
     pthen (plift (map_err (\<lambda>_. OffPayload) (verify_payloads m (pl_installed_packages confirmed) packages))) (
     pbind (plift (map_err (\<lambda>_. OffArguments) (transaction_arguments m (pl_installed_packages confirmed) ModeApply))) (\<lambda>args.
     pbind (release_command env dir args) (\<lambda>out.
     pthen (pguard (fst out = Some 0 \<or> fst out = Some 102) OffZypper) (
     pbind (look env (of_dirs view)) (\<lambda>dirs.
     pthen (pguard (mf_package_migration m \<noteq> None \<or> is_ok (fst (install_repository_set m oid dirs))) OffRepositories) (
     pthen (if mf_package_migration m = None \<or> touches_boot (package_changes confirmed)
            then pbind (pmap_err (\<lambda>_. OffDracut) (require_success Initramfs (run_observed env ''dracut'' [''--regenerate-all'', ''--force'']))) (\<lambda>_.
                 pbind (pmap_err (\<lambda>_. OffGrub) (require_success Grub (run_observed env ''grub2-mkconfig'' [''-o'', ''/boot/grub2/grub.cfg'']))) (\<lambda>_.
                   pret ()))
            else pret ()) (
       if mf_package_migration m \<noteq> None
       then pbind (pmap_err (\<lambda>_. OffInventory) (capture_inventory env Inventory)) (\<lambda>report.
            pthen (plift (map_err (\<lambda>_. OffInventory) (verify_result confirmed report)))
              (pmap_err (\<lambda>_. OffInventory) (write_private env ''inventory-after.json'')))
       else pret ()))))))))"

definition run_offline ::
  "surroundings \<Rightarrow> offline_view \<Rightarrow> plan_digest \<Rightarrow> manifest_digest \<Rightarrow> path \<Rightarrow> unit off" where
  "run_offline env view sha msha dir =
     pthen (require_current env view dir) (
     pthen (pguard (dir \<noteq> []) OffLoad) (
     pthen (load_operation env (last dir)) (
     pthen prepare_offline_state (
     pbind (authenticate env view sha msha) (\<lambda>(m, confirmed).
     pthen (pmap_err (\<lambda>_. OffPersist) (save env)) (
     pbind (pget (\<lambda>s. op_plan_sha256 (es_record s))) (\<lambda>h.
     pthen (revalidate_plan env sha msha (show_path dir) m confirmed h) (
     pthen (apply_staged env view (show_path dir) (last dir) m confirmed) (
     pthen (pmap_err (\<lambda>_. OffTransition) (transition AwaitingReboot)) (
     pthen (pupd (\<lambda>s. s\<lparr>es_record := (es_record s)\<lparr>last_completed_step := Some ''offline-apply''\<rparr>\<rparr>)) (
     pthen (pmap_err (\<lambda>_. OffPersist) (save env)) (
       remove_current env view dir))))))))))))"

definition mark_recovery :: "surroundings \<Rightarrow> offline_view \<Rightarrow> path \<Rightarrow> unit off" where
  "mark_recovery env view dir =
     pthen (require_current env view dir) (
     pthen (pguard (dir \<noteq> []) OffLoad) (
     pthen (ptry (load_operation env (last dir)) (\<lambda>r. case r of
        Inl _ \<Rightarrow> pret ()
      | Inr _ \<Rightarrow> pthen (pupd (\<lambda>s. s\<lparr>es_record := (es_record s)\<lparr>op_state := NeedsRecovery,
             error_code := Some ''OFFLINE_APPLY_FAILED'', op_sequence := sat_add (op_sequence (es_record s)) 1\<rparr>\<rparr>))
           (pmap_err (\<lambda>_. OffPersist) (save env)))) (
       remove_current env view dir)))"

definition reboot_after_cleanup :: "surroundings \<Rightarrow> offline_view \<Rightarrow> unit off" where
  "reboot_after_cleanup env view = pbind (look env (of_fs view)) (\<lambda>fs. case node_at fs MARKER of
      Inl e \<Rightarrow> if e = ENOENT
        then pbind (pmap_err (\<lambda>_. OffReboot) (require_success Apply (run_observed env ''/usr/bin/systemctl'' [''--no-block'', ''reboot'']))) (\<lambda>_. pret ())
        else pfail OffReboot
    | Inr _ \<Rightarrow> pfail OffReboot)"

definition finish_owned_operation :: "unit off \<Rightarrow> unit off \<Rightarrow> unit off \<Rightarrow> unit off" where
  "finish_owned_operation run recover reboot =
     ptry run (\<lambda>result.
       pthen (case result of Inl _ \<Rightarrow> recover | Inr _ \<Rightarrow> pret ()) (
       pthen reboot (plift result)))"

text \<open>\<open>main\<close>: the exit code is zero or one.\<close>

definition offline_main ::
  "surroundings \<Rightarrow> offline_view \<Rightarrow> plan_digest \<Rightarrow> manifest_digest \<Rightarrow> bool \<Rightarrow> exec_state \<Rightarrow> nat \<times> exec_state" where
  "offline_main env view sha msha reboot s =
     (case resolve_request (of_fs view (es_trace s)) MARKER STATE_ROOT of
        Inl _ \<Rightarrow> (1, s)
      | Inr None \<Rightarrow> (0, s)
      | Inr (Some dir) \<Rightarrow>
          (case acquire_lock env s of
             (Inl _, s1) \<Rightarrow> (1, s1)
           | (Inr _, s1) \<Rightarrow>
               (case finish_owned_operation (run_offline env view sha msha dir) (mark_recovery env view dir)
                   (if reboot then reboot_after_cleanup env view else pret ()) s1 of
                  (Inl _, s2) \<Rightarrow> (1, s2)
                | (Inr _, s2) \<Rightarrow> (0, s2))))"

section \<open>Lemmas: order of effects\<close>

lemma adds_only_look: "adds_only (harmless C) (look env f)"
  unfolding look_def by (intro adds_only_pmap_err adds_only_with_history) simp

lemmas off_rules = adds_only_look adds_only_pbind adds_only_pthen adds_only_if adds_only_pmap_err adds_only_pupd
  adds_only_steps adds_only_require adds_only_run adds_only_ptry adds_only_emit

lemma adds_only_current:
  "adds_only (harmless C) (require_current env view dir)" "adds_only (harmless C) (remove_current env view dir)"
proof -
  show 1: "adds_only (harmless C) (require_current env view dir)"
    unfolding require_current_def by (intro off_rules) simp
  show "adds_only (harmless C) (remove_current env view dir)"
    unfolding remove_current_def by (intro off_rules 1) simp_all
qed

lemma adds_only_load: "adds_only (harmless C) (load_operation env oid)"
  unfolding load_operation_def by (intro off_rules) (auto split: option.splits intro!: off_rules)

lemma adds_only_prepare: "adds_only (harmless C) prepare_offline_state"
  unfolding prepare_offline_state_def by (intro off_rules) simp_all

lemma adds_only_authenticate: "adds_only (harmless C) (authenticate env view sha msha)"
  unfolding authenticate_def by (intro off_rules) simp_all

lemma revalidate_harmless: "adds_only (harmless harmless_run) (revalidate_plan env sha msha d m confirmed h)"
  unfolding revalidate_plan_def release_command_def
  by (intro off_rules adds_only_plift) (auto simp: map_err_Inr_iff commits_def dest: transaction_flag(1))

text \<open>The programs that the application of an upgrade may run: all but the one that reboots.\<close>

definition applying_run :: "string \<Rightarrow> string list \<Rightarrow> bool" where
  "applying_run p args = (p \<noteq> ''/usr/bin/systemctl'')"

lemma adds_only_apply: "adds_only (harmless applying_run) (apply_staged env view d oid m confirmed)"
  unfolding apply_staged_def release_command_def by (intro off_rules) (simp_all add: applying_run_def)

lemma adds_only_revalidate: "adds_only (harmless applying_run) (revalidate_plan env sha msha d m confirmed h)"
  unfolding revalidate_plan_def release_command_def by (intro off_rules) (simp_all add: applying_run_def)

lemma adds_only_application: "adds_only (harmless applying_run) (pbind (pget (\<lambda>s. op_plan_sha256 (es_record s))) (\<lambda>h.
     pthen (revalidate_plan env sha msha (show_path dir) m confirmed h) (
     pthen (apply_staged env view (show_path dir) (last dir) m confirmed) (
     pthen (pmap_err (\<lambda>_. OffTransition) (transition AwaitingReboot)) (
     pthen (pupd (\<lambda>s. s\<lparr>es_record := (es_record s)\<lparr>last_completed_step := Some ''offline-apply''\<rparr>\<rparr>)) (
     pthen (pmap_err (\<lambda>_. OffPersist) (save env)) (
       remove_current env view dir)))))))"
  by (intro off_rules adds_only_revalidate adds_only_apply adds_only_current) simp_all

lemma adds_only_run_offline: "adds_only (harmless applying_run) (run_offline env view sha msha dir)"
  unfolding run_offline_def
  by (intro off_rules adds_only_current adds_only_load adds_only_prepare adds_only_authenticate)
    (auto intro!: adds_only_application off_rules split: prod.splits)

lemma adds_only_mark: "adds_only (harmless C) (mark_recovery env view dir)"
  unfolding mark_recovery_def
  by (intro off_rules adds_only_current adds_only_load) (auto split: sum.splits intro!: off_rules)

lemma reboot_harmless: "adds_only (harmless harmless_run) (reboot_after_cleanup env view)"
  unfolding reboot_after_cleanup_def
  by (intro off_rules) (auto split: sum.splits simp: commits_def intro!: off_rules)

text \<open>The record that has to be on disk before packages are changed.\<close>

definition applying_saved :: "history \<Rightarrow> bool" where
  "applying_saved h = (\<exists>r. Saved r \<in> set h \<and> op_state r = ApplyingOffline \<and> snapshot_number r \<noteq> None)"

lemma applying_saved_mono: "applying_saved h \<Longrightarrow> applying_saved (e # h)"
  by (auto simp: applying_saved_def)

abbreviation apply_guarded :: "exec_state \<Rightarrow> bool" where
  "apply_guarded s \<equiv> guarded commits applying_saved (es_trace s)"

lemma apply_step:
  "adds_only (harmless harmless_run) m \<Longrightarrow> valid apply_guarded m (\<lambda>_. apply_guarded) (\<lambda>_. apply_guarded)"
  unfolding maintains_def [symmetric] by (erule maintains_guarded) (rule harmless_not_commits)

lemma apply_rest:
  "adds_only (\<lambda>_. True) m \<Longrightarrow>
   valid (\<lambda>s. apply_guarded s \<and> applying_saved (es_trace s)) m (\<lambda>_. apply_guarded) (\<lambda>_. apply_guarded)"
  by (rule valid_conseq [OF maintains_guarded_when [where G = applying_saved and c = commits, unfolded maintains_def]])
    (auto intro: applying_saved_mono)

lemma look_keeps: "look env f s = (r, t) \<Longrightarrow> es_record t = es_record s"
  by (auto simp: look_def pmap_err_def with_history_def Let_def)

lemma prepare_Inr:
  "prepare_offline_state s = (Inr u, t) \<Longrightarrow> op_state (es_record t) = ApplyingOffline \<and> snapshot_number (es_record t) \<noteq> None"
  by (auto simp: prepare_offline_state_def prog_Inr transition_to_Inr_iff split: if_splits dest!: transition_Inr)

lemma authenticate_keeps: "authenticate env view sha msha s = (Inr x, t) \<Longrightarrow> es_record t = es_record s"
  unfolding authenticate_def by (simp only: prog_Inr ok_or_Inr_iff) (elim exE conjE, auto dest!: look_keeps)

abbreviation offline_ready :: "exec_state \<Rightarrow> bool" where
  "offline_ready s \<equiv> op_state (es_record s) = ApplyingOffline \<and> snapshot_number (es_record s) \<noteq> None"

lemma prepare_step:
  "valid apply_guarded prepare_offline_state (\<lambda>_ s. apply_guarded s \<and> offline_ready s) (\<lambda>_. apply_guarded)"
proof (rule validI)
  fix s assume g: "apply_guarded s"
  obtain r t where run: "prepare_offline_state s = (r, t)" by fastforce
  have "apply_guarded t" by (rule valid_any [OF apply_step [OF adds_only_prepare] g run])
  with run prepare_Inr [of s _ t] show "case prepare_offline_state s of (Inl e, t) \<Rightarrow> apply_guarded t
    | (Inr a, t) \<Rightarrow> apply_guarded t \<and> offline_ready t" by (cases r) auto
qed

lemma authenticate_step:
  "valid (\<lambda>s. apply_guarded s \<and> offline_ready s) (authenticate env view sha msha)
     (\<lambda>_ s. apply_guarded s \<and> offline_ready s) (\<lambda>_. apply_guarded)"
proof (rule validI)
  fix s assume g: "apply_guarded s \<and> offline_ready s"
  obtain r t where run: "authenticate env view sha msha s = (r, t)" by fastforce
  have "apply_guarded t" by (rule valid_any [OF apply_step [OF adds_only_authenticate] _ run]) (use g in blast)
  with run authenticate_keeps [of env view sha msha s _ t] g
  show "case authenticate env view sha msha s of (Inl e, t) \<Rightarrow> apply_guarded t
    | (Inr a, t) \<Rightarrow> apply_guarded t \<and> offline_ready t" by (cases r) auto
qed

lemma save_step:
  "valid (\<lambda>s. apply_guarded s \<and> offline_ready s) (pmap_err g (save env))
     (\<lambda>_ s. apply_guarded s \<and> applying_saved (es_trace s)) (\<lambda>_. apply_guarded)"
proof (rule validI)
  fix s assume p: "apply_guarded s \<and> offline_ready s"
  obtain r t where run: "save env s = (r, t)" by fastforce
  have "apply_guarded t" by (rule valid_any [OF apply_step [OF adds_only_steps(2)] _ run]) (use p in blast)
  moreover have "applying_saved (es_trace t)" if "r = Inr ()"
    using save_stored [of env s "()" t] run that p by (auto simp: stored_def applying_saved_def)
  ultimately show "case pmap_err g (save env) s of (Inl e, t) \<Rightarrow> apply_guarded t
    | (Inr a, t) \<Rightarrow> apply_guarded t \<and> applying_saved (es_trace t)" using run by (cases r) (auto simp: pmap_err_def)
qed

lemma run_offline_guarded: "maintains apply_guarded (run_offline env view sha msha dir)"
  unfolding maintains_def run_offline_def
proof (rule valid_pthen [OF apply_step], rule adds_only_current, rule valid_pthen [OF apply_step], simp,
    rule valid_pthen [OF apply_step], rule adds_only_load, rule valid_pthen [OF prepare_step],
    rule valid_pbind [OF authenticate_step])
  fix x :: "release_manifest \<times> upgrade_plan"
  obtain m confirmed where x: "x = (m, confirmed)" by (cases x)
  show "valid (\<lambda>s. apply_guarded s \<and> offline_ready s) (case x of (m, confirmed) \<Rightarrow>
     pthen (pmap_err (\<lambda>_. OffPersist) (save env)) (
     pbind (pget (\<lambda>s. op_plan_sha256 (es_record s))) (\<lambda>h.
     pthen (revalidate_plan env sha msha (show_path dir) m confirmed h) (
     pthen (apply_staged env view (show_path dir) (last dir) m confirmed) (
     pthen (pmap_err (\<lambda>_. OffTransition) (transition AwaitingReboot)) (
     pthen (pupd (\<lambda>s. s\<lparr>es_record := (es_record s)\<lparr>last_completed_step := Some ''offline-apply''\<rparr>\<rparr>)) (
     pthen (pmap_err (\<lambda>_. OffPersist) (save env)) (
       remove_current env view dir)))))))) (\<lambda>_. apply_guarded) (\<lambda>_. apply_guarded)"
    unfolding x prod.case by (rule valid_pthen [OF save_step apply_rest [OF adds_anything(2) [OF adds_only_application]]])
qed

lemma offline_main_guarded:
  assumes "apply_guarded s"
  shows "apply_guarded (snd (offline_main env view sha msha reboot s))"
proof -
  let ?fin = "\<lambda>dir. finish_owned_operation (run_offline env view sha msha dir) (mark_recovery env view dir)
    (if reboot then reboot_after_cleanup env view else pret ())"
  have fin: "maintains apply_guarded (?fin dir)" for dir
  proof -
    have 1: "maintains apply_guarded (mark_recovery env view dir)"
      using apply_step [OF adds_only_mark] by (simp add: maintains_def)
    have 2: "maintains apply_guarded (reboot_after_cleanup env view)"
      using apply_step [OF reboot_harmless] by (simp add: maintains_def)
    show ?thesis
      unfolding finish_owned_operation_def
      by (intro maintains_ptry run_offline_guarded maintains_pthen) (auto split: sum.splits intro: 1 2)
  qed
  have lock: "apply_guarded t" if "acquire_lock env s = (r, t)" for r t
    by (rule valid_any [OF apply_step [OF adds_only_steps(1)] assms that])
  show ?thesis
    using assms lock maintainsD [OF fin]
    by (auto simp: offline_main_def split: sum.splits option.splits prod.splits)
qed

text \<open>The command that reboots, and what the program must have seen just before it.\<close>

definition reboots :: "effect \<Rightarrow> bool" where
  "reboots e = (case e of Ran p args \<Rightarrow> p = ''/usr/bin/systemctl'' | _ \<Rightarrow> False)"

definition marker_absent :: "offline_view \<Rightarrow> history \<Rightarrow> bool" where
  "marker_absent view h = (node_at (of_fs view h) MARKER = Inl ENOENT)"

abbreviation reboot_guarded :: "offline_view \<Rightarrow> exec_state \<Rightarrow> bool" where
  "reboot_guarded view s \<equiv> guarded reboots (marker_absent view) (es_trace s)"

lemma applying_not_reboots: "harmless applying_run e \<Longrightarrow> \<not> reboots e"
  by (cases e) (auto simp: reboots_def applying_run_def)

lemma interfere_idem [simp]: "interfere env (interfere env s) = interfere env s"
  by (auto simp: interfere_def cancelled_record_def is_cancelable_def split: option.splits)

lemma reboot_guarded_interfere: "reboot_guarded view s \<Longrightarrow> reboot_guarded view (interfere env s)"
  using es_trace_interfere [of env s] by (auto simp: reboots_def)

lemma reboot_after_cleanup_guarded: "maintains (reboot_guarded view) (reboot_after_cleanup env view)"
  unfolding maintains_def
proof (rule validI)
  fix s assume "reboot_guarded view s"
  then have g: "reboot_guarded view (interfere env s)" by (rule reboot_guarded_interfere)
  show "case reboot_after_cleanup env view s of (Inl e, t) \<Rightarrow> reboot_guarded view t | (Inr a, t) \<Rightarrow> reboot_guarded view t"
    using g by (auto simp: reboot_after_cleanup_def look_def [THEN fun_cong] step_run marker_absent_def Let_def split: sum.splits)
qed

lemma offline_main_reboot:
  assumes "reboot_guarded view s"
  shows "reboot_guarded view (snd (offline_main env view sha msha reboot s))"
proof -
  let ?fin = "\<lambda>dir. finish_owned_operation (run_offline env view sha msha dir) (mark_recovery env view dir)
    (if reboot then reboot_after_cleanup env view else pret ())"
  note keep = maintains_guarded [OF _ applying_not_reboots]
  have fin: "maintains (reboot_guarded view) (?fin dir)" for dir
    unfolding finish_owned_operation_def
    by (intro maintains_ptry keep [OF adds_only_run_offline] maintains_pthen)
      (auto split: sum.splits intro: reboot_after_cleanup_guarded keep [OF adds_only_mark])
  have lock: "reboot_guarded view t" if "acquire_lock env s = (r, t)" for r t
    by (rule maintainsD [OF keep [OF adds_only_steps(1)] assms that])
  show ?thesis
    using assms lock maintainsD [OF fin]
    by (auto simp: offline_main_def split: sum.splits option.splits prod.splits)
qed

section \<open>Lemmas: results\<close>

lemma look_Inr: "look env f s = (r, t) \<Longrightarrow> r = Inr (f (es_trace t)) \<and> t = interfere env s"
  by (auto simp: look_def pmap_err_def with_history_def Let_def)

lemma record_fixed:
  "maintains (\<lambda>s. R (es_record s)) (look env f)" "maintains (\<lambda>s. R (es_record s)) (release_command env d args)"
  "maintains (\<lambda>s. R (es_record s)) (revalidate_plan env sha msha d m confirmed h)"
  "maintains (\<lambda>s. R (es_record s)) (apply_staged env view d oid m confirmed)"
  "maintains (\<lambda>s. R (es_record s)) (require_current env view dir)"
  "maintains (\<lambda>s. R (es_record s)) (remove_current env view dir)"
proof -
  show 1: "maintains (\<lambda>s. R (es_record s)) (look env f)" for f :: "history \<Rightarrow> 'x"
    unfolding look_def by (intro maintains_pmap_err snapshot_kept)
  show 2: "maintains (\<lambda>s. R (es_record s)) (release_command env d args)" for args
    unfolding release_command_def run_observed_def by (intro maintains_pmap_err maintains_intros snapshot_kept) simp
  show "maintains (\<lambda>s. R (es_record s)) (revalidate_plan env sha msha d m confirmed h)"
    unfolding revalidate_plan_def by (intro maintains_intros 1 2) simp_all
  show "maintains (\<lambda>s. R (es_record s)) (apply_staged env view d oid m confirmed)"
    unfolding apply_staged_def by (intro maintains_intros maintains_pmap_err 1 2 snapshot_kept) simp_all
  show 3: "maintains (\<lambda>s. R (es_record s)) (require_current env view dir)"
    unfolding require_current_def by (intro maintains_intros 1) simp
  show "maintains (\<lambda>s. R (es_record s)) (remove_current env view dir)"
    unfolding remove_current_def by (intro maintains_intros maintains_pmap_err 1 3 snapshot_kept) simp
qed

lemma kept_record:
  "revalidate_plan env sha msha d m confirmed h s = (r, t) \<Longrightarrow> es_record t = es_record s"
  "apply_staged env view d oid m confirmed s = (r', t) \<Longrightarrow> es_record t = es_record s"
  "require_current env view dir s = (r'', t) \<Longrightarrow> es_record t = es_record s"
  by (erule maintainsD [OF record_fixed(3) [where R = "\<lambda>x. x = es_record s"] refl],
      erule maintainsD [OF record_fixed(4) [where R = "\<lambda>x. x = es_record s"] refl],
      erule maintainsD [OF record_fixed(5) [where R = "\<lambda>x. x = es_record s"] refl])

lemma revalidate_plan_Inr:
  "revalidate_plan env sha msha d m confirmed h s = (Inr u, t) \<Longrightarrow>
   \<exists>facts solver. revalidate_release_plan sha msha facts solver m confirmed h = Inr ()"
  unfolding revalidate_plan_def by (simp only: prog_Inr map_err_Inr_iff rbind_Inr_iff) (elim exE conjE, auto)

lemma apply_staged_Inr:
  assumes "apply_staged env view d oid m confirmed s = (Inr u, t)"
  shows "(\<exists>h. verify_payloads m (pl_installed_packages confirmed) (on_payloads env h) = Inr ()) \<and>
    (mf_package_migration m \<noteq> None \<longrightarrow>
      (\<exists>h report. on_inventory env h = Some report \<and> verify_result confirmed report = Inr ()))"
proof -
  from assms obtain ps s1 s2 where ps: "look env (on_payloads env) s = (Inr ps, s1)"
    and v: "verify_payloads m (pl_installed_packages confirmed) ps = Inr ()"
    and last: "(if mf_package_migration m \<noteq> None
       then pbind (pmap_err (\<lambda>_. OffInventory) (capture_inventory env Inventory)) (\<lambda>report.
            pthen (plift (map_err (\<lambda>_. OffInventory) (verify_result confirmed report)))
              (pmap_err (\<lambda>_. OffInventory) (write_private env ''inventory-after.json'')))
       else pret ()) s2 = (Inr u, t)"
    unfolding apply_staged_def by (simp only: pbind_Inr_iff pthen_Inr_iff plift_Inr_iff map_err_Inr_iff) blast
  have "\<exists>h report. on_inventory env h = Some report \<and> verify_result confirmed report = Inr ()" if "mf_package_migration m \<noteq> None"
    using last that by (auto simp: prog_Inr map_err_Inr_iff dest!: capture_inventory_Inr)
  with look_Inr [OF ps] v show ?thesis by auto
qed

lemma release_command_Inr:
  "release_command env d args s = (Inr out, t) \<Longrightarrow>
   Ran ''zypper'' (context_arguments d @ [''--xmlout'', ''--non-interactive'', ''--no-refresh''] @ args) \<in> set (es_trace t)"
  unfolding release_command_def run_observed_def by (auto simp: prog_Inr emit_def)

lemma later_trace: "adds_only A m \<Longrightarrow> m s = (r, t) \<Longrightarrow> e \<in> set (es_trace s) \<Longrightarrow> e \<in> set (es_trace t)"
  by (drule (1) adds_onlyD) auto

lemma apply_staged_ran:
  assumes "apply_staged env view d oid m confirmed s = (Inr u, t)"
  shows "\<exists>args. transaction_arguments m (pl_installed_packages confirmed) ModeApply = Inr args \<and>
    Ran ''zypper'' (context_arguments d @ [''--xmlout'', ''--non-interactive'', ''--no-refresh''] @ args) \<in> set (es_trace t)"
proof -
  let ?rest = "\<lambda>out. pthen (pguard (fst out = Some 0 \<or> fst out = Some 102) OffZypper) (
     pbind (look env (of_dirs view)) (\<lambda>dirs.
     pthen (pguard (mf_package_migration m \<noteq> None \<or> is_ok (fst (install_repository_set m oid dirs))) OffRepositories) (
     pthen (if mf_package_migration m = None \<or> touches_boot (package_changes confirmed)
            then pbind (pmap_err (\<lambda>_. OffDracut) (require_success Initramfs (run_observed env ''dracut'' [''--regenerate-all'', ''--force'']))) (\<lambda>_.
                 pbind (pmap_err (\<lambda>_. OffGrub) (require_success Grub (run_observed env ''grub2-mkconfig'' [''-o'', ''/boot/grub2/grub.cfg'']))) (\<lambda>_.
                   pret ()))
            else pret ()) (
       if mf_package_migration m \<noteq> None
       then pbind (pmap_err (\<lambda>_. OffInventory) (capture_inventory env Inventory)) (\<lambda>report.
            pthen (plift (map_err (\<lambda>_. OffInventory) (verify_result confirmed report)))
              (pmap_err (\<lambda>_. OffInventory) (write_private env ''inventory-after.json'')))
       else pret ()))))"
  have rest: "adds_only (harmless (\<lambda>_ _. True)) (?rest out)" for out :: command_output
    by (intro off_rules) simp_all
  from assms obtain args s1 out s2 where "transaction_arguments m (pl_installed_packages confirmed) ModeApply = Inr args"
    "release_command env d args s1 = (Inr out, s2)" "?rest out s2 = (Inr u, t)"
    unfolding apply_staged_def by (simp only: pbind_Inr_iff pthen_Inr_iff [of "plift _"] plift_Inr_iff map_err_Inr_iff) blast
  then show ?thesis using release_command_Inr later_trace [OF rest] by blast
qed

lemma authenticate_Inr:
  assumes "authenticate env view sha msha s = (Inr (m, confirmed), t)"
  shows "(\<exists>h. of_signed view h = Some m) \<and> sha confirmed = Some (op_plan_sha256 (es_record s)) \<and>
    op_manifest_sha256 (es_record s) = msha m \<and> operation (es_record s) = manifest_operation m"
  using assms unfolding authenticate_def
  by (simp only: prog_Inr ok_or_Inr_iff) (elim exE conjE, auto dest!: look_Inr)

lemma awaiting_not_cancelled: "es_disk s = Some r \<Longrightarrow> op_state r = AwaitingReboot \<Longrightarrow> interfere env s = s"
  by (simp add: interfere_def is_cancelable_def)

lemma remove_current_Inr:
  assumes "remove_current env view dir s = (Inr u, t)" and "es_disk s = Some r" and "op_state r = AwaitingReboot"
  shows "t = s\<lparr>es_trace := UnlinkedMarker # es_trace s\<rparr>"
  using assms unfolding remove_current_def require_current_def
  by (auto simp: prog_Inr emit_def awaiting_not_cancelled split: if_splits dest!: look_Inr)

lemma run_offline_result:
  assumes "run_offline env view sha msha dir s = (Inr u, t)"
  shows "\<exists>m confirmed. es_disk t = Some (es_record t) \<and> op_state (es_record t) = AwaitingReboot \<and>
    snapshot_number (es_record t) \<noteq> None \<and> UnlinkedMarker \<in> set (es_trace t) \<and>
    (\<exists>h. of_signed view h = Some m) \<and> sha confirmed = Some (op_plan_sha256 (es_record t)) \<and>
    (\<exists>facts solver. revalidate_release_plan sha msha facts solver m confirmed (op_plan_sha256 (es_record t)) = Inr ()) \<and>
    (\<exists>h. verify_payloads m (pl_installed_packages confirmed) (on_payloads env h) = Inr ()) \<and>
    (mf_package_migration m \<noteq> None \<longrightarrow>
      (\<exists>h report. on_inventory env h = Some report \<and> verify_result confirmed report = Inr ()))"
proof -
  from assms obtain s3 s4 x s5 s6 s7 s8 s9 s10 where prep: "prepare_offline_state s3 = (Inr (), s4)"
    and auth: "authenticate env view sha msha s4 = (Inr x, s5)" and sv: "save env s5 = (Inr (), s6)"
    and rv: "revalidate_plan env sha msha (show_path dir) (fst x) (snd x) (op_plan_sha256 (es_record s6)) s6 = (Inr (), s7)"
    and ap: "apply_staged env view (show_path dir) (last dir) (fst x) (snd x) s7 = (Inr (), s8)"
    and tr: "transition AwaitingReboot s8 = (Inr (), s9)"
    and sv2: "save env (s9\<lparr>es_record := (es_record s9)\<lparr>last_completed_step := Some ''offline-apply''\<rparr>\<rparr>) = (Inr (), s10)"
    and rm: "remove_current env view dir s10 = (Inr u, t)"
    unfolding run_offline_def by (simp only: prog_Inr prod.case_eq_if) blast
  have e5: "es_record s5 = es_record s4" using auth by (rule authenticate_keeps)
  have e6: "es_record s6 = es_record s5" using save_stored [OF sv] by simp
  have e7: "es_record s7 = es_record s6" using rv by (rule kept_record)
  have e8: "es_record s8 = es_record s7" using ap by (rule kept_record)
  from transition_Inr [OF tr] have e9: "op_state (es_record s9) = AwaitingReboot"
    "op_plan_sha256 (es_record s9) = op_plan_sha256 (es_record s8)" "snapshot_number (es_record s9) = snapshot_number (es_record s8)"
    by (auto simp: transition_to_Inr_iff)
  from save_stored [OF sv2] have e10: "es_disk s10 = Some (es_record s10)"
    "es_record s10 = (es_record s9)\<lparr>last_completed_step := Some ''offline-apply''\<rparr>" by (auto simp: stored_def)
  have t: "t = s10\<lparr>es_trace := UnlinkedMarker # es_trace s10\<rparr>"
    by (rule remove_current_Inr [OF rm e10(1)]) (simp add: e10 e9)
  have hash: "op_plan_sha256 (es_record t) = op_plan_sha256 (es_record s4)" using t e10 e9 e8 e7 e6 e5 by simp
  obtain m confirmed where x: "x = (m, confirmed)" by (cases x)
  from authenticate_Inr [OF auth [unfolded x]] revalidate_plan_Inr [OF rv] apply_staged_Inr [OF ap] prepare_Inr [OF prep]
    t hash e10 e9 e8 e7 e6 e5
  show ?thesis by (intro exI [of _ m] exI [of _ confirmed]) (simp add: x)
qed

lemma run_offline_ran:
  assumes "run_offline env view sha msha dir s = (Inr u, t)" and "\<And>h. of_manifest view h = Some m" and "\<And>h. of_plan view h = Some confirmed"
  shows "\<exists>args. transaction_arguments m (pl_installed_packages confirmed) ModeApply = Inr args \<and>
    Ran ''zypper'' (context_arguments (show_path dir) @ [''--xmlout'', ''--non-interactive'', ''--no-refresh''] @ args) \<in> set (es_trace t)"
proof -
  let ?rest = "pthen (pmap_err (\<lambda>_. OffTransition) (transition AwaitingReboot)) (
     pthen (pupd (\<lambda>s. s\<lparr>es_record := (es_record s)\<lparr>last_completed_step := Some ''offline-apply''\<rparr>\<rparr>)) (
     pthen (pmap_err (\<lambda>_. OffPersist) (save env)) (
       remove_current env view dir)))"
  have rest: "adds_only (harmless C) ?rest" for C
    by (intro off_rules adds_only_current) simp_all
  from assms(1) obtain s4 x s5 s7 s8 where auth: "authenticate env view sha msha s4 = (Inr x, s5)"
    and ap: "apply_staged env view (show_path dir) (last dir) (fst x) (snd x) s7 = (Inr (), s8)"
    and tail: "?rest s8 = (Inr u, t)"
    unfolding run_offline_def by (simp only: pbind_Inr_iff [of "authenticate _ _ _ _"] pbind_Inr_iff [of "pget _"]
      pthen_Inr_iff [of "require_current _ _ _"] pthen_Inr_iff [of "pguard _ _"] pthen_Inr_iff [of "load_operation _ _"]
      pthen_Inr_iff [of prepare_offline_state] pthen_Inr_iff [of "pmap_err (\<lambda>_. OffPersist) _"] pthen_Inr_iff [of "revalidate_plan _ _ _ _ _ _ _"]
      pthen_Inr_iff [of "apply_staged _ _ _ _ _ _"] prod.case_eq_if) blast
  have "x = (m, confirmed)"
    using auth assms(2,3) unfolding authenticate_def
    by (simp only: prog_Inr ok_or_Inr_iff) (elim exE conjE, auto dest!: look_Inr)
  with apply_staged_ran [OF ap] later_trace [OF rest tail] show ?thesis by fastforce
qed

lemma offline_main_harmless:
  assumes "es_trace s = []"
  shows "list_all (harmless applying_run) (es_trace (snd (offline_main env view sha msha False s)))"
proof -
  have fin: "adds_only (harmless applying_run) (finish_owned_operation (run_offline env view sha msha dir) (mark_recovery env view dir) (pret ()))" for dir
    unfolding finish_owned_operation_def
    by (intro adds_only_ptry adds_only_run_offline adds_only_pthen) (auto split: sum.splits intro: adds_only_mark)
  show ?thesis
    using assms adds_onlyD [OF fin] adds_onlyD [OF adds_only_steps(1) [where C = applying_run], of env s]
    by (fastforce simp: offline_main_def split: sum.splits option.splits prod.splits)
qed

lemma normalize_filter: "normalize_onto acc (filter (\<lambda>c. c \<noteq> ''.'') p) = normalize_onto acc p"
  by (induction p arbitrary: acc) auto

lemma resolve_request_Some:
  assumes "resolve_request fs marker root = Inr (Some dir)"
  shows "\<exists>absolute target canonical name. read_link fs marker = Inr (absolute, target) \<and> resolve fs root = Inr canonical \<and>
    dir = canonical @ [name] \<and> is_dir (fs dir) \<and>
    normalize_onto [] (if absolute then target else butlast marker @ target) = root @ [name]"
proof -
  from assms obtain absolute target where link: "read_link fs marker = Inr (absolute, target)"
    by (auto simp: resolve_request_def split: sum.splits if_splits)
  let ?n = "normalize_onto [] (if absolute then target else butlast marker @ target)"
  from assms link obtain canonical where "?n \<noteq> []" "butlast ?n = root" "resolve fs root = Inr canonical"
    "dir = canonical @ [last ?n]" "is_dir (fs dir)"
    by (auto simp: resolve_request_def Let_def rbind_Inr_iff map_err_Inr_iff normalize_filter simp del: filter_append split: if_splits)
  moreover from this have "?n = root @ [last ?n]" by (metis append_butlast_last_id)
  ultimately show ?thesis using link by blast
qed

section \<open>Lemmas: the live repository set\<close>

definition new_files :: "release_manifest \<Rightarrow> string \<Rightarrow> repo_files" where
  "new_files m oid = map (\<lambda>r. (repo_name r, repo_content oid r)) (mf_repositories m)"

abbreviation dirs_are :: "repo_files option \<Rightarrow> repo_files option \<Rightarrow> repo_files option \<Rightarrow> repo_dirs \<Rightarrow> bool" where
  "dirs_are l n b s \<equiv> rd_live s = l \<and> rd_staging s = n \<and> rd_backup s = b"

lemma valid_rd_call:
  assumes "\<And>s n. P s \<Longrightarrow> E () (broken n (s\<lparr>rd_answers := tl (rd_answers s)\<rparr>))"
    and "\<And>s. P s \<Longrightarrow> case op (s\<lparr>rd_answers := tl (rd_answers s)\<rparr>) of None \<Rightarrow> E () (s\<lparr>rd_answers := tl (rd_answers s)\<rparr>) | Some t \<Rightarrow> Q () t"
  shows "valid P (rd_call broken op) Q E"
  unfolding valid_def rd_call_def
proof (intro allI impI)
  fix s assume P: "P s"
  show "case (case rd_answers s of
      Breaks n # rest \<Rightarrow> (Inl (), broken n (s\<lparr>rd_answers := rest\<rparr>))
    | answers \<Rightarrow> (case op (s\<lparr>rd_answers := tl answers\<rparr>) of None \<Rightarrow> (Inl (), s\<lparr>rd_answers := tl answers\<rparr>) | Some t \<Rightarrow> (Inr (), t))) of
      (Inl e, t) \<Rightarrow> E e t | (Inr a, t) \<Rightarrow> Q a t"
    using assms(1) [OF P] assms(2) [OF P]
    by (cases "rd_answers s"; cases "hd (rd_answers s)") (auto split: option.splits)
qed

lemma write_repo_valid:
  "valid (dirs_are l (Some fs) b) (write_repo oid r) (\<lambda>_. dirs_are l (Some (fs @ [(repo_name r, repo_content oid r)])) b)
     (\<lambda>_ s. rd_live s = l)"
  unfolding write_repo_def
  by (rule valid_pthen [where R = "dirs_are l (Some (fs @ [(repo_name r, [])])) b"]; rule valid_rd_call)
    (auto split: option.splits if_splits)

lemma write_all_valid:
  "valid (dirs_are l (Some fs) b) (peach (write_repo oid) rs)
     (\<lambda>_. dirs_are l (Some (fs @ map (\<lambda>r. (repo_name r, repo_content oid r)) rs)) b) (\<lambda>_ s. rd_live s = l)"
proof (induction rs arbitrary: fs)
  case Nil
  show ?case by (simp add: valid_pret)
next
  case (Cons r rs)
  show ?case using valid_pthen [OF write_repo_valid Cons] by simp
qed

lemma swap_valid:
  "valid (dirs_are (Some old) (Some new) None) (pthen rename_live_away (ptry rename_staging_in (\<lambda>r. case r of
        Inr _ \<Rightarrow> pret ()
      | Inl _ \<Rightarrow> ptry rename_backup_back (\<lambda>_. pfail ()))))
     (\<lambda>_. dirs_are (Some new) None (Some old))
     (\<lambda>_ s. rd_live s = Some old \<or> dirs_are None (Some new) (Some old) s)"
proof (rule valid_pthen [where R = "dirs_are None (Some new) (Some old)"])
  show "valid (dirs_are (Some old) (Some new) None) rename_live_away (\<lambda>_. dirs_are None (Some new) (Some old))
     (\<lambda>_ s. rd_live s = Some old \<or> dirs_are None (Some new) (Some old) s)"
    unfolding rename_live_away_def by (rule valid_rd_call) auto
  have restored: "valid (dirs_are None (Some new) (Some old)) (ptry rename_backup_back (\<lambda>_. pfail ()))
     Q (\<lambda>_ s. rd_live s = Some old \<or> dirs_are None (Some new) (Some old) s)" for Q :: "unit \<Rightarrow> repo_dirs \<Rightarrow> bool"
    by (rule valid_ptry [where R = "\<lambda>_ s. rd_live s = Some old \<or> dirs_are None (Some new) (Some old) s"], unfold rename_backup_back_def,
        rule valid_rd_call) (auto intro: valid_pfail)
  show "valid (dirs_are None (Some new) (Some old)) (ptry rename_staging_in (\<lambda>r. case r of
        Inr _ \<Rightarrow> pret () | Inl _ \<Rightarrow> ptry rename_backup_back (\<lambda>_. pfail ())))
     (\<lambda>_. dirs_are (Some new) None (Some old)) (\<lambda>_ s. rd_live s = Some old \<or> dirs_are None (Some new) (Some old) s)"
  proof (rule valid_ptry [where R = "\<lambda>r. if is_ok r then dirs_are (Some new) None (Some old) else dirs_are None (Some new) (Some old)"])
    fix r :: "unit + unit"
    show "valid (if is_ok r then dirs_are (Some new) None (Some old) else dirs_are None (Some new) (Some old))
       (case r of Inr _ \<Rightarrow> pret () | Inl _ \<Rightarrow> ptry rename_backup_back (\<lambda>_. pfail ()))
       (\<lambda>_. dirs_are (Some new) None (Some old)) (\<lambda>_ s. rd_live s = Some old \<or> dirs_are None (Some new) (Some old) s)"
      using restored by (cases r) (simp_all add: valid_pret is_ok_def)
  qed (unfold rename_staging_in_def, rule valid_rd_call, auto simp: is_ok_def)
qed

lemma install_valid:
  "valid (\<lambda>s. rd_live s = Some old) (install_repository_set m oid)
     (\<lambda>_. dirs_are (Some (new_files m oid)) None (Some old))
     (\<lambda>_ s. rd_live s = Some old \<or> dirs_are None (Some (new_files m oid)) (Some old) s)"
  unfolding install_repository_set_def
proof (rule valid_pbind, rule valid_pget [where Q = "\<lambda>x s. rd_live s = Some old \<and> (x \<longleftrightarrow> rd_staging s \<noteq> None \<or> rd_backup s \<noteq> None)"], simp,
    rule valid_pthen [where R = "dirs_are (Some old) None None"], rule valid_pguard, blast, blast,
    rule valid_pthen [where R = "dirs_are (Some old) (Some []) None"], rule valid_rd_call, simp, simp,
    rule valid_pthen [where R = "dirs_are (Some old) (Some []) None"], rule valid_rd_call, simp, simp)
  show "valid (dirs_are (Some old) (Some []) None) (pthen (peach (write_repo oid) (mf_repositories m))
      (pthen rename_live_away (ptry rename_staging_in (\<lambda>r. case r of
        Inr _ \<Rightarrow> pret () | Inl _ \<Rightarrow> ptry rename_backup_back (\<lambda>_. pfail ())))))
     (\<lambda>_. dirs_are (Some (new_files m oid)) None (Some old))
     (\<lambda>_ s. rd_live s = Some old \<or> dirs_are None (Some (new_files m oid)) (Some old) s)"
    by (rule valid_pthen [OF valid_conseq [OF write_all_valid [of "Some old" "[]"]] swap_valid]) (auto simp: new_files_def)
qed

section \<open>An example\<close>

definition offline_id :: string where
  "offline_id = ''01234567-89ab-cdef-0123-456789abcdef''"

definition offline_dir :: path where
  "offline_dir = STATE_ROOT @ [offline_id]"

definition example_marker_fs :: fs where
  "example_marker_fs p = (if p = MARKER then Some (Link True offline_dir)
     else if prefix p offline_dir then Some (Dir 0 448) else None)"

definition offline_surroundings :: surroundings where
  "offline_surroundings = staging_surroundings\<lparr>on_inventory := (\<lambda>_. Some example_report)\<rparr>"

definition example_offline :: offline_view where
  "example_offline = \<lparr>of_fs = (\<lambda>h. if UnlinkedMarker \<in> set h then example_marker_fs(MARKER := None) else example_marker_fs), of_manifest = (\<lambda>_. Some example_manifest), of_plan = (\<lambda>_. Some example_plan),
     of_signed = (\<lambda>_. Some example_manifest), of_dirs = (\<lambda>_. \<lparr>rd_live = None, rd_staging = None, rd_backup = None, rd_answers = []\<rparr>),
     of_unlink = (\<lambda>_. True)\<rparr>"

definition offline_record :: "operation_state \<Rightarrow> u64 \<Rightarrow> string option \<Rightarrow> operation_state_record" where
  "offline_record st q step = (es_record staging_start)\<lparr>op_state := st, snapshot_number := Some 4, op_sequence := q, last_completed_step := step\<rparr>"

definition offline_start :: exec_state where
  "offline_start = \<lparr>es_record = offline_record ReadyToReboot 7 None, es_disk = Some (offline_record ReadyToReboot 7 None), es_trace = []\<rparr>"

lemma offline_fields:
  "on_lock offline_surroundings h = LockAcquired" "on_save offline_surroundings h = SaveOk" "on_load offline_surroundings h"
  "fst (on_run offline_surroundings h q args) = Some 0" "on_inventory offline_surroundings h = Some example_report"
  "on_write offline_surroundings h f" "interfere offline_surroundings s = s"
  "on_payloads offline_surroundings h = on_payloads staging_surroundings h" "on_plan offline_surroundings h = on_plan staging_surroundings h"
  by (auto simp: offline_surroundings_def staging_surroundings_def example_surroundings_def interfere_def split: option.splits)

lemma offline_view_fields:
  "UnlinkedMarker \<notin> set h \<Longrightarrow> of_fs example_offline h = example_marker_fs"
  "UnlinkedMarker \<in> set h \<Longrightarrow> of_fs example_offline h = example_marker_fs(MARKER := None)" "of_manifest example_offline h = Some example_manifest"
  "of_plan example_offline h = Some example_plan" "of_signed example_offline h = Some example_manifest"
  "of_unlink example_offline h"
  by (simp_all add: example_offline_def)

lemma offline_checks:
  "require_current_in example_marker_fs MARKER STATE_ROOT offline_dir = Inr ()"
  "resolve_request example_marker_fs MARKER STATE_ROOT = Inr (Some offline_dir)"
  "check_record (offline_record ReadyToReboot 7 None) = Inr ()" "check_record (offline_record ApplyingOffline 8 None) = Inr ()"
  "check_record (offline_record AwaitingReboot 9 (Some ''offline-apply'')) = Inr ()"
  "transition_to (offline_record ReadyToReboot 7 None) ApplyingOffline = Inr (offline_record ApplyingOffline 8 None)"
  "transition_to (offline_record ApplyingOffline 8 None) AwaitingReboot = Inr (offline_record AwaitingReboot 9 None)"
  "verify_result example_plan example_report = Inr ()" "touches_boot (package_changes example_plan) = False"
  "manifest_operation example_manifest = PackageMigration"
  by code_simp+

lemma offline_record_fields:
  "op_state (offline_record st q step) = st" "snapshot_number (offline_record st q step) = Some 4"
  "operation_id (offline_record st q step) = last offline_dir" "operation (offline_record st q step) = PackageMigration"
  "op_target (offline_record st q step) = Some (mf_target example_manifest)"
  "op_plan_sha256 (offline_record st q step) = replicate 64 CHR ''a''"
  "op_manifest_sha256 (offline_record st q step) = Some (replicate 64 CHR ''b'')"
  "(offline_record st q step)\<lparr>last_completed_step := step'\<rparr> = offline_record st q step'"
  by (simp_all add: offline_record_def staging_start_def example_record_def offline_dir_def offline_id_def example_manifest_def)

lemma staging_facts:
  "staging_digest example_plan = Some (replicate 64 CHR ''a'')" "staging_manifest_digest example_manifest = Some (replicate 64 CHR ''b'')"
  "mf_package_migration example_manifest \<noteq> None"
  by (simp_all add: staging_digest_def staging_manifest_digest_def example_manifest_def)

lemmas offline_run = step_run look_def [THEN fun_cong] require_current_def [THEN fun_cong] remove_current_def [THEN fun_cong]
  load_operation_def [THEN fun_cong] prepare_offline_state_def [THEN fun_cong] authenticate_def [THEN fun_cong]

lemmas offline_facts = offline_fields offline_view_fields offline_checks offline_record_fields staging_facts

lemma es_trace_offline_start [simp]: "es_trace offline_start = []"
  by (simp add: offline_start_def)

lemma offline_start_run:
  "pthen (require_current offline_surroundings example_offline offline_dir) (pthen (pguard (offline_dir \<noteq> []) OffLoad) (
     pthen (load_operation offline_surroundings (last offline_dir)) (pthen prepare_offline_state
       (authenticate offline_surroundings example_offline staging_digest staging_manifest_digest)))) offline_start =
   (Inr (example_manifest, example_plan), offline_start\<lparr>es_record := offline_record ApplyingOffline 8 None\<rparr>)"
proof -
  have "offline_dir \<noteq> []" by (simp add: offline_dir_def)
  then show ?thesis
    by (simp add: offline_run offline_facts offline_start_def map_err_def Let_def ok_or_def)
qed

abbreviation applying_now :: "exec_state \<Rightarrow> bool" where
  "applying_now s \<equiv> es_record s = offline_record ApplyingOffline 8 None \<and> es_disk s = Some (offline_record ApplyingOffline 8 None) \<and>
     UnlinkedMarker \<notin> set (es_trace s)"

lemma release_command_runs:
  "succeeds applying_now (release_command offline_surroundings d args) (\<lambda>out s. fst out = Some 0 \<and> applying_now s)"
  by (auto simp: succeeds_def release_command_def step_run offline_fields)

lemma look_runs: "(\<And>h. F (f h)) \<Longrightarrow> succeeds applying_now (look offline_surroundings f) (\<lambda>a s. F a \<and> applying_now s)"
  by (auto simp: succeeds_def look_def step_run offline_fields)

lemma revalidate_runs:
  "succeeds applying_now (revalidate_plan offline_surroundings staging_digest staging_manifest_digest d example_manifest example_plan
     (replicate 64 CHR ''a'')) (\<lambda>_. applying_now)"
proof -
  have plan: "pu_plan staging_planned = example_plan" by (simp add: staging_planned_def)
  obtain args where args: "transaction_arguments example_manifest (pl_installed_packages example_plan) ModePlan = Inr args"
    using staging_example.arguments [of ModePlan] by (auto simp: plan is_ok_iff)
  let ?F = "\<lambda>v. \<forall>xml. \<exists>facts solution. discovered_facts v = Inr facts \<and>
      solved v xml (map rt_alias (mf_repositories example_manifest)) = Inr solution \<and>
      revalidate_release_plan staging_digest staging_manifest_digest facts solution example_manifest example_plan (replicate 64 CHR ''a'') = Inr ()"
  have valid: "?F (on_plan offline_surroundings h)" for h
    using staging_example.solver [of h] by (simp add: plan offline_fields)
  have last: "succeeds applying_now (plift (map_err (\<lambda>_. OffRevalidation)
         (rbind (discovered_facts v) (\<lambda>facts.
          rbind (solved v xml (map rt_alias (mf_repositories example_manifest))) (\<lambda>solver.
            revalidate_release_plan staging_digest staging_manifest_digest facts solver example_manifest example_plan
              (replicate 64 CHR ''a'')))))) (\<lambda>_. applying_now)" if "?F v" for v xml
  proof -
    from that obtain facts solution where "discovered_facts v = Inr facts"
      "solved v xml (map rt_alias (mf_repositories example_manifest)) = Inr solution"
      "revalidate_release_plan staging_digest staging_manifest_digest facts solution example_manifest example_plan (replicate 64 CHR ''a'') = Inr ()"
      by blast
    then show ?thesis by (simp add: succeeds_def plift_def map_err_def rbind_def)
  qed
  show ?thesis
    unfolding revalidate_plan_def
    apply (rule succeeds_checked, simp add: staging_example.signed_plan [unfolded plan] map_err_def)
    apply (rule succeeds_lifted, simp add: args map_err_def)
    apply (rule succeeds_fact [OF release_command_runs])
    apply (rule succeeds_guard, simp add: success_def)
    apply (rule succeeds_fact [OF look_runs [where F = ?F]], rule valid)
    apply (rule last, assumption)
    done
qed

lemma apply_runs:
  "succeeds applying_now (apply_staged offline_surroundings example_offline d oid example_manifest example_plan) (\<lambda>_. applying_now)"
proof -
  have plan: "pu_plan staging_planned = example_plan" by (simp add: staging_planned_def)
  obtain args where args: "transaction_arguments example_manifest (pl_installed_packages example_plan) ModeApply = Inr args"
    using staging_example.arguments [of ModeApply] by (auto simp: plan is_ok_iff)
  show ?thesis
    unfolding apply_staged_def
    apply (rule succeeds_fact [OF look_runs [where F = "\<lambda>p. verify_payloads example_manifest (pl_installed_packages example_plan) p = Inr ()"]])
     apply (simp add: offline_fields staging_example.payloads [unfolded plan])
    apply (rule succeeds_checked, simp add: map_err_def)
    apply (rule succeeds_lifted, simp add: args map_err_def)
    apply (rule succeeds_fact [OF release_command_runs])
    apply (rule succeeds_guard, simp)
    apply (rule succeeds_fact [OF look_runs [where F = "\<lambda>_. True"]], simp)
    apply (rule succeeds_guard, simp add: staging_facts)
    apply (rule succeeds_keep, simp add: staging_facts offline_checks, rule succeeds_pret, simp)
    apply (auto simp: succeeds_def step_run offline_facts Let_def ok_or_def map_err_def)
    done
qed

lemma offline_finish:
  "succeeds applying_now (pthen (pmap_err (\<lambda>_. OffTransition) (transition AwaitingReboot)) (
     pthen (pupd (\<lambda>s. s\<lparr>es_record := (es_record s)\<lparr>last_completed_step := Some ''offline-apply''\<rparr>\<rparr>)) (
     pthen (pmap_err (\<lambda>_. OffPersist) (save offline_surroundings)) (
       remove_current offline_surroundings example_offline offline_dir)))) (\<lambda>_ _. True)"
  unfolding succeeds_def by (auto simp: offline_run offline_facts map_err_def Let_def)

lemma offline_save:
  "succeeds (\<lambda>s. s = offline_start\<lparr>es_record := offline_record ApplyingOffline 8 None\<rparr>)
     (pmap_err (\<lambda>_. OffPersist) (save offline_surroundings)) (\<lambda>_. applying_now)"
  unfolding succeeds_def by (auto simp: offline_run offline_facts offline_start_def Let_def)

lemma offline_run_succeeds:
  "\<exists>t. run_offline offline_surroundings example_offline staging_digest staging_manifest_digest offline_dir offline_start = (Inr (), t)"
proof -
  let ?rest = "\<lambda>(m, confirmed). pthen (pmap_err (\<lambda>_. OffPersist) (save offline_surroundings)) (
     pbind (pget (\<lambda>s. op_plan_sha256 (es_record s))) (\<lambda>h.
     pthen (revalidate_plan offline_surroundings staging_digest staging_manifest_digest (show_path offline_dir) m confirmed h) (
     pthen (apply_staged offline_surroundings example_offline (show_path offline_dir) (last offline_dir) m confirmed) (
     pthen (pmap_err (\<lambda>_. OffTransition) (transition AwaitingReboot)) (
     pthen (pupd (\<lambda>s. s\<lparr>es_record := (es_record s)\<lparr>last_completed_step := Some ''offline-apply''\<rparr>\<rparr>)) (
     pthen (pmap_err (\<lambda>_. OffPersist) (save offline_surroundings)) (
       remove_current offline_surroundings example_offline offline_dir)))))))"
  have hash: "succeeds applying_now (pget (\<lambda>s. op_plan_sha256 (es_record s))) (\<lambda>h s. h = replicate 64 CHR ''a'' \<and> applying_now s)"
    by (simp add: succeeds_def pget_def offline_record_fields)
  have "succeeds (\<lambda>s. s = offline_start\<lparr>es_record := offline_record ApplyingOffline 8 None\<rparr>) (?rest (example_manifest, example_plan)) (\<lambda>_ _. True)"
    unfolding prod.case
    by (rule succeeds_pthen [OF offline_save], rule succeeds_fact [OF hash], simp only:,
        rule succeeds_keep [OF revalidate_runs], rule succeeds_keep [OF apply_runs], rule offline_finish)
  then obtain t where "?rest (example_manifest, example_plan) (offline_start\<lparr>es_record := offline_record ApplyingOffline 8 None\<rparr>) = (Inr (), t)"
    unfolding succeeds_def by auto
  with offline_start_run show ?thesis
    unfolding run_offline_def by (simp only: prog_Inr) blast
qed

lemma offline_main_example:
  "\<exists>t. offline_main offline_surroundings example_offline staging_digest staging_manifest_digest False offline_start = (0, t) \<and>
     run_offline offline_surroundings example_offline staging_digest staging_manifest_digest offline_dir offline_start = (Inr (), t)"
proof -
  obtain t where "run_offline offline_surroundings example_offline staging_digest staging_manifest_digest offline_dir offline_start = (Inr (), t)"
    using offline_run_succeeds by blast
  then show ?thesis
    by (simp add: offline_main_def offline_facts step_run finish_owned_operation_def)
qed

lemma offline_main_reboots:
  "\<exists>earlier. es_trace (snd (offline_main offline_surroundings example_offline staging_digest staging_manifest_digest True offline_start)) =
     Ran ''/usr/bin/systemctl'' [''--no-block'', ''reboot''] # earlier"
proof -
  obtain t where run: "run_offline offline_surroundings example_offline staging_digest staging_manifest_digest offline_dir offline_start = (Inr (), t)"
    using offline_run_succeeds by blast
  have "UnlinkedMarker \<in> set (es_trace t)" using run_offline_result [OF run] by blast
  then have absent: "node_at (of_fs example_offline (es_trace t)) MARKER = Inl ENOENT"
    by (simp only: offline_view_fields) code_simp
  show ?thesis
    by (simp add: offline_main_def offline_facts step_run finish_owned_operation_def run reboot_after_cleanup_def
        look_def [THEN fun_cong] absent offline_start_def [symmetric] es_trace_offline_start)
qed

lemma example_command_commits:
  assumes "transaction_arguments example_manifest (pl_installed_packages example_plan) ModeApply = Inr args"
  shows "commits (Ran ''zypper'' (context_arguments (show_path offline_dir) @ [''--xmlout'', ''--non-interactive'', ''--no-refresh''] @ args))"
proof -
  have "(case transaction_arguments example_manifest (pl_installed_packages example_plan) ModeApply of Inl _ \<Rightarrow> False
    | Inr args \<Rightarrow> commits (Ran ''zypper'' (context_arguments (show_path offline_dir) @ [''--xmlout'', ''--non-interactive'', ''--no-refresh''] @ args)))"
    by code_simp
  with assms show ?thesis by simp
qed

section \<open>Properties\<close>

text \<open>
  C4: During the boot, packages are changed only for an operation whose record says so: every run of zypper
  that is not a dry run comes after a record in state \<open>ApplyingOffline\<close> with a snapshot has been saved.
\<close>

theorem offline_changes_follow_record:
  assumes "es_trace s = []" and "es_trace (snd (offline_main env view sha msha reboot s)) = later @ e # earlier" and "commits e"
  shows "\<exists>r. Saved r \<in> set earlier \<and> op_state r = ApplyingOffline \<and> snapshot_number r \<noteq> None"
proof -
  have "apply_guarded (snd (offline_main env view sha msha reboot s))"
    by (rule offline_main_guarded) (simp add: assms(1))
  then have "applying_saved earlier" using assms(2,3) by (auto dest: guardedD)
  then show ?thesis by (simp add: applying_saved_def)
qed

theorem offline_changes_follow_record_witness:
  "\<exists>later e earlier r. commits e \<and>
     es_trace (snd (offline_main offline_surroundings example_offline staging_digest staging_manifest_digest False offline_start)) =
       later @ e # earlier \<and> Saved r \<in> set earlier \<and> op_state r = ApplyingOffline \<and> snapshot_number r \<noteq> None"
proof -
  obtain t where t: "offline_main offline_surroundings example_offline staging_digest staging_manifest_digest False offline_start = (0, t)"
    "run_offline offline_surroundings example_offline staging_digest staging_manifest_digest offline_dir offline_start = (Inr (), t)"
    using offline_main_example by blast
  from run_offline_ran [OF t(2) offline_view_fields(3,4)] obtain args where
    args: "transaction_arguments example_manifest (pl_installed_packages example_plan) ModeApply = Inr args" and
    ran: "Ran ''zypper'' (context_arguments (show_path offline_dir) @ [''--xmlout'', ''--non-interactive'', ''--no-refresh''] @ args) \<in> set (es_trace t)"
    by blast
  let ?e = "Ran ''zypper'' (context_arguments (show_path offline_dir) @ [''--xmlout'', ''--non-interactive'', ''--no-refresh''] @ args)"
  from ran obtain later earlier where split: "es_trace t = later @ ?e # earlier" by (meson split_list)
  have c: "commits ?e" by (rule example_command_commits [OF args])
  have e: "es_trace offline_start = []" by (simp add: offline_start_def)
  have w: "es_trace (snd (offline_main offline_surroundings example_offline staging_digest staging_manifest_digest False offline_start)) = later @ ?e # earlier"
    by (simp add: t(1) split)
  from offline_changes_follow_record [OF e w c] w c show ?thesis by blast
qed



text \<open>
  The machine is rebooted only when no request is left: whenever the offline executor runs
  \<open>systemctl reboot\<close>, the marker did not exist at that moment, so a request that replaced the executor's own
  one, even a dangling link, is never rebooted over.
\<close>

theorem reboot_only_without_request:
  assumes "es_trace s = []" and "es_trace (snd (offline_main env view sha msha reboot s)) = later @ Ran ''/usr/bin/systemctl'' args # earlier"
  shows "reboot \<and> node_at (of_fs view earlier) MARKER = Inl ENOENT"
proof -
  let ?r = "Ran ''/usr/bin/systemctl'' args"
  have "reboot_guarded view (snd (offline_main env view sha msha reboot s))"
    by (rule offline_main_reboot) (simp add: assms(1))
  then have "marker_absent view earlier" using assms(2) by (auto simp: reboots_def dest: guardedD)
  moreover have reboot
  proof (rule ccontr)
    assume "\<not> reboot"
    then have "list_all (harmless applying_run) (es_trace (snd (offline_main env view sha msha False s)))"
      by (intro offline_main_harmless assms(1))
    with assms(2) \<open>\<not> reboot\<close> show False by (simp add: applying_run_def)
  qed
  ultimately show ?thesis by (simp add: marker_absent_def)
qed

theorem reboot_only_without_request_witness:
  "\<exists>earlier. es_trace (snd (offline_main offline_surroundings example_offline staging_digest staging_manifest_digest True offline_start)) =
     [] @ Ran ''/usr/bin/systemctl'' [''--no-block'', ''reboot''] # earlier \<and> node_at (of_fs example_offline earlier) MARKER = Inl ENOENT"
proof -
  obtain earlier where w: "es_trace (snd (offline_main offline_surroundings example_offline staging_digest staging_manifest_digest True offline_start)) =
     [] @ Ran ''/usr/bin/systemctl'' [''--no-block'', ''reboot''] # earlier" using offline_main_reboots by auto
  have e: "es_trace offline_start = []" by (simp add: offline_start_def)
  from reboot_only_without_request [OF e w] w show ?thesis by blast
qed

text \<open>
  C9: Whatever system call fails while the live repository set is replaced, no partially written set is ever
  active: after success the live directory holds exactly the signed manifest's repositories and the backup the old
  set; after a failure the live directory is the old one, or, only if both renames failed, it is absent and
  the old set and the complete new one lie beside it.
\<close>

theorem repository_set_is_never_partial:
  assumes "rd_live s = Some old" and "install_repository_set m oid s = (r, t)"
  shows "case r of
      Inr _ \<Rightarrow> rd_live t = Some (map (\<lambda>r. (repo_name r, repo_content oid r)) (mf_repositories m)) \<and> rd_backup t = Some old
    | Inl _ \<Rightarrow> rd_live t = Some old \<or> rd_live t = None \<and> rd_backup t = Some old \<and>
        rd_staging t = Some (map (\<lambda>r. (repo_name r, repo_content oid r)) (mf_repositories m))"
  using install_valid [of old m oid] assms unfolding valid_def new_files_def by (fastforce split: sum.splits)

theorem repository_set_is_never_partial_witness:
  "\<exists>t. install_repository_set example_manifest ''x'' \<lparr>rd_live = Some [(''a.repo'', ''old'')], rd_staging = None, rd_backup = None,
       rd_answers = [Works, Works, Works, Works, Works, Breaks 0]\<rparr> = (Inl (), t) \<and>
     (rd_live t = Some [(''a.repo'', ''old'')] \<or> rd_live t = None \<and> rd_backup t = Some [(''a.repo'', ''old'')])"
proof -
  let ?s = "\<lparr>rd_live = Some [(''a.repo'', ''old'')], rd_staging = None, rd_backup = None,
       rd_answers = [Works, Works, Works, Works, Works, Breaks 0]\<rparr>"
  have live: "rd_live ?s = Some [(''a.repo'', ''old'')]" by simp
  have "fst (install_repository_set example_manifest ''x'' ?s) = Inl ()" by code_simp
  then obtain t where run: "install_repository_set example_manifest ''x'' ?s = (Inl (), t)" by (metis prod.collapse)
  from repository_set_is_never_partial [OF live run] run show ?thesis by auto
qed

text \<open>
  Only a request that names a Lyra operation is acted on: if the offline executor changes anything or
  fails after choosing an operation, the marker is a symbolic link whose target is a directory directly below the
  canonical operations directory. Requests of other programs are left untouched, with exit code zero.
\<close>

theorem only_owned_requests:
  assumes "resolve_request fs marker root = Inr (Some dir)"
  shows "\<exists>absolute target canonical name. read_link fs marker = Inr (absolute, target) \<and> resolve fs root = Inr canonical \<and>
    dir = canonical @ [name] \<and> is_dir (fs dir) \<and>
    normalize_onto [] (if absolute then target else butlast marker @ target) = root @ [name]"
  using resolve_request_Some [OF assms] .

theorem only_owned_requests_witness:
  "\<exists>name. offline_dir = STATE_ROOT @ [name] \<and> is_dir (example_marker_fs offline_dir)"
proof -
  have "resolve example_marker_fs STATE_ROOT = Inr STATE_ROOT" by code_simp
  with only_owned_requests [OF offline_checks(2)] show ?thesis by auto
qed

end
