(* ===== verification/Discovery.thy ===== *)
theory Discovery
  imports Preflight
begin

text \<open>
  \<open>core/src/discovery.rs\<close>: what the programs know of the host. The trait \<open>DiscoveryBackend\<close> is the record
  \<open>discovery_backend\<close>, and \<open>system_backend\<close> builds the production one from what the host answers. The reader of the JSON of
  \<open>findmnt\<close> is a parameter.
\<close>

section \<open>Backends\<close>

record command_output =
  co_success :: bool
  co_stdout :: string

datatype discover_error = ReadFailed string | CommandFailed string | CommandNotAllowed | InvalidRelease | InvalidRepository string
  | InvalidPowerState | InvalidPackageManagerState | InvalidPackageInventory

record discovery_backend =
  db_read :: "string \<Rightarrow> discover_error + string"
  db_read_dir :: "string \<Rightarrow> discover_error + string list"
  db_available_bytes :: "string \<Rightarrow> discover_error + u64"
  db_run :: "string \<Rightarrow> string list \<Rightarrow> discover_error + command_output"

definition mount_probe :: "string \<Rightarrow> string list" where
  "mount_probe target = [''--json'', ''--target'', target, ''--output'', ''TARGET,OPTIONS,MAJ:MIN'']"

definition filesystem_probe :: "string list" where
  "filesystem_probe = [''--noheadings'', ''--output'', ''FSTYPE'', ''/'']"

definition snapper_probe :: "string list" where
  "snapper_probe = [''--no-dbus'', ''--config'', ''root'', ''get-config'']"

definition repositories_probe :: "string list" where
  "repositories_probe = [''--non-interactive'', ''--no-refresh'', ''lr'', ''--details'']"

definition locks_probe :: "string list" where
  "locks_probe = [''--non-interactive'', ''--no-refresh'', ''locks'']"

definition orphans_probe :: "string list" where
  "orphans_probe = [''--non-interactive'', ''--no-refresh'', ''packages'', ''--orphaned'']"

definition allowed_probe :: "string \<Rightarrow> string list \<Rightarrow> bool" where
  "allowed_probe program arguments = ((program, arguments) \<in> set [
     (''findmnt'', filesystem_probe), (''findmnt'', mount_probe ''/''), (''findmnt'', mount_probe ''/home''),
     (''findmnt'', mount_probe ''/boot/efi''), (''snapper'', snapper_probe), (''rpm'', [''--verifydb'']),
     (''mokutil'', [''--sb-state'']), (''zypper'', repositories_probe), (''zypper'', locks_probe), (''zypper'', orphans_probe)])"

text \<open>
  What the host answers: the text of a file, the entries of a directory (an entry that fails, or a name that is not UTF-8), the free
  blocks and their size, and the end of a command with the bytes of its output.
\<close>

datatype dir_entry = EntryFailed | EntryNotUtf8 | EntryName string

record system_host =
  sh_file :: "string \<Rightarrow> string option"
  sh_dir :: "string \<Rightarrow> dir_entry list option"
  sh_statvfs :: "string \<Rightarrow> (u64 \<times> u64) option"
  sh_command :: "string \<Rightarrow> string list \<Rightarrow> (bool \<times> string) option"

definition sat_mul :: "u64 \<Rightarrow> u64 \<Rightarrow> u64" where
  "sat_mul a b = (if uint a * uint b < 2 ^ 64 then a * b else - 1)"

fun entry_names :: "dir_entry list \<Rightarrow> discover_error + string list" where
  "entry_names [] = Inr []"
| "entry_names (EntryFailed # es) = Inl (ReadFailed ''system-directory-entry'')"
| "entry_names (EntryNotUtf8 # es) = Inl (ReadFailed ''non-utf8-directory-entry'')"
| "entry_names (EntryName n # es) = rbind (entry_names es) (\<lambda>ns. Inr (n # ns))"

definition system_run :: "system_host \<Rightarrow> string \<Rightarrow> string list \<Rightarrow> discover_error + command_output" where
  "system_run host program arguments =
     (if \<not> allowed_probe program arguments then Inl CommandNotAllowed
      else rbind (ok_or (sh_command host program arguments) (CommandFailed program)) (\<lambda>(success, bytes).
        if is_utf8 bytes then Inr \<lparr>co_success = success, co_stdout = bytes\<rparr> else Inl (CommandFailed program)))"

definition system_backend :: "system_host \<Rightarrow> discovery_backend" where
  "system_backend host = \<lparr>
     db_read = (\<lambda>p. ok_or (sh_file host p) (ReadFailed ''system-file'')),
     db_read_dir = (\<lambda>p. rbind (ok_or (sh_dir host p) (ReadFailed ''system-directory'')) (\<lambda>es.
        rbind (entry_names es) (\<lambda>ns. Inr (sort ns)))),
     db_available_bytes = (\<lambda>p. if CHR 0x00 \<in> set p then Inl (ReadFailed ''filesystem-space'')
        else rbind (ok_or (sh_statvfs host p) (ReadFailed ''filesystem-space'')) (\<lambda>(bavail, frsize). Inr (sat_mul bavail frsize))),
     db_run = system_run host\<rparr>"

section \<open>The release\<close>

definition parse_assignment :: "string \<Rightarrow> string \<Rightarrow> string option" where
  "parse_assignment content name =
     (case List.map_filter (\<lambda>line. strip_prefix line (name @ ''='')) (str_lines content) of
        [v] \<Rightarrow> Option.bind (strip_prefix v [CHR 0x27]) (\<lambda>rest. strip_suffix rest [CHR 0x27])
      | _ \<Rightarrow> None)"

definition is_safe_release_byte :: "char \<Rightarrow> bool" where
  "is_safe_release_byte c = (is_ascii_alphanumeric c \<or> c \<in> {CHR ''.'', CHR ''-'', CHR ''_''})"

definition release_text_ok :: "string \<Rightarrow> bool" where
  "release_text_ok s = (s \<noteq> [] \<and> list_all is_safe_release_byte s)"

definition parse_release :: "string \<Rightarrow> discover_error + release_identity" where
  "parse_release content =
     (if parse_assignment content ''LYRA_EDITION'' \<noteq> Some ''desktop'' then Inl InvalidRelease
      else rbind (ok_or (parse_assignment content ''LYRA_VERSION_ID'') InvalidRelease) (\<lambda>v.
        rbind (ok_or (parse_assignment content ''LYRA_ARCHITECTURE'') InvalidRelease) (\<lambda>a.
        rbind (ok_or (parse_assignment content ''LYRA_BUILD_ID'') InvalidRelease) (\<lambda>b.
          if release_text_ok v \<and> release_text_ok a \<and> release_text_ok b
          then Inr \<lparr>ri_version = v, ri_edition = ''desktop'', ri_architecture = a, ri_build_id = b\<rparr> else Inl InvalidRelease))))"

text \<open>A root directory is given without a final separator, so the root of the host is the empty text.\<close>

definition PRODUCT_RELEASE :: string where
  "PRODUCT_RELEASE = ''/usr/lib/lyra-os/product-release''"

definition release_identity_at :: "system_host \<Rightarrow> string \<Rightarrow> discover_error + release_identity" where
  "release_identity_at host root = rbind (db_read (system_backend host) (root @ PRODUCT_RELEASE)) parse_release"

section \<open>Power\<close>

record power_scan =
  pw_batteries :: "u8 list"
  pw_online :: bool
  pw_unknown :: bool

definition supply_name_ok :: "string \<Rightarrow> bool" where
  "supply_name_ok entry = list_all (\<lambda>c. is_ascii_alphanumeric c \<or> c \<in> {CHR ''-'', CHR ''_'', CHR '':''}) entry"

definition POWER_SUPPLY :: string where
  "POWER_SUPPLY = ''/sys/class/power_supply''"

definition scan_supply :: "discovery_backend \<Rightarrow> string \<Rightarrow> power_scan \<Rightarrow> discover_error + power_scan" where
  "scan_supply backend entry scan =
     (if \<not> supply_name_ok entry then Inl InvalidPowerState
      else let base = POWER_SUPPLY @ ''/'' @ entry in
        rbind (map_err (\<lambda>_. InvalidPowerState) (db_read backend (base @ ''/type''))) (\<lambda>kind.
          if trim kind = ''Battery'' then
            (case db_read backend (base @ ''/capacity'') of
               Inr capacity \<Rightarrow>
                 rbind (ok_or (opt_filter (\<lambda>p. p \<le> 100) (parse_u8 (trim capacity))) InvalidPowerState) (\<lambda>percent.
                   Inr (scan\<lparr>pw_batteries := pw_batteries scan @ [percent]\<rparr>))
             | Inl _ \<Rightarrow> Inr (scan\<lparr>pw_unknown := True\<rparr>))
          else if trim kind \<in> {''Mains'', ''USB'', ''USB_C''} then
            Inr (scan\<lparr>pw_online := (pw_online scan \<or> (case db_read backend (base @ ''/online'') of Inr v \<Rightarrow> trim v = ''1'' | Inl _ \<Rightarrow> False))\<rparr>)
          else Inr scan))"

fun scan_supplies :: "discovery_backend \<Rightarrow> string list \<Rightarrow> power_scan \<Rightarrow> discover_error + power_scan" where
  "scan_supplies backend [] scan = Inr scan"
| "scan_supplies backend (e # es) scan = rbind (scan_supply backend e scan) (scan_supplies backend es)"

definition power_result :: "power_scan \<Rightarrow> bool \<times> u8 option" where
  "power_result scan =
     (if pw_unknown scan then (\<not> pw_online scan, None)
      else if pw_batteries scan = [] then (False, None)
      else (\<not> pw_online scan, Some (Min (set (pw_batteries scan)))))"

definition discover_power :: "discovery_backend \<Rightarrow> discover_error + bool \<times> u8 option" where
  "discover_power backend =
     rbind (map_err (\<lambda>_. InvalidPowerState) (db_read_dir backend POWER_SUPPLY)) (\<lambda>entries.
     rbind (scan_supplies backend entries \<lparr>pw_batteries = [], pw_online = False, pw_unknown = False\<rparr>) (\<lambda>scan.
       Inr (power_result scan)))"

section \<open>Secure boot and the package manager\<close>

definition discover_secure_boot :: "discovery_backend \<Rightarrow> bool option" where
  "discover_secure_boot backend = (case db_run backend ''mokutil'' [''--sb-state''] of
      Inl _ \<Rightarrow> None
    | Inr out \<Rightarrow> if \<not> co_success out then None
        else let normalized = to_ascii_lowercase (co_stdout out) in
          if contains_str normalized ''secureboot enabled'' then Some True
          else if contains_str normalized ''secureboot disabled'' then Some False else None)"

definition discover_package_lock :: "discovery_backend \<Rightarrow> discover_error + bool" where
  "discover_package_lock backend = (case db_read backend ''/run/zypp.pid'' of
      Inl _ \<Rightarrow> Inr True
    | Inr marker \<Rightarrow> if trim marker = [] then Inr True
        else rbind (ok_or (opt_filter (\<lambda>pid. 0 < pid) (parse_u32 (trim marker))) InvalidPackageManagerState) (\<lambda>pid.
          Inr (\<not> is_ok (db_read backend (''/proc/'' @ show_nat (unat pid) @ ''/comm'')))))"

definition successful_stdout :: "command_output \<Rightarrow> string \<Rightarrow> discover_error + string" where
  "successful_stdout out command = (if co_success out then Inr (co_stdout out) else Inl (CommandFailed command))"

section \<open>Repositories\<close>

definition alias_ok :: "string \<Rightarrow> bool" where
  "alias_ok s = (s \<noteq> [] \<and> list_all (\<lambda>c. is_ascii_alphanumeric c \<or> c \<in> {CHR ''.'', CHR ''-'', CHR ''_'', CHR '':''}) s)"

definition official_alias :: "string \<Rightarrow> bool" where
  "official_alias s = (s \<in> {''repo-oss'', ''repo-non-oss'', ''repo-lyra'', ''repo-vega'', ''repo-fina''})"

definition repository_row :: "string list \<Rightarrow> repository_fact" where
  "repository_row cells = (let enabled = eq_ignore_ascii_case (cells ! 3) ''yes''; gpg_check = ends_with (to_ascii_lowercase (cells ! 4)) ''yes'' in
     \<lparr>rf_alias = cells ! 1, rf_enabled = enabled, rf_official = official_alias (cells ! 1), rf_metadata_valid = (\<not> enabled),
      rf_signing_key_trusted = (\<not> enabled \<or> gpg_check)\<rparr>)"

definition row_cells :: "string \<Rightarrow> string list" where
  "row_cells line = map trim (split_on (CHR ''|'') line)"

fun repository_rows :: "string list \<Rightarrow> discover_error + repository_fact list" where
  "repository_rows [] = Inr []"
| "repository_rows (line # ls) = (let cells = row_cells line in
     if length cells < 8 \<or> parse_usize (cells ! 0) = None then repository_rows ls
     else if \<not> alias_ok (cells ! 1) then Inl (InvalidRepository (cells ! 1))
     else rbind (repository_rows ls) (\<lambda>rs. Inr (repository_row cells # rs)))"

definition discover_repositories :: "discovery_backend \<Rightarrow> discover_error + repository_fact list" where
  "discover_repositories backend =
     rbind (db_run backend ''zypper'' repositories_probe) (\<lambda>out.
     rbind (successful_stdout out ''zypper-lr'') (\<lambda>stdout.
     rbind (repository_rows (str_lines stdout)) (\<lambda>rs. Inr (sort_key rf_alias rs))))"

section \<open>Locks and orphans\<close>

datatype inventory_kind = Locks | Orphans

definition table_header :: "inventory_kind \<Rightarrow> string list" where
  "table_header k = (case k of
      Locks \<Rightarrow> [''#'', ''Name'', ''Type'', ''Repository'', ''Comment'']
    | Orphans \<Rightarrow> [''S'', ''Repository'', ''Name'', ''Version'', ''Arch''])"

definition empty_message :: "inventory_kind \<Rightarrow> string" where
  "empty_message k = (case k of Locks \<Rightarrow> ''There are no package locks defined.'' | Orphans \<Rightarrow> ''No packages found.'')"

definition name_index :: "inventory_kind \<Rightarrow> nat" where
  "name_index k = (case k of Locks \<Rightarrow> 1 | Orphans \<Rightarrow> 2)"

definition inventory_row_ok :: "inventory_kind \<Rightarrow> string list \<Rightarrow> bool" where
  "inventory_row_ok k cells = (length cells = 5 \<and> cells ! name_index k \<noteq> [] \<and> \<not> list_ex is_control (chars (cells ! name_index k)) \<and>
     (case k of
        Locks \<Rightarrow> is_some_and (parse_usize (cells ! 0)) (\<lambda>n. 0 < n)
      | Orphans \<Rightarrow> starts_with (cells ! 0) ''i'' \<and> cells ! 3 \<noteq> [] \<and> cells ! 4 \<noteq> []))"

record table_scan =
  ts_table :: bool
  ts_empty_seen :: bool
  ts_values :: "string list"

definition scan_row :: "inventory_kind \<Rightarrow> string \<Rightarrow> table_scan \<Rightarrow> discover_error + table_scan" where
  "scan_row k line scan =
     (if line = empty_message k then Inr (scan\<lparr>ts_empty_seen := True\<rparr>)
      else let cells = map trim (splitn 5 (CHR ''|'') line) in
        if cells = table_header k then (if ts_table scan then Inl InvalidPackageInventory else Inr (scan\<lparr>ts_table := True\<rparr>))
        else if \<not> ts_table scan \<or> list_all (\<lambda>c. c \<in> {CHR ''-'', CHR ''+''}) line then Inr scan
        else if \<not> inventory_row_ok k cells then Inl InvalidPackageInventory
        else Inr (scan\<lparr>ts_values := ts_values scan @ [cells ! name_index k]\<rparr>))"

fun scan_rows :: "inventory_kind \<Rightarrow> string list \<Rightarrow> table_scan \<Rightarrow> discover_error + table_scan" where
  "scan_rows k [] scan = Inr scan"
| "scan_rows k (l # ls) scan = rbind (scan_row k l scan) (scan_rows k ls)"

definition package_inventory :: "command_output \<Rightarrow> inventory_kind \<Rightarrow> discover_error + string list" where
  "package_inventory out k =
     rbind (successful_stdout out ''zypper-inventory'') (\<lambda>stdout.
     rbind (scan_rows k (filter (\<lambda>l. l \<noteq> []) (map trim (str_lines stdout))) \<lparr>ts_table = False, ts_empty_seen = False, ts_values = []\<rparr>) (\<lambda>scan.
       if (\<not> ts_table scan \<and> \<not> ts_empty_seen scan) \<or> (ts_empty_seen scan \<and> ts_values scan \<noteq> []) then Inl InvalidPackageInventory
       else Inr (sort_dedup (ts_values scan))))"

section \<open>Mounts\<close>

record mount =
  mt_target :: string
  mt_options :: string
  mt_device :: string

definition subvolume_of :: "mount \<Rightarrow> u64 option" where
  "subvolume_of m = (case List.map_filter (\<lambda>opt. Option.bind (strip_prefix opt ''subvolid='') parse_u64) (split_on (CHR '','') (mt_options m)) of
      [] \<Rightarrow> None | v # _ \<Rightarrow> Some v)"

definition home_is_isolated :: "mount \<Rightarrow> mount \<Rightarrow> bool" where
  "home_is_isolated root home =
     (if mt_target home \<noteq> ''/home'' \<or> mt_device root = [] \<or> mt_device home = [] then False
      else if mt_device root \<noteq> mt_device home then True
      else case (subvolume_of root, subvolume_of home) of (Some r, Some h) \<Rightarrow> r \<noteq> h | _ \<Rightarrow> False)"

definition has_option :: "string \<Rightarrow> mount \<Rightarrow> bool" where
  "has_option opt m = (opt \<in> set (split_on (CHR '','') (mt_options m)))"

definition probe_mount :: "(string \<Rightarrow> mount list option) \<Rightarrow> discovery_backend \<Rightarrow> string \<Rightarrow> discover_error + mount" where
  "probe_mount json backend target =
     rbind (db_run backend ''findmnt'' (mount_probe target)) (\<lambda>out.
     if \<not> co_success out then Inl (ReadFailed ''mount-layout'')
     else case json (co_stdout out) of Some [m] \<Rightarrow> Inr m | _ \<Rightarrow> Inl (ReadFailed ''mount-layout''))"

definition esp_space :: "(string \<Rightarrow> mount list option) \<Rightarrow> discovery_backend \<Rightarrow> string list \<Rightarrow> discover_error + u64 option" where
  "esp_space json backend firmware =
     (if ''efi'' \<in> set firmware then
        rbind (probe_mount json backend ''/boot/efi'') (\<lambda>esp.
          if mt_target esp \<noteq> ''/boot/efi'' \<or> \<not> has_option ''rw'' esp then Inl (ReadFailed ''esp-not-writable'')
          else rbind (db_available_bytes backend ''/boot/efi'') (\<lambda>n. Inr (Some n)))
      else Inr None)"

definition discover_storage :: "(string \<Rightarrow> mount list option) \<Rightarrow> discovery_backend \<Rightarrow> discover_error + storage_facts" where
  "discover_storage json backend =
     rbind (probe_mount json backend ''/'') (\<lambda>root.
     rbind (probe_mount json backend ''/home'') (\<lambda>home.
     rbind (db_read_dir backend ''/sys/firmware'') (\<lambda>firmware.
     rbind (esp_space json backend firmware) (\<lambda>esp.
     rbind (db_available_bytes backend ''/boot'') (\<lambda>boot.
       Inr \<lparr>root_writable = (mt_target root = ''/'' \<and> has_option ''rw'' root \<and> \<not> has_option ''degraded'' root),
            home_isolated = home_is_isolated root home, boot_available_bytes = boot, esp_available_bytes = esp\<rparr>)))))"

section \<open>The host\<close>

definition discover_host :: "(string \<Rightarrow> mount list option) \<Rightarrow> discovery_backend \<Rightarrow> discover_error + host_facts" where
  "discover_host json backend =
     rbind (db_read backend PRODUCT_RELEASE) (\<lambda>content.
     rbind (parse_release content) (\<lambda>release.
     rbind (db_run backend ''findmnt'' filesystem_probe) (\<lambda>out.
     rbind (successful_stdout out ''findmnt'') (\<lambda>fstype.
     rbind (db_run backend ''snapper'' snapper_probe) (\<lambda>snapper.
     rbind (db_run backend ''rpm'' [''--verifydb'']) (\<lambda>rpm.
     rbind (discover_package_lock backend) (\<lambda>lock_free.
     rbind (db_available_bytes backend ''/'') (\<lambda>available.
     rbind (discover_power backend) (\<lambda>(battery, percent).
     rbind (discover_repositories backend) (\<lambda>repositories.
     rbind (db_run backend ''zypper'' locks_probe) (\<lambda>locks_out.
     rbind (package_inventory locks_out Locks) (\<lambda>held.
     rbind (db_run backend ''zypper'' orphans_probe) (\<lambda>orphans_out.
     rbind (package_inventory orphans_out Orphans) (\<lambda>orphaned.
     rbind (discover_storage json backend) (\<lambda>storage.
       Inr \<lparr>hf_release = release, root_filesystem = to_ascii_lowercase (trim fstype), snapper_root_configured = co_success snapper,
         rpm_database_healthy = co_success rpm, package_lock_free = lock_free, hf_available_bytes = available,
         required_download_bytes = 0, required_transaction_bytes = 0, required_snapshot_bytes = 0, on_battery = battery,
         battery_percent = percent, secure_boot_enabled = discover_secure_boot backend, hf_repositories = repositories,
         hf_held_packages = held, hf_installed_packages = [], hf_storage = Some storage, hf_orphaned_packages = orphaned\<rparr>)))))))))))))))"

section \<open>Lemmas: tables of packages\<close>

definition row_cells5 :: "string \<Rightarrow> string list" where
  "row_cells5 line = map trim (splitn 5 (CHR ''|'') line)"

definition is_header :: "inventory_kind \<Rightarrow> string \<Rightarrow> bool" where
  "is_header k line = (line \<noteq> empty_message k \<and> row_cells5 line = table_header k)"

text \<open>The rows of a table: what follows the first header, without messages and separators.\<close>

definition is_row :: "inventory_kind \<Rightarrow> string \<Rightarrow> bool" where
  "is_row k line = (line \<noteq> empty_message k \<and> \<not> list_all (\<lambda>c. c \<in> {CHR ''-'', CHR ''+''}) line)"

definition table_body :: "inventory_kind \<Rightarrow> string list \<Rightarrow> string list" where
  "table_body k ls = tl (dropWhile (\<lambda>l. \<not> is_header k l) ls)"

definition table_rows :: "inventory_kind \<Rightarrow> string list \<Rightarrow> string list" where
  "table_rows k ls = filter (is_row k) (table_body k ls)"

definition output_lines :: "string \<Rightarrow> string list" where
  "output_lines stdout = filter (\<lambda>l. l \<noteq> []) (map trim (str_lines stdout))"

lemma split_once_None: "c \<notin> set s \<Longrightarrow> split_once c s = None"
  by (induction s) auto

lemma header_is_row:
  assumes "is_header k l"
  shows "is_row k l"
proof (rule ccontr)
  assume "\<not> is_row k l"
  then have "list_all (\<lambda>c. c \<in> {CHR ''-'', CHR ''+''}) l" using assms by (auto simp: is_row_def is_header_def)
  then have "CHR ''|'' \<notin> set l" by (auto simp: list_all_iff)
  then have "splitn 5 (CHR ''|'') l = [l]" by (simp add: eval_nat_numeral split_once_None)
  then show False using assms by (cases k) (auto simp: is_header_def row_cells5_def table_header_def)
qed

lemma header_row_bad: "is_header k l \<Longrightarrow> \<not> inventory_row_ok k (row_cells5 l)"
  by (cases k) (auto simp: is_header_def inventory_row_ok_def table_header_def parse_usize_def parse_u64_def parse_unsigned_def drop_plus_def
      is_ascii_digit_def less_eq_char_def starts_with_def)

definition row_name :: "inventory_kind \<Rightarrow> string \<Rightarrow> string" where
  "row_name k l = row_cells5 l ! name_index k"

lemma message_no_row [simp]: "\<not> is_row k (empty_message k)"
  by (simp add: is_row_def)

lemma scan_row_cases:
  "scan_row k l scan =
     (if l = empty_message k then Inr (scan\<lparr>ts_empty_seen := True\<rparr>)
      else if is_header k l then (if ts_table scan then Inl InvalidPackageInventory else Inr (scan\<lparr>ts_table := True\<rparr>))
      else if \<not> ts_table scan \<or> \<not> is_row k l then Inr scan
      else if \<not> inventory_row_ok k (row_cells5 l) then Inl InvalidPackageInventory
      else Inr (scan\<lparr>ts_values := ts_values scan @ [row_name k l]\<rparr>))"
  by (simp add: scan_row_def row_name_def is_header_def is_row_def row_cells5_def Let_def)

lemma scan_rows_table:
  "ts_table scan \<Longrightarrow> scan_rows k ls scan =
     (if list_all (\<lambda>l. inventory_row_ok k (row_cells5 l)) (filter (is_row k) ls)
      then Inr (scan\<lparr>ts_empty_seen := (ts_empty_seen scan \<or> empty_message k \<in> set ls),
                     ts_values := ts_values scan @ map (row_name k) (filter (is_row k) ls)\<rparr>)
      else Inl InvalidPackageInventory)"
proof (induction ls arbitrary: scan)
  case (Cons l ls)
  show ?case
  proof (cases "is_header k l")
    case True
    then show ?thesis using Cons.prems header_is_row [OF True] header_row_bad [OF True]
      by (simp add: scan_row_cases is_header_def)
  next
    case False
    then show ?thesis using Cons.prems Cons.IH
      by (auto simp: scan_row_cases)
  qed
qed simp

lemma scan_rows_start:
  "\<not> ts_table scan \<Longrightarrow> scan_rows k ls scan =
     (if list_all (\<lambda>l. inventory_row_ok k (row_cells5 l)) (table_rows k ls)
      then Inr (scan\<lparr>ts_table := list_ex (is_header k) ls, ts_empty_seen := (ts_empty_seen scan \<or> empty_message k \<in> set ls),
                     ts_values := ts_values scan @ map (row_name k) (table_rows k ls)\<rparr>)
      else Inl InvalidPackageInventory)"
proof (induction ls arbitrary: scan)
  case Nil
  then show ?case by (simp add: table_rows_def table_body_def)
next
  case (Cons l ls)
  show ?case
  proof (cases "is_header k l")
    case True
    then show ?thesis using Cons.prems
      by (auto simp: scan_row_cases is_header_def table_rows_def table_body_def scan_rows_table)
  next
    case False
    then show ?thesis using Cons.prems Cons.IH
      by (auto simp: scan_row_cases table_rows_def table_body_def)
  qed
qed

text \<open>
  C40: The tables of \<open>zypper\<close> are read exactly: a successful command gives the sorted names of all rows below the header, which must all be
  well formed, or nothing when it says that there are none; an output without table and message, one with both a message and rows, a
  second header, a damaged row and a failed command are errors and never an empty inventory.
\<close>

theorem package_inventory_reads_the_table:
  "package_inventory out k = (let ls = output_lines (co_stdout out); rows = table_rows k ls in
     if \<not> co_success out then Inl (CommandFailed ''zypper-inventory'')
     else if (list_ex (is_header k) ls \<or> empty_message k \<in> set ls) \<and> list_all (\<lambda>l. inventory_row_ok k (row_cells5 l)) rows \<and>
             \<not> (empty_message k \<in> set ls \<and> rows \<noteq> [])
       then Inr (sort_dedup (map (row_name k) rows)) else Inl InvalidPackageInventory)"
  by (auto simp: package_inventory_def successful_stdout_def scan_rows_start output_lines_def [symmetric] Let_def)

section \<open>Lemmas: the closed list of probes\<close>

definition guarded :: "discovery_backend \<Rightarrow> discovery_backend" where
  "guarded b = b\<lparr>db_run := (\<lambda>p a. if allowed_probe p a then db_run b p a else Inl CommandNotAllowed)\<rparr>"

lemma guarded_simps [simp]:
  "db_read (guarded b) = db_read b" "db_read_dir (guarded b) = db_read_dir b" "db_available_bytes (guarded b) = db_available_bytes b"
  "allowed_probe p a \<Longrightarrow> db_run (guarded b) p a = db_run b p a"
  by (simp_all add: guarded_def)

lemma allowed_probes [simp]:
  "allowed_probe ''findmnt'' filesystem_probe" "allowed_probe ''findmnt'' (mount_probe ''/'')" "allowed_probe ''findmnt'' (mount_probe ''/home'')"
  "allowed_probe ''findmnt'' (mount_probe ''/boot/efi'')" "allowed_probe ''snapper'' snapper_probe" "allowed_probe ''rpm'' [''--verifydb'']"
  "allowed_probe ''mokutil'' [''--sb-state'']" "allowed_probe ''zypper'' repositories_probe" "allowed_probe ''zypper'' locks_probe"
  "allowed_probe ''zypper'' orphans_probe"
  by (simp_all add: allowed_probe_def)

lemma guarded_reads: "db_read (guarded b) = db_read b" "db_read_dir (guarded b) = db_read_dir b"
  "db_available_bytes (guarded b) = db_available_bytes b"
  by simp_all

lemmas guarded_runs = allowed_probes [THEN guarded_simps(4)]

lemma scan_supplies_guarded: "scan_supplies (guarded b) es = scan_supplies b es"
proof (induction es)
  case (Cons e es)
  have "scan_supply (guarded b) e = scan_supply b e" unfolding scan_supply_def guarded_reads ..
  with Cons.IH show ?case by (intro ext) simp
qed (intro ext, simp)

lemma discover_host_guarded: "discover_host json (guarded b) = discover_host json b"
  unfolding discover_host_def discover_package_lock_def discover_power_def scan_supplies_guarded discover_repositories_def
    discover_storage_def probe_mount_def esp_space_def discover_secure_boot_def guarded_reads guarded_runs ..

text \<open>
  \<open>clean m\<close>: the error of a command outside the list is not the result. The trait's implementations refuse exactly the commands
  outside the list; that is what a client of a backend may rely on.
\<close>

definition clean :: "discover_error + 'a \<Rightarrow> bool" where
  "clean m = (m \<noteq> Inl CommandNotAllowed)"

lemma clean_Inr [simp]: "clean (Inr a)"
  by (simp add: clean_def)

lemma clean_Inl [simp]: "clean (Inl e) = (e \<noteq> CommandNotAllowed)"
  by (simp add: clean_def)

lemma clean_rbind: "clean m \<Longrightarrow> (\<And>a. m = Inr a \<Longrightarrow> clean (f a)) \<Longrightarrow> clean (rbind m f)"
  by (cases m) (auto simp: clean_def)

lemma clean_ok_or: "e \<noteq> CommandNotAllowed \<Longrightarrow> clean (ok_or x e)"
  by (cases x) auto

lemma clean_map_err: "(\<And>e. g e \<noteq> CommandNotAllowed) \<Longrightarrow> clean (map_err g m)"
  by (cases m) auto

lemmas clean_intros = clean_rbind clean_ok_or clean_map_err

lemma clean_parse_release: "clean (parse_release content)"
  unfolding parse_release_def by (auto intro!: clean_intros)

lemma clean_scan_supply: "clean (scan_supply b e scan)"
  unfolding scan_supply_def Let_def by (auto intro!: clean_intros split: sum.split)

lemma clean_scan_supplies: "clean (scan_supplies b es scan)"
  by (induction es arbitrary: scan) (auto intro!: clean_intros clean_scan_supply)

lemma clean_successful_stdout: "clean (successful_stdout out c)"
  by (simp add: successful_stdout_def)

lemma clean_repository_rows: "clean (repository_rows ls)"
  by (induction ls) (auto intro!: clean_intros simp: Let_def)

lemma clean_package_inventory: "clean (package_inventory out k)"
  unfolding package_inventory_reads_the_table by (simp add: Let_def)

locale closed_backend =
  fixes backend :: discovery_backend
  assumes run_closed: "db_run backend p a = Inl CommandNotAllowed \<longleftrightarrow> \<not> allowed_probe p a"
    and read_clean: "db_read backend f \<noteq> Inl CommandNotAllowed"
    and dir_clean: "db_read_dir backend f \<noteq> Inl CommandNotAllowed"
    and space_clean: "db_available_bytes backend f \<noteq> Inl CommandNotAllowed"
begin

lemma clean_run: "allowed_probe p a \<Longrightarrow> clean (db_run backend p a)"
  by (simp add: clean_def run_closed)

lemma clean_read: "clean (db_read backend f)" "clean (db_read_dir backend f)" "clean (db_available_bytes backend f)"
  by (simp_all add: clean_def read_clean dir_clean space_clean)

lemma clean_probe_mount: "allowed_probe ''findmnt'' (mount_probe t) \<Longrightarrow> clean (probe_mount json backend t)"
  unfolding probe_mount_def by (auto intro!: clean_intros clean_run split: option.split list.split)

lemma clean_storage: "clean (discover_storage json backend)"
  unfolding discover_storage_def esp_space_def by (auto intro!: clean_intros clean_probe_mount clean_read)

lemma host_clean: "discover_host json backend \<noteq> Inl CommandNotAllowed"
proof -
  have "clean (discover_host json backend)"
    unfolding discover_host_def discover_power_def discover_repositories_def discover_package_lock_def
    by (auto intro!: clean_intros clean_run clean_read clean_parse_release clean_successful_stdout clean_scan_supplies clean_repository_rows
        clean_package_inventory clean_storage split: sum.split prod.split)
  then show ?thesis by (simp add: clean_def)
qed

end

lemma entry_names_clean: "clean (entry_names es)"
  by (induction es rule: entry_names.induct) (auto intro!: clean_intros)

interpretation system: closed_backend "system_backend host" for host
proof
  show "db_run (system_backend host) p a = Inl CommandNotAllowed \<longleftrightarrow> \<not> allowed_probe p a" for p a
    by (auto simp: system_backend_def system_run_def ok_or_def split: option.splits if_splits)
  show "db_read (system_backend host) f \<noteq> Inl CommandNotAllowed" for f
    by (simp add: system_backend_def ok_or_Inl_iff)
  have "clean (db_read_dir (system_backend host) f)" for f
    by (auto simp: system_backend_def intro!: clean_intros entry_names_clean)
  then show "db_read_dir (system_backend host) f \<noteq> Inl CommandNotAllowed" for f by (simp add: clean_def)
  have "clean (db_available_bytes (system_backend host) f)" for f
    by (auto simp: system_backend_def intro!: clean_intros)
  then show "db_available_bytes (system_backend host) f \<noteq> Inl CommandNotAllowed" for f by (simp add: clean_def)
qed

text \<open>
  Discovery stays on its closed list of commands: it finds the same facts on a backend that refuses every other command, also
  where it would swallow the refusal, and in production it never ends with the error of a refused command.
\<close>

theorem discovery_stays_on_the_list:
  "discover_host json (guarded b) = discover_host json b \<and> discover_host json (system_backend host) \<noteq> Inl CommandNotAllowed"
  using discover_host_guarded system.host_clean by blast

section \<open>Lemmas: power\<close>

definition supply_file :: "string \<Rightarrow> string \<Rightarrow> string" where
  "supply_file e name = POWER_SUPPLY @ ''/'' @ e @ ''/'' @ name"

definition is_battery :: "discovery_backend \<Rightarrow> string \<Rightarrow> bool" where
  "is_battery b e = (\<exists>kind. db_read b (supply_file e ''type'') = Inr kind \<and> trim kind = ''Battery'')"

definition charge :: "discovery_backend \<Rightarrow> string \<Rightarrow> u8 option" where
  "charge b e = (case db_read b (supply_file e ''capacity'') of
      Inr capacity \<Rightarrow> opt_filter (\<lambda>p. p \<le> 100) (parse_u8 (trim capacity)) | Inl _ \<Rightarrow> None)"

lemma scan_supply_Inr:
  assumes "scan_supply b e s = Inr t"
  shows "set (pw_batteries s) \<subseteq> set (pw_batteries t) \<and> (pw_unknown s \<longrightarrow> pw_unknown t) \<and>
    (is_battery b e \<longrightarrow> pw_unknown t \<or> (\<exists>p. charge b e = Some p \<and> p \<in> set (pw_batteries t)))"
  using assms by (cases s; cases t) (auto simp: scan_supply_def Let_def rbind_Inr_iff map_err_Inr_iff ok_or_Inr_iff is_battery_def charge_def supply_file_def
      split: if_splits sum.splits)

lemma scan_supplies_Inr:
  "scan_supplies b es s = Inr t \<Longrightarrow> set (pw_batteries s) \<subseteq> set (pw_batteries t) \<and> (pw_unknown s \<longrightarrow> pw_unknown t) \<and>
    (\<forall>e\<in>set es. is_battery b e \<longrightarrow> pw_unknown t \<or> (\<exists>p. charge b e = Some p \<and> p \<in> set (pw_batteries t)))"
proof (induction es arbitrary: s)
  case (Cons e es)
  from Cons.prems obtain u where u: "scan_supply b e s = Inr u" "scan_supplies b es u = Inr t" by (auto simp: rbind_Inr_iff)
  from scan_supply_Inr [OF u(1)] Cons.IH [OF u(2)] show ?case by fastforce
qed simp

lemma discover_power_Inr:
  assumes "discover_power b = Inr (onb, Some p)" and "db_read_dir b POWER_SUPPLY = Inr es" and "e \<in> set es" and "is_battery b e"
  shows "\<exists>q. charge b e = Some q \<and> p \<le> q"
proof -
  from assms(1,2) obtain t where t: "scan_supplies b es \<lparr>pw_batteries = [], pw_online = False, pw_unknown = False\<rparr> = Inr t"
    and r: "power_result t = (onb, Some p)" by (auto simp: discover_power_def rbind_Inr_iff)
  then have "\<not> pw_unknown t" "pw_batteries t \<noteq> []" "p = Min (set (pw_batteries t))" by (auto simp: power_result_def split: if_splits)
  with scan_supplies_Inr [OF t] assms(3,4) show ?thesis by fastforce
qed

text \<open>
  A host that passes the preflight on battery has enough charge in every battery: if discovery and the preflight succeed and the
  host runs on battery, the charge of each power supply of type battery could be read, is a percentage and is at least the minimum of
  the policy.
\<close>

theorem passed_preflight_has_charge:
  assumes "discover_host json b = Inr facts" and "passed (evaluate_preflight facts policy)" and "on_battery facts"
    and "db_read_dir b POWER_SUPPLY = Inr es" and "e \<in> set es" and "is_battery b e"
  shows "\<exists>q. charge b e = Some q \<and> minimum_battery_percent policy \<le> q \<and> q \<le> 100"
proof -
  have "power_ok facts policy" using assms(2) by (simp add: preflight_passed_ready host_ready_def)
  then obtain p where p: "battery_percent facts = Some p" "minimum_battery_percent policy \<le> p"
    using assms(3) by (auto simp: power_ok_def split: option.splits)
  have "discover_power b = Inr (on_battery facts, battery_percent facts)"
    using assms(1) by (auto simp: discover_host_def rbind_Inr_iff)
  with p discover_power_Inr [OF _ assms(4,5,6)] obtain q where "charge b e = Some q" "p \<le> q" by auto
  moreover have "q \<le> 100" using calculation by (auto simp: charge_def opt_filter_def split: sum.splits option.splits if_splits)
  ultimately show ?thesis using p by auto
qed

section \<open>Lemmas: the release file\<close>

lemma split_on_line: "c \<notin> set l \<Longrightarrow> split_on c (l @ c # rest) = l # split_on c rest"
  by (induction l) auto

lemma str_lines_line: "CHR 0x0A \<notin> set l \<Longrightarrow> str_lines (l @ CHR 0x0A # rest) = strip_cr l # str_lines rest"
  by (simp add: str_lines_def split_on_line Let_def)

lemma str_lines_Nil: "str_lines [] = []"
  by (simp add: str_lines_def)

definition assignment :: "string \<Rightarrow> string \<Rightarrow> string" where
  "assignment name v = name @ ''='' @ [CHR 0x27] @ v @ [CHR 0x27]"

definition release_file :: "release_identity \<Rightarrow> string" where
  "release_file r = concat (map (\<lambda>l. l @ [CHR 0x0A]) [assignment ''LYRA_EDITION'' (ri_edition r), assignment ''LYRA_ARCHITECTURE'' (ri_architecture r),
     assignment ''LYRA_VERSION_ID'' (ri_version r), assignment ''LYRA_BUILD_ID'' (ri_build_id r)])"

lemma safe_text: "release_text_ok v \<Longrightarrow> CHR 0x0A \<notin> set v"
  by (auto simp: release_text_ok_def list_all_iff is_safe_release_byte_def is_ascii_alphanumeric_def is_ascii_digit_def
      is_ascii_lowercase_def is_ascii_uppercase_def less_eq_char_def)

lemma strip_cr_assignment: "strip_cr (assignment name v) = assignment name v"
  by (simp add: strip_cr_def strip_suffix_def ends_with_def starts_with_def assignment_def)

lemma release_lines:
  assumes "release_text_ok (ri_version r)" "release_text_ok (ri_architecture r)" "release_text_ok (ri_build_id r)" "ri_edition r = ''desktop''"
  shows "str_lines (release_file r) = [assignment ''LYRA_EDITION'' ''desktop'', assignment ''LYRA_ARCHITECTURE'' (ri_architecture r),
     assignment ''LYRA_VERSION_ID'' (ri_version r), assignment ''LYRA_BUILD_ID'' (ri_build_id r)]"
proof -
  have nl: "CHR 0x0A \<notin> set (assignment name v)" if "CHR 0x0A \<notin> set name" "CHR 0x0A \<notin> set v" for name v
    using that by (simp add: assignment_def)
  show ?thesis using assms
    by (simp add: release_file_def str_lines_line nl safe_text strip_cr_assignment str_lines_Nil)
qed

lemma quoted: "Option.bind (strip_prefix ([CHR 0x27] @ v @ [CHR 0x27]) [CHR 0x27]) (\<lambda>rest. strip_suffix rest [CHR 0x27]) = Some v"
  by (simp add: strip_prefix_def strip_suffix_def ends_with_def starts_with_def)

text \<open>
  The file that states the installed release is read back: for texts of the characters a release may have, the four
  assignments give exactly that release.
\<close>

theorem release_file_reads_back:
  assumes "release_text_ok (ri_version r)" and "release_text_ok (ri_architecture r)" and "release_text_ok (ri_build_id r)"
    and "ri_edition r = ''desktop''"
  shows "parse_release (release_file r) = Inr r"
proof -
  have "parse_assignment (release_file r) ''LYRA_EDITION'' = Some ''desktop''"
    "parse_assignment (release_file r) ''LYRA_ARCHITECTURE'' = Some (ri_architecture r)"
    "parse_assignment (release_file r) ''LYRA_VERSION_ID'' = Some (ri_version r)"
    "parse_assignment (release_file r) ''LYRA_BUILD_ID'' = Some (ri_build_id r)"
    unfolding parse_assignment_def release_lines [OF assms]
    by (simp_all add: List.map_filter_simps assignment_def strip_prefix_def starts_with_def strip_suffix_def ends_with_def)
  then show ?thesis using assms by (cases r) (simp add: parse_release_def)
qed

theorem release_file_reads_back_witness:
  "parse_release (release_file \<lparr>ri_version = ''1.0'', ri_edition = ''desktop'', ri_architecture = ''x86_64'', ri_build_id = ''b''\<rparr>) =
     Inr \<lparr>ri_version = ''1.0'', ri_edition = ''desktop'', ri_architecture = ''x86_64'', ri_build_id = ''b''\<rparr>"
proof -
  have "release_text_ok ''1.0''" "release_text_ok ''x86_64''" "release_text_ok ''b''" by code_simp+
  then show ?thesis by (intro release_file_reads_back) simp_all
qed

definition example_probe_host :: system_host where
  "example_probe_host = \<lparr>
     sh_file = (\<lambda>p. if p = PRODUCT_RELEASE then Some (release_file \<lparr>ri_version = ''1'', ri_edition = ''desktop'', ri_architecture = ''x86_64'', ri_build_id = ''b''\<rparr>)
        else if p = supply_file ''B'' ''type'' then Some ''Battery'' else if p = supply_file ''B'' ''capacity'' then Some ''80'' else None),
     sh_dir = (\<lambda>p. if p = POWER_SUPPLY then Some [EntryName ''B''] else Some []),
     sh_statvfs = (\<lambda>_. Some (9, 1073741824)),
     sh_command = (\<lambda>p a. Some (True, if p = ''findmnt'' then (if a = filesystem_probe then ''btrfs'' else if a = mount_probe ''/'' then ''r'' else ''h'')
        else if p = ''mokutil'' then ''SecureBoot enabled'' else if a = locks_probe then empty_message Locks
        else if a = orphans_probe then empty_message Orphans else []))\<rparr>"

definition example_mounts :: "string \<Rightarrow> mount list option" where
  "example_mounts s = Some [\<lparr>mt_target = if s = ''r'' then ''/'' else ''/home'', mt_options = ''rw'', mt_device = s\<rparr>]"

lemma example_discovery:
  "case discover_host example_mounts (system_backend example_probe_host) of
     Inr facts \<Rightarrow> on_battery facts \<and> battery_percent facts = Some 80 \<and> passed (evaluate_preflight facts default_policy) | Inl _ \<Rightarrow> False"
  by code_simp

theorem passed_preflight_has_charge_witness:
  "\<exists>facts q. discover_host example_mounts (system_backend example_probe_host) = Inr facts \<and>
     charge (system_backend example_probe_host) ''B'' = Some q \<and> 40 \<le> q \<and> q \<le> 100"
proof -
  obtain facts where f: "discover_host example_mounts (system_backend example_probe_host) = Inr facts" "on_battery facts"
      "passed (evaluate_preflight facts default_policy)" using example_discovery by (auto split: sum.splits)
  have d: "db_read_dir (system_backend example_probe_host) POWER_SUPPLY = Inr [''B'']" by code_simp
  have "db_read (system_backend example_probe_host) (supply_file ''B'' ''type'') = Inr ''Battery''" "trim ''Battery'' = ''Battery''" by code_simp+
  then have "is_battery (system_backend example_probe_host) ''B''" unfolding is_battery_def by blast
  from passed_preflight_has_charge [OF f(1,3,2) d _ this] f(1) show ?thesis by (auto simp: default_policy_def)
qed

end
