(* ===== verification/Manifest_Fetch.thy ===== *)
theory Manifest_Fetch
  imports Manifest Persistence
begin

text \<open>
  \<open>service/src/manifest_fetch.rs\<close>: where a signed release manifest comes from and when it is believed, the
  channel, the replay record and the preview cache. The downloads (\<open>curl\<close>), the signature check (\<open>gpgv\<close>), the listing of a
  key (\<open>gpg\<close>), JSON, URL and time parsing are other programs and libraries: they are the fields of the record \<open>fetch_tools\<close>.
  Files are those of the theory File\_System.
\<close>

section \<open>Errors and tools\<close>

datatype fetch_error =
    FetchIo io_error | FetchDownload | Signature | FetchKey | FetchKeyMismatch | TooLarge | FetchJson
  | Route manifest_error | InvalidTime | NotYetValid | Expired | InvalidChannel | InvalidSequence

record base_url = url +
  bu_path :: string
  bu_join :: "string \<Rightarrow> string option"

text \<open>The document and the signature that the preview cache keeps, and its schema version.\<close>

record preview_cache =
  pv_schema_version :: u32
  pv_document :: string
  pv_signature :: string

record fetch_tools =
  ft_curl :: "string \<Rightarrow> io_error + string option"
  ft_private_dir :: "io_error + unit"
  ft_gpgv :: "string \<Rightarrow> string \<Rightarrow> io_error + bool"
  ft_gpg :: "string \<Rightarrow> io_error + string option"
  ft_json :: "string \<Rightarrow> release_manifest option"
  ft_cache_read :: "string \<Rightarrow> preview_cache option"
  ft_cache_write :: "preview_cache \<Rightarrow> string option"
  ft_parse_url :: "string \<Rightarrow> url option"
  ft_base_url :: "string \<Rightarrow> base_url option"
  ft_time :: "string \<Rightarrow> int option"
  ft_now :: int
  ft_updater_version :: string

record verified_manifest =
  vm_manifest :: release_manifest
  vm_document :: string
  vm_signature :: string

definition RELEASE_MANIFEST_URL :: string where
  "RELEASE_MANIFEST_URL = ''https://downloads.sourceforge.net/project/lyra/releases/1.1/desktop/releases-v1.json''"

definition RELEASE_MANIFEST_SIGNATURE_URL :: string where
  "RELEASE_MANIFEST_SIGNATURE_URL = ''https://downloads.sourceforge.net/project/lyra/releases/1.1/desktop/releases-v1.json.asc''"

definition TESTING_MANIFEST_BASE_URL_PATH :: path where
  "TESTING_MANIFEST_BASE_URL_PATH = [''etc'', ''lyra-upgrade'', ''testing-manifest-base-url'']"

definition MAX_MANIFEST_BYTES :: nat where
  "MAX_MANIFEST_BYTES = 1024 * 1024"

section \<open>Reading files\<close>

text \<open>
  \<open>read_regular\<close> opens without following a link in the last component and without blocking. Directories and special
  files can be opened, and are refused after that. (Hard links are not part of the file system model.)
\<close>

definition open_read :: "path \<Rightarrow> (io_error, path) act" where
  "open_read p = query (\<lambda>fs. rbind (locate fs p) (\<lambda>q. case fs q of
      None \<Rightarrow> Inl ENOENT
    | Some (Link _ _) \<Rightarrow> Inl ELOOP
    | Some _ \<Rightarrow> Inr q))"

definition handle_metadata :: "path \<Rightarrow> (io_error, node) act" where
  "handle_metadata q = query (\<lambda>fs. ok_or (fs q) EIO)"

definition read_handle :: "path \<Rightarrow> nat \<Rightarrow> (io_error, string) act" where
  "read_handle q limit = query (\<lambda>fs. case fs q of Some (File _ _ bytes _) \<Rightarrow> Inr (take limit bytes) | _ \<Rightarrow> Inl EISDIR)"

definition read_regular :: "path \<Rightarrow> nat \<Rightarrow> (fetch_error, string) act" where
  "read_regular p maximum =
     abind (raise_as FetchIo (open_read p)) (\<lambda>q.
     abind (raise_as FetchIo (handle_metadata q)) (\<lambda>n. case n of
        File _ _ content _ \<Rightarrow>
          if maximum < length content then throw TooLarge
          else abind (raise_as FetchIo (read_handle q (maximum + 1))) (\<lambda>bytes.
            if maximum < length bytes then throw TooLarge else ret bytes)
      | _ \<Rightarrow> throw InvalidSequence))"

text \<open>\<open>fs::read_to_string\<close>; bytes that are not UTF-8 are an error of the kind \<open>InvalidData\<close>.\<close>

definition read_to_string :: "path \<Rightarrow> (io_error, string) act" where
  "read_to_string p = query (\<lambda>fs. rbind (resolve fs p) (\<lambda>q. case fs q of
      Some (File _ _ bytes _) \<Rightarrow> if is_utf8 bytes then Inr bytes else Inl EINVAL
    | Some (Dir _ _) \<Rightarrow> Inl EISDIR
    | Some _ \<Rightarrow> Inl EINVAL
    | None \<Rightarrow> Inl ENOENT))"

section \<open>The replay record and the channel\<close>

text \<open>Bytes that are not UTF-8 are not digits either, so both errors of the code are one here.\<close>

definition parse_sequence :: "string \<Rightarrow> fetch_error + u64" where
  "parse_sequence bytes = (let text = (case strip_suffix bytes [newline] of Some t \<Rightarrow> t | None \<Rightarrow> bytes) in
     if text = [] \<or> \<not> list_all is_ascii_digit text then Inl InvalidSequence
     else ok_or (opt_filter (\<lambda>v. 0 < v) (parse_u64 text)) InvalidSequence)"

definition read_last_manifest_sequence :: "path \<Rightarrow> (fetch_error, u64 option) act" where
  "read_last_manifest_sequence p = attempt (read_regular p 32) (\<lambda>r. case r of
      Inr bytes \<Rightarrow> abind (of_result (parse_sequence bytes)) (\<lambda>v. ret (Some v))
    | Inl e \<Rightarrow> if e = FetchIo ENOENT
        then attempt (symlink_metadata p) (\<lambda>m. case m of Inr _ \<Rightarrow> throw InvalidSequence | Inl _ \<Rightarrow> ret None)
        else throw e)"

definition read_release_channel :: "path \<Rightarrow> (fetch_error, manifest_channel_policy) act" where
  "read_release_channel p = attempt (read_to_string p) (\<lambda>r. case r of
      Inr value \<Rightarrow> if trim value = ''stable'' then ret ChannelStable
        else if trim value = ''testing'' then ret ChannelTesting else throw InvalidChannel
    | Inl e \<Rightarrow> if e = ENOENT then ret ChannelStable else throw (FetchIo e))"

section \<open>Verification\<close>

definition validate_time_at :: "fetch_tools \<Rightarrow> release_manifest \<Rightarrow> int \<Rightarrow> fetch_error + unit" where
  "validate_time_at tools m now =
     rbind (ok_or (ft_time tools (mf_valid_from m)) InvalidTime) (\<lambda>from.
     rbind (ok_or (ft_time tools (mf_valid_until m)) InvalidTime) (\<lambda>until.
       if until \<le> from then Inl InvalidTime
       else if now < from then Inl NotYetValid
       else if until \<le> now then Inl Expired else Inr ()))"

definition verify_signature :: "fetch_tools \<Rightarrow> string \<Rightarrow> string \<Rightarrow> fetch_error + unit" where
  "verify_signature tools document signature =
     rbind (map_err FetchIo (ft_gpgv tools document signature)) (\<lambda>ok. ensure ok Signature)"

text \<open>The second half of \<open>verify_manifest_files\<close>, on the bytes that were read; the private copies hold the same bytes.\<close>

definition verify_manifest_bytes ::
  "fetch_tools \<Rightarrow> string \<Rightarrow> string \<Rightarrow> release_identity \<Rightarrow> u64 option \<Rightarrow> manifest_channel_policy \<Rightarrow> fetch_error + verified_manifest" where
  "verify_manifest_bytes tools document signature installed last_sequence channel =
     rbind (map_err FetchIo (ft_private_dir tools)) (\<lambda>_.
     rbind (verify_signature tools document signature) (\<lambda>_.
     rbind (ok_or (ft_json tools document) FetchJson) (\<lambda>m.
     rbind (map_err Route (validate_manifest_route (ft_parse_url tools) m installed last_sequence (ft_updater_version tools) channel)) (\<lambda>_.
     rbind (validate_time_at tools m (ft_now tools)) (\<lambda>_.
       Inr \<lparr>vm_manifest = m, vm_document = document, vm_signature = signature\<rparr>)))))"

definition verify_manifest_files ::
  "fetch_tools \<Rightarrow> path \<Rightarrow> path \<Rightarrow> release_identity \<Rightarrow> u64 option \<Rightarrow> manifest_channel_policy \<Rightarrow> (fetch_error, verified_manifest) act" where
  "verify_manifest_files tools document_path signature_path installed last_sequence channel =
     abind (read_regular document_path MAX_MANIFEST_BYTES) (\<lambda>document.
     abind (read_regular signature_path MAX_MANIFEST_BYTES) (\<lambda>signature.
       of_result (verify_manifest_bytes tools document signature installed last_sequence channel)))"

text \<open>The same on files of a fresh private directory, whose content is known.\<close>

definition verify_private_files ::
  "fetch_tools \<Rightarrow> string \<Rightarrow> string \<Rightarrow> release_identity \<Rightarrow> u64 option \<Rightarrow> manifest_channel_policy \<Rightarrow> fetch_error + verified_manifest" where
  "verify_private_files tools document signature installed last_sequence channel =
     (if MAX_MANIFEST_BYTES < length document \<or> MAX_MANIFEST_BYTES < length signature then Inl TooLarge
      else verify_manifest_bytes tools document signature installed last_sequence channel)"

section \<open>Downloads\<close>

definition download :: "fetch_tools \<Rightarrow> string \<Rightarrow> fetch_error + string" where
  "download tools url = rbind (map_err FetchIo (ft_curl tools url)) (\<lambda>r. ok_or r FetchDownload)"

fun scan_fingerprints :: "bool \<Rightarrow> string list \<Rightarrow> string list" where
  "scan_fingerprints primary [] = []"
| "scan_fingerprints primary (line # rest) =
     (let fields = split_on (CHR '':'') line; kind = hd fields in
      if kind = ''pub'' then scan_fingerprints True rest
      else if kind \<in> {''sub'', ''sec'', ''ssb''} then scan_fingerprints False rest
      else if kind = ''fpr'' \<and> primary \<and> 9 < length fields then fields ! 9 # scan_fingerprints False rest
      else scan_fingerprints primary rest)"

definition parse_fingerprints :: "string \<Rightarrow> string list" where
  "parse_fingerprints output = scan_fingerprints False (str_lines output)"

definition key_fingerprints :: "fetch_tools \<Rightarrow> string \<Rightarrow> fetch_error + string list" where
  "key_fingerprints tools key =
     rbind (map_err FetchIo (ft_private_dir tools)) (\<lambda>_.
     rbind (map_err FetchIo (ft_gpg tools key)) (\<lambda>r.
     rbind (ok_or r FetchKey) (\<lambda>output. Inr (parse_fingerprints output))))"

definition fetch_repository_key :: "fetch_tools \<Rightarrow> repository_transition \<Rightarrow> fetch_error + string" where
  "fetch_repository_key tools r =
     rbind (map_err (\<lambda>_. FetchKey) (download tools (rt_signing_key_url r))) (\<lambda>key.
       if MAX_MANIFEST_BYTES < length key then Inl TooLarge
       else rbind (key_fingerprints tools key) (\<lambda>fingerprints.
         if fingerprints \<noteq> [rt_signing_key_fingerprint r] then Inl FetchKeyMismatch else Inr key))"

fun fetch_keys :: "fetch_tools \<Rightarrow> repository_transition list \<Rightarrow> fetch_error + unit" where
  "fetch_keys tools [] = Inr ()"
| "fetch_keys tools (r # rs) = rbind (fetch_repository_key tools r) (\<lambda>_. fetch_keys tools rs)"

definition testing_manifest_urls :: "fetch_tools \<Rightarrow> path \<Rightarrow> (fetch_error, string \<times> string) act" where
  "testing_manifest_urls tools p =
     abind (raise_as FetchIo (symlink_metadata p)) (\<lambda>n. case n of
        File _ _ content _ \<Rightarrow>
          if 4096 < length content then throw InvalidChannel
          else abind (raise_as FetchIo (read_to_string p)) (\<lambda>value.
            if length (str_lines value) \<noteq> 1 \<or> trim value \<noteq> value then throw InvalidChannel
            else abind (of_result (ok_or (ft_base_url tools value) InvalidChannel)) (\<lambda>base.
              if scheme base \<noteq> ''https'' \<or> username base \<noteq> [] \<or> password base \<noteq> None \<or> url.query base \<noteq> None
                 \<or> fragment base \<noteq> None \<or> \<not> ends_with (bu_path base) ''/''
              then throw InvalidChannel
              else abind (of_result (ok_or (bu_join base ''releases-v1.json'') InvalidChannel)) (\<lambda>manifest.
                abind (of_result (ok_or (bu_join base ''releases-v1.json.asc'') InvalidChannel)) (\<lambda>signature.
                  ret (manifest, signature)))))
      | _ \<Rightarrow> throw InvalidChannel)"

definition manifest_urls :: "fetch_tools \<Rightarrow> manifest_channel_policy \<Rightarrow> (fetch_error, string \<times> string) act" where
  "manifest_urls tools channel =
     (if channel = ChannelStable then ret (RELEASE_MANIFEST_URL, RELEASE_MANIFEST_SIGNATURE_URL)
      else testing_manifest_urls tools TESTING_MANIFEST_BASE_URL_PATH)"

definition fetch_verified_manifest ::
  "fetch_tools \<Rightarrow> release_identity \<Rightarrow> u64 option \<Rightarrow> manifest_channel_policy \<Rightarrow> (fetch_error, verified_manifest) act" where
  "fetch_verified_manifest tools installed last_sequence channel =
     abind (of_result (map_err FetchIo (ft_private_dir tools))) (\<lambda>_.
     abind (manifest_urls tools channel) (\<lambda>(manifest_url, signature_url).
     abind (of_result (download tools manifest_url)) (\<lambda>document.
     abind (of_result (download tools signature_url)) (\<lambda>signature.
     abind (of_result (verify_private_files tools document signature installed last_sequence channel)) (\<lambda>verified.
     abind (of_result (fetch_keys tools (mf_repositories (vm_manifest verified)))) (\<lambda>_.
       ret verified))))))"

definition fetch_release_manifest ::
  "fetch_tools \<Rightarrow> release_identity \<Rightarrow> u64 option \<Rightarrow> manifest_channel_policy \<Rightarrow> (fetch_error, release_manifest) act" where
  "fetch_release_manifest tools installed last_sequence channel =
     abind (fetch_verified_manifest tools installed last_sequence channel) (\<lambda>v. ret (vm_manifest v))"

section \<open>The preview cache\<close>

text \<open>\<open>fs::create_dir_all\<close>.\<close>

definition is_directory :: "path \<Rightarrow> (io_error, bool) act" where
  "is_directory p = attempt (query (\<lambda>fs. rbind (resolve fs p) (\<lambda>q. Inr (is_dir (fs q))))) (\<lambda>r. case r of
      Inr b \<Rightarrow> ret b | Inl _ \<Rightarrow> ret False)"

definition or_directory :: "path \<Rightarrow> (io_error, unit) act \<Rightarrow> (io_error, unit) act" where
  "or_directory p m = attempt m (\<lambda>r. case r of
      Inr _ \<Rightarrow> ret ()
    | Inl e \<Rightarrow> abind (is_directory p) (\<lambda>b. if b then ret () else throw e))"

function create_dir_all :: "path \<Rightarrow> (io_error, unit) act" where
  "create_dir_all p = (if p = [] then ret ()
     else attempt (create_dir p) (\<lambda>r. case r of
        Inr _ \<Rightarrow> ret ()
      | Inl e \<Rightarrow> if e = ENOENT then abind (create_dir_all (butlast p)) (\<lambda>_. or_directory p (create_dir p))
                 else or_directory p (throw e)))"
  by pat_completeness auto
termination by (relation "measure length") (auto simp: length_greater_0_conv [symmetric] simp del: length_greater_0_conv)

declare create_dir_all.simps [simp del]

text \<open>
  A named temporary file is removed when it is dropped without having been moved to its place; \<open>nonce\<close> is its random
  name.
\<close>

definition write_cache :: "fetch_tools \<Rightarrow> path \<Rightarrow> path \<Rightarrow> path \<Rightarrow> verified_manifest \<Rightarrow> (fetch_error, unit) act" where
  "write_cache tools file temporary p v =
     abind (of_result (ensure (is_utf8 (vm_document v)) Signature)) (\<lambda>_.
     abind (of_result (ensure (is_utf8 (vm_signature v)) Signature)) (\<lambda>_.
     abind (of_result (ok_or (ft_cache_write tools \<lparr>pv_schema_version = 1, pv_document = vm_document v,
        pv_signature = vm_signature v\<rparr>) FetchJson)) (\<lambda>bytes.
     abind (raise_as (\<lambda>_. FetchJson) (write_all file bytes)) (\<lambda>_.
     abind (raise_as FetchIo (sync_all file)) (\<lambda>_.
       raise_as FetchIo (rename temporary p))))))"

definition save_preview_cache :: "fetch_tools \<Rightarrow> string \<Rightarrow> path \<Rightarrow> verified_manifest \<Rightarrow> (fetch_error, unit) act" where
  "save_preview_cache tools nonce p v =
     (if p = [] then throw InvalidChannel
      else let parent = butlast p; temporary = parent @ [nonce] in
        abind (raise_as FetchIo (create_dir_all parent)) (\<lambda>_.
        abind (raise_as FetchIo (create_new temporary 384)) (\<lambda>file.
        attempt (write_cache tools file temporary p v) (\<lambda>r. case r of
           Inl e \<Rightarrow> attempt (remove_file temporary) (\<lambda>_. throw e)
         | Inr _ \<Rightarrow> raise_as FetchIo (sync_dir parent)))))"

definition fetch_release_preview ::
  "fetch_tools \<Rightarrow> string \<Rightarrow> release_identity \<Rightarrow> u64 option \<Rightarrow> manifest_channel_policy \<Rightarrow> path \<Rightarrow>
   (fetch_error, verified_manifest \<times> bool) act" where
  "fetch_release_preview tools nonce installed last_sequence channel cache =
     attempt (fetch_verified_manifest tools installed last_sequence channel) (\<lambda>r. case r of
        Inr verified \<Rightarrow> attempt (save_preview_cache tools nonce cache verified) (\<lambda>_. ret (verified, False))
      | Inl e \<Rightarrow>
          if e = FetchDownload then
            abind (read_regular cache (4 * MAX_MANIFEST_BYTES)) (\<lambda>bytes.
            abind (of_result (ok_or (ft_cache_read tools bytes) FetchJson)) (\<lambda>cached.
              if pv_schema_version cached \<noteq> 1 then throw Signature
              else abind (of_result (map_err FetchIo (ft_private_dir tools))) (\<lambda>_.
                abind (of_result (verify_private_files tools (pv_document cached) (pv_signature cached) installed last_sequence channel))
                  (\<lambda>v. ret (v, True)))))
          else attempt (remove_file cache) (\<lambda>_. throw e))"

section \<open>Lemmas\<close>

text \<open>What makes a manifest believable for an installed release.\<close>

definition trusted ::
  "fetch_tools \<Rightarrow> release_identity \<Rightarrow> u64 option \<Rightarrow> manifest_channel_policy \<Rightarrow> verified_manifest \<Rightarrow> bool" where
  "trusted tools installed last_sequence channel v =
     (ft_gpgv tools (vm_document v) (vm_signature v) = Inr True \<and> ft_json tools (vm_document v) = Some (vm_manifest v) \<and>
      validate_manifest_route (ft_parse_url tools) (vm_manifest v) installed last_sequence (ft_updater_version tools) channel = Inr () \<and>
      (\<exists>from until. ft_time tools (mf_valid_from (vm_manifest v)) = Some from \<and> ft_time tools (mf_valid_until (vm_manifest v)) = Some until \<and>
         from \<le> ft_now tools \<and> ft_now tools < until))"

lemma validate_time_at_iff:
  "(validate_time_at tools m now = Inr ()) =
     (\<exists>from until. ft_time tools (mf_valid_from m) = Some from \<and> ft_time tools (mf_valid_until m) = Some until \<and> from \<le> now \<and> now < until)"
  by (cases "ft_time tools (mf_valid_from m)"; cases "ft_time tools (mf_valid_until m)") (auto simp: validate_time_at_def)

lemma verify_manifest_bytes_Inr:
  "verify_manifest_bytes tools d g installed seen channel = Inr v \<Longrightarrow>
     trusted tools installed seen channel v \<and> vm_document v = d \<and> vm_signature v = g"
  by (auto simp: verify_manifest_bytes_def trusted_def rbind_Inr_iff map_err_Inr_iff ok_or_Inr_iff ensure_Inr_iff
      verify_signature_def validate_time_at_iff ex_unit_iff)

lemma verify_private_files_Inr:
  "verify_private_files tools d g installed seen channel = Inr v \<Longrightarrow> trusted tools installed seen channel v"
  by (auto simp: verify_private_files_def dest: verify_manifest_bytes_Inr split: if_splits)

lemma open_read_Done:
  "open_read p w = (Done q, v) \<Longrightarrow> locate (w_fs w) p = Inr q \<and> w_fs v = w_fs w"
proof -
  have pick: "((case x of None \<Rightarrow> Inl ENOENT | Some (Link _ _) \<Rightarrow> Inl ELOOP | Some _ \<Rightarrow> Inr q') = Inr q) \<Longrightarrow> q' = q"
    for x :: "node option" and q' by (cases x; cases "the x") auto
  assume "open_read p w = (Done q, v)"
  then show ?thesis by (auto simp: open_read_def query_Done rbind_Inr_iff dest: pick)
qed

lemma read_regular_Done:
  assumes "read_regular p n w = (Done bytes, w')"
  shows "w_fs w' = w_fs w \<and> length bytes \<le> n \<and> (\<exists>u m s. node_at (w_fs w) p = Inr (File u m bytes s))"
proof -
  from assms obtain q n' v v' where o: "open_read p w = (Done q, v)" and h: "handle_metadata q v = (Done n', v')"
    and rest: "(case n' of File _ _ content _ \<Rightarrow> if n < length content then throw TooLarge
        else abind (raise_as FetchIo (read_handle q (n + 1))) (\<lambda>bytes. if n < length bytes then throw TooLarge else ret bytes)
      | _ \<Rightarrow> throw InvalidSequence) v' = (Done bytes, w')"
    unfolding read_regular_def by (auto simp: abind_Done raise_as_Done)
  from o have q: "locate (w_fs w) p = Inr q" and v: "w_fs v = w_fs w"
    by (auto dest: open_read_Done)
  from h have n': "w_fs w q = Some n'" and v': "w_fs v' = w_fs w"
    by (auto simp: handle_metadata_def query_Done ok_or_Inr_iff v)
  from rest obtain u m content s where f: "n' = File u m content s" and l: "length content \<le> n"
    by (cases n') (auto simp: throw_Done split: if_splits)
  with rest n' v' have "bytes = content" and "w_fs w' = w_fs w"
    by (auto simp: act_simps read_handle_def split: if_splits)
  with q n' f l show ?thesis by (auto simp: node_at_Inr_iff)
qed

lemma fetch_verified_Done:
  "fetch_verified_manifest tools installed seen channel w = (Done v, w') \<Longrightarrow>
     trusted tools installed seen channel v \<and> fetch_keys tools (mf_repositories (vm_manifest v)) = Inr ()"
  by (auto simp: fetch_verified_manifest_def act_simps split: prod.splits dest!: verify_private_files_Inr)

lemma fetch_keys_iff:
  "(fetch_keys tools rs = Inr ()) = (\<forall>r\<in>set rs. \<exists>key. fetch_repository_key tools r = Inr key)"
  by (induction rs) (auto simp: rbind_Inr_iff)

lemma preview_Done:
  assumes "fetch_release_preview tools nonce installed seen channel cache w = (Done (v, stale), w')"
  shows "trusted tools installed seen channel v \<and>
    (if stale then \<exists>w1. fetch_verified_manifest tools installed seen channel w = (Raised FetchDownload, w1)
     else \<exists>w1. fetch_verified_manifest tools installed seen channel w = (Done v, w1))"
proof -
  obtain out w1 where run: "fetch_verified_manifest tools installed seen channel w = (out, w1)" by fastforce
  show ?thesis
  proof (cases out)
    case (Done x)
    with assms run have "v = x \<and> \<not> stale"
      by (auto simp: fetch_release_preview_def attempt_def ret_def split: prod.splits outcome.splits)
    with fetch_verified_Done [of tools installed seen channel w x w1] run Done show ?thesis by auto
  next
    case (Raised e)
    with assms run show ?thesis
      by (cases "e = FetchDownload")
        (auto simp: fetch_release_preview_def act_simps dest!: verify_private_files_Inr split: if_splits)
  qed (use assms run in \<open>auto simp: fetch_release_preview_def attempt_def\<close>)
qed

section \<open>Example\<close>

definition example_offer :: release_manifest where
  "example_offer = example_manifest\<lparr>mf_valid_until := ''z''\<rparr>"

definition example_fingerprints :: string where
  "example_fingerprints = ''pub:x'' @ [newline] @ ''fpr:::::::::'' @ replicate 40 CHR ''A'' @ '':'' @ [newline] @ ''sub:y''"

definition example_tools :: fetch_tools where
  "example_tools = \<lparr>ft_curl = (\<lambda>url. Inr (Some (if url = RELEASE_MANIFEST_URL then ''doc'' else if url = RELEASE_MANIFEST_SIGNATURE_URL then ''sig'' else ''key''))),
     ft_private_dir = Inr (), ft_gpgv = (\<lambda>d g. Inr (d = ''doc'' \<and> g = ''sig'')),
     ft_gpg = (\<lambda>_. Inr (Some example_fingerprints)), ft_json = (\<lambda>d. if d = ''doc'' then Some example_offer else None),
     ft_cache_read = (\<lambda>_. Some \<lparr>pv_schema_version = 1, pv_document = ''doc'', pv_signature = ''sig''\<rparr>), ft_cache_write = (\<lambda>_. Some ''c''),
     ft_parse_url = (\<lambda>_. Some \<lparr>scheme = ''https'', host_str = Some ''a'', username = [], password = None, query = None, fragment = None\<rparr>),
     ft_base_url = (\<lambda>_. None), ft_time = (\<lambda>t. Some (int (length t))), ft_now = 0, ft_updater_version = ''0.3.0''\<rparr>"

definition example_files :: "string \<Rightarrow> fs" where
  "example_files document p = (if p = [] then Some (Dir 0 448) else if p = [''d''] then Some (File 0 384 document True)
     else if p = [''s''] then Some (File 0 384 ''sig'' True) else None)"

abbreviation example_verified :: verified_manifest where
  "example_verified \<equiv> \<lparr>vm_manifest = example_offer, vm_document = ''doc'', vm_signature = ''sig''\<rparr>"

lemma example_reads:
  "length d \<le> n \<Longrightarrow> read_regular [''d''] n (quiet 0 (example_files d)) = (Done d, quiet 0 (example_files d))"
  "3 \<le> n \<Longrightarrow> read_regular [''s''] n (quiet 0 (example_files d)) = (Done ''sig'', quiet 0 (example_files d))"
  by (simp_all add: read_regular_def abind_def raise_as_def attempt_def open_read_def handle_metadata_def read_handle_def query_def
      locate_def rbind_def MAX_LINKS_def example_files_def ret_def)

lemma example_bytes:
  "verify_manifest_bytes example_tools ''doc'' ''sig'' example_release (Some 4) ChannelStable = Inr example_verified"
  "verify_manifest_bytes example_tools ''doc'' ''sig'' example_release None ChannelStable = Inr example_verified"
  "verify_manifest_bytes (example_tools\<lparr>ft_curl := (\<lambda>_. Inr None)\<rparr>) ''doc'' ''sig'' example_release None ChannelStable = Inr example_verified"
  by code_simp+

lemma example_fields:
  "ft_private_dir example_tools = Inr ()" "ft_curl example_tools RELEASE_MANIFEST_URL = Inr (Some ''doc'')"
  "ft_curl example_tools RELEASE_MANIFEST_SIGNATURE_URL = Inr (Some ''sig'')" "ft_curl example_tools ''https://a'' = Inr (Some ''key'')"
  "ft_cache_read example_tools d = Some \<lparr>pv_schema_version = 1, pv_document = ''doc'', pv_signature = ''sig''\<rparr>"
  by (simp_all add: example_tools_def RELEASE_MANIFEST_URL_def RELEASE_MANIFEST_SIGNATURE_URL_def)

lemma example_key: "key_fingerprints example_tools ''key'' = Inr [replicate 40 CHR ''A'']"
  by code_simp

section \<open>Properties\<close>



text \<open>
  A manifest that was fetched comes with the keys it names: for every repository the key that was downloaded
  lists exactly one primary key, and its fingerprint is the one of the signed manifest.
\<close>

theorem fetched_keys_match:
  assumes "fetch_verified_manifest tools installed seen channel w = (Done v, w')" and "r \<in> set (mf_repositories (vm_manifest v))"
  shows "\<exists>key listing. ft_curl tools (rt_signing_key_url r) = Inr (Some key) \<and> length key \<le> MAX_MANIFEST_BYTES \<and>
    ft_gpg tools key = Inr (Some listing) \<and> parse_fingerprints listing = [rt_signing_key_fingerprint r]"
proof -
  from fetch_verified_Done [OF assms(1)] assms(2) obtain key where "fetch_repository_key tools r = Inr key"
    by (auto simp: fetch_keys_iff)
  then show ?thesis
    by (auto simp: fetch_repository_key_def download_def key_fingerprints_def rbind_Inr_iff map_err_Inr_iff ok_or_Inr_iff split: if_splits)
qed

theorem fetched_keys_match_witness:
  "\<exists>v w'. fetch_verified_manifest example_tools example_release None ChannelStable (quiet 0 (example_files ''doc'')) = (Done v, w') \<and>
     (\<exists>r. r \<in> set (mf_repositories (vm_manifest v)) \<and>
       (\<exists>key listing. ft_gpg example_tools key = Inr (Some listing) \<and> parse_fingerprints listing = [rt_signing_key_fingerprint r]))"
proof -
  let ?v = "\<lparr>vm_manifest = example_offer, vm_document = ''doc'', vm_signature = ''sig''\<rparr>"
  have "fst (fetch_verified_manifest example_tools example_release None ChannelStable (quiet 0 (example_files ''doc''))) = Done ?v"
    by (simp add: fetch_verified_manifest_def abind_def manifest_urls_def ret_def of_result_def verify_private_files_def MAX_MANIFEST_BYTES_def
        example_bytes download_def example_fields map_err_def example_offer_def example_manifest_def
        fetch_repository_key_def example_key)
  then obtain w' where run: "fetch_verified_manifest example_tools example_release None ChannelStable (quiet 0 (example_files ''doc'')) = (Done ?v, w')"
    by (metis prod.collapse)
  have r: "hd (mf_repositories (vm_manifest ?v)) \<in> set (mf_repositories (vm_manifest ?v))"
    by (simp add: example_offer_def example_manifest_def)
  from fetched_keys_match [OF run r] run r show ?thesis by blast
qed

text \<open>
  The preview shows nothing that would not be believed now: what \<open>fetch_release_preview\<close> returns is signed, valid for the
  installed release and in time, and the cache is used only when the download failed, never after a response that was
  refused.
\<close>

theorem preview_is_trusted:
  assumes "fetch_release_preview tools nonce installed seen channel cache w = (Done (v, stale), w')"
  shows "ft_gpgv tools (vm_document v) (vm_signature v) = Inr True \<and> ft_json tools (vm_document v) = Some (vm_manifest v) \<and>
    validate_manifest_route (ft_parse_url tools) (vm_manifest v) installed seen (ft_updater_version tools) channel = Inr () \<and>
    validate_time_at tools (vm_manifest v) (ft_now tools) = Inr () \<and>
    (stale \<longrightarrow> (\<exists>w1. fetch_verified_manifest tools installed seen channel w = (Raised FetchDownload, w1)))"
  using preview_Done [OF assms] by (auto simp: trusted_def validate_time_at_iff split: if_splits)

theorem preview_is_trusted_witness:
  "\<exists>w'. fetch_release_preview (example_tools\<lparr>ft_curl := (\<lambda>_. Inr None)\<rparr>) ''t'' example_release None ChannelStable [''d'']
        (quiet 0 (example_files ''cached'')) = (Done (\<lparr>vm_manifest = example_offer, vm_document = ''doc'', vm_signature = ''sig''\<rparr>, True), w') \<and>
     ft_gpgv example_tools ''doc'' ''sig'' = Inr True"
proof -
  let ?t = "example_tools\<lparr>ft_curl := (\<lambda>_. Inr None)\<rparr>"
  have "fst (fetch_release_preview ?t ''t'' example_release None ChannelStable [''d''] (quiet 0 (example_files ''cached''))) =
      Done (example_verified, True)"
    by (simp add: fetch_release_preview_def fetch_verified_manifest_def attempt_def abind_def manifest_urls_def ret_def throw_def of_result_def
        verify_private_files_def MAX_MANIFEST_BYTES_def example_bytes example_reads download_def map_err_def example_fields)
  then obtain w' where run: "fetch_release_preview ?t ''t'' example_release None ChannelStable [''d''] (quiet 0 (example_files ''cached'')) =
      (Done (\<lparr>vm_manifest = example_offer, vm_document = ''doc'', vm_signature = ''sig''\<rparr>, True), w')" by (metis prod.collapse)
  with preview_is_trusted [OF run] show ?thesis by simp
qed

end
