(* ===== verification/Verifier.thy ===== *)
theory Verifier
  imports Manifest_Fetch Planner
begin

text \<open>
  The boot verifier: \<open>verifier/src/main.rs\<close> and \<open>verifier/src/pending.rs\<close>. After a boot it marks interrupted operations,
  verifies the pending one in a supervised child process and records the result. Records and the replay record live in the
  file system of the theory File\_System; an exit of the process with code \<open>n\<close> is the error \<open>n\<close>. The names in the operations
  directory, the state of the booted system and the way the child ends are parameters.
\<close>

section \<open>Failures of the check\<close>

datatype check_failure =
    FailDiscovery | FailIdentity | FailFilesystem | FailRpmDatabase | FailDependencies | FailBootTarget | FailFailedUnits
  | FailGrub | FailTimeout | FailWorker | FailRollback | FailInventory

definition failure_code :: "check_failure \<Rightarrow> string" where
  "failure_code f = (case f of
      FailDiscovery \<Rightarrow> ''POST_BOOT_DISCOVERY_FAILED''
    | FailIdentity \<Rightarrow> ''POST_BOOT_IDENTITY_FAILED''
    | FailFilesystem \<Rightarrow> ''POST_BOOT_FILESYSTEM_FAILED''
    | FailRpmDatabase \<Rightarrow> ''POST_BOOT_RPM_DATABASE_FAILED''
    | FailDependencies \<Rightarrow> ''POST_BOOT_DEPENDENCIES_FAILED''
    | FailBootTarget \<Rightarrow> ''POST_BOOT_TARGET_NOT_ACTIVE''
    | FailFailedUnits \<Rightarrow> ''POST_BOOT_FAILED_UNITS''
    | FailGrub \<Rightarrow> ''POST_BOOT_GRUB_FAILED''
    | FailTimeout \<Rightarrow> ''POST_BOOT_VERIFICATION_TIMEOUT''
    | FailWorker \<Rightarrow> ''POST_BOOT_WORKER_FAILED''
    | FailRollback \<Rightarrow> ''POST_BOOT_ROLLBACK_IDENTITY_FAILED''
    | FailInventory \<Rightarrow> ''POST_BOOT_INVENTORY_FAILED'')"

text \<open>\<open>as i32\<close>: the discriminants count from ten.\<close>

definition failure_exit :: "check_failure \<Rightarrow> int" where
  "failure_exit f = (case f of
      FailDiscovery \<Rightarrow> 10 | FailIdentity \<Rightarrow> 11 | FailFilesystem \<Rightarrow> 12 | FailRpmDatabase \<Rightarrow> 13 | FailDependencies \<Rightarrow> 14
    | FailBootTarget \<Rightarrow> 15 | FailFailedUnits \<Rightarrow> 16 | FailGrub \<Rightarrow> 17 | FailTimeout \<Rightarrow> 18 | FailWorker \<Rightarrow> 19
    | FailRollback \<Rightarrow> 20 | FailInventory \<Rightarrow> 21)"

text \<open>How a child process ended: with an exit code or by a signal.\<close>

datatype exit_status = Exited int | Signalled int

definition from_status :: "exit_status \<Rightarrow> check_failure option" where
  "from_status status = (let code = (case status of Exited c \<Rightarrow> c | Signalled signal \<Rightarrow> 128 + signal) in
     if code = 0 then None
     else if code = 10 then Some FailDiscovery
     else if code = 11 then Some FailIdentity
     else if code = 12 then Some FailFilesystem
     else if code = 13 then Some FailRpmDatabase
     else if code = 14 then Some FailDependencies
     else if code = 15 then Some FailBootTarget
     else if code = 16 then Some FailFailedUnits
     else if code = 17 then Some FailGrub
     else if code = 20 then Some FailRollback
     else if code = 21 then Some FailInventory
     else if code = 124 \<or> code = 137 then Some FailTimeout
     else Some FailWorker)"

section \<open>The check in the child process\<close>

text \<open>What the child sees of the booted system.\<close>

record boot_view =
  bv_facts :: "host_facts option"
  bv_btrfs :: btrfs_probe
  bv_run :: "string \<Rightarrow> string list \<Rightarrow> bool"
  bv_dependencies :: bool
  bv_failed_units :: "(bool \<times> string) option"
  bv_inventory :: "inventory_report option"
  bv_save_inventory :: bool
  bv_before :: "inventory_report option"
  bv_plan :: "upgrade_plan option"

definition verify_release :: "operation_state_record \<Rightarrow> release_identity \<Rightarrow> check_failure + unit" where
  "verify_release r actual =
     (if recovery r \<noteq> None then (if actual \<noteq> op_source r then Inl FailIdentity else Inr ())
      else if is_some_and (last_completed_step r) (\<lambda>step. starts_with step ''rollback-'') then Inl FailRollback
      else if is_some_and (op_target r) (\<lambda>target. actual \<noteq> target) then Inl FailIdentity else Inr ())"

definition check_rollback :: "boot_view \<Rightarrow> operation_state_record \<Rightarrow> check_failure + unit" where
  "check_rollback v r = (case recovery r of
      Some goal \<Rightarrow> map_err (\<lambda>_. FailRollback) (verify_rollback_boot (bv_btrfs v) goal)
    | None \<Rightarrow> Inr ())"

definition check_failed_units :: "boot_view \<Rightarrow> check_failure + unit" where
  "check_failed_units v = (case bv_failed_units v of
      Some (ok, out) \<Rightarrow> ensure (ok \<and> list_all is_ascii_whitespace out) FailFailedUnits
    | None \<Rightarrow> Inl FailFailedUnits)"

definition check_packages :: "plan_digest \<Rightarrow> boot_view \<Rightarrow> operation_state_record \<Rightarrow> inventory_report \<Rightarrow> check_failure + unit" where
  "check_packages sha v r report =
     (if recovery r \<noteq> None then
        rbind (ok_or (bv_before v) FailInventory) (\<lambda>before.
          ensure (iv_installed_packages before = iv_installed_packages report) FailInventory)
      else
        rbind (ok_or (bv_plan v) FailInventory) (\<lambda>plan.
          if sha plan \<noteq> Some (op_plan_sha256 r) then Inl FailInventory
          else map_err (\<lambda>_. FailInventory) (verify_result plan report)))"

definition verify :: "plan_digest \<Rightarrow> boot_view \<Rightarrow> operation_state_record \<Rightarrow> check_failure + unit" where
  "verify sha v r =
     rbind (ok_or (bv_facts v) FailDiscovery) (\<lambda>facts.
     rbind (verify_release r (hf_release facts)) (\<lambda>_.
     rbind (check_rollback v r) (\<lambda>_.
     rbind (ensure (root_filesystem facts = ''btrfs'' \<and> snapper_root_configured facts) FailFilesystem) (\<lambda>_.
     rbind (ensure (bv_run v ''rpm'' [''--verifydb'']) FailRpmDatabase) (\<lambda>_.
     rbind (ensure (bv_dependencies v) FailDependencies) (\<lambda>_.
     rbind (ensure (bv_run v ''systemctl'' [''is-active'', ''--quiet'', ''multi-user.target'']) FailBootTarget) (\<lambda>_.
     rbind (check_failed_units v) (\<lambda>_.
     rbind (ensure (bv_run v ''test'' [''-s'', ''/boot/grub2/grub.cfg'']) FailGrub) (\<lambda>_.
     rbind (ok_or (bv_inventory v) FailInventory) (\<lambda>report.
     rbind (ensure (bv_save_inventory v) FailInventory) (\<lambda>_.
       check_packages sha v r report)))))))))))"

section \<open>Pending operations\<close>

record pending_scan =
  ps_operation :: "(path \<times> operation_state_record) option"
  ps_interrupted :: "operation_state_record list"
  ps_invalid_entries :: nat
  ps_diagnostics :: "(string \<times> string) list"

text \<open>\<open>u8::escape_ascii\<close>.\<close>

definition hex_digit :: "nat \<Rightarrow> char" where
  "hex_digit n = (if n < 10 then char_of (n + 48) else char_of (n + 87))"

definition escape_ascii :: "char \<Rightarrow> string" where
  "escape_ascii c =
     (if c = CHR 0x09 then [CHR 0x5C, CHR ''t''] else if c = CHR 0x0D then [CHR 0x5C, CHR ''r'']
      else if c = CHR 0x0A then [CHR 0x5C, CHR ''n'']
      else if c \<in> {CHR 0x27, CHR 0x22, CHR 0x5C} then [CHR 0x5C, c]
      else if 0x20 \<le> byte c \<and> byte c < 0x7F then [c]
      else [CHR 0x5C, CHR ''x'', hex_digit (byte c div 16), hex_digit (byte c mod 16)])"

definition diagnostic_name :: "string \<Rightarrow> string" where
  "diagnostic_name name = concat (map escape_ascii (take 64 name)) @ (if 64 < length name then ''...'' else [])"

definition interrupted_state :: "operation_state \<Rightarrow> operation_state option" where
  "interrupted_state s = (case s of
      Downloading \<Rightarrow> Some Failed
    | Snapshotting \<Rightarrow> Some NeedsRecovery
    | Applying \<Rightarrow> Some NeedsRecovery
    | ApplyingOffline \<Rightarrow> Some NeedsRecovery
    | ReadyToReboot \<Rightarrow> Some NeedsRecovery
    | _ \<Rightarrow> None)"

datatype entry_verdict = Invalid string | Candidate operation_state_record | Interrupted operation_state_record | Settled

definition marker_target :: "(io_error, bool \<times> path) act" where
  "marker_target = query (\<lambda>fs. rbind (node_at fs [''system-update'']) (\<lambda>n. ok_or (link_of (Some n)) EINVAL))"

text \<open>What the loop does with one directory entry that could be read.\<close>

definition classify_record :: "path \<Rightarrow> operation_state_record \<Rightarrow> ('e, entry_verdict) act" where
  "classify_record entry r =
     (if op_state r \<in> {AwaitingReboot, VerifyingBoot} then ret (Candidate r)
      else if op_state r \<noteq> ReadyToReboot \<and> interrupted_state (op_state r) \<noteq> None then ret (Interrupted r)
      else if op_state r = ReadyToReboot
        then attempt marker_target (\<lambda>m. ret (if m \<noteq> Inr (True, entry) then Interrupted r else Settled))
      else ret Settled)"

definition classify_entry ::
  "(string \<Rightarrow> operation_state_record option) \<Rightarrow> path \<Rightarrow> string \<Rightarrow> ('e, entry_verdict) act" where
  "classify_entry from_json root name =
     attempt (symlink_metadata (root @ [name])) (\<lambda>kind. case kind of
        Inl _ \<Rightarrow> ret (Invalid ''directory-type-unreadable'')
      | Inr n \<Rightarrow>
          if \<not> is_dir (Some n) then ret (Invalid ''not-an-operation-directory'')
          else if \<not> is_utf8 name then ret (Invalid ''non-utf8-operation-id'')
          else attempt (symlink_metadata (root @ [name, ''state.json''])) (\<lambda>meta. case meta of
             Inr (File _ _ _ _) \<Rightarrow>
               attempt (load_state from_json root name) (\<lambda>loaded. case loaded of
                  Inl _ \<Rightarrow> ret (Invalid ''state-validation-failed'')
                | Inr r \<Rightarrow> classify_record (root @ [name]) r)
           | Inr _ \<Rightarrow> ret (Invalid ''not-a-regular-state-file'')
           | Inl _ \<Rightarrow> ret (Invalid ''state-file-unavailable'')))"

definition note_verdict :: "path \<Rightarrow> string \<Rightarrow> entry_verdict \<Rightarrow>
   (path \<times> operation_state_record) list \<times> pending_scan \<Rightarrow> (path \<times> operation_state_record) list \<times> pending_scan" where
  "note_verdict root name verdict = (\<lambda>(candidates, scan). case verdict of
      Invalid reason \<Rightarrow> (candidates, scan\<lparr>ps_invalid_entries := ps_invalid_entries scan + 1,
         ps_diagnostics := ps_diagnostics scan @ [(diagnostic_name name, reason)]\<rparr>)
    | Candidate r \<Rightarrow> (candidates @ [(root @ [name], r)], scan)
    | Interrupted r \<Rightarrow> (candidates, scan\<lparr>ps_interrupted := ps_interrupted scan @ [r]\<rparr>)
    | Settled \<Rightarrow> (candidates, scan))"

fun scan_entries ::
  "(string \<Rightarrow> operation_state_record option) \<Rightarrow> path \<Rightarrow> string option list \<Rightarrow>
   (path \<times> operation_state_record) list \<times> pending_scan \<Rightarrow> ('e, (path \<times> operation_state_record) list \<times> pending_scan) act" where
  "scan_entries from_json root [] acc = ret acc"
| "scan_entries from_json root (None # rest) acc =
     scan_entries from_json root rest (note_verdict root ''<unreadable-entry>'' (Invalid ''directory-entry-unreadable'') acc)"
| "scan_entries from_json root (Some name # rest) acc =
     abind (classify_entry from_json root name) (\<lambda>verdict.
       scan_entries from_json root rest (note_verdict root name verdict acc))"

definition candidate_le :: "path \<times> operation_state_record \<Rightarrow> path \<times> operation_state_record \<Rightarrow> bool" where
  "candidate_le a b = (updated_at (snd b) < updated_at (snd a) \<or>
     updated_at (snd a) = updated_at (snd b) \<and> operation_id (snd a) \<le> operation_id (snd b))"

fun insert_candidate ::
  "path \<times> operation_state_record \<Rightarrow> (path \<times> operation_state_record) list \<Rightarrow> (path \<times> operation_state_record) list" where
  "insert_candidate x [] = [x]"
| "insert_candidate x (y # ys) = (if candidate_le x y then x # y # ys else y # insert_candidate x ys)"

definition sort_candidates :: "(path \<times> operation_state_record) list \<Rightarrow> (path \<times> operation_state_record) list" where
  "sort_candidates xs = foldr insert_candidate xs []"

definition empty_scan :: pending_scan where
  "empty_scan = \<lparr>ps_operation = None, ps_interrupted = [], ps_invalid_entries = 0, ps_diagnostics = []\<rparr>"

definition pending_operation ::
  "(string \<Rightarrow> operation_state_record option) \<Rightarrow> path \<Rightarrow> io_error + string option list \<Rightarrow> (io_error, pending_scan) act" where
  "pending_operation from_json root names =
     attempt (symlink_metadata root) (\<lambda>kind. case kind of
        Inl e \<Rightarrow> if e = ENOENT then ret empty_scan else throw e
      | Inr n \<Rightarrow>
          if \<not> is_dir (Some n) then throw EINVAL
          else abind (of_result names) (\<lambda>entries.
            abind (scan_entries from_json root entries ([], empty_scan)) (\<lambda>(candidates, scan).
              ret (scan\<lparr>ps_operation := (case sort_candidates candidates of [] \<Rightarrow> None | c # _ \<Rightarrow> Some c)\<rparr>))))"

section \<open>The replay record\<close>

text \<open>\<open>read_manifest_sequence\<close>: \<open>json_sequence\<close> is the number under the key \<open>sequence\<close> of a JSON document.\<close>

definition read_manifest_sequence :: "(string \<Rightarrow> u64 option) \<Rightarrow> path \<Rightarrow> ('e, u64 option) act" where
  "read_manifest_sequence json_sequence dir =
     attempt (symlink_metadata (dir @ [''manifest.json''])) (\<lambda>meta. case meta of
        Inr (File _ _ content _) \<Rightarrow>
          if 1024 * 1024 < length content then ret None
          else attempt (read_nofollow (dir @ [''manifest.json''])) (\<lambda>bytes. case bytes of
             Inr b \<Rightarrow> ret (json_sequence b)
           | Inl _ \<Rightarrow> ret None)
      | _ \<Rightarrow> ret None)"

definition SEQUENCE_FILE :: string where
  "SEQUENCE_FILE = ''last-manifest-sequence''"

definition SEQUENCE_TEMPORARY :: string where
  "SEQUENCE_TEMPORARY = ''last-manifest-sequence.tmp''"

definition replace_sequence :: "path \<Rightarrow> u64 \<Rightarrow> (io_error, unit) act" where
  "replace_sequence dir sequence =
     abind (create_new (dir @ [SEQUENCE_TEMPORARY]) 384) (\<lambda>file.
     abind (write_all file (show_u64 sequence @ [newline])) (\<lambda>_.
     abind (sync_all file) (\<lambda>_.
     abind (rename (dir @ [SEQUENCE_TEMPORARY]) (dir @ [SEQUENCE_FILE])) (\<lambda>_.
       sync_dir dir))))"

definition write_sequence :: "path \<Rightarrow> u64 \<Rightarrow> (io_error, unit) act" where
  "write_sequence dir sequence =
     attempt (read_last_manifest_sequence (dir @ [SEQUENCE_FILE])) (\<lambda>previous. case previous of
        Inr (Some p) \<Rightarrow> if sequence < p then throw EINVAL else replace_sequence dir sequence
      | Inr None \<Rightarrow> replace_sequence dir sequence
      | Inl _ \<Rightarrow> throw EINVAL)"

section \<open>The verdict\<close>

definition completed_record :: "operation_state_record \<Rightarrow> operation_state_record" where
  "completed_record r = r\<lparr>op_state := Completed, boot_verification := Some BootPassed,
     last_completed_step := Some (if recovery r \<noteq> None then ''rollback-verified'' else ''post-boot-verification''),
     error_code := None\<rparr>"

definition unverified_record :: "string \<Rightarrow> operation_state_record \<Rightarrow> operation_state_record" where
  "unverified_record e r = r\<lparr>op_state := NeedsRecovery, boot_verification := Some BootFailed, error_code := Some e\<rparr>"

definition finalize_verification ::
  "(string \<Rightarrow> u64 option) \<Rightarrow> path \<Rightarrow> path \<Rightarrow> bool \<Rightarrow> operation_state_record \<Rightarrow> ('e, operation_state_record) act" where
  "finalize_verification json_sequence dir sequence_dir pass r0 =
     (let r = r0\<lparr>op_sequence := sat_add (op_sequence r0) 1\<rparr> in
      if \<not> pass then ret (unverified_record ''POST_BOOT_VERIFICATION_FAILED'' r)
      else if recovery r = None \<and> is_signed_offline (operation r) then
        abind (read_manifest_sequence json_sequence dir) (\<lambda>found. case found of
           None \<Rightarrow> ret (unverified_record ''MANIFEST_SEQUENCE_PERSIST_FAILED'' r)
         | Some sequence \<Rightarrow> attempt (write_sequence sequence_dir sequence) (\<lambda>written. case written of
             Inl _ \<Rightarrow> ret (unverified_record ''MANIFEST_SEQUENCE_PERSIST_FAILED'' r)
           | Inr _ \<Rightarrow> ret (completed_record r)))
      else ret (completed_record r))"

section \<open>The program\<close>

datatype child_end = NotSpawned | Ended exit_status | Finished

record verifier_env =
  ve_to_json :: "operation_state_record \<Rightarrow> string option"
  ve_from_json :: "string \<Rightarrow> operation_state_record option"
  ve_nonce :: "operation_state_record \<Rightarrow> string"
  ve_json_sequence :: "string \<Rightarrow> u64 option"
  ve_sha :: plan_digest
  ve_root :: path
  ve_sequence_dir :: path
  ve_lock :: bool
  ve_names :: "io_error + string option list"
  ve_child :: child_end
  ve_view :: boot_view

definition persist_or_exit :: "verifier_env \<Rightarrow> operation_state_record \<Rightarrow> (nat, unit) act" where
  "persist_or_exit env r = raise_as (\<lambda>_. 1) (save_state (ve_to_json env) (ve_nonce env r) (ve_root env) r)"

text \<open>The mode \<open>--check-boot\<close>: the exit status of the child.\<close>

definition check_boot :: "verifier_env \<Rightarrow> string \<Rightarrow> ('e, exit_status) act" where
  "check_boot env oid = attempt (load_state (ve_from_json env) (ve_root env) oid) (\<lambda>loaded. ret (case loaded of
      Inl _ \<Rightarrow> Exited (failure_exit FailWorker)
    | Inr r \<Rightarrow> (case verify (ve_sha env) (ve_view env) r of Inl f \<Rightarrow> Exited (failure_exit f) | Inr _ \<Rightarrow> Exited 0)))"

definition supervise :: "verifier_env \<Rightarrow> string \<Rightarrow> ('e, check_failure option) act" where
  "supervise env oid = (case ve_child env of
      NotSpawned \<Rightarrow> ret (Some FailWorker)
    | Ended status \<Rightarrow> ret (from_status status)
    | Finished \<Rightarrow> abind (check_boot env oid) (\<lambda>status. ret (from_status status)))"

definition interrupted_record :: "operation_state_record \<Rightarrow> operation_state_record" where
  "interrupted_record r = (case interrupted_state (op_state r) of
      Some s \<Rightarrow> r\<lparr>op_state := s, op_sequence := sat_add (op_sequence r) 1, error_code := Some ''OPERATION_INTERRUPTED''\<rparr>
    | None \<Rightarrow> r)"

text \<open>The \<open>expect\<close> of the loop panics, with exit code 101, when a record is not an interrupted one.\<close>

fun mark_interrupted :: "verifier_env \<Rightarrow> operation_state_record list \<Rightarrow> (nat, unit) act" where
  "mark_interrupted env [] = ret ()"
| "mark_interrupted env (r # rs) =
     (if interrupted_state (op_state r) = None then throw 101
      else abind (persist_or_exit env (interrupted_record r)) (\<lambda>_. mark_interrupted env rs))"

definition start_verification :: "operation_state_record \<Rightarrow> (nat, operation_state_record) act" where
  "start_verification r = (if op_state r = AwaitingReboot
     then (case transition_to r VerifyingBoot of Inl _ \<Rightarrow> throw 101 | Inr r' \<Rightarrow> ret r') else ret r)"

definition record_failure :: "check_failure option \<Rightarrow> operation_state_record \<Rightarrow> operation_state_record" where
  "record_failure failure r = (case failure of Some f \<Rightarrow> r\<lparr>error_code := Some (failure_code f)\<rparr> | None \<Rightarrow> r)"

definition verify_pending :: "verifier_env \<Rightarrow> path \<Rightarrow> operation_state_record \<Rightarrow> (nat, operation_state_record) act" where
  "verify_pending env dir r0 =
     abind (start_verification r0) (\<lambda>r1.
     abind (persist_or_exit env r1) (\<lambda>_.
     abind (supervise env (operation_id r1)) (\<lambda>failure.
     abind (finalize_verification (ve_json_sequence env) dir (ve_sequence_dir env) (failure = None) r1) (\<lambda>r2.
       let r3 = record_failure failure r2 in
     abind (persist_or_exit env r3) (\<lambda>_.
       ret r3)))))"

definition verifier_main :: "verifier_env \<Rightarrow> (nat, unit) act" where
  "verifier_main env =
     (if \<not> ve_lock env then throw 1
      else abind (raise_as (\<lambda>_. 1) (pending_operation (ve_from_json env) (ve_root env) (ve_names env))) (\<lambda>scan.
        abind (mark_interrupted env (ps_interrupted scan)) (\<lambda>_.
          let troubled = (ps_invalid_entries scan \<noteq> 0 \<or> ps_interrupted scan \<noteq> []) in
          case ps_operation scan of
            None \<Rightarrow> if troubled then throw 1 else ret ()
          | Some (dir, r0) \<Rightarrow> abind (verify_pending env dir r0) (\<lambda>r.
              if op_state r \<noteq> Completed \<or> troubled then throw 1 else ret ()))))"

section \<open>Lemmas: the check\<close>

lemma verify_failures: "verify sha v r = Inl f \<Longrightarrow> f \<noteq> FailTimeout \<and> f \<noteq> FailWorker"
  by (auto simp: verify_def verify_release_def check_rollback_def check_failed_units_def check_packages_def rbind_Inl_iff
      map_err_Inl_iff ensure_Inl_iff ok_or_Inl_iff split: if_splits option.splits prod.splits)

lemma from_status_exit: "f \<noteq> FailTimeout \<Longrightarrow> f \<noteq> FailWorker \<Longrightarrow> from_status (Exited (failure_exit f)) = Some f"
  by (cases f) (simp_all add: from_status_def failure_exit_def)

lemma from_status_None: "(from_status st = None) = (st = Exited 0 \<or> st = Signalled (-128))"
  by (cases st) (auto simp: from_status_def Let_def)

text \<open>The conditions under which a booted system is accepted, for an upgrade and for a rollback.\<close>

definition boot_healthy :: "boot_view \<Rightarrow> host_facts \<Rightarrow> bool" where
  "boot_healthy v facts = (root_filesystem facts = ''btrfs'' \<and> snapper_root_configured facts \<and> bv_run v ''rpm'' [''--verifydb''] \<and>
     bv_dependencies v \<and> bv_run v ''systemctl'' [''is-active'', ''--quiet'', ''multi-user.target''] \<and>
     (\<exists>out. bv_failed_units v = Some (True, out) \<and> list_all is_ascii_whitespace out) \<and>
     bv_run v ''test'' [''-s'', ''/boot/grub2/grub.cfg''] \<and> bv_save_inventory v)"

definition upgrade_booted :: "plan_digest \<Rightarrow> boot_view \<Rightarrow> operation_state_record \<Rightarrow> host_facts \<Rightarrow> inventory_report \<Rightarrow> bool" where
  "upgrade_booted sha v r facts report =
     (\<not> is_some_and (last_completed_step r) (\<lambda>step. starts_with step ''rollback-'') \<and>
      (\<forall>target. op_target r = Some target \<longrightarrow> hf_release facts = target) \<and>
      (\<exists>plan. bv_plan v = Some plan \<and> sha plan = Some (op_plan_sha256 r) \<and> verify_result plan report = Inr ()))"

definition rollback_booted :: "boot_view \<Rightarrow> operation_state_record \<Rightarrow> rollback_goal \<Rightarrow> host_facts \<Rightarrow> inventory_report \<Rightarrow> bool" where
  "rollback_booted v r goal facts report =
     (hf_release facts = op_source r \<and> verify_rollback_boot (bv_btrfs v) goal = Inr () \<and>
      (\<exists>before. bv_before v = Some before \<and> iv_installed_packages before = iv_installed_packages report))"

lemma check_failed_units_iff:
  "(check_failed_units v = Inr ()) = (\<exists>out. bv_failed_units v = Some (True, out) \<and> list_all is_ascii_whitespace out)"
  by (auto simp: check_failed_units_def ensure_Inr_iff split: option.splits prod.splits)

lemma verify_iff:
  "(verify sha v r = Inr ()) = (\<exists>facts report. bv_facts v = Some facts \<and> bv_inventory v = Some report \<and> boot_healthy v facts \<and>
     (case recovery r of None \<Rightarrow> upgrade_booted sha v r facts report | Some goal \<Rightarrow> rollback_booted v r goal facts report))"
proof (cases "recovery r")
  case None
  then show ?thesis
    by (simp add: verify_def verify_release_def check_rollback_def check_packages_def boot_healthy_def upgrade_booted_def
        rbind_Inr_iff map_err_Inr_iff ensure_Inr_iff ok_or_Inr_iff check_failed_units_iff ex_unit_iff guard_Inr_iff)
      (auto simp: is_some_and_def split: option.splits)
next
  case (Some goal)
  then show ?thesis
    by (simp add: verify_def verify_release_def check_rollback_def check_packages_def boot_healthy_def rollback_booted_def
        rbind_Inr_iff map_err_Inr_iff ensure_Inr_iff ok_or_Inr_iff check_failed_units_iff ex_unit_iff guard_Inr_iff) auto
qed

section \<open>Lemmas: the replay record\<close>

lemma parse_shown_sequence: "0 < n \<Longrightarrow> parse_sequence (show_u64 n @ [newline]) = Inr n"
proof -
  assume "0 < n"
  moreover have "strip_suffix (show_u64 n @ [newline]) [newline] = Some (show_u64 n)"
    by (simp add: strip_suffix_def ends_with_def starts_with_def)
  moreover have "show_u64 n \<noteq> [] \<and> list_all is_ascii_digit (show_u64 n)"
    using show_nat_digits [of "unat n"] by (simp add: show_u64_def)
  ultimately show ?thesis by (simp add: parse_sequence_def ok_or_def)
qed

text \<open>\<open>holds_sequence dir n fs\<close>: the replay record is there, synchronised, and says \<open>n\<close>.\<close>

definition holds_sequence :: "path \<Rightarrow> u64 \<Rightarrow> fs \<Rightarrow> bool" where
  "holds_sequence dir n fs = (\<exists>d u m bytes. real_dir fs dir d \<and> fs (d @ [SEQUENCE_FILE]) = Some (File u m bytes True) \<and>
     length bytes \<le> 32 \<and> parse_sequence bytes = Inr n)"

abbreviation reads_sequence :: "path \<Rightarrow> fs \<Rightarrow> u64 \<Rightarrow> bool" where
  "reads_sequence dir fs n \<equiv> fst (read_last_manifest_sequence (dir @ [SEQUENCE_FILE]) (quiet 0 fs)) = Done (Some n)"

lemma read_regular_quiet:
  assumes "locate fs p = Inr q" and "fs q = Some (File u m bytes s)" and "length bytes \<le> n"
  shows "read_regular p n (quiet 0 fs) = (Done bytes, quiet 0 fs)"
  using assms by (simp add: read_regular_def abind_def raise_as_def attempt_def open_read_def handle_metadata_def read_handle_def
      query_def ret_def)

lemma holds_sequence_reads:
  assumes "holds_sequence dir n fs" and "torn_fs fs fs'" and dots: "''..'' \<notin> set dir"
  shows "reads_sequence dir fs' n"
proof -
  from assms(1) obtain d u m bytes where d: "real_dir fs dir d" and f: "fs (d @ [SEQUENCE_FILE]) = Some (File u m bytes True)"
    and b: "length bytes \<le> 32" "parse_sequence bytes = Inr n" unfolding holds_sequence_def by blast
  have "real_dir fs' dir d" using d torn_fs_grows [OF assms(2)] by (rule real_dir_grows)
  then have l: "locate fs' (dir @ [SEQUENCE_FILE]) = Inr (d @ [SEQUENCE_FILE])" using dots by (rule real_dir_child)
  from read_regular_quiet [OF l torn_fs_file [OF assms(2) f] b(1)] b(2) show ?thesis
    by (simp add: read_last_manifest_sequence_def attempt_def abind_def of_result_def ret_def)
qed

lemma holds_sequence_evolves: "holds_sequence dir n fs \<Longrightarrow> evolves {} fs fs' \<Longrightarrow> holds_sequence dir n fs'"
  using real_dir_grows [OF _ evolves_grows [of "{}" fs fs']] unfolding holds_sequence_def evolves_def by (meson empty_iff)

lemma written_sequence:
  assumes "written fs (d @ [SEQUENCE_FILE]) (show_u64 n @ [newline]) fs'" and "real_dir fs dir d" and "0 < n"
  shows "holds_sequence dir n fs'"
proof -
  have "real_dir fs' dir d" using assms(1,2) unfolding written_def by (auto intro: real_dir_grows evolves_grows)
  moreover have "length (show_u64 n @ [newline]) \<le> 32" using length_show_u64 [of n] by simp
  ultimately show ?thesis
    using assms(1,3) unfolding holds_sequence_def written_def by (blast intro: parse_shown_sequence)
qed

lemma replace_sequence_triple:
  assumes R: "replaceable fs dir d SEQUENCE_TEMPORARY SEQUENCE_FILE"
  shows "triple (all_evolved {} fs old) (replace_sequence dir n)
     (\<lambda>_ w. w_older w = [] \<and> written fs (d @ [SEQUENCE_FILE]) (show_u64 n @ [newline]) (w_fs w))
     (old_or_written fs (d @ [SEQUENCE_FILE]) (show_u64 n @ [newline]) old)"
    (is "triple ?A _ ?D ?E")
proof -
  have weak: "\<And>w. ?A w \<Longrightarrow> ?E w" by (rule all_evolved_old)
  show ?thesis
    unfolding replace_sequence_def
  proof (rule triple_abind [OF triple_conseq [OF create_tmp [OF R] _ _ weak]], assumption, assumption)
    fix h
    show "triple (\<lambda>w. ?A w \<and> (h = d @ [SEQUENCE_TEMPORARY] \<and> holds_file (d @ [SEQUENCE_TEMPORARY]) [] (\<lambda>_. True) w))
      (abind (write_all h (show_u64 n @ [newline])) (\<lambda>_. abind (sync_all h) (\<lambda>_.
       abind (rename (dir @ [SEQUENCE_TEMPORARY]) (dir @ [SEQUENCE_FILE])) (\<lambda>_. sync_dir dir)))) ?D ?E"
    proof (cases "h = d @ [SEQUENCE_TEMPORARY]")
      case True
      show ?thesis
        unfolding True
        apply (rule triple_abind [where R = "\<lambda>_ w. ?A w \<and> holds_file (d @ [SEQUENCE_TEMPORARY]) (show_u64 n @ [newline]) (\<lambda>_. True) w"])
         apply (rule triple_conseq [OF write_tmp [OF R, of old "[]" "show_u64 n @ [newline]"] _ _ weak], simp, simp, simp)
        apply (rule triple_abind [where R = "\<lambda>_ w. ?A w \<and> holds_file (d @ [SEQUENCE_TEMPORARY]) (show_u64 n @ [newline]) (\<lambda>s. s) w"])
         apply (rule triple_conseq [OF sync_tmp [OF R, of old "show_u64 n @ [newline]"] _ _ weak], simp, simp, simp)
        apply (rule triple_abind [OF rename_tmp [OF R]])
        apply (rule sync_written)
        done
    qed (auto simp: triple_def)
  qed
qed

lemma keeps_read_sequence: "fault_blind P \<Longrightarrow> keeps P (read_last_manifest_sequence p)"
  unfolding read_last_manifest_sequence_def read_regular_def open_read_def handle_metadata_def read_handle_def
  by (intro keeps_intros keeps_query) (auto intro!: keeps_intros keeps_query split: sum.splits node.splits)

lemma read_manifest_sequence_Done:
  assumes "(read_manifest_sequence js dir :: ('e, u64 option) act) w = (Done (Some n), w')"
  shows "\<exists>bytes. js bytes = Some n \<and> w_fs w' = w_fs w \<and> (\<exists>u m s. node_at (w_fs w) (dir @ [''manifest.json'']) = Inr (File u m bytes s))"
proof -
  from assms obtain meta v bytes where m: "symlink_metadata (dir @ [''manifest.json'']) w = (Done meta, v)"
    and r: "read_nofollow (dir @ [''manifest.json'']) v = (Done bytes, w')" and j: "js bytes = Some n"
    by (auto simp: read_manifest_sequence_def act_simps split: node.splits if_splits) (metis node.exhaust)
  from m have v: "w_fs v = w_fs w" by (auto simp: symlink_metadata_def query_Done)
  from r have "w_fs w' = w_fs v" "\<exists>u m s. node_at (w_fs v) (dir @ [''manifest.json'']) = Inr (File u m bytes s)"
    by (auto simp: read_nofollow_def query_Done rbind_Inr_iff split: node.splits) (metis node.exhaust)
  with v j show ?thesis by auto
qed

text \<open>What the first step of \<open>write_sequence\<close> saw.\<close>

lemma read_sequence_Done:
  assumes "read_last_manifest_sequence p w = (Done x, w')"
  shows "w_fs w' = w_fs w \<and> w_older w' = w_older w \<and>
    (case x of Some n \<Rightarrow> \<exists>u m bytes s. node_at (w_fs w) p = Inr (File u m bytes s) \<and> parse_sequence bytes = Inr n
     | None \<Rightarrow> True)"
proof -
  have same: "w_fs w' = w_fs w \<and> w_older w' = w_older w"
    using keepsD [OF keeps_read_sequence [where P = "\<lambda>v. w_fs v = w_fs w \<and> w_older v = w_older w"] _ assms]
    by (simp add: fault_blind_def)
  show ?thesis
  proof (cases x)
    case (Some n)
    with assms obtain bytes v where "read_regular p 32 w = (Done bytes, v)" "parse_sequence bytes = Inr n"
      unfolding read_last_manifest_sequence_def by (auto simp: act_simps split: if_splits sum.splits)
    with read_regular_Done same Some show ?thesis by fastforce
  qed (use same in simp)
qed

lemma read_regular_missing:
  assumes "read_regular p n w = (Raised (FetchIo ENOENT), w')" and l: "locate (w_fs w) p = Inr q"
  shows "w_fs w q = None"
proof -
  obtain o1 v where v: "open_read p w = (o1, v)" by fastforce
  have op: "o1 = Raised e \<Longrightarrow> e = EIO \<or> (case w_fs w q of None \<Rightarrow> Inl ENOENT | Some (Link _ _) \<Rightarrow> Inl ELOOP | Some _ \<Rightarrow> Inr q) = Inl e" for e
    using query_cases [OF v [unfolded open_read_def]] l by simp
  show ?thesis
  proof (cases o1)
    case (Done q')
    obtain o2 v2 where v2: "handle_metadata q' v = (o2, v2)" by fastforce
    have 2: "o2 \<noteq> Raised ENOENT" using query_cases [OF v2 [unfolded handle_metadata_def]] by (auto simp: ok_or_Inl_iff)
    obtain o3 v3 where v3: "read_handle q' (n + 1) v2 = (o3, v3)" by fastforce
    have 3: "o3 \<noteq> Raised ENOENT"
      using query_cases [OF v3 [unfolded read_handle_def]] by (auto split: option.splits node.splits)
    from assms(1) v Done v2 v3 2 3 show ?thesis
      by (cases o2; cases o3)
        (auto simp: read_regular_def abind_def raise_as_def attempt_def throw_def ret_def split: node.splits if_splits)
  next
    case (Raised e)
    with assms(1) v have "e = ENOENT" by (simp add: read_regular_def abind_def raise_as_def attempt_def throw_def)
    with op [OF Raised] show ?thesis by (auto split: option.splits node.splits)
  next
    case Stopped
    with assms(1) v show ?thesis by (simp add: read_regular_def abind_def raise_as_def attempt_def)
  qed
qed

lemma read_sequence_None:
  assumes "read_last_manifest_sequence p w = (Done None, w')" and l: "locate (w_fs w) p = Inr q"
  shows "w_fs w q = None"
proof -
  obtain out v where v: "read_regular p 32 w = (out, v)" by fastforce
  with assms(1) have "out = Raised (FetchIo ENOENT)"
    by (cases out) (auto simp: read_last_manifest_sequence_def attempt_def abind_def of_result_def ret_def throw_def
        split: if_splits sum.splits)
  with v l show ?thesis using read_regular_missing by blast
qed

lemma sequence_replaceable:
  assumes read: "read_last_manifest_sequence (dir @ [SEQUENCE_FILE]) w = (Done x, v)"
    and d: "real_dir (w_fs w) dir d" "''..'' \<notin> set dir" and tmp: "w_fs w (d @ [SEQUENCE_TEMPORARY]) = None"
  shows "replaceable (w_fs w) dir d SEQUENCE_TEMPORARY SEQUENCE_FILE"
proof -
  have l: "locate (w_fs w) (dir @ [SEQUENCE_FILE]) = Inr (d @ [SEQUENCE_FILE])" by (rule real_dir_child [OF d])
  have "link_of (w_fs w (d @ [SEQUENCE_FILE])) = None"
    using read_sequence_Done [OF read] read_sequence_None [OF _ l] read l
    by (cases x) (auto simp: node_at_Inr_iff)
  with d tmp show ?thesis by (simp add: replaceable_def SEQUENCE_TEMPORARY_def SEQUENCE_FILE_def)
qed

lemma write_sequence_steps:
  assumes "write_sequence dir n w = (Done u, w')"
  obtains x v where "read_last_manifest_sequence (dir @ [SEQUENCE_FILE]) w = (Done x, v)" and "w_fs v = w_fs w"
    and "w_older v = w_older w" and "\<forall>p. x = Some p \<longrightarrow> p \<le> n" and "replace_sequence dir n v = (Done u, w')"
proof -
  obtain out v where v: "read_last_manifest_sequence (dir @ [SEQUENCE_FILE]) w = (out, v)" by fastforce
  with assms obtain x where x: "out = Done x" "\<forall>p. x = Some p \<longrightarrow> p \<le> n" "replace_sequence dir n v = (Done u, w')"
    by (cases out) (auto simp: write_sequence_def attempt_def throw_def not_less split: option.splits if_splits)
  with read_sequence_Done [OF v [unfolded x(1)]] v that show ?thesis by blast
qed

lemma write_sequence_Done:
  assumes run: "write_sequence dir n w = (Done u, w')" and d: "real_dir (w_fs w) dir d" "''..'' \<notin> set dir" and "0 < n"
  shows "w_older w' = [] \<and> holds_sequence dir n (w_fs w')"
proof (rule write_sequence_steps [OF run])
  fix x v
  assume read: "read_last_manifest_sequence (dir @ [SEQUENCE_FILE]) w = (Done x, v)" and same: "w_fs v = w_fs w" "w_older v = w_older w"
    and rep: "replace_sequence dir n v = (Done u, w')"
  have "locate (w_fs v) (dir @ [SEQUENCE_TEMPORARY]) = Inr (d @ [SEQUENCE_TEMPORARY])" using real_dir_child [OF d] same by simp
  with rep have "w_fs v (d @ [SEQUENCE_TEMPORARY]) = None"
    by (auto simp: replace_sequence_def abind_Done dest: create_new_Done(2))
  then have R: "replaceable (w_fs v) dir d SEQUENCE_TEMPORARY SEQUENCE_FILE"
    using sequence_replaceable [OF read d] same by simp
  have "all_evolved {} (w_fs v) (w_older v) v" by (auto simp: all_evolved_def)
  from triple_Done [OF replace_sequence_triple [OF R] this rep] written_sequence [OF _ _ \<open>0 < n\<close>] d same
  show ?thesis by auto
qed

lemma write_sequence_read:
  assumes run: "write_sequence dir n w = (Done u, w')" and d: "real_dir (w_fs w) dir d" "''..'' \<notin> set dir" and p: "holds_sequence dir p (w_fs w)"
  shows "p \<le> n"
proof (rule write_sequence_steps [OF run])
  fix x v
  assume read: "read_last_manifest_sequence (dir @ [SEQUENCE_FILE]) w = (Done x, v)" and le: "\<forall>p. x = Some p \<longrightarrow> p \<le> n"
  have l: "locate (w_fs w) (dir @ [SEQUENCE_FILE]) = Inr (d @ [SEQUENCE_FILE])" by (rule real_dir_child [OF d])
  from p d obtain k m bytes where f: "w_fs w (d @ [SEQUENCE_FILE]) = Some (File k m bytes True)" "parse_sequence bytes = Inr p"
    by (auto simp: holds_sequence_def real_dir_def)
  have "x = Some p"
    using read_sequence_Done [OF read] read_sequence_None [OF _ l] read f l by (cases x) (auto simp: node_at_Inr_iff)
  with le show ?thesis by simp
qed

text \<open>Whatever happens during a write over a stored number.\<close>

definition sequences_are :: "path \<Rightarrow> (u64 \<Rightarrow> bool) \<Rightarrow> world \<Rightarrow> bool" where
  "sequences_are dir N w = (\<forall>fs\<in>set (w_fs w # w_older w). \<exists>n. N n \<and> holds_sequence dir n fs)"

lemma write_sequence_any:
  assumes dur: "sequences_are dir (\<lambda>x. x = p) w" and d: "real_dir (w_fs w) dir d" "''..'' \<notin> set dir"
    and tmp: "w_fs w (d @ [SEQUENCE_TEMPORARY]) = None" and pos: "0 < n"
    and run: "write_sequence dir n w = (out, w')"
  shows "sequences_are dir (\<lambda>x. x = p \<or> x = n \<and> p \<le> n) w'"
proof -
  obtain o1 v where v: "read_last_manifest_sequence (dir @ [SEQUENCE_FILE]) w = (o1, v)" by fastforce
  have same: "w_fs v = w_fs w \<and> w_older v = w_older w"
    using keepsD [OF keeps_read_sequence [where P = "\<lambda>x. w_fs x = w_fs w \<and> w_older x = w_older w"] _ v]
    by (simp add: fault_blind_def)
  have stay: "sequences_are dir (\<lambda>x. x = p \<or> x = n \<and> p \<le> n) v" using dur same by (auto simp: sequences_are_def)
  show ?thesis
  proof (cases "\<exists>x. o1 = Done x \<and> (\<forall>q. x = Some q \<longrightarrow> q \<le> n)")
    case False
    then have "w' = v" using run v
      by (cases o1) (auto simp: write_sequence_def attempt_def throw_def split: option.splits if_splits)
    with stay show ?thesis by simp
  next
    case True
    then obtain x where x: "o1 = Done x" "\<forall>q. x = Some q \<longrightarrow> q \<le> n" by blast
    from run v x have rep: "replace_sequence dir n v = (out, w')"
      by (cases x) (auto simp: write_sequence_def attempt_def dest: leD split: if_splits)
    have l: "locate (w_fs w) (dir @ [SEQUENCE_FILE]) = Inr (d @ [SEQUENCE_FILE])" by (rule real_dir_child [OF d])
    from dur have "holds_sequence dir p (w_fs w)" by (simp add: sequences_are_def)
    with d obtain u m bytes where f: "w_fs w (d @ [SEQUENCE_FILE]) = Some (File u m bytes True)" "parse_sequence bytes = Inr p"
      by (auto simp: holds_sequence_def real_dir_def)
    have "x = Some p"
      using read_sequence_Done [OF v [unfolded x(1)]] read_sequence_None [OF _ l] v x(1) f l by (cases x) (auto simp: node_at_Inr_iff)
    with x have le: "p \<le> n" by simp
    have R: "replaceable (w_fs v) dir d SEQUENCE_TEMPORARY SEQUENCE_FILE"
      using sequence_replaceable [OF v [unfolded x(1)] d tmp] same by simp
    have "all_evolved {} (w_fs v) (w_older v) v" by (auto simp: all_evolved_def)
    then have "(case out of Done _ \<Rightarrow> w_older w' = [] \<and> written (w_fs v) (d @ [SEQUENCE_FILE]) (show_u64 n @ [newline]) (w_fs w')
       | _ \<Rightarrow> old_or_written (w_fs v) (d @ [SEQUENCE_FILE]) (show_u64 n @ [newline]) (w_older v) w')"
      using replace_sequence_triple [OF R, of "w_older v" n] rep unfolding triple_def by (cases out) fastforce+
    then have ow: "\<forall>y\<in>set (w_fs w' # w_older w'). y \<in> set (w_older v) \<or> evolves {} (w_fs v) y \<or>
        written (w_fs v) (d @ [SEQUENCE_FILE]) (show_u64 n @ [newline]) y"
      by (cases out) (auto simp: old_or_written_def)
    show ?thesis
      unfolding sequences_are_def
    proof
      fix y assume "y \<in> set (w_fs w' # w_older w')"
      with ow consider "y \<in> set (w_older v)" | "evolves {} (w_fs v) y"
        | "written (w_fs v) (d @ [SEQUENCE_FILE]) (show_u64 n @ [newline]) y" by blast
      then show "\<exists>k. (k = p \<or> k = n \<and> p \<le> n) \<and> holds_sequence dir k y"
      proof cases
        case 1 then show ?thesis using dur same by (auto simp: sequences_are_def)
      next
        case 2 then show ?thesis using dur same holds_sequence_evolves by (auto simp: sequences_are_def)
      next
        case 3 then show ?thesis using written_sequence [OF 3 _ pos] d same le by auto
      qed
    qed
  qed
qed

section \<open>Lemmas: the program\<close>

text \<open>Every record the verifier writes can be read back.\<close>

abbreviation json_works :: "verifier_env \<Rightarrow> bool" where
  "json_works env \<equiv> \<forall>r. json_codec (ve_to_json env) (ve_from_json env) r"

lemma persist_durable:
  assumes "persist_or_exit env r w = (Done u, w')" and "json_works env"
  shows "durable (ve_from_json env) (ve_root env) r w' \<and> ''..'' \<notin> set (ve_root env)"
proof -
  have "save_state (ve_to_json env) (ve_nonce env r) (ve_root env) r w = (Done u, w')"
    using assms(1) by (simp add: persist_or_exit_def raise_as_Done)
  then show ?thesis by (rule save_state_durable) (use assms(2) in blast)
qed

lemma start_verification_Done:
  "start_verification r w = (Done r', w') \<Longrightarrow> w' = w \<and> operation_id r' = operation_id r \<and> recovery r' = recovery r \<and>
     operation r' = operation r \<and> (if op_state r = AwaitingReboot then op_state r' = VerifyingBoot else r' = r)"
  by (auto simp: start_verification_def ret_Done throw_Done transition_to_Inr_iff split: if_splits sum.splits)

lemma keeps_load_state: "fault_blind P \<Longrightarrow> keeps P (load_state from_json root oid)"
  unfolding load_state_def Let_def by (intro keeps_intros keeps_reject_symlink) (auto intro!: keeps_intros)

lemma supervise_Done:
  assumes "(supervise env oid :: ('e, check_failure option) act) w = (Done failure, w')"
  shows "w_fs w' = w_fs w \<and> w_older w' = w_older w \<and> (failure = None \<longrightarrow> (case ve_child env of
      NotSpawned \<Rightarrow> False
    | Ended status \<Rightarrow> status = Exited 0 \<or> status = Signalled (-128)
    | Finished \<Rightarrow> \<exists>r. loads (ve_from_json env) (ve_root env) oid (w_fs w) r \<and> verify (ve_sha env) (ve_view env) r = Inr ()))"
proof (cases "ve_child env")
  case Finished
  with assms obtain status where c: "(check_boot env oid :: ('e, exit_status) act) w = (Done status, w')" and f: "failure = from_status status"
    by (auto simp: supervise_def act_simps)
  obtain out v where v: "load_state (ve_from_json env) (ve_root env) oid w = (out, v)" by fastforce
  have same: "w_fs v = w_fs w \<and> w_older v = w_older w"
    using keepsD [OF keeps_load_state [where P = "\<lambda>x. w_fs x = w_fs w \<and> w_older x = w_older w"] _ v]
    by (simp add: fault_blind_def)
  have w': "w' = v" using c v by (cases out) (auto simp: check_boot_def attempt_def ret_def)
  have "\<exists>r. loads (ve_from_json env) (ve_root env) oid (w_fs w) r \<and> verify (ve_sha env) (ve_view env) r = Inr ()" if "failure = None"
  proof (cases out)
    case (Done r)
    with c v f that have "verify (ve_sha env) (ve_view env) r = Inr ()"
      by (cases "verify (ve_sha env) (ve_view env) r")
        (auto simp: check_boot_def attempt_def ret_def from_status_exit dest!: verify_failures)
    with load_state_loads v Done show ?thesis by blast
  qed (use c v f that in \<open>auto simp: check_boot_def attempt_def ret_def from_status_def failure_exit_def\<close>)
  with same w' Finished show ?thesis by simp
qed (use assms in \<open>auto simp: supervise_def ret_def from_status_None\<close>)

lemma finalize_Done:
  assumes "finalize_verification js dir sdir pass r w = (Done r', w')"
  shows "operation_id r' = operation_id r \<and> (op_state r' = Completed \<longrightarrow> pass \<and> boot_verification r' = Some BootPassed \<and> error_code r' = None) \<and>
    (op_state r' \<noteq> Completed \<longrightarrow> op_state r' = NeedsRecovery \<and> boot_verification r' = Some BootFailed)"
  using assms
  by (auto simp: finalize_verification_def Let_def act_simps completed_record_def unverified_record_def split: if_splits option.splits)

lemma verify_pending_Done:
  assumes run: "verify_pending env dir r0 w = (Done r, w')" and json: "json_works env"
  shows "durable (ve_from_json env) (ve_root env) r w' \<and> operation_id r = operation_id r0 \<and>
    (if op_state r = Completed then boot_verification r = Some BootPassed \<and> (case ve_child env of
         NotSpawned \<Rightarrow> False
       | Ended status \<Rightarrow> status = Exited 0 \<or> status = Signalled (-128)
       | Finished \<Rightarrow> \<exists>r1. start_verification r0 w = (Done r1, w) \<and> verify (ve_sha env) (ve_view env) r1 = Inr ())
     else op_state r = NeedsRecovery \<and> boot_verification r = Some BootFailed)"
proof -
  from run obtain r1 w1 w2 failure w3 r2 w4 where s: "start_verification r0 w = (Done r1, w1)"
    and p: "persist_or_exit env r1 w1 = (Done (), w2)" and c: "(supervise env (operation_id r1) :: (nat, check_failure option) act) w2 = (Done failure, w3)"
    and f: "(finalize_verification (ve_json_sequence env) dir (ve_sequence_dir env) (failure = None) r1 :: (nat, operation_state_record) act) w3 = (Done r2, w4)"
    and r: "r = record_failure failure r2" and q: "persist_or_exit env r w4 = (Done (), w')"
    by (auto simp: verify_pending_def abind_Done Let_def ret_Done)
  note 1 = start_verification_Done [OF s]
  have l: "loads (ve_from_json env) (ve_root env) (operation_id r1) (w_fs w2) r1"
    using persist_durable [OF p json] durable_loads by blast
  have same: "op_state r = op_state r2" "boot_verification r = boot_verification r2" "operation_id r = operation_id r2"
    by (auto simp: r record_failure_def split: option.splits)
  note 2 = finalize_Done [OF f]
  show ?thesis
  proof (cases "op_state r = Completed")
    case True
    with 2 same have "failure = None" by simp
    with supervise_Done [OF c] have "case ve_child env of NotSpawned \<Rightarrow> False
       | Ended status \<Rightarrow> status = Exited 0 \<or> status = Signalled (-128)
       | Finished \<Rightarrow> verify (ve_sha env) (ve_view env) r1 = Inr ()"
      using loads_unique [OF l] by (auto split: child_end.splits)
    with 1 2 same s persist_durable [OF q json] True show ?thesis by (auto split: child_end.splits)
  next
    case False
    with 1 2 same persist_durable [OF q json] show ?thesis by auto
  qed
qed

section \<open>Lemmas: the scan\<close>

text \<open>Without faults the scan only reads, and each entry is classified on its own.\<close>

definition calm :: "world \<Rightarrow> bool" where
  "calm w = (w_faults w = [])"

lemma calm_query: "calm w \<Longrightarrow> query op w = (case op (w_fs w) of Inl e \<Rightarrow> Raised e | Inr a \<Rightarrow> Done a, w)"
  by (cases w) (auto simp: query_def calm_def split: sum.splits)

lemma calm_reject:
  "calm w \<Longrightarrow> reject_symlink p w = (case node_at (w_fs w) p of
      Inr n \<Rightarrow> if link_of (Some n) \<noteq> None then Raised UnsafePath else Done ()
    | Inl e \<Rightarrow> if e = ENOENT then Done () else Raised (Io e), w)"
  by (auto simp: reject_symlink_def attempt_def symlink_metadata_def calm_query ret_def throw_def split: sum.splits)

definition reads_only :: "('e, 'a) act \<Rightarrow> bool" where
  "reads_only m = (\<forall>w. calm w \<longrightarrow> (\<exists>out. m w = (out, w) \<and> out \<noteq> Stopped))"

lemma reads_only_query: "reads_only (query op)"
  by (simp add: reads_only_def calm_query split: sum.splits)

lemma reads_only_ret [simp]: "reads_only (ret a)" and reads_only_throw [simp]: "reads_only (throw e)"
  and reads_only_of_result [simp]: "reads_only (of_result r)"
  by (auto simp: reads_only_def ret_def throw_def of_result_def split: sum.splits)

lemma reads_only_abind: "reads_only m \<Longrightarrow> (\<And>a. reads_only (f a)) \<Longrightarrow> reads_only (abind m f)"
  unfolding reads_only_def abind_def by (fastforce split: outcome.splits)

lemma reads_only_attempt: "reads_only m \<Longrightarrow> (\<And>r. reads_only (f r)) \<Longrightarrow> reads_only (attempt m f)"
  unfolding reads_only_def attempt_def by (fastforce split: outcome.splits)

lemma reads_only_raise_as: "reads_only m \<Longrightarrow> reads_only (raise_as g m)"
  unfolding raise_as_def by (rule reads_only_attempt) (auto split: sum.splits)

lemmas reads_only_intros = reads_only_query reads_only_abind reads_only_attempt reads_only_raise_as

lemma reads_only_load: "reads_only (load_state from_json root oid)"
  unfolding load_state_def reject_symlink_def symlink_metadata_def read_nofollow_def Let_def
  by (intro reads_only_intros) (auto intro!: reads_only_intros split: sum.splits)

lemma reads_only_classify: "reads_only (classify_entry from_json root name)"
  unfolding classify_entry_def classify_record_def symlink_metadata_def marker_target_def
  by (intro reads_only_intros) (auto intro!: reads_only_intros reads_only_load split: sum.splits node.splits)

lemma load_calm: "calm w \<Longrightarrow> fst (load_state from_json root oid w) = fst (load_state from_json root oid (quiet 0 (w_fs w)))"
proof -
  assume w: "calm w"
  have q: "calm (quiet 0 (w_fs w))" by (simp add: calm_def)
  show ?thesis
    by (simp add: load_state_def abind_def of_result_def ret_def throw_def raise_as_def attempt_def read_nofollow_def Let_def
        calm_reject [OF w] calm_reject [OF q] calm_query [OF w] calm_query [OF q] split: sum.splits if_splits)
qed

lemma classify_Done:
  assumes "calm w"
  shows "\<exists>verdict. classify_entry from_json root name w = (Done verdict :: ('e, entry_verdict) outcome, w)"
proof -
  have never: "fst (classify_entry from_json root name w) \<noteq> (Raised e :: ('e, entry_verdict) outcome)" for e
    by (auto simp: classify_entry_def classify_record_def attempt_def ret_def marker_target_def
        split: outcome.splits prod.splits sum.splits node.splits if_splits)
  obtain out :: "('e, entry_verdict) outcome" where "classify_entry from_json root name w = (out, w)" "out \<noteq> Stopped"
    using reads_only_classify assms unfolding reads_only_def by blast
  with never show ?thesis by (cases out) auto
qed

text \<open>The verdict on an entry that holds a pending record, and the candidates the loop collects.\<close>

lemma classify_pending:
  assumes "calm w" and l: "loads from_json root name (w_fs w) r" and dots: "''..'' \<notin> set root"
    and pending: "op_state r \<in> {AwaitingReboot, VerifyingBoot}" and ascii: "is_utf8 name"
  shows "classify_entry from_json root name w = (Done (Candidate r), w)"
proof -
  from l [unfolded loads_iff [OF dots]] obtain q u m bytes s where v: "validate_operation_id name = Inr ()"
    and q: "real_dir (w_fs w) (root @ [name]) (q @ [name])"
    and f: "w_fs w ((q @ [name]) @ [''state.json'']) = Some (File u m bytes s)"
    unfolding readable_record_def by blast
  have dots2: "''..'' \<notin> set (root @ [name])" using dots validate_operation_id_dots [OF v] by auto
  have "locate (w_fs w) ((root @ [name]) @ [''state.json'']) = Inr ((q @ [name]) @ [''state.json''])"
    by (rule real_dir_child [OF q dots2])
  with f have n2: "node_at (w_fs w) (root @ [name, ''state.json'']) = Inr (File u m bytes s)" by (simp add: node_at_Inr_iff)
  obtain n where n1: "node_at (w_fs w) (root @ [name]) = Inr n" "is_dir (Some n)"
    using q by (auto simp: real_dir_def node_at_def is_dir_Some)
  obtain out where run: "load_state from_json root name w = (out, w)"
    using reads_only_load \<open>calm w\<close> unfolding reads_only_def by blast
  have "fst (load_state from_json root name w) = Done r" by (rule trans [OF load_calm [OF \<open>calm w\<close>] l])
  then have "out = Done r" using run by simp
  with run n1 n2 pending ascii show ?thesis
    by (simp add: classify_entry_def attempt_def symlink_metadata_def calm_query [OF \<open>calm w\<close>] classify_record_def ret_def)
qed

lemma scan_collects:
  assumes "calm w"
  shows "\<exists>cs' scan'. scan_entries from_json root names (cs, scan) w = (Done (cs', scan') :: ('e, (path \<times> operation_state_record) list \<times> pending_scan) outcome, w) \<and>
    set cs' = set cs \<union> {(root @ [n], r) |n r. Some n \<in> set names \<and> classify_entry from_json root n w = (Done (Candidate r) :: ('e, entry_verdict) outcome, w)}"
proof (induction names arbitrary: cs scan)
  case (Cons entry names)
  show ?case
  proof (cases entry)
    case None
    then show ?thesis using Cons.IH by (simp add: note_verdict_def)
  next
    case (Some name)
    obtain verdict where c: "classify_entry from_json root name w = (Done verdict :: ('e, entry_verdict) outcome, w)"
      using classify_Done [OF assms] by blast
    obtain cs1 scan1 where noted: "note_verdict root name verdict (cs, scan) = (cs1, scan1)" by fastforce
    then have cs1: "set cs1 = set cs \<union> {(root @ [name], r) |r. verdict = Candidate r}"
      by (auto simp: note_verdict_def split: entry_verdict.splits)
    obtain cs' scan' where "scan_entries from_json root names (cs1, scan1) w = (Done (cs', scan') :: ('e, _) outcome, w)"
      "set cs' = set cs1 \<union> {(root @ [n], r) |n r. Some n \<in> set names \<and> classify_entry from_json root n w = (Done (Candidate r) :: ('e, entry_verdict) outcome, w)}"
      using Cons.IH by blast
    then show ?thesis using c cs1 by (auto simp: Some abind_def noted)
  qed
qed (simp add: ret_def)

lemma hd_sort_candidates:
  "xs \<noteq> [] \<Longrightarrow> \<exists>c rest. sort_candidates xs = c # rest \<and> c \<in> set xs \<and> (\<forall>x\<in>set xs. candidate_le c x)"
proof (induction xs)
  case (Cons x xs)
  have refl: "candidate_le a a" for a by (simp add: candidate_le_def)
  have trans: "candidate_le a b \<Longrightarrow> candidate_le b c \<Longrightarrow> candidate_le a c" for a b c
    by (auto simp: candidate_le_def)
  have total: "candidate_le a b \<or> candidate_le b a" for a b by (auto simp: candidate_le_def)
  show ?case
  proof (cases "xs = []")
    case True
    then show ?thesis by (simp add: sort_candidates_def refl)
  next
    case False
    with Cons.IH obtain c rest where c: "sort_candidates xs = c # rest" "c \<in> set xs" "\<forall>y\<in>set xs. candidate_le c y" by blast
    show ?thesis
    proof (cases "candidate_le x c")
      case True
      with c show ?thesis by (auto simp: sort_candidates_def refl intro: trans)
    next
      case False
      with total have "candidate_le c x" by blast
      with c False show ?thesis by (auto simp: sort_candidates_def)
    qed
  qed
qed simp

lemma pending_finds:
  assumes "calm w" and "pending_operation from_json root (Inr names) w = (Done scan, w')"
    and found: "Some name \<in> set names" and c: "classify_entry from_json root name w = (Done (Candidate r) :: (io_error, entry_verdict) outcome, w)"
    and root: "node_at (w_fs w) root = Inr n" "is_dir (Some n)"
  shows "\<exists>name' r'. ps_operation scan = Some (root @ [name'], r') \<and> Some name' \<in> set names \<and>
    classify_entry from_json root name' w = (Done (Candidate r') :: (io_error, entry_verdict) outcome, w) \<and>
    candidate_le (root @ [name'], r') (root @ [name], r)"
proof -
  obtain cs scan1 where s: "scan_entries from_json root names ([], empty_scan) w = (Done (cs, scan1) :: (io_error, _) outcome, w)"
    and cs: "set cs = {(root @ [n], r) |n r. Some n \<in> set names \<and> classify_entry from_json root n w = (Done (Candidate r) :: (io_error, entry_verdict) outcome, w)}"
    using scan_collects [OF assms(1), where 'e = io_error, of from_json root names "[]" empty_scan] by auto
  have mem: "(root @ [name], r) \<in> set cs" using found c cs by blast
  then obtain x rest where x: "sort_candidates cs = x # rest" "x \<in> set cs" "candidate_le x (root @ [name], r)"
    using hd_sort_candidates [of cs] by fastforce
  from assms(1,2) s x(1) have op: "ps_operation scan = Some x"
    using root
    by (auto simp: pending_operation_def attempt_def symlink_metadata_def calm_query abind_def of_result_def ret_def throw_def
        split: sum.splits if_splits)
  from x(2) cs obtain n r' where "x = (root @ [n], r')" "Some n \<in> set names"
    "classify_entry from_json root n w = (Done (Candidate r') :: (io_error, entry_verdict) outcome, w)" by blast
  with x(3) op show ?thesis by blast
qed

lemma candidate_loads:
  assumes "calm w" and "classify_entry from_json root name w = (Done (Candidate r) :: ('e, entry_verdict) outcome, v)"
  shows "loads from_json root name (w_fs w) r \<and> op_state r \<in> {AwaitingReboot, VerifyingBoot}"
proof -
  obtain out where run: "load_state from_json root name w = (out, w)"
    using reads_only_load \<open>calm w\<close> unfolding reads_only_def by blast
  have "out = Done r \<and> op_state r \<in> {AwaitingReboot, VerifyingBoot}"
    using assms(2) run
    by (cases out) (auto simp: classify_entry_def classify_record_def attempt_def symlink_metadata_def marker_target_def
        calm_query [OF assms(1)] ret_def split: sum.splits node.splits if_splits)
  with run load_state_loads show ?thesis by blast
qed

section \<open>Lemmas: exits\<close>

lemma verifier_main_Done:
  assumes "verifier_main env w = (Done u, w')"
  obtains scan w1 where "pending_operation (ve_from_json env) (ve_root env) (ve_names env) w = (Done scan, w1)"
    and "ps_invalid_entries scan = 0" and "ps_interrupted scan = []"
    and "case ps_operation scan of None \<Rightarrow> w' = w1
       | Some (dir, r0) \<Rightarrow> \<exists>r. verify_pending env dir r0 w1 = (Done r, w') \<and> op_state r = Completed"
proof -
  have lock: "verifier_main env w = (Done u, w') \<Longrightarrow> ve_lock env = True" by (cases "ve_lock env") (auto simp: verifier_main_def throw_Done)
  from assms obtain scan w1 u1 w2 where p: "pending_operation (ve_from_json env) (ve_root env) (ve_names env) w = (Done scan, w1)"
    and m: "mark_interrupted env (ps_interrupted scan) w1 = (Done u1, w2)"
    and rest: "(case ps_operation scan of
            None \<Rightarrow> if ps_invalid_entries scan \<noteq> 0 \<or> ps_interrupted scan \<noteq> [] then throw 1 else ret ()
          | Some (dir, r0) \<Rightarrow> abind (verify_pending env dir r0) (\<lambda>r.
              if op_state r \<noteq> Completed \<or> ps_invalid_entries scan \<noteq> 0 \<or> ps_interrupted scan \<noteq> [] then throw 1 else ret ())) w2 = (Done u, w')"
    using lock [OF assms] unfolding verifier_main_def Let_def by (simp only: abind_Done raise_as_Done not_True_eq_False if_False) blast
  from rest have clean: "ps_invalid_entries scan = 0" "ps_interrupted scan = []"
    by (auto simp: act_simps split: option.splits if_splits)
  with m have "w2 = w1" by (simp add: ret_def)
  with rest clean have "case ps_operation scan of None \<Rightarrow> w' = w1
       | Some (dir, r0) \<Rightarrow> \<exists>r. verify_pending env dir r0 w1 = (Done r, w') \<and> op_state r = Completed"
    by (auto simp: act_simps split: option.splits if_splits)
  with that p clean show thesis by blast
qed

lemma mark_interrupted_blocked:
  assumes "r \<in> set rs" and "op_state r = Snapshotting" and "snapshot_number r = None" and "\<forall>x\<in>set rs. interrupted_state (op_state x) \<noteq> None"
    and "mark_interrupted env rs w = (out, w')"
  shows "out = Raised 1 \<or> out = Stopped"
  using assms
proof (induction rs arbitrary: w)
  case (Cons x rs)
  let ?p = "persist_or_exit env (interrupted_record x)"
  obtain o1 v where p: "?p w = (o1, v)" by fastforce
  have raised: "o1 = Raised e \<Longrightarrow> e = 1" for e
    using p by (auto simp: persist_or_exit_def raise_as_def attempt_def throw_def ret_def split: prod.splits outcome.splits)
  show ?case
  proof (cases o1)
    case (Done a)
    have "x \<noteq> r"
    proof
      assume "x = r"
      with Cons.prems(2,3) have "validate_state (interrupted_record x) \<noteq> Inr ()"
        by (auto simp: validate_state_def interrupted_record_def interrupted_state_def is_some_and_def split: if_splits option.splits)
      with p Done show False
        by (auto simp: persist_or_exit_def raise_as_Done elim: save_state_Done)
    qed
    with Cons p Done show ?thesis by (auto simp: abind_def)
  qed (use Cons.prems p raised in \<open>auto simp: abind_def\<close>)
qed simp

lemma scan_interrupted:
  assumes "scan_entries from_json root names (cs, scan) w = (Done (cs', scan') :: ('e, _) outcome, w')"
    and "\<forall>x\<in>set (ps_interrupted scan). interrupted_state (op_state x) \<noteq> None"
  shows "\<forall>x\<in>set (ps_interrupted scan'). interrupted_state (op_state x) \<noteq> None"
  using assms
proof (induction names arbitrary: cs scan w)
  case (Cons entry names)
  show ?case
  proof (cases entry)
    case None
    with Cons show ?thesis by (auto simp: note_verdict_def)
  next
    case (Some name)
    with Cons.prems obtain verdict v where c: "(classify_entry from_json root name :: ('e, entry_verdict) act) w = (Done verdict, v)"
      and rest: "scan_entries from_json root names (note_verdict root name verdict (cs, scan)) v = (Done (cs', scan') :: ('e, _) outcome, w')"
      by (auto simp: abind_Done)
    have "interrupted_state (op_state r) \<noteq> None" if "verdict = Interrupted r" for r
      using c that
      by (auto simp: classify_entry_def classify_record_def act_simps interrupted_state_def split: sum.splits node.splits if_splits)
        (metis node.exhaust)
    with Cons.prems(2) have "\<forall>x\<in>set (ps_interrupted (snd (note_verdict root name verdict (cs, scan)))). interrupted_state (op_state x) \<noteq> None"
      by (auto simp: note_verdict_def split: entry_verdict.splits)
    then show ?thesis using Cons.IH [of "fst (note_verdict root name verdict (cs, scan))" "snd (note_verdict root name verdict (cs, scan))" v] rest by simp
  qed
qed (simp add: ret_def)

lemma pending_interrupted:
  assumes "pending_operation from_json root names w = (Done scan, w')"
  shows "\<forall>x\<in>set (ps_interrupted scan). interrupted_state (op_state x) \<noteq> None"
  using assms
  by (auto simp: pending_operation_def act_simps empty_scan_def split: sum.splits if_splits prod.splits dest!: scan_interrupted)

section \<open>Examples\<close>

definition boot_record :: "operation_state \<Rightarrow> u64 \<Rightarrow> operation_state_record" where
  "boot_record st q = example_record\<lparr>op_state := st, op_sequence := q, snapshot_number := Some 4\<rparr>"

definition boot_done :: operation_state_record where
  "boot_done = completed_record (boot_record VerifyingBoot 9)"

definition boot_to_json :: "operation_state_record \<Rightarrow> string option" where
  "boot_to_json r = (if r = boot_record VerifyingBoot 8 then Some ''2'' else if r = boot_done then Some ''3'' else None)"

definition boot_from_json :: "string \<Rightarrow> operation_state_record option" where
  "boot_from_json s = (if s = ''1'' @ [newline] then Some (boot_record AwaitingReboot 7) else if s = ''2'' @ [newline] then Some (boot_record VerifyingBoot 8)
     else if s = ''3'' @ [newline] then Some boot_done else None)"

definition healthy_view :: boot_view where
  "healthy_view = \<lparr>bv_facts = Some example_facts, bv_btrfs = example_btrfs, bv_run = (\<lambda>_ _. True), bv_dependencies = True,
     bv_failed_units = Some (True, []), bv_inventory = Some example_report, bv_save_inventory = True, bv_before = None,
     bv_plan = Some example_plan\<rparr>"

definition boot_env :: verifier_env where
  "boot_env = \<lparr>ve_to_json = boot_to_json, ve_from_json = boot_from_json, ve_nonce = (\<lambda>_. ''9''), ve_json_sequence = (\<lambda>_. Some 5),
     ve_sha = (\<lambda>_. Some (replicate 64 CHR ''a'')), ve_root = [''var''], ve_sequence_dir = [''var''], ve_lock = True,
     ve_names = Inr [Some (operation_id example_record)], ve_child = Finished, ve_view = healthy_view\<rparr>"

definition boot_fs :: fs where
  "boot_fs = (\<lambda>_. None)([] \<mapsto> Dir 0 493, [''var''] \<mapsto> Dir 0 448, [''var'', operation_id example_record] \<mapsto> Dir 0 448,
     [''var'', operation_id example_record, ''state.json''] \<mapsto> File 0 384 (''1'' @ [newline]) True,
     [''var'', operation_id example_record, ''manifest.json''] \<mapsto> File 0 384 ''m'' True,
     [''var'', ''last-manifest-sequence''] \<mapsto> File 0 384 (''4'' @ [newline]) True)"

lemma boot_json: "json_works boot_env"
  by (auto simp: boot_env_def json_codec_def boot_to_json_def boot_from_json_def)

lemma boot_main: "fst (verifier_main boot_env (quiet 0 boot_fs)) = Done ()"
  by code_simp

section \<open>Properties\<close>



text \<open>
  The supervisor reports the child's verdict and nothing better: for every system and record the exit status of a child
  that finishes is read back as exactly the result of \<open>verify\<close>, while any other end, a timeout, a signal or an unknown
  code, is a failure.
\<close>

theorem verdict_survives_the_exit_status:
  "from_status (case verify sha v r of Inl f \<Rightarrow> Exited (failure_exit f) | Inr _ \<Rightarrow> Exited 0) =
     (case verify sha v r of Inl f \<Rightarrow> Some f | Inr _ \<Rightarrow> None) \<and>
   from_status (Exited 124) = Some FailTimeout \<and> from_status (Signalled 9) = Some FailTimeout \<and>
   (from_status status = None) = (status = Exited 0 \<or> status = Signalled (-128))"
  using from_status_exit verify_failures [of sha v r]
  by (auto simp: from_status_None split: sum.splits) (simp_all add: from_status_def)



lemma boot_sequence: "holds_sequence [''var''] 4 boot_fs" "real_dir boot_fs [''var''] [''var'']" "boot_fs ([''var''] @ [SEQUENCE_TEMPORARY]) = None"
proof -
  show d: "real_dir boot_fs [''var''] [''var'']" by (simp add: real_dir_def locate_def boot_fs_def)
  have f: "boot_fs [''var'', SEQUENCE_FILE] = Some (File 0 384 (''4'' @ [newline]) True)"
    by (simp add: boot_fs_def SEQUENCE_FILE_def)
  have "parse_sequence (''4'' @ [newline]) = Inr 4" by code_simp
  with d f show "holds_sequence [''var''] 4 boot_fs"
    unfolding holds_sequence_def by (intro exI [of _ "[''var'']"] exI [of _ "0 :: nat"] exI [of _ "384 :: u32"] exI [of _ "''4'' @ [newline]"]) simp
  show "boot_fs ([''var''] @ [SEQUENCE_TEMPORARY]) = None" by (simp add: boot_fs_def SEQUENCE_TEMPORARY_def example_record_def)
qed




text \<open>
  C25: Damaged entries never hide pending work: if the store can be read and an operation in it waits for verification, the scan
  selects a waiting operation, and one that was updated at least as recently, whatever else lies in the directory.
\<close>

theorem pending_work_is_found:
  assumes "w_faults w = []" and "pending_operation from_json root (Inr names) w = (Done scan, w')" and "''..'' \<notin> set root"
    and "Some name \<in> set names" and "loads from_json root name (w_fs w) r" and "op_state r \<in> {AwaitingReboot, VerifyingBoot}"
    and "is_utf8 name"
  shows "\<exists>name' r'. ps_operation scan = Some (root @ [name'], r') \<and> op_state r' \<in> {AwaitingReboot, VerifyingBoot} \<and>
    loads from_json root name' (w_fs w) r' \<and> updated_at r \<le> updated_at r'"
proof -
  have calm: "calm w" using assms(1) by (simp add: calm_def)
  have c: "classify_entry from_json root name w = (Done (Candidate r) :: (io_error, entry_verdict) outcome, w)"
    by (rule classify_pending [OF calm assms(5,3,6,7)])
  from assms(5) [unfolded loads_iff [OF assms(3)]] obtain q n where "node_at (w_fs w) root = Inr n" "is_dir (Some n)"
    by (auto simp: real_dir_def node_at_def is_dir_Some)
  from pending_finds [OF calm assms(2,4) c this] obtain name' r' where "ps_operation scan = Some (root @ [name'], r')"
    and c': "classify_entry from_json root name' w = (Done (Candidate r') :: (io_error, entry_verdict) outcome, w)"
    and le: "candidate_le (root @ [name'], r') (root @ [name], r)" by blast
  with candidate_loads [OF calm c'] show ?thesis by (auto simp: candidate_le_def)
qed

theorem pending_work_is_found_witness:
  "\<exists>scan w'. pending_operation boot_from_json [''var''] (Inr [None, Some ''junk'', Some (operation_id example_record)]) (quiet 0 boot_fs) = (Done scan, w') \<and>
     ps_operation scan \<noteq> None"
proof -
  let ?p = "pending_operation boot_from_json [''var''] (Inr [None, Some ''junk'', Some (operation_id example_record)]) (quiet 0 boot_fs)"
  have "(case fst ?p of Done _ \<Rightarrow> True | _ \<Rightarrow> False)" by code_simp
  then obtain scan w' where run: "?p = (Done scan, w')" by (cases ?p) (auto split: outcome.splits)
  have l: "loads boot_from_json [''var''] (operation_id example_record) (w_fs (quiet 0 boot_fs)) (boot_record AwaitingReboot 7)"
    by code_simp
  have u: "is_utf8 (operation_id example_record)" by code_simp
  from pending_work_is_found [OF _ run _ _ l _ u] run show ?thesis by (auto simp: boot_record_def)
qed


definition stuck_env :: verifier_env where
  "stuck_env = boot_env\<lparr>ve_to_json := (\<lambda>_. Some ''2''), ve_from_json := example_from_json\<rparr>"


text \<open>
  A temporary file that a crash left beside the replay record is never removed and makes every later write fail, so
  each signed upgrade that boots correctly afterwards is recorded as needing recovery.
\<close>

theorem stale_temporary_blocks_completion:
  assumes "w_fs w (d @ [SEQUENCE_TEMPORARY]) = Some node" and "real_dir (w_fs w) sdir d" and "''..'' \<notin> set sdir"
    and "recovery r = None" and "is_signed_offline (operation r)"
    and "finalize_verification json_sequence dir sdir pass r w = (Done r', w')"
  shows "op_state r' = NeedsRecovery"
proof (rule ccontr)
  assume "op_state r' \<noteq> NeedsRecovery"
  with assms(4-6) obtain n w1 where read: "(read_manifest_sequence json_sequence dir :: ('a, u64 option) act) w = (Done (Some n), w1)"
    and wr: "write_sequence sdir n w1 = (Done (), w')"
    by (auto simp: finalize_verification_def Let_def act_simps unverified_record_def split: if_splits option.splits)
  have same: "w_fs w1 = w_fs w" using read_manifest_sequence_Done [OF read] by blast
  show False
  proof (rule write_sequence_steps [OF wr])
    fix x v
    assume v: "w_fs v = w_fs w1" and rep: "replace_sequence sdir n v = (Done (), w')"
    have "locate (w_fs v) (sdir @ [SEQUENCE_TEMPORARY]) = Inr (d @ [SEQUENCE_TEMPORARY])"
      using real_dir_child [OF assms(2,3)] same v by simp
    with rep have "w_fs v (d @ [SEQUENCE_TEMPORARY]) = None"
      by (auto simp: replace_sequence_def abind_Done dest: create_new_Done(2))
    with assms(1) same v show False by simp
  qed
qed

theorem stale_temporary_blocks_completion_witness:
  "\<exists>r' w'. finalize_verification (\<lambda>_. Some 5) [''var'', operation_id example_record] [''var''] True
       ((boot_record VerifyingBoot 8)\<lparr>operation := PackageMigration\<rparr>) (quiet 0 (boot_fs([''var'', ''last-manifest-sequence.tmp''] \<mapsto> File 0 384 [] True))) =
         (Done r' :: (unit, operation_state_record) outcome, w') \<and> op_state r' = NeedsRecovery"
proof -
  let ?fs = "boot_fs([''var'', ''last-manifest-sequence.tmp''] \<mapsto> File 0 384 [] True)"
  let ?r = "(boot_record VerifyingBoot 8)\<lparr>operation := PackageMigration\<rparr>"
  let ?f = "finalize_verification (\<lambda>_. Some 5) [''var'', operation_id example_record] [''var''] True ?r :: (unit, operation_state_record) act"
  have "fst (write_sequence [''var''] 5 (quiet 0 ?fs)) = Raised EEXIST" by code_simp
  then obtain v where wr: "write_sequence [''var''] 5 (quiet 0 ?fs) = (Raised EEXIST, v)" by (metis prod.collapse)
  have rec: "recovery example_record = None" by (simp add: example_record_def)
  have m: "node_at ?fs [''var'', operation_id example_record, ''manifest.json''] = Inr (File 0 384 ''m'' True)" by code_simp
  have "(case fst (?f (quiet 0 ?fs)) of Done r' \<Rightarrow> True | _ \<Rightarrow> False)"
    by (simp add: finalize_verification_def Let_def read_manifest_sequence_def abind_def attempt_def symlink_metadata_def read_nofollow_def
        query_def m ret_def wr boot_record_def rec)
  then obtain r' w' where run: "?f (quiet 0 ?fs) = (Done r', w')" by (cases "?f (quiet 0 ?fs)") (auto split: outcome.splits)
  have d: "real_dir ?fs [''var''] [''var'']" by (simp add: real_dir_def locate_def boot_fs_def)
  have "op_state r' = NeedsRecovery"
    by (rule stale_temporary_blocks_completion [where d = "[''var'']" and w = "quiet 0 ?fs", OF _ _ _ _ _ run])
      (use d in \<open>simp_all add: SEQUENCE_TEMPORARY_def boot_record_def rec\<close>)
  with run show ?thesis by blast
qed

text \<open>
  A name in the journal is harmless: whatever bytes an entry is called, its diagnostic name consists of printable ASCII
  characters and has at most 259 bytes.
\<close>

theorem diagnostic_name_is_bounded:
  "length (diagnostic_name name) \<le> 259 \<and> (\<forall>c\<in>set (diagnostic_name name). 0x20 \<le> byte c \<and> byte c < 0x7F)"
proof -
  have hex: "0x20 \<le> byte (hex_digit n) \<and> byte (hex_digit n) < 0x7F" if "n < 16" for n
    using that by (auto simp: hex_digit_def)
  have "byte c div 16 < 16" for c :: char by (simp add: less_mult_imp_div_less)
  then have one: "length (escape_ascii c) \<le> 4 \<and> (\<forall>x\<in>set (escape_ascii c). 0x20 \<le> byte x \<and> byte x < 0x7F)" for c
    using hex [of "byte c div 16"] hex [of "byte c mod 16"] by (auto simp: escape_ascii_def)
  have "length (concat (map escape_ascii cs)) \<le> 4 * length cs" for cs
    using one by (induction cs) (simp_all, meson add_mono order_trans order_refl)
  from this [of "take 64 name"] have "length (concat (map escape_ascii (take 64 name))) \<le> 256" by simp
  moreover have "\<forall>c\<in>set (concat (map escape_ascii (take 64 name))). 0x20 \<le> byte c \<and> byte c < 0x7F"
    using one by auto
  ultimately show ?thesis by (auto simp: diagnostic_name_def)
qed

end
