(* ===== verification/Probe.thy ===== *)
theory Probe
  imports Discovery Manifest_Fetch Verifier
begin

text \<open>
  \<open>probe/src/main.rs\<close>: the facts a guest reports about its release and its last operation. It reads the files of the theory
  File\_System; the listing of the operations directory, the answer of \<open>rpm\<close> and JSON are parameters. \<open>to_lowercase\<close> is modelled on ASCII: a
  text with other characters is refused as a UUID either way.
\<close>

section \<open>Facts\<close>

record release_evidence =
  re_id :: string
  re_version_id :: string
  re_edition :: string
  re_architecture :: string
  re_build_id :: string

record upgrade_evidence =
  ue_package_version :: "string option"
  ue_operation_id :: "string option"
  ue_operation_state :: "operation_state option"
  ue_operation_sequence :: "u64 option"
  ue_source_version :: "string option"
  ue_target_version :: "string option"
  ue_snapshot_recorded :: "bool option"

record guest_evidence =
  ge_schema :: u32
  ge_status :: string
  ge_mode :: string
  ge_installation_uuid :: string
  ge_boot_id :: string
  ge_session :: string
  ge_release :: release_evidence
  ge_upgrade :: upgrade_evidence

text \<open>The text of an error names the path or the key.\<close>

datatype probe_error = MissingFact path | UnsafeFact path | UnreadableFact path | MissingOsRelease string | InvalidProductFact string
  | MalformedUuid

definition MAX_FACT_BYTES :: nat where
  "MAX_FACT_BYTES = 64 * 1024"

definition read_small :: "path \<Rightarrow> (probe_error, string) act" where
  "read_small p =
     abind (raise_as (\<lambda>_. MissingFact p) (symlink_metadata p)) (\<lambda>n. case n of
         File _ _ content _ \<Rightarrow>
           if MAX_FACT_BYTES < length content then throw (UnsafeFact p)
           else abind (raise_as (\<lambda>_. UnreadableFact p) (read_to_string p)) (\<lambda>body. ret (trim body))
       | _ \<Rightarrow> throw (UnsafeFact p))"

definition trim_quotes :: "string \<Rightarrow> string" where
  "trim_quotes s = rev (dropWhile (\<lambda>c. c = CHR 0x22) (rev (dropWhile (\<lambda>c. c = CHR 0x22) s)))"

text \<open>The map of the assignments; a later line replaces an earlier one.\<close>

definition parse_os_release :: "string \<Rightarrow> string \<Rightarrow> string option" where
  "parse_os_release input = map_of (rev (List.map_filter
     (\<lambda>line. map_option (\<lambda>(key, body). (key, trim_quotes body)) (split_once (CHR ''='') line)) (str_lines input)))"

definition required :: "(string \<Rightarrow> string option) \<Rightarrow> string \<Rightarrow> probe_error + string" where
  "required values key = ok_or (opt_filter (\<lambda>v. v \<noteq> []) (values key)) (MissingOsRelease key)"

definition product_fact :: "string \<Rightarrow> string \<Rightarrow> probe_error + string" where
  "product_fact input key =
     (case List.map_filter (\<lambda>line. Option.bind (strip_prefix line (key @ ''='' @ [CHR 0x27])) (\<lambda>rest. strip_suffix rest [CHR 0x27])) (str_lines input) of
        [] \<Rightarrow> Inl (InvalidProductFact key)
      | v # _ \<Rightarrow> if release_text_ok v then Inr v else Inl (InvalidProductFact key))"

definition validate_uuid :: "string \<Rightarrow> probe_error + unit" where
  "validate_uuid s = (let parts = split_on (CHR ''-'') s in
     ensure (map length parts = [8, 4, 4, 4, 12] \<and> list_all (list_all is_ascii_hexdigit) parts) MalformedUuid)"

section \<open>The last operation\<close>

text \<open>
  The listing of the directory, if it can be read: entries that could be read, by name. Files, links and records that do not load are
  passed over; the record that was updated last comes first, and of several the one that is listed first.
\<close>

definition entry_record :: "(string \<Rightarrow> operation_state_record option) \<Rightarrow> path \<Rightarrow> string option \<Rightarrow> ('e, operation_state_record option) act" where
  "entry_record from_json root entry = (case entry of
      None \<Rightarrow> ret None
    | Some name \<Rightarrow> attempt (symlink_metadata (root @ [name])) (\<lambda>m. case m of
        Inr (Dir _ _) \<Rightarrow> if \<not> is_utf8 name then ret None
          else attempt (load_state from_json root name) (\<lambda>r. ret (to_option r))
      | _ \<Rightarrow> ret None))"

fun entry_records :: "(string \<Rightarrow> operation_state_record option) \<Rightarrow> path \<Rightarrow> string option list \<Rightarrow> ('e, operation_state_record list) act" where
  "entry_records from_json root [] = ret []"
| "entry_records from_json root (e # es) =
     abind (entry_record from_json root e) (\<lambda>r. abind (entry_records from_json root es) (\<lambda>rs.
       ret (case r of Some x \<Rightarrow> x # rs | None \<Rightarrow> rs)))"

definition newest_first :: "operation_state_record list \<Rightarrow> operation_state_record list" where
  "newest_first rs = rev (sort_key updated_at (rev rs))"

definition latest_operation ::
  "(string \<Rightarrow> operation_state_record option) \<Rightarrow> path \<Rightarrow> string option list option \<Rightarrow> ('e, operation_state_record option) act" where
  "latest_operation from_json root listing = (case listing of
      None \<Rightarrow> ret None
    | Some es \<Rightarrow> abind (entry_records from_json root es) (\<lambda>rs. ret (case newest_first rs of [] \<Rightarrow> None | r # _ \<Rightarrow> Some r)))"

section \<open>Evidence\<close>

definition exists_path :: "path \<Rightarrow> ('e, bool) act" where
  "exists_path p = attempt (query (\<lambda>fs. rbind (resolve fs p) (\<lambda>q. ok_or (fs q) ENOENT))) (\<lambda>r. ret (is_ok r))"

definition upgrade_facts :: "string option \<Rightarrow> operation_state_record option \<Rightarrow> upgrade_evidence" where
  "upgrade_facts version latest = \<lparr>ue_package_version = version, ue_operation_id = map_option operation_id latest,
     ue_operation_state = map_option op_state latest, ue_operation_sequence = map_option op_sequence latest,
     ue_source_version = map_option (\<lambda>r. ri_version (op_source r)) latest,
     ue_target_version = Option.bind latest (\<lambda>r. map_option ri_version (op_target r)),
     ue_snapshot_recorded = map_option (\<lambda>r. snapshot_number r \<noteq> None) latest\<rparr>"

definition release_facts :: "string \<Rightarrow> string \<Rightarrow> probe_error + release_evidence" where
  "release_facts os_release product =
     rbind (required (parse_os_release os_release) ''ID'') (\<lambda>i.
     rbind (product_fact product ''LYRA_VERSION_ID'') (\<lambda>v.
     rbind (product_fact product ''LYRA_EDITION'') (\<lambda>e.
     rbind (product_fact product ''LYRA_ARCHITECTURE'') (\<lambda>a.
     rbind (product_fact product ''LYRA_BUILD_ID'') (\<lambda>b.
       Inr \<lparr>re_id = i, re_version_id = v, re_edition = e, re_architecture = a, re_build_id = b\<rparr>)))))"

definition collect_evidence ::
  "(string \<Rightarrow> operation_state_record option) \<Rightarrow> path \<Rightarrow> path \<Rightarrow> string option list option \<Rightarrow> string option \<Rightarrow> (probe_error, guest_evidence) act" where
  "collect_evidence from_json root state_root listing version =
     abind (read_small (root @ [''usr'', ''lib'', ''os-release''])) (\<lambda>os_release.
     abind (read_small (root @ [''usr'', ''lib'', ''lyra-os'', ''product-release''])) (\<lambda>product.
     abind (read_small (root @ [''sys'', ''class'', ''dmi'', ''id'', ''product_uuid''])) (\<lambda>uuid.
     abind (read_small (root @ [''proc'', ''sys'', ''kernel'', ''random'', ''boot_id''])) (\<lambda>boot.
     abind (of_result (validate_uuid (to_ascii_lowercase uuid))) (\<lambda>_.
     abind (of_result (validate_uuid (to_ascii_lowercase boot))) (\<lambda>_.
     abind (latest_operation from_json state_root listing) (\<lambda>latest.
     abind (exists_path (root @ [''run'', ''overlay'', ''live''])) (\<lambda>live.
     abind (of_result (release_facts os_release product)) (\<lambda>release.
       ret \<lparr>ge_schema = 1, ge_status = ''observed'', ge_mode = ''guest-upgrade-state'', ge_installation_uuid = to_ascii_lowercase uuid,
         ge_boot_id = to_ascii_lowercase boot, ge_session = (if live then ''live'' else ''installed''), ge_release = release,
         ge_upgrade = upgrade_facts version latest\<rparr>)))))))))"

text \<open>\<open>rpm -q\<close>: whether it succeeded, and its output.\<close>

definition package_version :: "(bool \<times> string) option \<Rightarrow> string option" where
  "package_version rpm = map_option (\<lambda>(_, out). trim out) (opt_filter fst rpm)"

text \<open>The port: a special file is a character device or not; what is written goes to the host.\<close>

definition emit_to_virtio :: "(guest_evidence \<Rightarrow> string option) \<Rightarrow> bool \<Rightarrow> bool \<Rightarrow> path \<Rightarrow> guest_evidence \<Rightarrow> (string, string) act" where
  "emit_to_virtio to_json character_device writable p evidence =
     abind (exists_path p) (\<lambda>there.
     if \<not> there then ret []
     else abind (raise_as (\<lambda>_. ''cannot open virtio evidence port'') (query (\<lambda>fs. rbind (resolve fs p) (\<lambda>q. case fs q of
         None \<Rightarrow> Inl ENOENT | Some (Dir _ _) \<Rightarrow> Inl EISDIR | Some n \<Rightarrow> Inr n)))) (\<lambda>n. case n of
       Special _ \<Rightarrow>
         if \<not> character_device then throw ''virtio evidence port is not a character device''
         else case to_json evidence of
           None \<Rightarrow> throw ''cannot serialize guest evidence''
         | Some bytes \<Rightarrow> if \<not> writable then throw ''cannot write guest evidence'' else ret (bytes @ [newline])
     | _ \<Rightarrow> throw ''virtio evidence port is not a character device''))"

datatype probe_mode = ProbePrint | ProbeEmit | ProbeUsage

definition probe_mode :: "string list \<Rightarrow> probe_mode" where
  "probe_mode arguments = (if arguments = [] then ProbePrint else if arguments = [''--emit-virtio''] then ProbeEmit else ProbeUsage)"

section \<open>Lemmas: product facts\<close>

lemma starts_with_append: "starts_with s (p @ q) = (starts_with s p \<and> starts_with (drop (length p) s) q)"
proof
  assume "starts_with s (p @ q)"
  then have t: "take (length p + length q) s = p @ q" by (simp add: starts_with_def)
  then have "take (length p) (take (length p + length q) s) = p" "drop (length p) (take (length p + length q) s) = q" by simp_all
  then show "starts_with s p \<and> starts_with (drop (length p) s) q" by (simp add: starts_with_def drop_take min_absorb1)
next
  assume "starts_with s p \<and> starts_with (drop (length p) s) q"
  then show "starts_with s (p @ q)" by (simp add: starts_with_def take_add)
qed

lemma strip_prefix_append: "strip_prefix s (p @ q) = Option.bind (strip_prefix s p) (\<lambda>r. strip_prefix r q)"
  by (simp add: strip_prefix_def starts_with_append add.commute)

lemma map_filter_bind: "List.map_filter (\<lambda>x. Option.bind (f x) h) xs = List.map_filter h (List.map_filter f xs)"
  by (induction xs) (auto simp: List.map_filter_simps split: option.split)

lemma product_fact_assignment:
  assumes "parse_assignment content key = Some v" and "release_text_ok v"
  shows "product_fact content key = Inr v"
proof -
  let ?f = "\<lambda>line. strip_prefix line (key @ ''='')" and ?h = "\<lambda>x. Option.bind (strip_prefix x [CHR 0x27]) (\<lambda>rest. strip_suffix rest [CHR 0x27])"
  from assms(1) obtain x where x: "List.map_filter ?f (str_lines content) = [x]" "?h x = Some v"
    by (auto simp: parse_assignment_def split: list.splits)
  have "(\<lambda>line. Option.bind (strip_prefix line (key @ ''='' @ [CHR 0x27])) (\<lambda>rest. strip_suffix rest [CHR 0x27])) = (\<lambda>line. Option.bind (?f line) ?h)"
    using strip_prefix_append [of _ "key @ ''=''" "[CHR 0x27]"] by (simp add: Option.bind_assoc)
  then have "List.map_filter (\<lambda>line. Option.bind (strip_prefix line (key @ ''='' @ [CHR 0x27])) (\<lambda>rest. strip_suffix rest [CHR 0x27])) (str_lines content) = [v]"
    using map_filter_bind [of ?f ?h "str_lines content"] x by (simp add: List.map_filter_simps)
  then show ?thesis using assms(2) by (simp add: product_fact_def)
qed

text \<open>
  The probe and the discovery of the host agree about the installed release: for a release file that discovery accepts, the probe
  reports the same version, edition, architecture and build.
\<close>

theorem probe_agrees_with_discovery:
  assumes "parse_release content = Inr r"
  shows "product_fact content ''LYRA_VERSION_ID'' = Inr (ri_version r) \<and> product_fact content ''LYRA_EDITION'' = Inr (ri_edition r) \<and>
    product_fact content ''LYRA_ARCHITECTURE'' = Inr (ri_architecture r) \<and> product_fact content ''LYRA_BUILD_ID'' = Inr (ri_build_id r)"
proof -
  have "release_text_ok ''desktop''" by code_simp
  with assms show ?thesis
    by (auto simp: parse_release_def rbind_Inr_iff ok_or_Inr_iff intro!: product_fact_assignment split: if_splits)
qed

theorem probe_agrees_with_discovery_witness:
  "product_fact (release_file \<lparr>ri_version = ''1'', ri_edition = ''desktop'', ri_architecture = ''x86_64'', ri_build_id = ''b''\<rparr>) ''LYRA_VERSION_ID'' = Inr ''1''"
proof -
  have "parse_release (release_file \<lparr>ri_version = ''1'', ri_edition = ''desktop'', ri_architecture = ''x86_64'', ri_build_id = ''b''\<rparr>) =
    Inr \<lparr>ri_version = ''1'', ri_edition = ''desktop'', ri_architecture = ''x86_64'', ri_build_id = ''b''\<rparr>" by code_simp
  from probe_agrees_with_discovery [OF this] show ?thesis by simp
qed

section \<open>Lemmas: what the probe reads\<close>

lemma keeps_read_small: "fault_blind P \<Longrightarrow> keeps P (read_small p)"
  unfolding read_small_def read_to_string_def by (auto intro!: keeps_intros keeps_query split: node.splits)

lemma keeps_entry_record: "fault_blind P \<Longrightarrow> keeps P (entry_record from_json root e)"
  unfolding entry_record_def by (auto intro!: keeps_intros keeps_load_state split: option.splits sum.splits node.splits)

lemma keeps_entry_records: "fault_blind P \<Longrightarrow> keeps P (entry_records from_json root es)"
  by (induction es) (auto intro!: keeps_intros keeps_entry_record)

lemma keeps_exists_path: "fault_blind P \<Longrightarrow> keeps P (exists_path p)"
  unfolding exists_path_def by (auto intro!: keeps_intros keeps_query)

lemma keeps_collect_evidence: "fault_blind P \<Longrightarrow> keeps P (collect_evidence from_json root state_root listing version)"
  unfolding collect_evidence_def latest_operation_def
  by (auto intro!: keeps_intros keeps_read_small keeps_entry_records keeps_exists_path split: option.splits)

definition uuid_shape :: "string \<Rightarrow> bool" where
  "uuid_shape s = (\<exists>a b c d e. s = a @ ''-'' @ b @ ''-'' @ c @ ''-'' @ d @ ''-'' @ e \<and> map length [a, b, c, d, e] = [8, 4, 4, 4, 12] \<and>
     list_all (list_all is_ascii_hexdigit) [a, b, c, d, e])"

lemma split_on_join: "s = hd (split_on c s) @ concat (map ((#) c) (tl (split_on c s)))"
  by (induction s) (auto split: list.splits)

lemma length_five: "map length ps = [a, b, c, d, e] \<Longrightarrow> \<exists>v w x y z. ps = [v, w, x, y, z]"
  by (auto simp: map_eq_Cons_conv)

lemma validate_uuid_shape:
  assumes "validate_uuid s = Inr ()"
  shows "uuid_shape s"
proof -
  have l: "map length (split_on (CHR ''-'') s) = [8, 4, 4, 4, 12]" and h: "list_all (list_all is_ascii_hexdigit) (split_on (CHR ''-'') s)"
    using assms by (auto simp: validate_uuid_def Let_def ensure_Inr_iff)
  from length_five [OF l] obtain v w x y z where p: "split_on (CHR ''-'') s = [v, w, x, y, z]" by blast
  have "s = v @ ''-'' @ w @ ''-'' @ x @ ''-'' @ y @ ''-'' @ z" using split_on_join [of s "CHR ''-''"] p by simp
  then show ?thesis using l h p unfolding uuid_shape_def by (intro exI [of _ v] exI [of _ w] exI [of _ x] exI [of _ y] exI [of _ z]) simp
qed

lemma product_fact_ok: "product_fact input key = Inr v \<Longrightarrow> release_text_ok v"
  by (auto simp: product_fact_def split: list.splits if_splits)

text \<open>
  The probe only reads, and what it reports about the release is harmless to print: whatever fails, no file changes; in evidence
  that is reported both identifiers have the shape of a UUID and the facts of the product have only letters, digits, dots, dashes and
  underscores.
\<close>

theorem probe_reports_harmless_facts:
  assumes "collect_evidence from_json root state_root listing version w = (out, w')"
  shows "w_fs w' = w_fs w \<and> (\<forall>e. out = Done e \<longrightarrow> uuid_shape (ge_installation_uuid e) \<and> uuid_shape (ge_boot_id e) \<and>
    (\<forall>field\<in>{re_version_id, re_edition, re_architecture, re_build_id}. release_text_ok (field (ge_release e))))"
proof -
  have "keeps (\<lambda>v. w_fs v = w_fs w) (collect_evidence from_json root state_root listing version)"
    by (rule keeps_collect_evidence) (simp add: fault_blind_def)
  then have "w_fs w' = w_fs w" by (rule keepsD) (use assms in simp_all)
  moreover have "uuid_shape (ge_installation_uuid e) \<and> uuid_shape (ge_boot_id e) \<and>
    (\<forall>field\<in>{re_version_id, re_edition, re_architecture, re_build_id}. release_text_ok (field (ge_release e)))" if "out = Done e" for e
    using assms that unfolding collect_evidence_def
    by (auto simp: abind_Done of_result_Done ret_Done release_facts_def rbind_Inr_iff dest!: validate_uuid_shape product_fact_ok)
  ultimately show ?thesis by blast
qed

section \<open>Lemmas: the last operation\<close>

lemma newest_first_hd:
  assumes "newest_first rs = r # others"
  shows "r \<in> set rs \<and> (\<forall>x\<in>set rs. updated_at x \<le> updated_at r)"
proof -
  have s: "sort_key updated_at (rev rs) = rev others @ [r]" using assms by (simp add: newest_first_def rev_eq_Cons_iff)
  have "sorted (map updated_at (sort_key updated_at (rev rs)))" by simp
  then have "\<forall>x\<in>set others. updated_at x \<le> updated_at r" unfolding s by (simp add: sorted_append)
  moreover have "set rs = insert r (set others)" using arg_cong [OF s, of set] by auto
  ultimately show ?thesis by auto
qed

lemma reads_only_entry: "reads_only (entry_record from_json root e)"
  unfolding entry_record_def symlink_metadata_def
  by (cases e) (auto intro!: reads_only_intros reads_only_load split: sum.splits node.splits)

text \<open>What an entry contributes when nothing fails.\<close>

lemma entry_record_calm:
  assumes "calm w"
  shows "\<exists>x. (entry_record from_json root e :: ('e, operation_state_record option) act) w = (Done x, w) \<and>
    (\<forall>r. x = Some r \<longrightarrow> (\<exists>name. e = Some name \<and> loads from_json root name (w_fs w) r))"
proof (cases e)
  case None
  then show ?thesis by (simp add: entry_record_def ret_def)
next
  case (Some name)
  obtain out where run: "load_state from_json root name w = (out, w)" "out \<noteq> Stopped"
    using reads_only_load assms unfolding reads_only_def by blast
  have "fst (load_state from_json root name (quiet 0 (w_fs w))) = out" using load_calm [OF assms] run(1) by (metis fst_conv)
  with run Some show ?thesis
    by (cases out) (auto simp: entry_record_def attempt_def symlink_metadata_def calm_query [OF assms] ret_def to_option_def split: sum.splits node.splits)
qed

lemma entry_record_loads:
  assumes "calm w" and l: "loads from_json root name (w_fs w) r" and dots: "''..'' \<notin> set root" and u: "is_utf8 name"
  shows "(entry_record from_json root (Some name) :: ('e, operation_state_record option) act) w = (Done (Some r), w)"
proof -
  from l [unfolded loads_iff [OF dots]] obtain q where q: "real_dir (w_fs w) (root @ [name]) (q @ [name])"
    unfolding readable_record_def by blast
  obtain n where n: "node_at (w_fs w) (root @ [name]) = Inr n" "is_dir (Some n)"
    using q by (auto simp: real_dir_def node_at_def is_dir_Some)
  obtain out where run: "load_state from_json root name w = (out, w)" using reads_only_load assms(1) unfolding reads_only_def by blast
  have "fst (load_state from_json root name w) = Done r" by (rule trans [OF load_calm [OF assms(1)] l])
  with run n u show ?thesis
    by (cases n) (auto simp: entry_record_def attempt_def symlink_metadata_def calm_query [OF assms(1)] ret_def)
qed

lemma entry_records_calm:
  assumes "calm w"
  shows "\<exists>rs. (entry_records from_json root es :: ('e, operation_state_record list) act) w = (Done rs, w) \<and>
    (\<forall>r\<in>set rs. \<exists>name. Some name \<in> set es \<and> loads from_json root name (w_fs w) r) \<and>
    (''..'' \<notin> set root \<longrightarrow> (\<forall>name r. Some name \<in> set es \<longrightarrow> is_utf8 name \<longrightarrow> loads from_json root name (w_fs w) r \<longrightarrow> r \<in> set rs))"
proof (induction es)
  case Nil
  then show ?case by (simp add: ret_def)
next
  case (Cons e es)
  obtain x where x: "(entry_record from_json root e :: ('e, operation_state_record option) act) w = (Done x, w)"
    "\<forall>r. x = Some r \<longrightarrow> (\<exists>name. e = Some name \<and> loads from_json root name (w_fs w) r)" using entry_record_calm [OF assms] by blast
  obtain rs where rs: "(entry_records from_json root es :: ('e, operation_state_record list) act) w = (Done rs, w)"
    "\<forall>r\<in>set rs. \<exists>name. Some name \<in> set es \<and> loads from_json root name (w_fs w) r"
    "''..'' \<notin> set root \<longrightarrow> (\<forall>name r. Some name \<in> set es \<longrightarrow> is_utf8 name \<longrightarrow> loads from_json root name (w_fs w) r \<longrightarrow> r \<in> set rs)"
    using Cons.IH by blast
  let ?all = "case x of Some y \<Rightarrow> y # rs | None \<Rightarrow> rs"
  have run: "(entry_records from_json root (e # es) :: ('e, operation_state_record list) act) w = (Done ?all, w)"
    using x(1) rs(1) by (simp add: abind_def ret_def)
  have "\<forall>r\<in>set ?all. \<exists>name. Some name \<in> set (e # es) \<and> loads from_json root name (w_fs w) r"
    using x(2) rs(2) by (cases x) auto
  moreover have "r \<in> set ?all" if "''..'' \<notin> set root" "Some name \<in> set (e # es)" "is_utf8 name" "loads from_json root name (w_fs w) r" for name r
  proof (cases "e = Some name")
    case True
    then have "x = Some r" using entry_record_loads [OF assms that(4,1,3), where ?'e = 'e] x(1) by simp
    then show ?thesis by simp
  next
    case False
    then show ?thesis using that rs(3) by (cases x) auto
  qed
  ultimately show ?case using run by blast
qed

text \<open>
  The probe reports the operation that was updated last: when nothing fails, every operation of the directory that loads is at most
  as recent as the one that is reported, which loads as well.
\<close>

theorem probe_reports_the_newest_operation:
  assumes "w_faults w = []" and "''..'' \<notin> set root" and "Some name \<in> set es" and "is_utf8 name" and "loads from_json root name (w_fs w) r"
  shows "\<exists>r' name'. (latest_operation from_json root (Some es) :: ('e, operation_state_record option) act) w = (Done (Some r'), w) \<and>
    updated_at r \<le> updated_at r' \<and> Some name' \<in> set es \<and> loads from_json root name' (w_fs w) r'"
proof -
  obtain rs where rs: "(entry_records from_json root es :: ('e, operation_state_record list) act) w = (Done rs, w)"
    "\<forall>r\<in>set rs. \<exists>name. Some name \<in> set es \<and> loads from_json root name (w_fs w) r" "r \<in> set rs"
    using entry_records_calm [of w from_json root es, where ?'e = 'e] assms by (auto simp: calm_def)
  moreover have "length (newest_first rs) = length rs" by (simp add: newest_first_def)
  ultimately have "newest_first rs \<noteq> []" by fastforce
  then obtain r' others where new: "newest_first rs = r' # others" by (cases "newest_first rs") auto
  with newest_first_hd [OF new] rs show ?thesis by (auto simp: latest_operation_def abind_def ret_def)
qed

theorem probe_reports_the_newest_operation_witness:
  "\<exists>r'. (latest_operation example_from_json [''var''] (Some [None, Some (operation_id example_record)]) :: (unit, operation_state_record option) act)
     (example_world []) = (Done (Some r'), example_world []) \<and> updated_at example_record \<le> updated_at r'"
proof -
  have "loads example_from_json [''var''] (operation_id example_record) (w_fs (example_world [])) example_record" by code_simp
  moreover have "is_utf8 (operation_id example_record)" by code_simp
  ultimately show ?thesis
    using probe_reports_the_newest_operation [of "example_world []" "[''var'']" "operation_id example_record" "[None, Some (operation_id example_record)]"
        example_from_json example_record, where ?'e = unit]
    by (auto simp: example_world_def)
qed

end
