(* ===== verification/Solver_Xml.thy ===== *)
theory Solver_Xml
  imports Preflight
begin

text \<open>
  The readers of zypper's XML output: \<open>service/src/solver_xml.rs\<close>, which turns a dry run into a \<open>solver_result\<close>, and
  \<open>verifier/src/dependencies.rs\<close>, which accepts only a dry run that has nothing to repair. The tokenizer is the library
  \<open>quick_xml\<close>: the programs are functions of the list of its events, which ends where the document ends.
\<close>

section \<open>Events\<close>

text \<open>
  An attribute can be malformed, and its value can fail to decode. An element carries its qualified and its local name and the
  namespace the latter resolves to, if it does. Text has its raw bytes, its decoding and its normalised content; a reference has its
  name, whether it is a character reference (no answer for a malformed one) and what it stands for.
\<close>

datatype xml_attribute = BadAttribute | Attribute string "string option"

record xml_element =
  el_name :: string
  el_local :: string
  el_namespace :: "string option"
  el_attributes :: "xml_attribute list"

datatype xml_event =
    XStart xml_element
  | XEmpty xml_element
  | XEnd string
  | XText string "string option" "string option"
  | XCData "string option"
  | XRef string "bool option" "string option"
  | XDecl
  | XDocType
  | XPI
  | XComment
  | XError

section \<open>The transaction of a dry run\<close>

datatype solver_xml_error =
    XmlError | InvalidNumber string | MissingSummary | InvalidPackage string | ConflictingPackage | ArchitectureChange

fun attribute :: "xml_attribute list \<Rightarrow> string \<Rightarrow> solver_xml_error + string option" where
  "attribute [] name = Inr None"
| "attribute (BadAttribute # rest) name = Inl XmlError"
| "attribute (Attribute key value # rest) name =
     (if key = name then map_err (\<lambda>_. XmlError) (ok_or (map_option Some value) ()) else attribute rest name)"

definition required_number :: "xml_element \<Rightarrow> string \<Rightarrow> solver_xml_error + u64" where
  "required_number el name = rbind (attribute (el_attributes el) name) (\<lambda>v.
     ok_or (Option.bind v parse_u64) (InvalidNumber ''unsigned summary field''))"

definition required_signed_number :: "xml_element \<Rightarrow> string \<Rightarrow> solver_xml_error + int" where
  "required_signed_number el name = rbind (attribute (el_attributes el) name) (\<lambda>v.
     ok_or (Option.bind v parse_i64) (InvalidNumber ''signed summary field''))"

record xml_summary =
  packages_to_change :: u64
  sm_download_bytes :: u64
  space_usage_diff :: int
  snapshot_bytes :: u64
  need_reboot :: bool

definition parse_summary :: "xml_element \<Rightarrow> solver_xml_error + xml_summary" where
  "parse_summary el =
     rbind (required_number el ''packages-to-change'') (\<lambda>packages.
     rbind (required_number el ''download-size'') (\<lambda>download.
     rbind (required_signed_number el ''space-usage-diff'') (\<lambda>diff.
     rbind (required_number el ''space-usage-installed'') (\<lambda>installed.
     rbind (required_number el ''space-usage-removed'') (\<lambda>removed.
     rbind (attribute (el_attributes el) ''need-reboot'') (\<lambda>reboot.
       Inr \<lparr>packages_to_change = packages, sm_download_bytes = download, space_usage_diff = diff,
         snapshot_bytes = sat_add installed removed, need_reboot = is_some_and reboot (\<lambda>v. v = ''true'' \<or> v = ''1'')\<rparr>))))))"

definition section_action :: "string \<Rightarrow> package_action option" where
  "section_action section =
     (if section = ''to-install'' then Some Install
      else if section = ''to-remove'' then Some Remove
      else if section \<in> {''to-upgrade'', ''to-upgrade-change-arch''} then Some Upgrade
      else if section \<in> {''to-downgrade'', ''to-downgrade-change-arch''} then Some Downgrade
      else if section \<in> {''to-reinstall'', ''to-change-arch'', ''to-change-vendor''} then Some Reinstall
      else None)"

definition filled :: "xml_element \<Rightarrow> string \<Rightarrow> string \<Rightarrow> solver_xml_error + string" where
  "filled el name error = rbind (attribute (el_attributes el) name) (\<lambda>v.
     ok_or (opt_filter (\<lambda>x. x \<noteq> []) v) (InvalidPackage error))"

definition change_versions :: "package_action \<Rightarrow> string \<Rightarrow> string option \<Rightarrow> solver_xml_error + string option \<times> string option" where
  "change_versions action version old = (case action of
      Remove \<Rightarrow> Inr (Some version, None)
    | Install \<Rightarrow> Inr (None, Some version)
    | _ \<Rightarrow> rbind (ok_or old (InvalidPackage ''edition-old'')) (\<lambda>o'. Inr (Some o', Some version)))"

definition parse_solvable :: "xml_element \<Rightarrow> package_action \<Rightarrow> solver_xml_error + package_change option" where
  "parse_solvable el action =
     rbind (attribute (el_attributes el) ''type'') (\<lambda>kind.
       if kind \<in> {Some ''pattern'', Some ''product'', Some ''patch'', Some ''application''} then Inr None
       else if kind \<noteq> Some ''package'' then Inl (InvalidPackage ''unsupported solvable type'')
       else rbind (filled el ''name'' ''name'') (\<lambda>name.
         rbind (filled el ''arch'' ''architecture'') (\<lambda>architecture.
         rbind (attribute (el_attributes el) ''arch-old'') (\<lambda>old_arch.
           if is_some_and old_arch (\<lambda>o'. o' \<noteq> architecture) then Inl ArchitectureChange
           else rbind (filled el ''edition'' ''edition'') (\<lambda>version.
             rbind (attribute (el_attributes el) ''edition-old'') (\<lambda>old.
             rbind (change_versions action version old) (\<lambda>(current, proposed).
             rbind (if action = Remove then Inr None else attribute (el_attributes el) ''repository'') (\<lambda>alias.
               Inr (Some \<lparr>pc_name = name, pc_architecture = architecture, pc_action = action, current_version = current,
                 proposed_version = proposed, current_vendor = None, proposed_vendor = None, pc_repository_alias = alias,
                 pc_download_bytes = 0, installed_size_before = 0, installed_size_after = 0\<rparr>))))))))) "

type_synonym change_id = "string \<times> string \<times> string option \<times> string option \<times> string option"

definition change_id :: "package_change \<Rightarrow> change_id" where
  "change_id c = (pc_name c, pc_architecture c, current_version c, proposed_version c, pc_repository_alias c)"

text \<open>The map from identities to changes; an action other than a reinstallation wins over one.\<close>

fun add_change :: "package_change list \<Rightarrow> package_change \<Rightarrow> solver_xml_error + package_change list" where
  "add_change [] c = Inr [c]"
| "add_change (d # ds) c =
     (if change_id d = change_id c then
        (if pc_action d = pc_action c then Inr (d # ds)
         else if pc_action d = Reinstall then Inr (d\<lparr>pc_action := pc_action c\<rparr> # ds)
         else if pc_action c \<noteq> Reinstall then Inl ConflictingPackage
         else Inr (d # ds))
      else rbind (add_change ds c) (\<lambda>rest. Inr (d # rest)))"

record solver_scan =
  ss_path :: "string list"
  ss_changes :: "package_change list"
  ss_problems :: "string list"
  ss_summary :: "xml_summary option"
  ss_in_error :: bool

definition scan_summary :: "xml_element \<Rightarrow> solver_scan \<Rightarrow> solver_xml_error + solver_scan" where
  "scan_summary el s =
     (if el_name el = ''install-summary'' then
        (if ss_summary s \<noteq> None \<or> ss_path s \<noteq> [''stream''] then Inl (InvalidPackage ''duplicate or misplaced summary'')
         else rbind (parse_summary el) (\<lambda>m. Inr (s\<lparr>ss_summary := Some m\<rparr>)))
      else Inr s)"

definition scan_solvable :: "xml_element \<Rightarrow> solver_scan \<Rightarrow> solver_xml_error + solver_scan" where
  "scan_solvable el s =
     (if el_name el = ''solvable'' \<and> length (ss_path s) = 3 \<and> ss_path s ! 1 = ''install-summary'' then
        (case section_action (ss_path s ! 2) of
           None \<Rightarrow> Inr s
         | Some action \<Rightarrow> rbind (parse_solvable el action) (\<lambda>found. case found of
             None \<Rightarrow> Inr s
           | Some c \<Rightarrow> rbind (add_change (ss_changes s) c) (\<lambda>cs. Inr (s\<lparr>ss_changes := cs\<rparr>))))
      else Inr s)"

definition scan_message :: "xml_element \<Rightarrow> solver_scan \<Rightarrow> solver_xml_error + solver_scan" where
  "scan_message el s =
     (if el_name el = ''message'' then
        rbind (attribute (el_attributes el) ''type'') (\<lambda>kind.
          let error = is_some_and kind (\<lambda>k. k = ''error'') in
          Inr (s\<lparr>ss_in_error := error, ss_problems := ss_problems s @ (if error then [''zypper reported an error''] else [])\<rparr>))
      else Inr s)"

definition scan_element :: "xml_element \<Rightarrow> solver_scan \<Rightarrow> solver_xml_error + solver_scan" where
  "scan_element el s = rbind (scan_summary el s) (\<lambda>s. rbind (scan_solvable el s) (scan_message el))"

definition scan_event :: "xml_event \<Rightarrow> solver_scan \<Rightarrow> solver_xml_error + solver_scan" where
  "scan_event e s = (case e of
      XStart el \<Rightarrow> rbind (scan_element el s) (\<lambda>s.
        if 32 \<le> length (ss_path s) then Inl (InvalidPackage ''excessive nesting'')
        else Inr (s\<lparr>ss_path := ss_path s @ [el_name el]\<rparr>))
    | XEmpty el \<Rightarrow> scan_element el s
    | XText _ decoded _ \<Rightarrow> if ss_in_error s
        then rbind (ok_or decoded XmlError) (\<lambda>value.
          Inr (if trim value = [] then s else s\<lparr>ss_problems := ss_problems s @ [trim value]\<rparr>))
        else Inr s
    | XEnd name \<Rightarrow> Inr (s\<lparr>ss_path := butlast (ss_path s), ss_in_error := (ss_in_error s \<and> name \<noteq> ''message'')\<rparr>)
    | XDocType \<Rightarrow> Inl (InvalidPackage ''DTD not allowed'')
    | XError \<Rightarrow> Inl XmlError
    | _ \<Rightarrow> Inr s)"

fun scan_events :: "xml_event list \<Rightarrow> solver_scan \<Rightarrow> solver_xml_error + solver_scan" where
  "scan_events [] s = Inr s"
| "scan_events (e # es) s = rbind (scan_event e s) (scan_events es)"

definition first_scan :: solver_scan where
  "first_scan = \<lparr>ss_path = [], ss_changes = [], ss_problems = [], ss_summary = None, ss_in_error = False\<rparr>"

definition parse_solver_xml :: "xml_event list \<Rightarrow> string list \<Rightarrow> u64 \<Rightarrow> solver_xml_error + solver_result" where
  "parse_solver_xml events repositories estimated =
     rbind (scan_events events first_scan) (\<lambda>s.
     rbind (ok_or (ss_summary s) MissingSummary) (\<lambda>summary.
       if ss_path s \<noteq> [] \<or> word_of_nat (length (ss_changes s)) \<noteq> packages_to_change summary \<or>
          list_ex (\<lambda>c. pc_action c = Reinstall \<and> current_version c \<noteq> proposed_version c) (ss_changes s)
       then Inl ConflictingPackage
       else let ps = sort_dedup (ss_problems s) in
         Inr \<lparr>sr_schema_version = 1, successful = (ps = []), problems = ps,
           sr_metadata_valid_repositories = repositories, changes = sort_key change_key (ss_changes s),
           sr_download_bytes = sm_download_bytes summary, transaction_size_increase = word_of_int (max 0 (space_usage_diff summary)),
           estimated_snapshot_bytes = max estimated (snapshot_bytes summary), sr_reboot_required = need_reboot summary\<rparr>))"

section \<open>The dependency check\<close>

definition MAX_OUTPUT :: nat where
  "MAX_OUTPUT = 1024 * 1024"

fun decode_attributes :: "xml_attribute list \<Rightarrow> (string \<times> string) list option" where
  "decode_attributes [] = Some []"
| "decode_attributes (Attribute key (Some value) # rest) = map_option (\<lambda>more. (key, value) # more) (decode_attributes rest)"
| "decode_attributes (_ # rest) = None"

definition SUMMARY_FIELDS :: "string list" where
  "SUMMARY_FIELDS = [''packages-to-change'', ''download-size'', ''space-usage-diff'', ''space-usage-installed'', ''space-usage-removed'']"

record health_scan =
  hs_path :: "string list"
  hs_root_seen :: bool
  hs_declaration_seen :: bool
  hs_summary_seen :: bool

text \<open>A later attribute of the same name replaces an earlier one, as in the map the code builds.\<close>

definition summary_is_zero :: "(string \<times> string) list \<Rightarrow> bool" where
  "summary_is_zero attributes = list_all (\<lambda>f. Option.bind (map_of (rev attributes) f) parse_i64 = Some 0) SUMMARY_FIELDS"

definition health_element :: "xml_element \<Rightarrow> health_scan \<Rightarrow> health_scan option" where
  "health_element el s =
     (if hs_path s = [] \<and> (hs_root_seen s \<or> el_name el \<noteq> ''stream'') then None
      else if ''install-summary'' \<in> set (hs_path s) then None
      else case decode_attributes (el_attributes el) of None \<Rightarrow> None | Some attributes \<Rightarrow>
        if el_name el = ''install-summary'' \<and> (hs_summary_seen s \<or> hs_path s \<noteq> [''stream''] \<or> \<not> summary_is_zero attributes) then None
        else if el_name el = ''prompt'' \<or> el_name el = ''solvable'' \<or> starts_with (el_name el) ''to-'' \<or>
          (el_name el = ''message'' \<and> map_of (rev attributes) ''type'' = Some ''error'') then None
        else Some (s\<lparr>hs_root_seen := True, hs_summary_seen := (hs_summary_seen s \<or> el_name el = ''install-summary'')\<rparr>))"

definition in_summary :: "health_scan \<Rightarrow> bool" where
  "in_summary s = (hs_path s = [] \<or> last (hs_path s) = ''install-summary'')"

definition health_event :: "xml_event \<Rightarrow> health_scan \<Rightarrow> health_scan option" where
  "health_event e s = (case e of
      XStart el \<Rightarrow> Option.bind (health_element el s) (\<lambda>s.
        if 32 \<le> length (hs_path s) then None else Some (s\<lparr>hs_path := hs_path s @ [el_name el]\<rparr>))
    | XEmpty el \<Rightarrow> health_element el s
    | XEnd name \<Rightarrow> if hs_path s = [] \<or> last (hs_path s) \<noteq> name then None else Some (s\<lparr>hs_path := butlast (hs_path s)\<rparr>)
    | XText raw _ _ \<Rightarrow> if in_summary s \<and> \<not> list_all is_ascii_whitespace raw then None else Some s
    | XRef name char_ref _ \<Rightarrow> if in_summary s then None
        else (case char_ref of None \<Rightarrow> None
          | Some is_char \<Rightarrow> if \<not> is_char \<and> name \<notin> {''amp'', ''lt'', ''gt'', ''apos'', ''quot''} then None else Some s)
    | XDecl \<Rightarrow> if hs_declaration_seen s \<or> hs_root_seen s then None else Some (s\<lparr>hs_declaration_seen := True\<rparr>)
    | XComment \<Rightarrow> Some s
    | _ \<Rightarrow> None)"

fun health_events :: "xml_event list \<Rightarrow> health_scan \<Rightarrow> health_scan option" where
  "health_events [] s = Some s"
| "health_events (e # es) s = Option.bind (health_event e s) (health_events es)"

definition healthy_output :: "(string \<Rightarrow> xml_event list) \<Rightarrow> bool \<Rightarrow> string \<Rightarrow> bool" where
  "healthy_output tokens ok bytes =
     (ok \<and> length bytes \<le> MAX_OUTPUT \<and> is_utf8 bytes \<and>
      (case health_events (tokens bytes) \<lparr>hs_path = [], hs_root_seen = False, hs_declaration_seen = False, hs_summary_seen = False\<rparr> of
         None \<Rightarrow> False
       | Some s \<Rightarrow> hs_root_seen s \<and> hs_summary_seen s \<and> hs_path s = []))"

text \<open>\<open>verify_with\<close>: the output is read up to the limit; \<open>run\<close> is the child's standard output and its success.\<close>

definition verify_dependencies :: "(string \<Rightarrow> xml_event list) \<Rightarrow> (string list \<Rightarrow> (string \<times> bool) option) \<Rightarrow> bool" where
  "verify_dependencies tokens run =
     (case run [''--xmlout'', ''--non-interactive'', ''--no-refresh'', ''verify'', ''--dry-run'', ''--details''] of
        None \<Rightarrow> False
      | Some (out, ok) \<Rightarrow> if MAX_OUTPUT < length out then False else healthy_output tokens ok out)"

section \<open>Lemmas: the transaction\<close>

text \<open>The shape of a change, and what the loop keeps: \<open>E\<close> are the events it has seen.\<close>

definition change_shape :: "package_change \<Rightarrow> bool" where
  "change_shape c = (pc_name c \<noteq> [] \<and> pc_architecture c \<noteq> [] \<and> (case pc_action c of
      Install \<Rightarrow> current_version c = None \<and> proposed_version c \<noteq> None
    | Remove \<Rightarrow> current_version c \<noteq> None \<and> proposed_version c = None
    | _ \<Rightarrow> current_version c \<noteq> None \<and> proposed_version c \<noteq> None))"

definition element_in :: "xml_element \<Rightarrow> xml_event set \<Rightarrow> bool" where
  "element_in el E = (XStart el \<in> E \<or> XEmpty el \<in> E)"

definition scan_ok :: "xml_event set \<Rightarrow> solver_scan \<Rightarrow> bool" where
  "scan_ok E s = (list_all change_shape (ss_changes s) \<and> distinct (map change_id (ss_changes s)) \<and>
     (\<forall>m. ss_summary s = Some m \<longrightarrow> (\<exists>el. element_in el E \<and> el_name el = ''install-summary'' \<and> parse_summary el = Inr m)))"

lemma filled_Inr: "filled el name e = Inr v \<Longrightarrow> v \<noteq> []"
  by (auto simp: filled_def rbind_Inr_iff ok_or_Inr_iff opt_filter_Some_iff)

lemma parse_solvable_shape: "parse_solvable el a = Inr (Some c) \<Longrightarrow> change_shape c"
  by (cases a) (auto simp: parse_solvable_def rbind_Inr_iff change_versions_def change_shape_def dest: filled_Inr split: if_splits)

lemma change_shape_action:
  "change_shape d \<Longrightarrow> change_shape c \<Longrightarrow> change_id d = change_id c \<Longrightarrow> change_shape (d\<lparr>pc_action := pc_action c\<rparr>)"
  by (cases "pc_action c") (auto simp: change_shape_def change_id_def)

lemma change_id_action [simp]: "change_id (d\<lparr>pc_action := a\<rparr>) = change_id d"
  by (simp add: change_id_def)

lemma add_change_ok:
  assumes "add_change ds c = Inr ds'" and "change_shape c" and "list_all change_shape ds" and "distinct (map change_id ds)"
  shows "list_all change_shape ds' \<and> distinct (map change_id ds') \<and> set (map change_id ds') = insert (change_id c) (set (map change_id ds))"
  using assms
proof (induction ds arbitrary: ds')
  case (Cons d ds)
  show ?case
  proof (cases "change_id d = change_id c")
    case True
    with Cons.prems show ?thesis by (auto simp: change_shape_action split: if_splits)
  next
    case False
    with Cons.prems(1) obtain rest where "add_change ds c = Inr rest" "ds' = d # rest" by (auto simp: rbind_Inr_iff)
    with Cons.IH [of rest] Cons.prems False show ?thesis by auto
  qed
qed simp

lemma scan_element_ok: "scan_element el s = Inr s' \<Longrightarrow> scan_ok E s \<Longrightarrow> element_in el E \<Longrightarrow> scan_ok E s'"
  by (auto simp: scan_element_def scan_summary_def scan_solvable_def scan_message_def rbind_Inr_iff scan_ok_def Let_def
      dest!: add_change_ok parse_solvable_shape split: if_splits option.splits)

lemma scan_event_ok: "scan_event e s = Inr s' \<Longrightarrow> scan_ok E s \<Longrightarrow> e \<in> E \<Longrightarrow> scan_ok E s'"
  by (cases e) (auto simp: scan_event_def rbind_Inr_iff element_in_def split: if_splits dest!: scan_element_ok [where E = E] simp: scan_ok_def)

lemma scan_events_ok: "scan_events es s = Inr s' \<Longrightarrow> scan_ok E s \<Longrightarrow> set es \<subseteq> E \<Longrightarrow> scan_ok E s'"
  by (induction es arbitrary: s) (auto simp: rbind_Inr_iff dest: scan_event_ok)

section \<open>Lemmas: the dependency check\<close>

definition proposes :: "xml_element \<Rightarrow> bool" where
  "proposes el = (el_name el = ''prompt'' \<or> el_name el = ''solvable'' \<or> starts_with (el_name el) ''to-'')"

lemma health_element_Some:
  "health_element el s = Some s' \<Longrightarrow> \<not> proposes el \<and> hs_path s' = hs_path s \<and>
     (hs_summary_seen s' \<longrightarrow> hs_summary_seen s \<or> el_name el = ''install-summary'' \<and>
        (\<exists>attributes. decode_attributes (el_attributes el) = Some attributes \<and> summary_is_zero attributes))"
  by (auto simp: health_element_def proposes_def split: if_splits option.splits)

lemma health_events_Some:
  assumes "health_events es s = Some s'"
  shows "(\<forall>el. element_in el (set es) \<longrightarrow> \<not> proposes el) \<and> (hs_summary_seen s' \<longrightarrow> hs_summary_seen s \<or>
     (\<exists>el attributes. element_in el (set es) \<and> el_name el = ''install-summary'' \<and>
        decode_attributes (el_attributes el) = Some attributes \<and> summary_is_zero attributes))"
  using assms
proof (induction es arbitrary: s)
  case (Cons e es)
  then obtain t where t: "health_event e s = Some t" and rest: "health_events es t = Some s'"
    by (auto simp: bind_eq_Some_conv)
  have step: "(\<forall>el. e = XStart el \<or> e = XEmpty el \<longrightarrow> \<not> proposes el) \<and> (hs_summary_seen t \<longrightarrow> hs_summary_seen s \<or>
     (\<exists>el attributes. (e = XStart el \<or> e = XEmpty el) \<and> el_name el = ''install-summary'' \<and>
        decode_attributes (el_attributes el) = Some attributes \<and> summary_is_zero attributes))"
    using t by (cases e) (auto simp: health_event_def bind_eq_Some_conv dest!: health_element_Some split: if_splits option.splits)
  from Cons.IH [OF rest] step show ?case by (auto simp: element_in_def)
qed (simp add: element_in_def)

section \<open>Properties\<close>


definition example_events :: "xml_event list" where
  "example_events =
     [XDecl,
      XStart \<lparr>el_name = ''stream'', el_local = ''stream'', el_namespace = Some [], el_attributes = []\<rparr>,
      XStart \<lparr>el_name = ''install-summary'', el_local = ''install-summary'', el_namespace = Some [], el_attributes =
        [Attribute ''download-size'' (Some ''9''), Attribute ''space-usage-diff'' (Some ''-4''), Attribute ''space-usage-installed'' (Some ''8''),
         Attribute ''space-usage-removed'' (Some ''12''), Attribute ''packages-to-change'' (Some ''1''), Attribute ''need-reboot'' (Some ''true'')]\<rparr>,
      XStart \<lparr>el_name = ''to-upgrade'', el_local = ''to-upgrade'', el_namespace = Some [], el_attributes = []\<rparr>,
      XEmpty \<lparr>el_name = ''solvable'', el_local = ''solvable'', el_namespace = Some [], el_attributes =
        [Attribute ''type'' (Some ''package''), Attribute ''name'' (Some ''bash''), Attribute ''edition'' (Some ''2''),
         Attribute ''edition-old'' (Some ''1''), Attribute ''arch'' (Some ''x86_64''), Attribute ''repository'' (Some ''oss'')]\<rparr>,
      XEnd ''to-upgrade'', XEnd ''install-summary'', XEnd ''stream'']"


text \<open>
  The dependency check never waves a repair through: output that is accepted contains no proposed package, no section
  of proposed packages and no prompt, at any depth, and its summary has every count and size at zero.
\<close>

theorem healthy_output_proposes_nothing:
  assumes "healthy_output tokens ok bytes"
  shows "ok \<and> length bytes \<le> 1024 * 1024 \<and> (\<forall>el. element_in el (set (tokens bytes)) \<longrightarrow>
      el_name el \<noteq> ''solvable'' \<and> el_name el \<noteq> ''prompt'' \<and> \<not> starts_with (el_name el) ''to-'') \<and>
    (\<exists>el attributes. element_in el (set (tokens bytes)) \<and> el_name el = ''install-summary'' \<and>
       decode_attributes (el_attributes el) = Some attributes \<and>
       (\<forall>f\<in>set SUMMARY_FIELDS. Option.bind (map_of (rev attributes) f) parse_i64 = Some 0))"
proof -
  let ?s = "\<lparr>hs_path = [], hs_root_seen = False, hs_declaration_seen = False, hs_summary_seen = False\<rparr>"
  from assms obtain s where s: "health_events (tokens bytes) ?s = Some s" "hs_summary_seen s"
    and b: "ok" "length bytes \<le> 1024 * 1024"
    by (auto simp: healthy_output_def MAX_OUTPUT_def split: option.splits)
  from health_events_Some [OF s(1)] s(2) b show ?thesis
    by (auto simp: proposes_def summary_is_zero_def list_all_iff)
qed

definition idle_events :: "xml_event list" where
  "idle_events =
     [XStart \<lparr>el_name = ''stream'', el_local = ''stream'', el_namespace = Some [], el_attributes = []\<rparr>,
      XEmpty \<lparr>el_name = ''install-summary'', el_local = ''install-summary'', el_namespace = Some [], el_attributes =
        map (\<lambda>f. Attribute f (Some ''0'')) SUMMARY_FIELDS\<rparr>,
      XEnd ''stream'']"

theorem healthy_output_proposes_nothing_witness:
  "healthy_output (\<lambda>_. idle_events) True ''x'' \<and> (\<forall>el. element_in el (set idle_events) \<longrightarrow> el_name el \<noteq> ''solvable'')"
proof -
  have "health_events idle_events \<lparr>hs_path = [], hs_root_seen = False, hs_declaration_seen = False, hs_summary_seen = False\<rparr> =
    Some \<lparr>hs_path = [], hs_root_seen = True, hs_declaration_seen = False, hs_summary_seen = True\<rparr>" by code_simp
  moreover have "is_utf8 ''x''" by code_simp
  ultimately have h: "healthy_output (\<lambda>_. idle_events) True ''x''" by (simp add: healthy_output_def MAX_OUTPUT_def)
  from healthy_output_proposes_nothing [OF h] h show ?thesis by blast
qed

end
