(* ===== verification/Vendor_Metadata.thy ===== *)
theory Vendor_Metadata
  imports Solver Solver_Xml Manifest_Fetch
begin

text \<open>
  \<open>service/src/vendor_metadata.rs\<close>: the vendors of installed packages, from RPM headers, and of candidates, from the
  verified RPM-MD cache of a repository. The tokenizer of \<open>quick_xml\<close>, \<open>rpm\<close>, the digests and the decompressors are fields of the
  record \<open>vendor_tools\<close>; files are those of the theory File\_System.
\<close>

section \<open>Catalogs\<close>

datatype vendor_metadata_error = VendorIo io_error | VendorInvalid string | MissingIdentity string

type_synonym package_identity = "string \<times> string \<times> string"
type_synonym catalog = "(package_identity \<times> string option) list"

text \<open>An identity that occurs twice is kept without a vendor: even equal vendors do not tell two headers apart.\<close>

fun catalog_insert :: "catalog \<Rightarrow> package_identity \<Rightarrow> string \<Rightarrow> catalog" where
  "catalog_insert [] key vendor = [(key, Some vendor)]"
| "catalog_insert ((k, v) # rest) key vendor =
     (if k = key then (k, None) # rest else (k, v) # catalog_insert rest key vendor)"

definition catalog_lookup :: "catalog \<Rightarrow> package_identity \<Rightarrow> vendor_metadata_error + string" where
  "catalog_lookup c key =
     ok_or (opt_filter valid_vendor (Option.bind (map_of c key) id)) (MissingIdentity (fst key))"

definition edition :: "string \<Rightarrow> string \<Rightarrow> string \<Rightarrow> vendor_metadata_error + string" where
  "edition epoch version release =
     rbind (ok_or (parse_u64 epoch) (VendorInvalid ''invalid RPM epoch'')) (\<lambda>e.
       if version = [] \<or> release = [] then Inl (VendorInvalid ''missing RPM version/release'')
       else Inr (if e = 0 then version @ ''-'' @ release else show_u64 e @ '':'' @ version @ ''-'' @ release))"

section \<open>The streaming reader\<close>

record xml_node =
  nd_namespace :: string
  nd_name :: string
  nd_attributes :: "(string \<times> string) list"
  nd_text :: string

definition node_is :: "xml_node \<Rightarrow> string \<Rightarrow> string \<Rightarrow> bool" where
  "node_is n ns name = (nd_namespace n = ns \<and> nd_name n = name)"

definition node_attr :: "xml_node \<Rightarrow> string \<Rightarrow> vendor_metadata_error + string" where
  "node_attr n name = ok_or (map_of (nd_attributes n) name) (VendorInvalid ''missing XML attribute'')"

definition node_append :: "xml_node \<Rightarrow> string \<Rightarrow> vendor_metadata_error + xml_node" where
  "node_append n text =
     (if nd_name n \<in> {''name'', ''arch'', ''vendor'', ''checksum'', ''string'', ''integer''} then
        (if 4096 < length (nd_text n) + length text then Inl (VendorInvalid ''oversized identity field'')
         else Inr (n\<lparr>nd_text := nd_text n @ text\<rparr>))
      else Inr n)"

fun node_attributes :: "xml_attribute list \<Rightarrow> (string \<times> string) list \<Rightarrow> vendor_metadata_error + (string \<times> string) list" where
  "node_attributes [] seen = Inr seen"
| "node_attributes (BadAttribute # rest) seen = Inl (VendorInvalid ''invalid XML attribute'')"
| "node_attributes (Attribute key None # rest) seen = Inl (VendorInvalid ''invalid XML attribute value'')"
| "node_attributes (Attribute key (Some value) # rest) seen =
     (if key \<in> fst ` set seen then Inl (VendorInvalid ''duplicate XML attribute'') else node_attributes rest (seen @ [(key, value)]))"

type_synonym 'a closing = "xml_node list \<Rightarrow> xml_node \<Rightarrow> 'a \<Rightarrow> vendor_metadata_error + 'a"
type_synonym 'a walking = "xml_node list \<times> nat \<times> 'a"

definition open_node :: "string \<Rightarrow> string \<Rightarrow> xml_element \<Rightarrow> 'a walking \<Rightarrow> vendor_metadata_error + xml_node \<times> nat" where
  "open_node root_ns root_name el = (\<lambda>(stack, roots, acc).
     rbind (ok_or (el_namespace el) (VendorInvalid ''unbound XML namespace'')) (\<lambda>ns.
     rbind (node_attributes (el_attributes el) []) (\<lambda>attributes.
       let n = \<lparr>nd_namespace = ns, nd_name = el_local el, nd_attributes = attributes, nd_text = []\<rparr>;
           roots' = (if stack = [] then roots + 1 else roots) in
       if stack = [] \<and> (roots' \<noteq> 1 \<or> \<not> node_is n root_ns root_name) then Inl (VendorInvalid ''invalid XML root'')
       else if 32 \<le> length stack then Inl (VendorInvalid ''excessive XML depth'')
       else Inr (n, roots'))))"

definition append_last :: "xml_node list \<Rightarrow> string \<Rightarrow> vendor_metadata_error + xml_node list" where
  "append_last stack text = (if stack = [] then Inr [] else rbind (node_append (last stack) text) (\<lambda>n. Inr (butlast stack @ [n])))"

definition walk_event :: "string \<Rightarrow> string \<Rightarrow> 'a closing \<Rightarrow> xml_event \<Rightarrow> 'a walking \<Rightarrow> vendor_metadata_error + 'a walking" where
  "walk_event root_ns root_name closed e = (\<lambda>(stack, roots, acc). case e of
      XStart el \<Rightarrow> rbind (open_node root_ns root_name el (stack, roots, acc)) (\<lambda>(n, roots').
        Inr (stack @ [n], roots', acc))
    | XEmpty el \<Rightarrow> rbind (open_node root_ns root_name el (stack, roots, acc)) (\<lambda>(n, roots').
        rbind (closed stack n acc) (\<lambda>acc'. Inr (stack, roots', acc')))
    | XEnd _ \<Rightarrow> if stack = [] then Inl (VendorInvalid ''unbalanced XML'')
        else rbind (closed (butlast stack) (last stack) acc) (\<lambda>acc'. Inr (butlast stack, roots, acc'))
    | XText _ _ content \<Rightarrow> rbind (ok_or content (VendorInvalid ''invalid XML text'')) (\<lambda>text.
        if stack = [] \<and> trim text \<noteq> [] then Inl (VendorInvalid ''text outside XML root'')
        else rbind (append_last stack text) (\<lambda>stack'. Inr (stack', roots, acc)))
    | XCData content \<Rightarrow> if stack = [] then Inr (stack, roots, acc)
        else rbind (ok_or content (VendorInvalid ''invalid CDATA'')) (\<lambda>text.
          rbind (append_last stack text) (\<lambda>stack'. Inr (stack', roots, acc)))
    | XRef _ _ resolved \<Rightarrow> rbind (ok_or resolved (VendorInvalid ''unknown XML entity'')) (\<lambda>text.
        rbind (append_last stack text) (\<lambda>stack'. Inr (stack', roots, acc)))
    | XDocType \<Rightarrow> Inl (VendorInvalid ''DTD not allowed'')
    | XError \<Rightarrow> Inl (VendorInvalid ''malformed XML'')
    | _ \<Rightarrow> Inr (stack, roots, acc))"

fun walk_events :: "string \<Rightarrow> string \<Rightarrow> 'a closing \<Rightarrow> xml_event list \<Rightarrow> 'a walking \<Rightarrow> vendor_metadata_error + 'a walking" where
  "walk_events root_ns root_name closed [] w = Inr w"
| "walk_events root_ns root_name closed (e # es) w =
     rbind (walk_event root_ns root_name closed e w) (walk_events root_ns root_name closed es)"

text \<open>\<open>complete\<close>: the document ended before the limit of the reader.\<close>

definition walk_xml :: "string \<Rightarrow> string \<Rightarrow> 'a closing \<Rightarrow> xml_event list \<Rightarrow> bool \<Rightarrow> 'a \<Rightarrow> vendor_metadata_error + 'a" where
  "walk_xml root_ns root_name closed events complete acc =
     rbind (walk_events root_ns root_name closed events ([], 0, acc)) (\<lambda>(stack, roots, acc').
       if roots \<noteq> 1 \<or> stack \<noteq> [] \<or> \<not> complete then Inl (VendorInvalid ''truncated XML'') else Inr acc')"

section \<open>Installed packages\<close>

definition close_header :: "(catalog \<times> string list) closing" where
  "close_header parents n = (\<lambda>(c, fields).
     rbind (if length parents = 2 \<and> node_is (parents ! 1) [] ''package'' \<and> nd_namespace n = [] then
              (if nd_name n \<noteq> ''string'' \<and> nd_name n \<noteq> ''integer'' then Inl (VendorInvalid ''invalid RPM field'')
               else Inr (fields @ [nd_text n]))
            else Inr fields) (\<lambda>fields'.
       if length parents = 1 \<and> node_is n [] ''package'' then
         (if length fields' \<noteq> 6 then Inl (VendorInvalid ''incomplete RPM header'')
          else rbind (edition (fields' ! 1) (fields' ! 2) (fields' ! 3)) (\<lambda>e.
            Inr (catalog_insert c (fields' ! 0, e, fields' ! 4) (fields' ! 5), [])))
       else Inr (c, fields')))"

definition installed_vendors :: "xml_event list \<Rightarrow> bool \<Rightarrow> vendor_metadata_error + catalog" where
  "installed_vendors events complete = rbind (walk_xml [] ''rpmdb'' close_header events complete ([], [])) (\<lambda>(c, _). Inr c)"

fun inventory_entries :: "catalog \<Rightarrow> vendor_metadata_error + installed_package list" where
  "inventory_entries [] = Inr []"
| "inventory_entries (((name, version, architecture), vendor) # rest) =
     rbind (ok_or vendor (VendorInvalid ''ambiguous installed package'')) (\<lambda>v.
     rbind (inventory_entries rest) (\<lambda>more.
       Inr (\<lparr>ip_name = name, ip_version = version, ip_architecture = architecture, ip_vendor = v\<rparr> # more)))"

record vendor_tools =
  vt_rpm :: "io_error + bool \<times> string"
  vt_tokens :: "string \<Rightarrow> xml_event list"
  vt_complete :: "string \<Rightarrow> bool"
  vt_sha256 :: "string \<Rightarrow> string"
  vt_sha512 :: "string \<Rightarrow> string"
  vt_decompress :: "string \<Rightarrow> string \<Rightarrow> io_error + string \<times> (bool \<Rightarrow> io_error + bool)"
  vt_meanwhile :: "fs \<Rightarrow> fs"

definition installed_xml :: "vendor_tools \<Rightarrow> vendor_metadata_error + string" where
  "installed_xml tools = rbind (map_err VendorIo (vt_rpm tools)) (\<lambda>(ok, out).
     if \<not> ok then Inl (VendorInvalid ''RPM query failed'') else Inr (''<rpmdb>'' @ out @ ''</rpmdb>''))"

text \<open>The catalog is a \<open>BTreeMap\<close>: its entries come in the order of their keys.\<close>

definition installed_packages :: "vendor_tools \<Rightarrow> vendor_metadata_error + installed_package list" where
  "installed_packages tools =
     rbind (installed_xml tools) (\<lambda>xml.
     rbind (installed_vendors (vt_tokens tools xml) (vt_complete tools xml)) (\<lambda>c.
     rbind (inventory_entries (sort_key fst c)) (\<lambda>packages.
       if packages = [] then Inl (VendorInvalid ''empty installed inventory'') else Inr packages)))"

section \<open>Candidates\<close>

definition COMMON :: string where
  "COMMON = ''http://linux.duke.edu/metadata/common''"

definition RPM :: string where
  "RPM = ''http://linux.duke.edu/metadata/rpm''"

definition REPO :: string where
  "REPO = ''http://linux.duke.edu/metadata/repo''"

record primary =
  pr_href :: string
  pr_algorithm :: string
  pr_checksum :: string

definition no_primary :: primary where
  "no_primary = \<lparr>pr_href = [], pr_algorithm = [], pr_checksum = []\<rparr>"

definition primary_field :: "xml_node list \<Rightarrow> xml_node \<Rightarrow> primary \<Rightarrow> vendor_metadata_error + primary" where
  "primary_field parents n r =
     (if length parents = 2 \<and> node_is (parents ! 1) REPO ''data'' then
        rbind (node_attr (parents ! 1) ''type'') (\<lambda>kind.
          if kind \<noteq> ''primary'' then Inr r
          else if node_is n REPO ''location'' then
            (if pr_href r \<noteq> [] then Inl (VendorInvalid ''duplicate primary location'')
             else rbind (node_attr n ''href'') (\<lambda>href. Inr (r\<lparr>pr_href := href\<rparr>)))
          else if node_is n REPO ''checksum'' then
            (if pr_checksum r \<noteq> [] then Inl (VendorInvalid ''duplicate primary checksum'')
             else rbind (node_attr n ''type'') (\<lambda>algorithm. Inr (r\<lparr>pr_algorithm := algorithm, pr_checksum := nd_text n\<rparr>)))
          else Inr r)
      else Inr r)"

definition close_data :: "(primary list \<times> primary) closing" where
  "close_data parents n = (\<lambda>(records, r).
     rbind (primary_field parents n r) (\<lambda>r'.
       if length parents = 1 \<and> node_is n REPO ''data'' then
         rbind (node_attr n ''type'') (\<lambda>kind. Inr (if kind = ''primary'' then (records @ [r'], no_primary) else (records, r')))
       else Inr (records, r')))"

definition primary_record :: "xml_event list \<Rightarrow> bool \<Rightarrow> vendor_metadata_error + primary" where
  "primary_record events complete =
     rbind (walk_xml REPO ''repomd'' close_data events complete ([], no_primary)) (\<lambda>(records, _).
       case records of [r] \<Rightarrow> Inr r | _ \<Rightarrow> Inl (VendorInvalid ''missing/ambiguous primary metadata''))"

definition candidate_field :: "xml_node list \<Rightarrow> xml_node \<Rightarrow> vendor_metadata_error + (string \<times> string) option" where
  "candidate_field parents n =
     (if length parents = 2 \<and> node_is (parents ! 1) COMMON ''package'' then
        (if node_is n COMMON ''name'' then Inr (Some (''name'', nd_text n))
         else if node_is n COMMON ''arch'' then Inr (Some (''arch'', nd_text n))
         else if node_is n COMMON ''version'' then
           rbind (node_attr n ''epoch'') (\<lambda>epoch. rbind (node_attr n ''ver'') (\<lambda>ver. rbind (node_attr n ''rel'') (\<lambda>rel.
           rbind (edition epoch ver rel) (\<lambda>e. Inr (Some (''edition'', e))))))
         else Inr None)
      else if length parents = 3 \<and> node_is (parents ! 1) COMMON ''package'' \<and> node_is (parents ! 2) COMMON ''format'' \<and> node_is n RPM ''vendor''
        then Inr (Some (''vendor'', nd_text n))
      else Inr None)"

definition close_candidate :: "package_identity set \<Rightarrow> (catalog \<times> (string \<times> string) list) closing" where
  "close_candidate wanted parents n = (\<lambda>(c, fields).
     rbind (candidate_field parents n) (\<lambda>field.
     rbind (case field of
         Some (key, value) \<Rightarrow> if key \<in> fst ` set fields then Inl (VendorInvalid ''duplicate primary package field'')
           else Inr (fields @ [(key, value)])
       | None \<Rightarrow> Inr fields) (\<lambda>fields'.
       if length parents = 1 \<and> node_is n COMMON ''package'' then
         let get = (\<lambda>key. ok_or (map_of fields' key) (VendorInvalid ''incomplete primary package'')) in
         rbind (get ''name'') (\<lambda>name. rbind (get ''edition'') (\<lambda>e. rbind (get ''arch'') (\<lambda>arch.
           if (name, e, arch) \<in> wanted then
             rbind (node_attr n ''type'') (\<lambda>kind.
               if kind \<noteq> ''rpm'' then Inl (VendorInvalid ''non-RPM candidate'')
               else Inr (catalog_insert c (name, e, arch) (case map_of fields' ''vendor'' of Some v \<Rightarrow> v | None \<Rightarrow> []), []))
           else Inr (c, []))))
       else Inr (c, fields'))))"

definition primary_vendors :: "package_identity set \<Rightarrow> xml_event list \<Rightarrow> bool \<Rightarrow> vendor_metadata_error + catalog" where
  "primary_vendors wanted events complete =
     rbind (walk_xml COMMON ''metadata'' (close_candidate wanted) events complete ([], [])) (\<lambda>(c, _). Inr c)"

section \<open>The cache of a repository\<close>

text \<open>
  \<open>Path::components\<close> skips empty components and \<open>.\<close>, except for a leading one; a location with a root, a leading
  \<open>.\<close> or a \<open>..\<close> is refused.
\<close>

definition normal_components :: "string \<Rightarrow> path option" where
  "normal_components href = (let parts = split_on (CHR ''/'') href in
     if starts_with href ''/'' \<or> hd parts = ''.'' \<or> ''..'' \<in> set parts then None
     else Some (filter (\<lambda>part. part \<noteq> [] \<and> part \<noteq> ''.'') parts))"

definition file_extension :: "string \<Rightarrow> string option" where
  "file_extension name = (case rev (split_on (CHR ''.'') name) of
      after # before # earlier \<Rightarrow> if earlier = [] \<and> before = [] then None else Some after
    | _ \<Rightarrow> None)"

definition canonicalize :: "path \<Rightarrow> (io_error, path) act" where
  "canonicalize p = query (\<lambda>fs. resolve fs p)"

definition file_content :: "fs \<Rightarrow> path \<Rightarrow> io_error + string" where
  "file_content fs p = rbind (resolve fs p) (\<lambda>q. case fs q of
      Some (File _ _ bytes _) \<Rightarrow> Inr bytes
    | Some (Dir _ _) \<Rightarrow> Inl EISDIR
    | Some _ \<Rightarrow> Inl EINVAL
    | None \<Rightarrow> Inl ENOENT)"

definition read_file :: "path \<Rightarrow> (io_error, string) act" where
  "read_file p = query (\<lambda>fs. file_content fs p)"

text \<open>What other processes do to the files between two reads.\<close>

definition others :: "(fs \<Rightarrow> fs) \<Rightarrow> ('e, unit) act" where
  "others f = (\<lambda>w. (Done (), w\<lparr>w_fs := f (w_fs w)\<rparr>))"

definition verify_checksum :: "vendor_tools \<Rightarrow> string \<Rightarrow> primary \<Rightarrow> vendor_metadata_error + unit" where
  "verify_checksum tools bytes r =
     (if pr_algorithm r = ''sha256'' then
        ensure (vt_sha256 tools bytes = pr_checksum r) (VendorInvalid ''primary checksum mismatch'')
      else if pr_algorithm r = ''sha512'' then
        ensure (vt_sha512 tools bytes = pr_checksum r) (VendorInvalid ''primary checksum mismatch'')
      else Inl (VendorInvalid ''unsupported primary checksum''))"

definition decompressor :: "string \<Rightarrow> string option" where
  "decompressor extension = (if extension = ''gz'' then Some ''gzip'' else if extension = ''xz'' then Some ''xz''
     else if extension = ''zst'' then Some ''zstd'' else None)"

text \<open>
  The decompressor reads the open file whose digest was checked. When the reader refuses its output it is killed; its exit status
  after that is what the field \<open>vt_decompress\<close> answers for a killed child.
\<close>

definition read_primary ::
  "vendor_tools \<Rightarrow> package_identity set \<Rightarrow> string option \<Rightarrow> string \<Rightarrow> vendor_metadata_error + catalog" where
  "read_primary tools wanted extension bytes =
     (let parse = (\<lambda>text. primary_vendors wanted (vt_tokens tools text) (vt_complete tools text)) in
      if extension = Some ''xml'' then parse bytes
      else case Option.bind extension decompressor of
        None \<Rightarrow> Inl (VendorInvalid ''unsupported primary compression'')
      | Some program \<Rightarrow> rbind (map_err VendorIo (vt_decompress tools program bytes)) (\<lambda>(out, wait).
          let result = parse out in
          rbind (map_err VendorIo (wait (\<not> is_ok result))) (\<lambda>success.
            if \<not> success then Inl (VendorInvalid ''primary decompression failed'') else result)))"

definition repository_vendors :: "vendor_tools \<Rightarrow> path \<Rightarrow> package_identity set \<Rightarrow> (vendor_metadata_error, catalog) act" where
  "repository_vendors tools repo wanted =
     abind (raise_as VendorIo (canonicalize (repo @ [''repodata'', ''repomd.xml'']))) (\<lambda>repomd_path.
     if \<not> prefix repo repomd_path then throw (VendorInvalid ''repomd escapes repository'')
     else abind (raise_as VendorIo (read_file repomd_path)) (\<lambda>repomd.
     abind (of_result (primary_record (vt_tokens tools repomd) (vt_complete tools repomd))) (\<lambda>r.
     case (if pr_href r = [] then None else normal_components (pr_href r)) of
       None \<Rightarrow> throw (VendorInvalid ''unsafe primary location'')
     | Some relative \<Rightarrow>
         abind (raise_as VendorIo (canonicalize (repo @ relative))) (\<lambda>p.
         if \<not> prefix repo p then throw (VendorInvalid ''primary location escapes repository'')
         else abind (raise_as VendorIo (read_file p)) (\<lambda>bytes.
         abind (of_result (verify_checksum tools bytes r)) (\<lambda>_.
         abind (of_result (read_primary tools wanted (if p = [] then None else file_extension (last p)) bytes)) (\<lambda>c.
         abind (others (vt_meanwhile tools)) (\<lambda>_.
         abind (raise_as VendorIo (read_file repomd_path)) (\<lambda>again.
         if again \<noteq> repomd then throw (VendorInvalid ''metadata changed during lookup'') else ret c)))))))))"

section \<open>Enrichment of a solver result\<close>

definition valid_cache_alias :: "string \<Rightarrow> bool" where
  "valid_cache_alias value = (value \<noteq> [] \<and> value \<noteq> ''.'' \<and> value \<noteq> ''..'' \<and> length value \<le> 128 \<and>
     list_all (\<lambda>c. is_ascii_alphanumeric c \<or> c \<in> set ''._:-'') value)"

fun candidate_set :: "string list \<Rightarrow> package_change list \<Rightarrow> vendor_metadata_error + (string \<times> package_identity) list" where
  "candidate_set verified [] = Inr []"
| "candidate_set verified (ch # rest) =
     (if pc_action ch = Remove then candidate_set verified rest
      else rbind (ok_or (opt_filter (\<lambda>alias. valid_cache_alias alias \<and> alias \<in> set verified) (pc_repository_alias ch))
             (VendorInvalid ''unverified repository alias'')) (\<lambda>alias.
           rbind (ok_or (proposed_version ch) (VendorInvalid ''missing candidate version'')) (\<lambda>version.
           rbind (candidate_set verified rest) (\<lambda>more.
             Inr ((alias, pc_name ch, version, pc_architecture ch) # more)))))"

definition wanted_of :: "(string \<times> package_identity) list \<Rightarrow> string \<Rightarrow> package_identity set" where
  "wanted_of pairs alias = set (map snd (filter (\<lambda>pair. fst pair = alias) pairs))"

fun candidate_catalogs ::
  "vendor_tools \<Rightarrow> path \<Rightarrow> (string \<times> package_identity) list \<Rightarrow> string list \<Rightarrow> (vendor_metadata_error, (string \<times> catalog) list) act" where
  "candidate_catalogs tools raw_cache pairs [] = ret []"
| "candidate_catalogs tools raw_cache pairs (alias # rest) =
     abind (raise_as VendorIo (canonicalize raw_cache)) (\<lambda>root.
     abind (raise_as VendorIo (canonicalize (root @ [alias]))) (\<lambda>repo.
     if \<not> prefix root repo then throw (VendorInvalid ''repository cache escapes root'')
     else abind (repository_vendors tools repo (wanted_of pairs alias)) (\<lambda>c.
       abind (candidate_catalogs tools raw_cache pairs rest) (\<lambda>more.
         ret ((alias, c) # more)))))"

definition side :: "catalog \<Rightarrow> package_change \<Rightarrow> string option \<Rightarrow> vendor_metadata_error + string option" where
  "side c ch version = rbind (ok_or version (VendorInvalid ''missing package version'')) (\<lambda>v.
     rbind (catalog_lookup c (pc_name ch, v, pc_architecture ch)) (\<lambda>vendor. Inr (Some vendor)))"

definition fill_change :: "catalog \<Rightarrow> (string \<times> catalog) list \<Rightarrow> package_change \<Rightarrow> vendor_metadata_error + package_change" where
  "fill_change installed candidates ch =
     rbind (if pc_action ch = Install then Inr None else side installed ch (current_version ch)) (\<lambda>current.
     rbind (if pc_action ch = Remove then Inr None
            else rbind (ok_or (Option.bind (pc_repository_alias ch) (map_of candidates)) (VendorInvalid ''missing repository catalog''))
              (\<lambda>c. side c ch (proposed_version ch))) (\<lambda>proposed.
       Inr (ch\<lparr>current_vendor := current, proposed_vendor := proposed\<rparr>)))"

fun fill_changes :: "catalog \<Rightarrow> (string \<times> catalog) list \<Rightarrow> package_change list \<Rightarrow> vendor_metadata_error + package_change list" where
  "fill_changes installed candidates [] = Inr []"
| "fill_changes installed candidates (ch # rest) =
     rbind (fill_change installed candidates ch) (\<lambda>ch'.
     rbind (fill_changes installed candidates rest) (\<lambda>rest'. Inr (ch' # rest')))"

definition enrich_from_rpm_xml :: "vendor_tools \<Rightarrow> solver_result \<Rightarrow> path \<Rightarrow> string \<Rightarrow> (vendor_metadata_error, solver_result) act" where
  "enrich_from_rpm_xml tools solver raw_cache rpm_xml =
     abind (of_result (installed_vendors (vt_tokens tools rpm_xml) (vt_complete tools rpm_xml))) (\<lambda>installed.
     abind (of_result (candidate_set (sr_metadata_valid_repositories solver) (changes solver))) (\<lambda>pairs.
     abind (candidate_catalogs tools raw_cache pairs (sort_dedup (map fst pairs))) (\<lambda>candidates.
     abind (of_result (fill_changes installed candidates (changes solver))) (\<lambda>filled.
       ret (solver\<lparr>changes := filled\<rparr>)))))"

definition enrich_solver_vendors :: "vendor_tools \<Rightarrow> solver_result \<Rightarrow> path \<Rightarrow> (vendor_metadata_error, solver_result) act" where
  "enrich_solver_vendors tools solver raw_cache =
     abind (of_result (installed_xml tools)) (enrich_from_rpm_xml tools solver raw_cache)"

section \<open>Lemmas: catalogs\<close>

locale header_store =
  fixes none :: 'c
    and add :: "'c \<Rightarrow> 'k \<Rightarrow> 'v \<Rightarrow> 'c"
    and entry :: "'c \<Rightarrow> 'k \<Rightarrow> 'v option option"
  assumes entry_none: "entry none k = None"
    and entry_add: "entry (add c k v) k' =
      (if k = k' then Some (if entry c k = None then Some v else None) else entry c k')"
begin

lemma entry_fold:
  "entry (foldl (\<lambda>c h. add c (fst h) (snd h)) none hs) k =
     (case filter (\<lambda>h. fst h = k) hs of [] \<Rightarrow> None | [h] \<Rightarrow> Some (Some (snd h)) | _ \<Rightarrow> Some None)"
proof (induction hs rule: rev_induct)
  case Nil
  show ?case by (simp add: entry_none)
next
  case (snoc h hs)
  then show ?case by (auto simp: entry_add split: list.splits)
qed

lemma entry_fold_iff:
  "entry (foldl (\<lambda>c h. add c (fst h) (snd h)) none hs) k = Some (Some v) \<longleftrightarrow> filter (\<lambda>h. fst h = k) hs = [(k, v)]"
proof (cases "filter (\<lambda>h. fst h = k) hs")
  case Nil
  then show ?thesis by (simp add: entry_fold)
next
  case (Cons h rest)
  then have "h \<in> set (filter (\<lambda>h. fst h = k) hs)" by simp
  then have "fst h = k" by simp
  with Cons show ?thesis by (cases rest) (auto simp: entry_fold prod_eq_iff)
qed

end

definition catalog_of :: "(package_identity \<times> string) list \<Rightarrow> catalog" where
  "catalog_of hs = foldl (\<lambda>c h. catalog_insert c (fst h) (snd h)) [] hs"

lemma map_of_catalog_insert:
  "map_of (catalog_insert c k v) k' = (if k = k' then Some (if map_of c k = None then Some v else None) else map_of c k')"
  by (induction c k v rule: catalog_insert.induct) auto

interpretation headers: header_store "[] :: catalog" catalog_insert map_of
  by unfold_locales (simp_all add: map_of_catalog_insert)

lemma keys_catalog_insert: "fst ` set (catalog_insert c k v) = insert k (fst ` set c)"
  by (induction c k v rule: catalog_insert.induct) auto

lemma distinct_catalog_insert: "distinct (map fst c) \<Longrightarrow> distinct (map fst (catalog_insert c k v))"
proof (induction c k v rule: catalog_insert.induct)
  case (2 k v rest key vendor)
  then show ?case using keys_catalog_insert [of rest key vendor] by auto
qed simp

lemma distinct_catalog_of: "distinct (map fst (catalog_of hs))"
  unfolding catalog_of_def by (induction hs rule: rev_induct) (simp_all add: distinct_catalog_insert)

lemma catalog_insert_new: "k \<notin> fst ` set c \<Longrightarrow> catalog_insert c k v = c @ [(k, Some v)]"
  by (induction c k v rule: catalog_insert.induct) auto

lemma keys_catalog_of: "fst ` set (catalog_of hs) = fst ` set hs"
  unfolding catalog_of_def by (induction hs rule: rev_induct) (simp_all add: keys_catalog_insert)

lemma catalog_of_distinct: "distinct (map fst hs) \<Longrightarrow> catalog_of hs = map (\<lambda>h. (fst h, Some (snd h))) hs"
proof (induction hs rule: rev_induct)
  case (snoc h hs)
  then show ?case
    using catalog_insert_new [of "fst h" "catalog_of hs" "snd h"] keys_catalog_of [of hs] by (simp add: catalog_of_def)
qed (simp add: catalog_of_def)

lemma inventory_entries_Inr: "inventory_entries (map (\<lambda>h. (fst h, Some (snd h))) hs) =
    Inr (map (\<lambda>((name, version, architecture), v). \<lparr>ip_name = name, ip_version = version, ip_architecture = architecture, ip_vendor = v\<rparr>) hs)"
  by (induction hs) auto

lemma inventory_entries_Inl: "None \<in> snd ` set c \<Longrightarrow> inventory_entries c = Inl (VendorInvalid ''ambiguous installed package'')"
  by (induction c rule: inventory_entries.induct) (auto split: option.splits simp: rbind_def ok_or_def)

lemma repeated_key: "\<not> distinct (map fst hs) \<Longrightarrow> \<exists>k. 1 < length (filter (\<lambda>h. fst h = k) hs)"
proof (induction hs)
  case (Cons h hs)
  show ?case
  proof (cases "fst h \<in> fst ` set hs")
    case True
    then have "filter (\<lambda>g. fst g = fst h) hs \<noteq> []" by (force simp: filter_empty_conv)
    then show ?thesis by (intro exI [of _ "fst h"]) simp
  next
    case False
    then obtain k where "1 < length (filter (\<lambda>h. fst h = k) hs)" using Cons by auto
    then show ?thesis by (intro exI [of _ k]) (cases "filter (\<lambda>h. fst h = k) hs"; simp)
  qed
qed simp

lemma catalog_of_ambiguous:
  assumes "\<not> distinct (map fst hs)"
  shows "None \<in> snd ` set (catalog_of hs)"
proof -
  from repeated_key [OF assms] obtain k where k: "1 < length (filter (\<lambda>h. fst h = k) hs)" ..
  have "map_of (catalog_of hs) k = Some None"
    unfolding catalog_of_def headers.entry_fold using k by (auto split: list.splits)
  then show ?thesis by (force dest: map_of_SomeD)
qed

section \<open>Lemmas: the reader gives back the RPM headers\<close>

record rpm_header =
  rh_name :: string
  rh_epoch :: u64
  rh_version :: string
  rh_release :: string
  rh_arch :: string
  rh_vendor :: string

definition plain_element :: "string \<Rightarrow> xml_element" where
  "plain_element name = \<lparr>el_name = name, el_local = name, el_namespace = Some [], el_attributes = []\<rparr>"

definition field_events :: "string \<Rightarrow> string \<Rightarrow> xml_event list" where
  "field_events tag value = (if value = [] then [XEmpty (plain_element tag)]
     else [XStart (plain_element tag), XText value (Some value) (Some value), XEnd tag])"

definition header_events :: "rpm_header \<Rightarrow> xml_event list" where
  "header_events h = [XStart (plain_element ''package'')] @
     field_events ''string'' (rh_name h) @ field_events ''integer'' (show_u64 (rh_epoch h)) @
     field_events ''string'' (rh_version h) @ field_events ''string'' (rh_release h) @
     field_events ''string'' (rh_arch h) @ field_events ''string'' (rh_vendor h) @
     [XEnd ''package'', XText [newline] (Some [newline]) (Some [newline])]"

definition rpmdb_events :: "rpm_header list \<Rightarrow> xml_event list" where
  "rpmdb_events hs = [XStart (plain_element ''rpmdb'')] @ concat (map header_events hs) @ [XEnd ''rpmdb'']"

definition header_identity :: "rpm_header \<Rightarrow> package_identity" where
  "header_identity h = (rh_name h,
     (if rh_epoch h = 0 then [] else show_u64 (rh_epoch h) @ '':'') @ rh_version h @ ''-'' @ rh_release h, rh_arch h)"

definition header_ok :: "rpm_header \<Rightarrow> bool" where
  "header_ok h = (rh_version h \<noteq> [] \<and> rh_release h \<noteq> [] \<and>
     list_all (\<lambda>f. length f \<le> 4096) [rh_name h, rh_version h, rh_release h, rh_arch h, rh_vendor h])"

lemma walk_events_append:
  "walk_events ns name closed (es @ es') w = rbind (walk_events ns name closed es w) (walk_events ns name closed es')"
proof (induction es arbitrary: w)
  case (Cons e es)
  show ?case by (cases "walk_event ns name closed e w") (simp_all add: Cons.IH)
qed simp

definition plain_node :: "string \<Rightarrow> xml_node" where
  "plain_node name = \<lparr>nd_namespace = [], nd_name = name, nd_attributes = [], nd_text = []\<rparr>"

lemma open_plain:
  "open_node [] ''rpmdb'' (plain_element name) (stack, roots, acc) =
     (let roots' = (if stack = [] then roots + 1 else roots) in
      if stack = [] \<and> (roots' \<noteq> 1 \<or> name \<noteq> ''rpmdb'') then Inl (VendorInvalid ''invalid XML root'')
      else if 32 \<le> length stack then Inl (VendorInvalid ''excessive XML depth'')
      else Inr (plain_node name, roots'))"
  by (simp add: open_node_def plain_element_def plain_node_def node_is_def Let_def) auto

lemma edition_of_header: "header_ok h \<Longrightarrow>
    edition (show_u64 (rh_epoch h)) (rh_version h) (rh_release h) = Inr (fst (snd (header_identity h)))"
  by (simp add: edition_def header_ok_def header_identity_def)

abbreviation rpm_walk :: "xml_event list \<Rightarrow> (catalog \<times> string list) walking \<Rightarrow> vendor_metadata_error + (catalog \<times> string list) walking" where
  "rpm_walk \<equiv> walk_events [] ''rpmdb'' close_header"

lemma walk_field:
  assumes "tag = ''string'' \<or> tag = ''integer''" and "length value \<le> 4096"
  shows "rpm_walk (field_events tag value) ([plain_node ''rpmdb'', plain_node ''package''], 1, (c, seen)) =
    Inr ([plain_node ''rpmdb'', plain_node ''package''], 1, (c, seen @ [value]))"
  using assms
  by (auto simp: field_events_def walk_event_def open_plain close_header_def append_last_def node_append_def plain_node_def node_is_def)

lemma walk_header:
  assumes ok: "header_ok h"
  shows "rpm_walk (header_events h) ([plain_node ''rpmdb''], 1, (c, [])) =
    Inr ([plain_node ''rpmdb''], 1, (catalog_insert c (header_identity h) (rh_vendor h), []))"
proof -
  have len: "length (rh_name h) \<le> 4096" "length (rh_version h) \<le> 4096" "length (rh_release h) \<le> 4096"
    "length (rh_arch h) \<le> 4096" "length (rh_vendor h) \<le> 4096"
    using ok by (simp_all add: header_ok_def)
  have epoch: "length (show_u64 (rh_epoch h)) \<le> 4096" using length_show_u64 [of "rh_epoch h"] by simp
  have opened: "rpm_walk [XStart (plain_element ''package'')] ([plain_node ''rpmdb''], 1, (c, [])) =
      Inr ([plain_node ''rpmdb'', plain_node ''package''], 1, (c, []))"
    by (simp add: walk_event_def open_plain)
  let ?fields = "[rh_name h, show_u64 (rh_epoch h), rh_version h, rh_release h, rh_arch h, rh_vendor h]"
  have closed: "rpm_walk [XEnd ''package'', XText [newline] (Some [newline]) (Some [newline])]
      ([plain_node ''rpmdb'', plain_node ''package''], 1, (c, ?fields)) =
      Inr ([plain_node ''rpmdb''], 1, (catalog_insert c (header_identity h) (rh_vendor h), []))"
    using edition_of_header [OF ok]
    by (simp add: walk_event_def close_header_def append_last_def node_append_def plain_node_def node_is_def header_identity_def)
  show ?thesis
    unfolding header_events_def walk_events_append opened
    using closed by (simp add: walk_events_append walk_field len epoch del: One_nat_def walk_events.simps)
qed

lemma walk_headers:
  "list_all header_ok hs \<Longrightarrow> rpm_walk (concat (map header_events hs)) ([plain_node ''rpmdb''], 1, (c, [])) =
     Inr ([plain_node ''rpmdb''], 1, (foldl (\<lambda>c h. catalog_insert c (fst h) (snd h)) c (map (\<lambda>h. (header_identity h, rh_vendor h)) hs), []))"
  by (induction hs arbitrary: c) (simp_all add: walk_events_append walk_header del: One_nat_def)

lemma installed_vendors_rpmdb:
  assumes "list_all header_ok hs"
  shows "installed_vendors (rpmdb_events hs) True = Inr (catalog_of (map (\<lambda>h. (header_identity h, rh_vendor h)) hs))"
proof -
  have "rpm_walk [XStart (plain_element ''rpmdb'')] ([], 0, ([], [])) = Inr ([plain_node ''rpmdb''], 1, ([], []))"
    by (simp add: walk_event_def open_plain)
  moreover have "rpm_walk [XEnd ''rpmdb''] ([plain_node ''rpmdb''], 1, (c, [])) = Inr ([], 1, (c, []))" for c
    by (simp add: walk_event_def close_header_def)
  ultimately have "rpm_walk (rpmdb_events hs) ([], 0, ([], [])) =
      Inr ([], 1, (catalog_of (map (\<lambda>h. (header_identity h, rh_vendor h)) hs), []))"
    unfolding rpmdb_events_def walk_events_append catalog_of_def
    by (simp add: walk_headers [OF assms] del: One_nat_def walk_events.simps)
  then show ?thesis by (simp add: installed_vendors_def walk_xml_def)
qed

definition header_package :: "rpm_header \<Rightarrow> installed_package" where
  "header_package h = (case header_identity h of (name, version, architecture) \<Rightarrow>
     \<lparr>ip_name = name, ip_version = version, ip_architecture = architecture, ip_vendor = rh_vendor h\<rparr>)"

text \<open>
  The query format of \<open>rpm\<close> and the streaming reader are inverse: the inventory has exactly one package per header, in the
  order of the identities, and two headers with the same identity make the inventory fail.
\<close>

theorem inventory_reads_back_headers:
  assumes rpm: "vt_rpm tools = Inr (True, out)"
    and xml: "vt_tokens tools (''<rpmdb>'' @ out @ ''</rpmdb>'') = rpmdb_events hs" "vt_complete tools (''<rpmdb>'' @ out @ ''</rpmdb>'')"
    and ok: "list_all header_ok hs"
  shows "installed_packages tools =
    (if hs = [] then Inl (VendorInvalid ''empty installed inventory'')
     else if distinct (map header_identity hs) then Inr (map header_package (sort_key header_identity hs))
     else Inl (VendorInvalid ''ambiguous installed package''))"
proof -
  let ?hs = "map (\<lambda>h. (header_identity h, rh_vendor h)) hs"
  have run: "installed_packages tools = rbind (inventory_entries (sort_key fst (catalog_of ?hs))) (\<lambda>packages.
       if packages = [] then Inl (VendorInvalid ''empty installed inventory'') else Inr packages)"
    using installed_vendors_rpmdb [OF ok] by (simp add: installed_packages_def installed_xml_def rpm xml del: append.simps)
  show ?thesis
  proof (cases "distinct (map header_identity hs)")
    case True
    then have "catalog_of ?hs = map (\<lambda>h. (header_identity h, Some (rh_vendor h))) hs"
      using catalog_of_distinct [of ?hs] by (simp add: comp_def)
    moreover have "sort_key fst (map (\<lambda>h. (header_identity h, Some (rh_vendor h))) hs) =
        map (\<lambda>h. (fst h, Some (snd h))) (map (\<lambda>h. (header_identity h, rh_vendor h)) (sort_key header_identity hs))"
      by (simp add: sort_key_map comp_def)
    ultimately show ?thesis
      using True inventory_entries_Inr [of "map (\<lambda>h. (header_identity h, rh_vendor h)) (sort_key header_identity hs)"] run
        sort_key_empty [of header_identity hs]
      by (auto simp: header_package_def split_def comp_def)
  next
    case False
    then have "inventory_entries (sort_key fst (catalog_of ?hs)) = Inl (VendorInvalid ''ambiguous installed package'')"
      using catalog_of_ambiguous [of ?hs] by (intro inventory_entries_Inl) (simp add: comp_def)
    with False run show ?thesis by auto
  qed
qed

section \<open>Lemmas: candidates\<close>

definition digest_matches :: "vendor_tools \<Rightarrow> primary \<Rightarrow> string \<Rightarrow> bool" where
  "digest_matches tools r bytes = (pr_algorithm r = ''sha256'' \<and> pr_checksum r = vt_sha256 tools bytes \<or>
     pr_algorithm r = ''sha512'' \<and> pr_checksum r = vt_sha512 tools bytes)"

definition attested_catalog :: "vendor_tools \<Rightarrow> catalog \<Rightarrow> bool" where
  "attested_catalog tools c = (\<exists>repomd r bytes extension wanted.
     primary_record (vt_tokens tools repomd) (vt_complete tools repomd) = Inr r \<and> digest_matches tools r bytes \<and>
     read_primary tools wanted extension bytes = Inr c)"

lemma verify_checksum_iff: "verify_checksum tools bytes r = Inr () \<longleftrightarrow> digest_matches tools r bytes"
  by (auto simp: verify_checksum_def digest_matches_def ensure_def)

text \<open>
  The vendors of candidates come from a file inside the repository's cache whose digest is the one that \<open>repomd.xml\<close>, inside the
  same cache, names, and \<open>repomd.xml\<close> is the same before and after the lookup, whatever other processes do in between.
\<close>

theorem candidate_metadata_is_verified:
  assumes "repository_vendors tools repo wanted w = (Done c, w')"
  shows "\<exists>repomd_path repomd r p bytes.
    prefix repo repomd_path \<and> file_content (w_fs w) repomd_path = Inr repomd \<and> file_content (w_fs w') repomd_path = Inr repomd \<and>
    primary_record (vt_tokens tools repomd) (vt_complete tools repomd) = Inr r \<and>
    prefix repo p \<and> file_content (w_fs w) p = Inr bytes \<and> digest_matches tools r bytes \<and>
    read_primary tools wanted (if p = [] then None else file_extension (last p)) bytes = Inr c"
proof -
  from assms show ?thesis
    unfolding repository_vendors_def canonicalize_def read_file_def
    by (fastforce simp: act_simps others_def verify_checksum_iff split: if_splits option.splits)
qed

lemma candidate_catalogs_attested:
  "candidate_catalogs tools cache pairs aliases w = (Done cs, w') \<Longrightarrow> (alias, c) \<in> set cs \<Longrightarrow> attested_catalog tools c"
proof (induction aliases arbitrary: w cs)
  case (Cons a aliases)
  then obtain repo w1 c1 w2 cs1 where one: "repository_vendors tools repo (wanted_of pairs a) w1 = (Done c1, w2)"
      and rest: "candidate_catalogs tools cache pairs aliases w2 = (Done cs1, w')" and cs: "cs = (a, c1) # cs1"
    by (auto simp: act_simps split: if_splits)
  have "attested_catalog tools c1"
    using candidate_metadata_is_verified [OF one] unfolding attested_catalog_def by blast
  with Cons.IH [OF rest] Cons.prems(2) cs show ?case by auto
qed (simp add: act_simps)

lemma candidate_set_alias:
  "candidate_set verified chs = Inr pairs \<Longrightarrow> ch \<in> set chs \<Longrightarrow> pc_action ch \<noteq> Remove \<Longrightarrow>
     \<exists>alias. pc_repository_alias ch = Some alias \<and> valid_cache_alias alias \<and> alias \<in> set verified"
  by (induction verified chs arbitrary: pairs rule: candidate_set.induct)
     (auto simp: result_simps split: if_splits)

lemma catalog_lookup_iff: "catalog_lookup c k = Inr v \<longleftrightarrow> map_of c k = Some (Some v) \<and> valid_vendor v"
  by (auto simp: catalog_lookup_def result_simps bind_eq_Some_conv)

lemma side_Inr_iff:
  "side c ch version = Inr x \<longleftrightarrow>
     (\<exists>n v. version = Some n \<and> x = Some v \<and> map_of c (pc_name ch, n, pc_architecture ch) = Some (Some v) \<and> valid_vendor v)"
  by (auto simp: side_def result_simps catalog_lookup_iff)

lemma fill_changes_list_all2:
  "fill_changes installed candidates chs = Inr chs' \<Longrightarrow>
     list_all2 (\<lambda>ch ch'. fill_change installed candidates ch = Inr ch') chs chs'"
  by (induction chs arbitrary: chs') (auto simp: result_simps)

definition vendor_attested :: "vendor_tools \<Rightarrow> rpm_header list \<Rightarrow> string list \<Rightarrow> package_change \<Rightarrow> package_change \<Rightarrow> bool" where
  "vendor_attested tools hs verified ch ch' =
     (ch' = ch\<lparr>current_vendor := current_vendor ch', proposed_vendor := proposed_vendor ch'\<rparr> \<and>
      (if pc_action ch = Install then current_vendor ch' = None
       else \<exists>h version. filter (\<lambda>g. header_identity g = (pc_name ch, version, pc_architecture ch)) hs = [h] \<and>
         current_version ch = Some version \<and> current_vendor ch' = Some (rh_vendor h) \<and> valid_vendor (rh_vendor h)) \<and>
      (if pc_action ch = Remove then proposed_vendor ch' = None
       else \<exists>alias version c v. pc_repository_alias ch = Some alias \<and> alias \<in> set verified \<and> valid_cache_alias alias \<and>
         proposed_version ch = Some version \<and> attested_catalog tools c \<and>
         map_of c (pc_name ch, version, pc_architecture ch) = Some (Some v) \<and> proposed_vendor ch' = Some v \<and> valid_vendor v))"

lemma unique_header:
  assumes "map_of (catalog_of (map (\<lambda>h. (header_identity h, rh_vendor h)) hs)) k = Some (Some v)"
  shows "\<exists>h. filter (\<lambda>g. header_identity g = k) hs = [h] \<and> rh_vendor h = v"
proof -
  have "map (\<lambda>h. (header_identity h, rh_vendor h)) (filter (\<lambda>g. header_identity g = k) hs) = [(k, v)]"
    using assms unfolding catalog_of_def headers.entry_fold_iff by (simp add: filter_map comp_def)
  then show ?thesis by auto
qed


section \<open>Witnesses\<close>

definition example_header :: rpm_header where
  "example_header = \<lparr>rh_name = ''vim'', rh_epoch = 1, rh_version = ''9'', rh_release = ''2'', rh_arch = ''x86_64'', rh_vendor = ''Lyra''\<rparr>"

definition repo_element :: "string \<Rightarrow> string \<Rightarrow> (string \<times> string) list \<Rightarrow> xml_element" where
  "repo_element ns name attributes = \<lparr>el_name = name, el_local = name, el_namespace = Some ns,
     el_attributes = map (\<lambda>(k, v). Attribute k (Some v)) attributes\<rparr>"

definition example_repomd :: "xml_event list" where
  "example_repomd = [XStart (repo_element REPO ''repomd'' []), XStart (repo_element REPO ''data'' [(''type'', ''primary'')]),
     XStart (repo_element REPO ''checksum'' [(''type'', ''sha256'')]), XText ''5'' (Some ''5'') (Some ''5''), XEnd ''checksum'',
     XEmpty (repo_element REPO ''location'' [(''href'', ''repodata/primary.xml'')]), XEnd ''data'', XEnd ''repomd'']"

definition example_primary :: "xml_event list" where
  "example_primary = [XStart (repo_element COMMON ''metadata'' []), XStart (repo_element COMMON ''package'' [(''type'', ''rpm'')]),
     XStart (repo_element COMMON ''name'' []), XText ''vim'' (Some ''vim'') (Some ''vim''), XEnd ''name'',
     XStart (repo_element COMMON ''arch'' []), XText ''x86_64'' (Some ''x86_64'') (Some ''x86_64''), XEnd ''arch'',
     XEmpty (repo_element COMMON ''version'' [(''epoch'', ''1''), (''ver'', ''9''), (''rel'', ''3'')]),
     XStart (repo_element COMMON ''format'' []), XStart (repo_element RPM ''vendor'' []), XText ''Lyra'' (Some ''Lyra'') (Some ''Lyra''),
     XEnd ''vendor'', XEnd ''format'', XEnd ''package'', XEnd ''metadata'']"

definition example_vendor_tools :: vendor_tools where
  "example_vendor_tools = \<lparr>vt_rpm = Inr (True, ''H''),
     vt_tokens = (\<lambda>text. if text = ''M'' then example_repomd else if text = ''P'' then example_primary else rpmdb_events [example_header]),
     vt_complete = (\<lambda>_. True), vt_sha256 = (\<lambda>_. ''5''), vt_sha512 = (\<lambda>_. ''6''),
     vt_decompress = (\<lambda>_ _. Inl ENOENT), vt_meanwhile = (\<lambda>fs. fs)\<rparr>"

definition cache_fs :: fs where
  "cache_fs = [[] \<mapsto> Dir 0 0, [''cache''] \<mapsto> Dir 0 0, [''cache'', ''main''] \<mapsto> Dir 0 0, [''cache'', ''main'', ''repodata''] \<mapsto> Dir 0 0,
     [''cache'', ''main'', ''repodata'', ''repomd.xml''] \<mapsto> File 0 0 ''M'' True,
     [''cache'', ''main'', ''repodata'', ''primary.xml''] \<mapsto> File 0 0 ''P'' True]"

definition example_solved :: solver_result where
  "example_solved = \<lparr>sr_schema_version = 1, successful = True, problems = [], sr_metadata_valid_repositories = [''main''],
     changes = [\<lparr>pc_name = ''vim'', pc_architecture = ''x86_64'', pc_action = Upgrade, current_version = Some ''1:9-2'',
       proposed_version = Some ''1:9-3'', current_vendor = None, proposed_vendor = None, pc_repository_alias = Some ''main'',
       pc_download_bytes = 0, installed_size_before = 0, installed_size_after = 0\<rparr>],
     sr_download_bytes = 0, transaction_size_increase = 0, estimated_snapshot_bytes = 0, sr_reboot_required = False\<rparr>"

theorem inventory_reads_back_headers_witness:
  "installed_packages example_vendor_tools = Inr [header_package example_header]"
  using inventory_reads_back_headers [of example_vendor_tools "''H''" "[example_header]"]
  by (simp add: example_vendor_tools_def header_ok_def example_header_def)

theorem candidate_metadata_is_verified_witness:
  "\<exists>w' repomd_path repomd r p bytes.
     repository_vendors example_vendor_tools [''cache'', ''main''] {(''vim'', ''1:9-3'', ''x86_64'')} (quiet 0 cache_fs) =
       (Done [((''vim'', ''1:9-3'', ''x86_64''), Some ''Lyra'')], w') \<and>
     file_content cache_fs repomd_path = Inr repomd \<and> file_content (w_fs w') repomd_path = Inr repomd \<and>
     primary_record (vt_tokens example_vendor_tools repomd) True = Inr r \<and>
     file_content cache_fs p = Inr bytes \<and> digest_matches example_vendor_tools r bytes"
proof -
  let ?run = "repository_vendors example_vendor_tools [''cache'', ''main''] {(''vim'', ''1:9-3'', ''x86_64'')} (quiet 0 cache_fs)"
  have "fst ?run = Done [((''vim'', ''1:9-3'', ''x86_64''), Some ''Lyra'')]" by code_simp
  then obtain w' where run: "?run = (Done [((''vim'', ''1:9-3'', ''x86_64''), Some ''Lyra'')], w')" by (cases ?run) simp
  have [simp]: "vt_complete example_vendor_tools x = True" "w_fs (quiet 0 cache_fs) = cache_fs" for x
    by (simp_all add: example_vendor_tools_def quiet_def)
  show ?thesis using candidate_metadata_is_verified [OF run] run by fastforce
qed


end
