(* ===== verification/Inventory.thy ===== *)
theory Inventory
  imports Vendor_Metadata
begin

text \<open>
  \<open>service/src/inventory.rs\<close> without \<open>verify_result\<close>, which is in the theory Planner: taking, saving and loading an inventory
  report. JSON is a parameter; the directory \<open>/etc\<close> is a tree of entries, in the order in which they are listed.
\<close>

section \<open>Configuration artifacts\<close>

text \<open>A directory whose listing fails has no list of entries; an entry that cannot be read or classified is \<open>EtcBroken\<close>.\<close>

datatype etc_entry = EtcFile string | EtcDir string "etc_entry list option" | EtcOther string | EtcBroken

definition ARTIFACT_LIMIT :: nat where
  "ARTIFACT_LIMIT = 100000"

definition is_artifact :: "string \<Rightarrow> bool" where
  "is_artifact name = (is_utf8 name \<and> (ends_with name ''.rpmnew'' \<or> ends_with name ''.rpmsave''))"

definition child :: "string \<Rightarrow> string \<Rightarrow> string" where
  "child directory name = directory @ ''/'' @ name"

fun collect_artifacts :: "string \<Rightarrow> etc_entry list \<Rightarrow> string list \<times> nat \<Rightarrow> io_error + string list \<times> nat"
  and collect_artifact :: "string \<Rightarrow> etc_entry \<Rightarrow> string list \<times> nat \<Rightarrow> io_error + string list \<times> nat" where
  "collect_artifacts directory [] acc = Inr acc"
| "collect_artifacts directory (e # es) acc = rbind (collect_artifact directory e acc) (collect_artifacts directory es)"
| "collect_artifact directory EtcBroken acc = Inl EIO"
| "collect_artifact directory (EtcFile name) acc =
     (if ARTIFACT_LIMIT < Suc (snd acc) then Inl EIO
      else Inr (if is_artifact name then fst acc @ [child directory name] else fst acc, Suc (snd acc)))"
| "collect_artifact directory (EtcOther name) acc =
     (if ARTIFACT_LIMIT < Suc (snd acc) then Inl EIO else Inr (fst acc, Suc (snd acc)))"
| "collect_artifact directory (EtcDir name listing) acc =
     (if ARTIFACT_LIMIT < Suc (snd acc) then Inl EIO
      else case listing of None \<Rightarrow> Inl EIO
        | Some es \<Rightarrow> collect_artifacts (child directory name) es (fst acc, Suc (snd acc)))"

definition capture :: "vendor_tools \<Rightarrow> etc_entry list option \<Rightarrow> io_error + inventory_report" where
  "capture tools etc =
     rbind (map_err (\<lambda>_. EIO) (installed_packages tools)) (\<lambda>packages.
     rbind (ok_or etc EIO) (\<lambda>listing.
     rbind (collect_artifacts ''/etc'' listing ([], 0)) (\<lambda>(artifacts, _).
       Inr \<lparr>iv_schema_version = 1, iv_installed_packages = packages, iv_configuration_artifacts = sort artifacts\<rparr>)))"

section \<open>The saved report\<close>

definition write_report :: "(inventory_report \<Rightarrow> string option) \<Rightarrow> path \<Rightarrow> path \<Rightarrow> path \<Rightarrow> inventory_report \<Rightarrow> (io_error, unit) act" where
  "write_report to_json handle temporary p report =
     abind (set_permissions temporary 384) (\<lambda>_.
     abind (of_result (ok_or (to_json report) EIO)) (\<lambda>bytes.
     abind (write_all handle bytes) (\<lambda>_.
     abind (write_all handle [newline]) (\<lambda>_.
     abind (sync_all handle) (\<lambda>_.
       rename temporary p)))))"

definition save_inventory :: "(inventory_report \<Rightarrow> string option) \<Rightarrow> string \<Rightarrow> path \<Rightarrow> inventory_report \<Rightarrow> (io_error, unit) act" where
  "save_inventory to_json nonce p report =
     (if p = [] then throw EIO
      else let parent = butlast p; temporary = parent @ [nonce] in
        abind (create_new temporary 384) (\<lambda>handle.
        attempt (write_report to_json handle temporary p report) (\<lambda>r. case r of
            Inl e \<Rightarrow> attempt (remove_file temporary) (\<lambda>_. throw e)
          | Inr _ \<Rightarrow> sync_dir parent)))"

definition MAX_INVENTORY_BYTES :: nat where
  "MAX_INVENTORY_BYTES = 4 * 1024 * 1024"

definition load_inventory :: "(string \<Rightarrow> inventory_report option) \<Rightarrow> path \<Rightarrow> (io_error, inventory_report) act" where
  "load_inventory from_json p =
     abind (open_read p) (\<lambda>q.
     abind (handle_metadata q) (\<lambda>n. case n of
        File _ _ content _ \<Rightarrow>
          if MAX_INVENTORY_BYTES < length content then throw EIO
          else abind (read_handle q (MAX_INVENTORY_BYTES + 1)) (\<lambda>bytes.
            abind (of_result (ok_or (from_json bytes) EIO)) (\<lambda>report.
              if iv_schema_version report \<noteq> 1 then throw EIO else ret report))
      | _ \<Rightarrow> throw EIO))"

section \<open>Lemmas\<close>

text \<open>The entries below a directory, with the name of those that are files, and whether all of them could be read.\<close>

fun entries_below :: "string \<Rightarrow> etc_entry \<Rightarrow> (string \<times> string option) list" where
  "entries_below d (EtcFile name) = [(child d name, Some name)]"
| "entries_below d (EtcOther name) = [(child d name, None)]"
| "entries_below d (EtcDir name listing) = (child d name, None) #
     (case listing of None \<Rightarrow> [] | Some es \<Rightarrow> concat (map (entries_below (child d name)) es))"
| "entries_below d EtcBroken = []"

fun readable :: "etc_entry \<Rightarrow> bool" where
  "readable (EtcDir name listing) = (case listing of None \<Rightarrow> False | Some es \<Rightarrow> list_all readable es)"
| "readable EtcBroken = False"
| "readable _ = True"

definition artifacts_below :: "(string \<times> string option) list \<Rightarrow> string list" where
  "artifacts_below es = map fst (filter (\<lambda>(_, name). is_some_and name is_artifact) es)"

lemma artifacts_below_simps [simp]:
  "artifacts_below [] = []"
  "artifacts_below (e # es) = (if is_some_and (snd e) is_artifact then [fst e] else []) @ artifacts_below es"
  "artifacts_below (es @ es') = artifacts_below es @ artifacts_below es'"
  by (auto simp: artifacts_below_def)

lemma collect_reference:
  "snd acc \<le> ARTIFACT_LIMIT \<Longrightarrow> collect_artifacts d es acc =
     (let found = concat (map (entries_below d) es) in
      if list_all readable es \<and> snd acc + length found \<le> ARTIFACT_LIMIT
      then Inr (fst acc @ artifacts_below found, snd acc + length found) else Inl EIO)"
  "snd acc \<le> ARTIFACT_LIMIT \<Longrightarrow> collect_artifact d e acc =
     (let found = entries_below d e in
      if readable e \<and> snd acc + length found \<le> ARTIFACT_LIMIT
      then Inr (fst acc @ artifacts_below found, snd acc + length found) else Inl EIO)"
proof (induction d es acc and d e acc rule: collect_artifacts_collect_artifact.induct)
  case (2 d e es acc)
  then show ?case by (auto simp: Let_def)
next
  case (6 d name listing acc)
  then show ?case by (cases listing) (auto simp: Let_def)
qed (auto simp: Let_def prod_eq_iff)

text \<open>
  The search for configuration artifacts finds all of them: it returns exactly the regular files below the directory whose names
  end in \<open>.rpmnew\<close> or \<open>.rpmsave\<close>, in the order of the listing, or an error when an entry cannot be read or there are too many.
\<close>

theorem artifacts_are_complete:
  "collect_artifacts directory es ([], 0) =
     (let found = concat (map (entries_below directory) es) in
      if list_all readable es \<and> length found \<le> ARTIFACT_LIMIT then Inr (artifacts_below found, length found) else Inl EIO)"
  using collect_reference(1) [of "([], 0)" directory es] by (simp add: Let_def)

end
