(* ===== verification/Protocol.thy ===== *)
theory Protocol
  imports Planner
begin

text \<open>
  \<open>protocol/src/lib.rs\<close>: the requests of clients, the answers of the service and the events of an operation. A planned
  update is defined in the theory Planner. JSON itself (\<open>serde_json\<close>) is a parameter of the theories that read and write it.
\<close>

section \<open>Requests\<close>

definition PROTOCOL_VERSION :: u32 where
  "PROTOCOL_VERSION = 3"

datatype recovery_action = ShowDiagnostics | DoRollback | KeepCurrent

datatype request =
    CheckRelease u32 string
  | ReadTrustState u32 string
  | ReadRecoveryReadiness u32 string
  | Inspect u32 string
  | PlanUpdate u32 string
  | PlanReleaseUpgrade u32 string string
  | Start u32 string string string bool planned_update
  | StatusQuery u32 string string "u64 option"
  | Cancel u32 string string
  | AcknowledgeRecovery u32 string string recovery_action

fun protocol_version :: "request \<Rightarrow> u32" where
  "protocol_version (CheckRelease v _) = v"
| "protocol_version (ReadTrustState v _) = v"
| "protocol_version (ReadRecoveryReadiness v _) = v"
| "protocol_version (Inspect v _) = v"
| "protocol_version (PlanUpdate v _) = v"
| "protocol_version (PlanReleaseUpgrade v _ _) = v"
| "protocol_version (Start v _ _ _ _ _) = v"
| "protocol_version (StatusQuery v _ _ _) = v"
| "protocol_version (Cancel v _ _) = v"
| "protocol_version (AcknowledgeRecovery v _ _ _) = v"

fun request_id :: "request \<Rightarrow> string" where
  "request_id (CheckRelease _ i) = i"
| "request_id (ReadTrustState _ i) = i"
| "request_id (ReadRecoveryReadiness _ i) = i"
| "request_id (Inspect _ i) = i"
| "request_id (PlanUpdate _ i) = i"
| "request_id (PlanReleaseUpgrade _ i _) = i"
| "request_id (Start _ i _ _ _ _) = i"
| "request_id (StatusQuery _ i _ _) = i"
| "request_id (Cancel _ i _) = i"
| "request_id (AcknowledgeRecovery _ i _ _) = i"

definition is_supported :: "request \<Rightarrow> bool" where
  "is_supported r = (protocol_version r = PROTOCOL_VERSION)"

definition needs_authorization :: "request \<Rightarrow> bool" where
  "needs_authorization r = (case r of
      Start _ _ _ _ _ _ \<Rightarrow> True
    | Cancel _ _ _ \<Rightarrow> True
    | AcknowledgeRecovery _ _ _ action \<Rightarrow> action = DoRollback \<or> action = KeepCurrent
    | _ \<Rightarrow> False)"

section \<open>Events\<close>

datatype event_level = LevelInfo | LevelWarning | LevelError

datatype event_source = SourceService | ZypperStdout | ZypperStderr

record technical_line =
  tl_source :: event_source
  tl_text :: string
  tl_truncated :: bool

text \<open>The fields of an event are a \<open>BTreeMap\<close>: a list of pairs in the order of the keys.\<close>

record operation_event =
  ev_operation_id :: string
  ev_sequence :: u64
  ev_occurred_at :: string
  ev_state :: operation_state
  ev_level :: event_level
  ev_message_id :: string
  ev_fields :: "(string \<times> string) list"
  ev_technical :: "technical_line option"

section \<open>Responses\<close>

record status_report =
  st_request_id :: string
  st_operation_id :: string
  st_sequence :: u64
  st_state :: operation_state
  st_snapshot_number :: "u64 option"
  st_recovered :: bool
  st_error_code :: "string option"
  st_events :: "operation_event list"
  st_report :: "inventory_report option"

datatype response =
    PreflightBlocked string "preflight_issue list"
  | ReleaseOffer string string release_manifest bool
  | TrustState string "u64 option"
  | RecoveryReadiness string bool
  | Rejected string string
  | Accepted string "string option"
  | Inspection string host_facts preflight_report
  | Plan string string string upgrade_plan preflight_report planned_update
  | Status status_report

fun response_id :: "response \<Rightarrow> string" where
  "response_id (PreflightBlocked i _) = i"
| "response_id (ReleaseOffer i _ _ _) = i"
| "response_id (TrustState i _) = i"
| "response_id (RecoveryReadiness i _) = i"
| "response_id (Rejected i _) = i"
| "response_id (Accepted i _) = i"
| "response_id (Inspection i _ _) = i"
| "response_id (Plan i _ _ _ _ _) = i"
| "response_id (Status r) = st_request_id r"

end
