(* ===== verification/Event_Log.thy ===== *)
theory Event_Log
  imports Protocol Sanitize Manifest_Fetch
begin

text \<open>
  \<open>service/src/event_log.rs\<close>: the events of an operation, in memory with a bound on technical lines, and on disk as
  lines of JSON that are appended, compacted and read back. JSON is a parameter, a pair of functions with the laws
  \<open>event_codec\<close>. Counters of type \<open>usize\<close> are natural numbers: they count bytes held in memory.
\<close>

section \<open>The log in memory\<close>

definition MAX_TECHNICAL_LINES :: nat where
  "MAX_TECHNICAL_LINES = 10000"

definition MAX_TECHNICAL_BYTES :: nat where
  "MAX_TECHNICAL_BYTES = 4 * 1024 * 1024"

definition MAX_PERSISTED_EVENT_BYTES :: nat where
  "MAX_PERSISTED_EVENT_BYTES = 8 * 1024 * 1024"

datatype event_log_error = LogUnsafePath | LogTooLarge | LogIo io_error | LogJson | InvalidHistory

record event_log =
  lg_events :: "operation_event list"
  lg_technical_lines :: nat
  lg_technical_bytes :: nat
  lg_last_sequence :: u64
  lg_persistence_failed :: bool

definition empty_log :: event_log where
  "empty_log = \<lparr>lg_events = [], lg_technical_lines = 0, lg_technical_bytes = 0, lg_last_sequence = 0, lg_persistence_failed = False\<rparr>"

definition next_sequence :: "event_log \<Rightarrow> u64" where
  "next_sequence log = sat_add (lg_last_sequence log) 1"

text \<open>The first technical line, and the events without it.\<close>

fun take_technical :: "operation_event list \<Rightarrow> (technical_line \<times> operation_event list) option" where
  "take_technical [] = None"
| "take_technical (e # es) = (case ev_technical e of
      Some line \<Rightarrow> Some (line, es)
    | None \<Rightarrow> map_option (\<lambda>(line, rest). (line, e # rest)) (take_technical es))"

lemma take_technical_length: "take_technical es = Some (line, rest) \<Longrightarrow> length es = Suc (length rest)"
  by (induction es arbitrary: rest) (auto split: option.splits)

function trim_technical :: "event_log \<Rightarrow> event_log" where
  "trim_technical log =
     (if lg_technical_lines log \<le> MAX_TECHNICAL_LINES \<and> lg_technical_bytes log \<le> MAX_TECHNICAL_BYTES then log
      else case take_technical (lg_events log) of
        None \<Rightarrow> log\<lparr>lg_technical_lines := 0, lg_technical_bytes := 0\<rparr>
      | Some (line, rest) \<Rightarrow> trim_technical (log\<lparr>lg_events := rest,
          lg_technical_lines := lg_technical_lines log - 1,
          lg_technical_bytes := lg_technical_bytes log - length (tl_text line)\<rparr>))"
  by pat_completeness auto
termination
  by (relation "measure (\<lambda>log. length (lg_events log))") (auto dest!: take_technical_length)

declare trim_technical.simps [simp del]

definition high_sequence_field :: "operation_event \<Rightarrow> u64 option" where
  "high_sequence_field e = Option.bind (map_of (ev_fields e) ''high_sequence'') parse_u64"

definition restore_event :: "event_log \<Rightarrow> operation_event \<Rightarrow> event_log" where
  "restore_event log e =
     (let seen = max (lg_last_sequence log) (ev_sequence e);
          high = (if ev_sequence e = 0 then max seen (case high_sequence_field e of Some n \<Rightarrow> n | None \<Rightarrow> 0) else seen);
          counted = (case ev_technical e of
              Some line \<Rightarrow> log\<lparr>lg_technical_lines := lg_technical_lines log + 1,
                lg_technical_bytes := lg_technical_bytes log + length (tl_text line)\<rparr>
            | None \<Rightarrow> log) in
      counted\<lparr>lg_last_sequence := high, lg_events := lg_events log @ [e]\<rparr>)"

definition restore :: "operation_event list \<Rightarrow> event_log" where
  "restore events = trim_technical (foldl restore_event empty_log events)"

definition push_normative :: "event_log \<Rightarrow> operation_event \<Rightarrow> event_log" where
  "push_normative log e = log\<lparr>lg_last_sequence := max (lg_last_sequence log) (ev_sequence e), lg_events := lg_events log @ [e]\<rparr>"

text \<open>No answer stands for the panic of the sanitiser.\<close>

definition push_technical :: "event_log \<Rightarrow> operation_event \<Rightarrow> event_source \<Rightarrow> string \<Rightarrow> (event_log \<times> operation_event) option" where
  "push_technical log e source raw = map_option (\<lambda>l.
     let e' = e\<lparr>ev_technical := Some \<lparr>tl_source = source, tl_text = sl_text l, tl_truncated = sl_truncated l\<rparr>\<rparr> in
     (trim_technical (log\<lparr>lg_technical_lines := lg_technical_lines log + 1,
        lg_technical_bytes := lg_technical_bytes log + length (sl_text l),
        lg_last_sequence := max (lg_last_sequence log) (ev_sequence e),
        lg_events := lg_events log @ [e']\<rparr>), e')) (sanitize_technical_line raw)"

definition events_after :: "event_log \<Rightarrow> u64 \<Rightarrow> operation_event list" where
  "events_after log sequence = filter (\<lambda>e. sequence < ev_sequence e) (lg_events log)"

section \<open>Files\<close>

definition MAX_RECORD_BYTES :: nat where
  "MAX_RECORD_BYTES = 16 * 1024"

definition MAX_LEGACY_BYTES :: nat where
  "MAX_LEGACY_BYTES = MAX_PERSISTED_EVENT_BYTES + MAX_RECORD_BYTES"

definition TRUNCATED_MESSAGE :: string where
  "TRUNCATED_MESSAGE = ''history-truncated''"

record event_history =
  eh_events :: "operation_event list"
  eh_incomplete :: bool

record event_json =
  ej_write :: "operation_event \<Rightarrow> string option"
  ej_read :: "string \<Rightarrow> operation_event option"

definition valid_operation_id :: "string \<Rightarrow> bool" where
  "valid_operation_id value = (length value = 36 \<and>
     all_indexed (\<lambda>i c. if i \<in> {8, 13, 18, 23} then c = CHR ''-'' else lower_hex c) 0 value)"

definition require_dir :: "path \<Rightarrow> (event_log_error, unit) act" where
  "require_dir p = abind (raise_as LogIo (symlink_metadata p)) (\<lambda>n. case n of Dir _ _ \<Rightarrow> ret () | _ \<Rightarrow> throw LogUnsafePath)"

definition operation_directory :: "path \<Rightarrow> string \<Rightarrow> (event_log_error, path) act" where
  "operation_directory root oid =
     (if \<not> valid_operation_id oid then throw LogUnsafePath
      else abind (require_dir root) (\<lambda>_. abind (require_dir (root @ [oid])) (\<lambda>_. ret (root @ [oid]))))"

text \<open>
  Opening with \<open>O_NOFOLLOW\<close> and \<open>O_CREAT\<close>; a directory cannot be opened for writing. \<open>flock\<close> orders the processes: what
  one of them does between taking and releasing the lock is one run of the action.
\<close>

definition create_missing :: "path \<Rightarrow> u32 \<Rightarrow> (io_error, unit) act" where
  "create_missing p m = mutate (\<lambda>w. rbind (locate (w_fs w) p) (\<lambda>q. case w_fs w q of
      None \<Rightarrow> Inr ((w_fs w)(q \<mapsto> File (w_euid w) (and m (not (w_umask w))) [] False))
    | Some (Link _ _) \<Rightarrow> Inl ELOOP
    | Some (Dir _ _) \<Rightarrow> Inl EISDIR
    | Some _ \<Rightarrow> Inr (w_fs w)))"

definition open_or_create :: "path \<Rightarrow> bool \<Rightarrow> (io_error, path) act" where
  "open_or_create p create = (if create then abind (create_missing p 384) (\<lambda>_. open_read p) else open_read p)"

definition require_file :: "path \<Rightarrow> (event_log_error, unit) act" where
  "require_file q = abind (raise_as LogIo (handle_metadata q)) (\<lambda>n. case n of File _ _ _ _ \<Rightarrow> ret () | _ \<Rightarrow> throw LogUnsafePath)"

definition flock :: "(io_error, unit) act" where
  "flock = query (\<lambda>_. Inr ())"

definition lock_file :: "path \<Rightarrow> bool \<Rightarrow> (event_log_error, unit) act" where
  "lock_file directory create =
     abind (raise_as LogIo (open_or_create (directory @ [''.events.lock'']) create)) (\<lambda>q.
     abind (require_file q) (\<lambda>_. raise_as LogIo flock))"

definition open_events :: "path \<Rightarrow> bool \<Rightarrow> (event_log_error, path) act" where
  "open_events p create = abind (raise_as LogIo (open_or_create p create)) (\<lambda>q. abind (require_file q) (\<lambda>_. ret q))"

section \<open>Lines\<close>

definition encode :: "event_json \<Rightarrow> operation_event \<Rightarrow> event_log_error + string" where
  "encode json e = rbind (ok_or (ej_write json e) LogJson) (\<lambda>text.
     let bytes = text @ [newline] in if MAX_RECORD_BYTES < length bytes then Inl LogTooLarge else Inr bytes)"

text \<open>\<open>read_until\<close>: up to the next line feed, which is included, or to the end.\<close>

fun read_line :: "string \<Rightarrow> string" where
  "read_line [] = []"
| "read_line (c # cs) = (if c = newline then [c] else c # read_line cs)"

definition is_truncation_marker :: "operation_event \<Rightarrow> bool" where
  "is_truncation_marker e = (ev_sequence e = 0 \<and> ev_message_id e = TRUNCATED_MESSAGE \<and> ev_technical e = None \<and>
     Option.bind (map_of (ev_fields e) ''lines'') parse_u64 \<noteq> None \<and> high_sequence_field e \<noteq> None)"

function read_records :: "event_json \<Rightarrow> string \<Rightarrow> string \<Rightarrow> nat \<Rightarrow> u64 \<Rightarrow> operation_event list \<Rightarrow> event_history" where
  "read_records json oid bytes consumed previous events =
     (let record = read_line (take (MAX_RECORD_BYTES + 1) bytes); size = length record in
      if size = 0 then \<lparr>eh_events = events, eh_incomplete = False\<rparr>
      else if MAX_RECORD_BYTES < size \<or> MAX_LEGACY_BYTES < consumed + size \<or> last record \<noteq> newline
        then \<lparr>eh_events = events, eh_incomplete = True\<rparr>
      else case ej_read json record of
        None \<Rightarrow> \<lparr>eh_events = events, eh_incomplete = True\<rparr>
      | Some e \<Rightarrow>
          if ev_operation_id e \<noteq> oid \<or>
             (\<not> (events = [] \<and> is_truncation_marker e) \<and> (ev_sequence e = 0 \<or> ev_sequence e \<le> previous))
          then \<lparr>eh_events = events, eh_incomplete = True\<rparr>
          else read_records json oid (drop size bytes) (consumed + size) (ev_sequence e) (events @ [e]))"
  by pat_completeness auto
termination
proof (relation "measure (\<lambda>(json, oid, bytes, consumed, previous, events). length bytes)", goal_cases)
  case (2 json oid bytes consumed previous events r sz e)
  then have "bytes \<noteq> []" by auto
  with 2 show ?case by simp
qed simp

declare read_records.simps [simp del]

text \<open>An error while reading ends the history; the file is read by one call here.\<close>

definition read_history :: "event_json \<Rightarrow> path \<Rightarrow> string \<Rightarrow> ('e, event_history) act" where
  "read_history json q oid = attempt (read_handle q (MAX_LEGACY_BYTES + 1)) (\<lambda>r. ret (case r of
      Inl _ \<Rightarrow> \<lparr>eh_events = [], eh_incomplete = True\<rparr>
    | Inr bytes \<Rightarrow> read_records json oid bytes 0 0 []))"

section \<open>Compaction\<close>

fun encode_all :: "event_json \<Rightarrow> operation_event list \<Rightarrow> event_log_error + (operation_event \<times> string) list" where
  "encode_all json [] = Inr []"
| "encode_all json (e # es) = rbind (encode json e) (\<lambda>bytes. rbind (encode_all json es) (\<lambda>rest. Inr ((e, bytes) # rest)))"

text \<open>Technical lines are dropped from the front while the rest is longer than the target.\<close>

fun retain_records :: "nat \<Rightarrow> nat \<Rightarrow> u64 \<Rightarrow> (operation_event \<times> string) list \<Rightarrow> (operation_event \<times> string) list \<times> u64" where
  "retain_records target remaining dropped [] = ([], dropped)"
| "retain_records target remaining dropped ((e, bytes) # rest) =
     (if target < remaining \<and> ev_technical e \<noteq> None
      then retain_records target (remaining - length bytes) (sat_add dropped 1) rest
      else let (kept, dropped') = retain_records target remaining dropped rest in ((e, bytes) # kept, dropped'))"

definition truncation_marker :: "operation_event \<Rightarrow> u64 \<Rightarrow> operation_event" where
  "truncation_marker incoming dropped = incoming\<lparr>ev_sequence := 0, ev_level := LevelWarning, ev_message_id := TRUNCATED_MESSAGE,
     ev_technical := None, ev_fields := [(''high_sequence'', show_u64 (ev_sequence incoming)), (''lines'', show_u64 dropped)]\<rparr>"

text \<open>
  The number of lines that earlier compactions dropped. A marker without the field would make the code panic; the histories that
  \<open>read_history\<close> accepts have it.
\<close>

definition earlier_dropped :: "operation_event list \<Rightarrow> event_log_error + u64 \<times> operation_event list" where
  "earlier_dropped events = (case events of
      e # rest \<Rightarrow> if ev_sequence e = 0
        then rbind (ok_or (Option.bind (map_of (ev_fields e) ''lines'') parse_u64) InvalidHistory) (\<lambda>n. Inr (n, rest))
        else Inr (0, events)
    | [] \<Rightarrow> Inr (0, []))"

definition compact :: "event_json \<Rightarrow> operation_event list \<Rightarrow> operation_event \<Rightarrow> event_log_error + string" where
  "compact json events incoming =
     rbind (earlier_dropped events) (\<lambda>(dropped, rest).
     rbind (encode_all json (rest @ [incoming])) (\<lambda>records.
       let size = sum_list (map (length \<circ> snd) records);
           (kept, dropped') = retain_records (MAX_PERSISTED_EVENT_BYTES div 2) size dropped records in
       rbind (if dropped' \<noteq> 0 then encode json (truncation_marker incoming dropped') else Inr []) (\<lambda>head.
         let output = head @ concat (map snd kept) in
         if MAX_PERSISTED_EVENT_BYTES < length output then Inl LogTooLarge else Inr output)))"

section \<open>Appending and loading\<close>

definition replace_events :: "string \<Rightarrow> path \<Rightarrow> path \<Rightarrow> string \<Rightarrow> (event_log_error, unit) act" where
  "replace_events nonce directory p output =
     (let temporary = directory @ [nonce] in
      abind (raise_as LogIo (create_new temporary 384)) (\<lambda>file.
      attempt (abind (write_all file output) (\<lambda>_. abind (sync_all file) (\<lambda>_. rename temporary p))) (\<lambda>r. case r of
          Inl e \<Rightarrow> attempt (remove_file temporary) (\<lambda>_. throw (LogIo e))
        | Inr _ \<Rightarrow> raise_as LogIo (sync_dir directory))))"

definition file_size :: "path \<Rightarrow> (io_error, nat) act" where
  "file_size q = query (\<lambda>fs. case fs q of Some (File _ _ bytes _) \<Rightarrow> Inr (length bytes) | _ \<Rightarrow> Inl EIO)"

definition read_from :: "path \<Rightarrow> nat \<Rightarrow> (io_error, string) act" where
  "read_from q start = query (\<lambda>fs. case fs q of Some (File _ _ bytes _) \<Rightarrow> Inr (drop start bytes) | _ \<Rightarrow> Inl EIO)"

text \<open>The first record of the file, which may say how far an earlier compaction had come.\<close>

definition check_head :: "event_json \<Rightarrow> string \<Rightarrow> operation_event \<Rightarrow> event_log_error + unit" where
  "check_head json head e =
     rbind (ok_or (ej_read json (read_line head)) LogJson) (\<lambda>first.
       ensure (\<not> (ev_sequence first = 0 \<and> (ev_message_id first \<noteq> TRUNCATED_MESSAGE \<or>
         is_none_or (high_sequence_field first) (\<lambda>high. ev_sequence e \<le> high)))) InvalidHistory)"

text \<open>The last record of the file, found in its last bytes.\<close>

definition check_tail :: "event_json \<Rightarrow> string \<Rightarrow> string \<Rightarrow> operation_event \<Rightarrow> event_log_error + unit" where
  "check_tail json oid tail e =
     (if tail = [] \<or> last tail \<noteq> newline then Inl InvalidHistory
      else rbind (ok_or (ej_read json (last (split_on newline (butlast tail)))) LogJson) (\<lambda>previous.
        ensure (ev_operation_id previous = oid \<and> ev_sequence previous < ev_sequence e) InvalidHistory))"

definition check_order :: "event_json \<Rightarrow> path \<Rightarrow> string \<Rightarrow> nat \<Rightarrow> operation_event \<Rightarrow> (event_log_error, unit) act" where
  "check_order json q oid len e =
     (if len = 0 then ret ()
      else abind (raise_as LogIo (read_handle q MAX_RECORD_BYTES)) (\<lambda>head.
        abind (of_result (check_head json head e)) (\<lambda>_.
        abind (raise_as LogIo (read_from q (len - MAX_RECORD_BYTES))) (\<lambda>tail.
          of_result (check_tail json oid tail e)))))"

definition append_event :: "event_json \<Rightarrow> string \<Rightarrow> path \<Rightarrow> string \<Rightarrow> operation_event \<Rightarrow> (event_log_error, unit) act" where
  "append_event json nonce root oid e =
     (if ev_operation_id e \<noteq> oid \<or> ev_sequence e = 0 then throw LogUnsafePath
      else abind (of_result (encode json e)) (\<lambda>bytes.
      abind (operation_directory root oid) (\<lambda>directory.
      abind (lock_file directory True) (\<lambda>_.
      abind (open_events (directory @ [''events.jsonl'']) True) (\<lambda>q.
      abind (raise_as LogIo (file_size q)) (\<lambda>size.
      abind (check_order json q oid size e) (\<lambda>_.
      if size + length bytes \<le> MAX_PERSISTED_EVENT_BYTES then
        abind (raise_as LogIo (write_all q bytes)) (\<lambda>_.
        abind (raise_as LogIo (sync_all q)) (\<lambda>_.
          if size = 0 then raise_as LogIo (sync_dir directory) else ret ()))
      else abind (read_history json q oid) (\<lambda>history.
        if eh_incomplete history then throw InvalidHistory
        else abind (of_result (compact json (eh_events history) e)) (\<lambda>output.
          replace_events nonce directory (directory @ [''events.jsonl'']) output)))))))))"

definition load_events_mode :: "event_json \<Rightarrow> path \<Rightarrow> string \<Rightarrow> u64 \<Rightarrow> bool \<Rightarrow> (event_log_error, event_history) act" where
  "load_events_mode json root oid after read_only =
     abind (operation_directory root oid) (\<lambda>directory.
     abind (attempt (lock_file directory (\<not> read_only)) (\<lambda>r. case r of
         Inr _ \<Rightarrow> ret ()
       | Inl e \<Rightarrow> if read_only \<and> e = LogIo ENOENT then ret () else throw e)) (\<lambda>_.
     attempt (open_events (directory @ [''events.jsonl'']) False) (\<lambda>r. case r of
         Inl e \<Rightarrow> if e = LogIo ENOENT then ret \<lparr>eh_events = [], eh_incomplete = False\<rparr> else throw e
       | Inr q \<Rightarrow> abind (read_history json q oid) (\<lambda>history.
           ret (history\<lparr>eh_events := filter (\<lambda>e. ev_sequence e = 0 \<or> after < ev_sequence e) (eh_events history)\<rparr>)))))"

definition load_events :: "event_json \<Rightarrow> path \<Rightarrow> string \<Rightarrow> u64 \<Rightarrow> (event_log_error, event_history) act" where
  "load_events json root oid after = load_events_mode json root oid after False"

definition load_events_read_only :: "event_json \<Rightarrow> path \<Rightarrow> string \<Rightarrow> u64 \<Rightarrow> (event_log_error, event_history) act" where
  "load_events_read_only json root oid after = load_events_mode json root oid after True"

text \<open>Errors of the marker are only reported.\<close>

definition record_write_failure :: "string \<Rightarrow> path \<Rightarrow> string \<Rightarrow> ('e, unit) act" where
  "record_write_failure nonce root oid = attempt (operation_directory root oid) (\<lambda>r. case r of
      Inl _ \<Rightarrow> ret ()
    | Inr directory \<Rightarrow> attempt (replace_events nonce directory (directory @ [''events.error'']) (''EVENT_LOG_WRITE_FAILED'' @ [newline]))
        (\<lambda>_. ret ()))"

definition has_write_failure :: "path \<Rightarrow> string \<Rightarrow> ('e, bool) act" where
  "has_write_failure root oid = attempt (symlink_metadata (root @ [oid, ''events.error''])) (\<lambda>r. ret (is_ok r))"

definition technical_event :: "string \<Rightarrow> u64 \<Rightarrow> string \<Rightarrow> operation_state \<Rightarrow> operation_event" where
  "technical_event oid sequence occurred_at state = \<lparr>ev_operation_id = oid, ev_sequence = sequence, ev_occurred_at = occurred_at,
     ev_state = state, ev_level = LevelInfo, ev_message_id = ''technical-line'', ev_fields = [], ev_technical = None\<rparr>"

section \<open>Lemmas: the log in memory\<close>

definition technicals :: "operation_event list \<Rightarrow> technical_line list" where
  "technicals es = List.map_filter ev_technical es"

definition normative :: "operation_event list \<Rightarrow> operation_event list" where
  "normative es = filter (\<lambda>e. ev_technical e = None) es"

lemma technicals_simps [simp]:
  "technicals [] = []"
  "technicals (e # es) = (case ev_technical e of Some l \<Rightarrow> [l] | None \<Rightarrow> []) @ technicals es"
  "technicals (es @ es') = technicals es @ technicals es'"
  by (simp_all add: technicals_def List.map_filter_def split: option.splits)

lemma normative_simps [simp]:
  "normative [] = []"
  "normative (e # es) = (if ev_technical e = None then [e] else []) @ normative es"
  "normative (es @ es') = normative es @ normative es'"
  by (simp_all add: normative_def)

lemma take_technical_Some:
  "take_technical es = Some (line, rest) \<Longrightarrow>
     technicals es = line # technicals rest \<and> normative rest = normative es \<and> set rest \<subseteq> set es"
  by (induction es arbitrary: rest) (auto split: option.splits)

lemma take_technical_None: "take_technical es = None \<Longrightarrow> technicals es = []"
  by (induction es) (auto split: option.splits)

definition log_counted :: "event_log \<Rightarrow> bool" where
  "log_counted log = (lg_technical_lines log = length (technicals (lg_events log)) \<and>
     lg_technical_bytes log = sum_list (map (length \<circ> tl_text) (technicals (lg_events log))) \<and>
     (\<forall>e\<in>set (lg_events log). ev_sequence e \<le> lg_last_sequence log))"

definition log_bounded :: "event_log \<Rightarrow> bool" where
  "log_bounded log = (length (technicals (lg_events log)) \<le> MAX_TECHNICAL_LINES \<and>
     sum_list (map (length \<circ> tl_text) (technicals (lg_events log))) \<le> MAX_TECHNICAL_BYTES)"

lemma trim_technical_ok:
  assumes "log_counted log"
  shows "log_counted (trim_technical log) \<and> log_bounded (trim_technical log) \<and>
    normative (lg_events (trim_technical log)) = normative (lg_events log) \<and>
    suffix (technicals (lg_events (trim_technical log))) (technicals (lg_events log)) \<and>
    lg_last_sequence (trim_technical log) = lg_last_sequence log"
  using assms
proof (induction log rule: trim_technical.induct)
  case (1 log)
  show ?case
  proof (cases "lg_technical_lines log \<le> MAX_TECHNICAL_LINES \<and> lg_technical_bytes log \<le> MAX_TECHNICAL_BYTES")
    case True
    with 1(2) show ?thesis by (simp add: trim_technical.simps [of log] log_counted_def log_bounded_def)
  next
    case over: False
    show ?thesis
    proof (cases "take_technical (lg_events log)")
      case None
      with over 1(2) show ?thesis
        by (simp add: trim_technical.simps [of log] log_counted_def log_bounded_def take_technical_None)
    next
      case (Some x)
      obtain line rest where x: "x = (line, rest)" by fastforce
      let ?log = "log\<lparr>lg_events := rest, lg_technical_lines := lg_technical_lines log - 1,
          lg_technical_bytes := lg_technical_bytes log - length (tl_text line)\<rparr>"
      note t = take_technical_Some [OF Some [unfolded x]]
      have "log_counted ?log" using 1(2) t by (auto simp: log_counted_def)
      moreover have "trim_technical log = trim_technical ?log" using over Some x by (subst trim_technical.simps) auto
      ultimately show ?thesis using 1(1) [OF over Some x [symmetric]] t by (simp add: suffix_Cons)
    qed
  qed
qed

lemma restore_event_ok:
  assumes "log_counted log"
  shows "log_counted (restore_event log e)" "lg_events (restore_event log e) = lg_events log @ [e]"
  using assms
  by (fastforce simp: restore_event_def log_counted_def Let_def max.coboundedI1 max.coboundedI2 split: option.splits)+

lemma restore_events_ok:
  "log_counted log \<Longrightarrow> log_counted (foldl restore_event log es) \<and> lg_events (foldl restore_event log es) = lg_events log @ es"
  by (induction es arbitrary: log) (simp_all add: restore_event_ok)

lemma empty_log_counted: "log_counted empty_log"
  by (simp add: log_counted_def empty_log_def)

inductive log_step :: "event_log \<Rightarrow> event_log \<Rightarrow> bool" where
  normative: "ev_technical e = None \<Longrightarrow> log_step log (push_normative log e)"
| technical: "push_technical log e source raw = Some (log', e') \<Longrightarrow> log_step log log'"
| failed: "log_step log (log\<lparr>lg_persistence_failed := True\<rparr>)"

lemma log_step_ok:
  assumes "log_step log log'" and "log_counted log \<and> log_bounded log"
  shows "log_counted log' \<and> log_bounded log' \<and> (\<exists>new. normative (lg_events log') = normative (lg_events log) @ new) \<and>
    lg_last_sequence log \<le> lg_last_sequence log'"
  using assms
proof (cases rule: log_step.cases)
  case (normative e)
  with assms(2) show ?thesis
    by (auto simp: push_normative_def log_counted_def log_bounded_def max.coboundedI1)
next
  case (technical e source raw e')
  then obtain l where l: "sanitize_technical_line raw = Some l" by (auto simp: push_technical_def)
  let ?e = "e\<lparr>ev_technical := Some \<lparr>tl_source = source, tl_text = sl_text l, tl_truncated = sl_truncated l\<rparr>\<rparr>"
  let ?log = "log\<lparr>lg_technical_lines := lg_technical_lines log + 1, lg_technical_bytes := lg_technical_bytes log + length (sl_text l),
        lg_last_sequence := max (lg_last_sequence log) (ev_sequence e), lg_events := lg_events log @ [?e]\<rparr>"
  have c: "log_counted ?log" using assms(2) by (auto simp: log_counted_def max.coboundedI1)
  have "log' = trim_technical ?log" using technical l by (auto simp: push_technical_def Let_def)
  with trim_technical_ok [OF c] show ?thesis by simp
next
  case failed
  with assms(2) show ?thesis by (simp add: log_counted_def log_bounded_def)
qed

interpretation log_invariant: step_invariant log_step "\<lambda>log. log_counted log \<and> log_bounded log"
  by unfold_locales (auto dest: log_step_ok)

lemma restore_ok:
  "log_counted (restore es) \<and> log_bounded (restore es) \<and> normative (lg_events (restore es)) = normative es"
  using trim_technical_ok [of "foldl restore_event empty_log es"] restore_events_ok [OF empty_log_counted, of es]
  by (simp add: restore_def empty_log_def)

text \<open>
  However many lines the package manager prints, the log in memory stays within its bounds, keeps every event that is not a
  technical line, in order, and hands out a sequence number above all of its events, up to the last number there is.
\<close>

theorem log_keeps_normative_events:
  assumes "log_step\<^sup>*\<^sup>* (restore es) log"
  shows "length (technicals (lg_events log)) \<le> MAX_TECHNICAL_LINES \<and>
    sum_list (map (length \<circ> tl_text) (technicals (lg_events log))) \<le> MAX_TECHNICAL_BYTES \<and>
    prefix (normative es) (normative (lg_events log)) \<and>
    (\<forall>e\<in>set (lg_events log). ev_sequence e < next_sequence log \<or> next_sequence log = - 1)"
proof -
  have inv: "log_counted log \<and> log_bounded log"
    by (rule log_invariant.run_keeps [OF assms]) (simp add: restore_ok)
  from assms have "prefix (normative es) (normative (lg_events log)) \<and> (log_counted log \<and> log_bounded log)"
  proof (induction rule: rtranclp_induct)
    case base
    show ?case by (simp add: restore_ok)
  next
    case (step x y)
    with log_step_ok [OF step(2)] show ?case by (auto simp: prefix_def)
  qed
  moreover have "ev_sequence e < next_sequence log \<or> next_sequence log = - 1" if "e \<in> set (lg_events log)" for e
  proof (cases "lg_last_sequence log = - 1")
    case True
    then show ?thesis using sat_add_ge [of "lg_last_sequence log" 1] by (simp add: next_sequence_def word_order.extremum_unique)
  next
    case False
    then show ?thesis using sat_add_Suc_gt [OF False] inv that by (auto simp: log_counted_def next_sequence_def)
  qed
  ultimately show ?thesis using inv by (auto simp: log_bounded_def)
qed

section \<open>Lemmas: lines\<close>

text \<open>What \<open>serde_json\<close> promises: the body of an event is one line, and reads back as the event, with or without the line feed.\<close>

definition event_codec :: "event_json \<Rightarrow> bool" where
  "event_codec json = (\<forall>e body. ej_write json e = Some body \<longrightarrow>
     newline \<notin> set body \<and> body \<noteq> [] \<and> ej_read json body = Some e \<and> ej_read json (body @ [newline]) = Some e)"

lemma event_codecD:
  "event_codec json \<Longrightarrow> ej_write json e = Some body \<Longrightarrow>
     newline \<notin> set body \<and> body \<noteq> [] \<and> ej_read json body = Some e \<and> ej_read json (body @ [newline]) = Some e"
  by (simp add: event_codec_def)

lemma encode_Inr_iff:
  "encode json e = Inr bytes \<longleftrightarrow>
     (\<exists>body. ej_write json e = Some body \<and> bytes = body @ [newline] \<and> length bytes \<le> MAX_RECORD_BYTES)"
  by (auto simp: encode_def result_simps Let_def)

lemma read_line_line: "newline \<notin> set body \<Longrightarrow> read_line (body @ newline # rest) = body @ [newline]"
  by (induction body) auto

lemma read_line_partial: "newline \<notin> set body \<Longrightarrow> read_line body = body"
  by (induction body) auto

lemma read_line_record:
  assumes "newline \<notin> set body" and "length body < n"
  shows "read_line (take n (body @ newline # rest)) = body @ [newline]"
  using assms read_line_line [of body "take (n - length body - 1) rest"] by (simp add: take_Cons')

fun ordered :: "string \<Rightarrow> u64 \<Rightarrow> operation_event list \<Rightarrow> bool" where
  "ordered oid previous [] = True"
| "ordered oid previous (e # es) = (ev_operation_id e = oid \<and> previous < ev_sequence e \<and> ordered oid (ev_sequence e) es)"

definition wf_history :: "string \<Rightarrow> operation_event list \<Rightarrow> bool" where
  "wf_history oid es = (case es of [] \<Rightarrow> True
     | e # rest \<Rightarrow> ev_operation_id e = oid \<and> (is_truncation_marker e \<and> ordered oid 0 rest \<or> ordered oid 0 es))"

definition stored :: "event_json \<Rightarrow> operation_event list \<Rightarrow> string \<Rightarrow> bool" where
  "stored json es content = (\<exists>records. encode_all json es = Inr records \<and> content = concat (map snd records))"

lemma stored_Nil [simp]: "stored json [] content = (content = [])"
  by (auto simp: stored_def)

lemma stored_Cons:
  "stored json (e # es) content = (\<exists>bytes rest. encode json e = Inr bytes \<and> stored json es rest \<and> content = bytes @ rest)"
  by (auto simp: stored_def result_simps)

lemma stored_append:
  "stored json (es @ es') content = (\<exists>c c'. stored json es c \<and> stored json es' c' \<and> content = c @ c')"
  proof (induction es arbitrary: content)
  case (Cons e es)
  show ?case by (simp add: stored_Cons Cons.IH) (metis append.assoc)
qed simp

lemma read_records_one:
  assumes codec: "event_codec json" and enc: "encode json e = Inr bytes" and oid: "ev_operation_id e = oid"
    and order: "acc = [] \<and> is_truncation_marker e \<or> previous < ev_sequence e" and len: "consumed + length bytes \<le> MAX_LEGACY_BYTES"
  shows "read_records json oid (bytes @ rest) consumed previous acc =
    read_records json oid rest (consumed + length bytes) (ev_sequence e) (acc @ [e])"
proof -
  from enc obtain body where body: "ej_write json e = Some body" and bytes: "bytes = body @ [newline]"
      and short: "length bytes \<le> MAX_RECORD_BYTES"
    by (auto simp: encode_Inr_iff)
  note c = event_codecD [OF codec body]
  have line: "read_line (take (MAX_RECORD_BYTES + 1) (bytes @ rest)) = bytes"
    using read_line_record [of body "MAX_RECORD_BYTES + 1" rest] c short bytes by simp
  have "\<not> (ev_operation_id e \<noteq> oid \<or> (\<not> (acc = [] \<and> is_truncation_marker e) \<and> (ev_sequence e = 0 \<or> ev_sequence e \<le> previous)))"
    using order oid by auto
  moreover have "bytes \<noteq> []" "last bytes = newline" "ej_read json bytes = Some e"
    using c bytes by simp_all
  ultimately show ?thesis
    unfolding read_records.simps [of json oid "bytes @ rest"] line Let_def using len short by auto
qed

lemma read_records_ordered:
  assumes "event_codec json" and "stored json es content" and "ordered oid previous es"
    and "consumed + length content \<le> MAX_LEGACY_BYTES"
  shows "read_records json oid (content @ part) consumed previous acc =
    read_records json oid part (consumed + length content) (foldl (\<lambda>_ e. ev_sequence e) previous es) (acc @ es)"
  using assms(2-4)
proof (induction es arbitrary: content consumed previous acc)
  case (Cons e es)
  then obtain bytes rest where enc: "encode json e = Inr bytes" and st: "stored json es rest" and c: "content = bytes @ rest"
    by (auto simp: stored_Cons)
  show ?case
    using read_records_one [OF assms(1) enc, of oid acc previous consumed "rest @ part"] Cons.prems c
      Cons.IH [OF st, of "ev_sequence e" "consumed + length bytes" "acc @ [e]"] by (simp add: add.assoc)
qed simp

lemma read_records_torn:
  assumes "newline \<notin> set part" and "length part \<le> MAX_RECORD_BYTES"
  shows "read_records json oid part consumed previous acc = \<lparr>eh_events = acc, eh_incomplete = (part \<noteq> [])\<rparr>"
proof (cases "part = []")
  case False
  then have "last part \<noteq> newline" using assms(1) by (metis last_in_set)
  moreover have "read_line (take (MAX_RECORD_BYTES + 1) part) = part"
    using assms by (simp add: read_line_partial)
  ultimately show ?thesis using False by (subst read_records.simps) (simp add: Let_def del: One_nat_def)
qed (simp add: read_records.simps)

lemma read_records_history:
  assumes codec: "event_codec json" and wf: "wf_history oid es" and st: "stored json es content"
    and len: "length content \<le> MAX_LEGACY_BYTES" and part: "newline \<notin> set part" "length part \<le> MAX_RECORD_BYTES"
  shows "read_records json oid (content @ part) 0 0 [] = \<lparr>eh_events = es, eh_incomplete = (part \<noteq> [])\<rparr>"
proof (cases "ordered oid 0 es")
  case True
  show ?thesis
    using read_records_ordered [OF codec st True, of 0 part "[]"] len part by (simp add: read_records_torn)
next
  case False
  with wf obtain e rest where es: "es = e # rest" and e: "ev_operation_id e = oid" "is_truncation_marker e" and rest: "ordered oid 0 rest"
    by (auto simp: wf_history_def split: list.splits)
  from st es obtain bytes content' where enc: "encode json e = Inr bytes" and st': "stored json rest content'" and c: "content = bytes @ content'"
    by (auto simp: stored_Cons)
  have "ev_sequence e = 0" using e by (simp add: is_truncation_marker_def)
  then show ?thesis
    using read_records_one [OF codec enc e(1), of "[]" 0 0 "content' @ part"] e(2) len c es part
      read_records_ordered [OF codec st' rest, of "length bytes" part "[e]"] by (simp add: read_records_torn)
qed

text \<open>
  C35: What was written is read back: a file of encoded events gives exactly these events, and a record that was torn by a crash is
  reported as an incomplete history without losing the records in front of it.
\<close>

theorem history_reads_back:
  assumes "event_codec json" and "wf_history oid es" and "stored json es content" and "length content \<le> MAX_PERSISTED_EVENT_BYTES"
    and "encode json e = Inr line" and "strict_prefix part line"
    and "w_fs w q = Some (File u m (content @ part) s)" and "w_faults w = []"
  shows "fst (read_history json q oid w) = Done \<lparr>eh_events = es, eh_incomplete = (part \<noteq> [])\<rparr>"
proof -
  from assms(5) obtain body where t: "ej_write json e = Some body" "line = body @ [newline]" "length line \<le> MAX_RECORD_BYTES"
    by (auto simp: encode_Inr_iff)
  with assms(6) have "prefix part body" by (auto simp: strict_prefix_def)
  then have part: "newline \<notin> set part" "length part \<le> MAX_RECORD_BYTES"
    using event_codecD [OF assms(1) t(1)] t(2,3) by (auto dest: set_mono_prefix prefix_length_le)
  have len: "length content \<le> MAX_LEGACY_BYTES" "length (content @ part) \<le> MAX_LEGACY_BYTES + 1"
    using assms(4) part(2) by (simp_all add: MAX_LEGACY_BYTES_def)
  show ?thesis
    using read_records_history [OF assms(1-3) len(1) part] len(2) assms(7,8)
    by (simp add: read_history_def attempt_def read_handle_def query_def ret_def)
qed

section \<open>Lemmas: order and compaction\<close>

lemma subseq_subset: "subseq xs ys \<Longrightarrow> set xs \<subseteq> set ys"
  by (induction rule: list_emb.induct) auto

lemma ordered_weaken: "ordered oid p es \<Longrightarrow> p' \<le> p \<Longrightarrow> ordered oid p' es"
  by (cases es) auto

lemma ordered_snoc:
  "ordered oid p (es @ [e]) \<longleftrightarrow> ordered oid p es \<and> ev_operation_id e = oid \<and> (if es = [] then p else ev_sequence (last es)) < ev_sequence e"
  by (induction es arbitrary: p) auto

lemma ordered_subseq: "subseq es' es \<Longrightarrow> ordered oid p es \<Longrightarrow> ordered oid p es'"
proof (induction arbitrary: p rule: list_emb.induct)
  case (list_emb_Cons xs ys y)
  then have "ordered oid p ys" using ordered_weaken [of oid "ev_sequence y" ys p] by auto
  then show ?case by (rule list_emb_Cons.IH)
qed simp_all

lemma restore_event_high:
  "lg_last_sequence (restore_event log e) = (if ev_sequence e = 0
     then max (lg_last_sequence log) (case high_sequence_field e of Some n \<Rightarrow> n | None \<Rightarrow> 0) else max (lg_last_sequence log) (ev_sequence e))"
  by (simp add: restore_event_def Let_def split: option.splits)

lemma ordered_high:
  "ordered oid p es \<Longrightarrow> lg_last_sequence (foldl restore_event log es) =
     (if es = [] then lg_last_sequence log else max (lg_last_sequence log) (ev_sequence (last es)))"
proof (induction es rule: rev_induct)
  case (snoc e es)
  then have "ev_sequence e \<noteq> 0" "es \<noteq> [] \<Longrightarrow> ev_sequence (last es) \<le> ev_sequence e"
    by (auto simp: ordered_snoc split: if_splits)
  with snoc show ?case by (auto simp: ordered_snoc restore_event_high max.assoc max_absorb2)
qed simp

lemma restore_high: "lg_last_sequence (restore es) = lg_last_sequence (foldl restore_event empty_log es)"
  using trim_technical_ok [of "foldl restore_event empty_log es"] restore_events_ok [OF empty_log_counted, of es]
  by (simp add: restore_def)

definition lasting :: "operation_event list \<Rightarrow> operation_event list" where
  "lasting es = filter (\<lambda>e. ev_technical e = None \<and> ev_sequence e \<noteq> 0) es"

text \<open>\<open>extended oid es e es'\<close>: a history after an event was added to it.\<close>

definition extended :: "string \<Rightarrow> operation_event list \<Rightarrow> operation_event \<Rightarrow> operation_event list \<Rightarrow> bool" where
  "extended oid es e es' = (wf_history oid es' \<and> lasting es' = lasting (es @ [e]) \<and>
     (\<forall>x\<in>set es'. ev_sequence x \<noteq> 0 \<longrightarrow> x \<in> set (es @ [e])) \<and> lg_last_sequence (restore es') = ev_sequence e)"

text \<open>\<open>may_follow oid es e\<close>: the sequence number of the event is above everything the history has seen.\<close>

definition may_follow :: "string \<Rightarrow> operation_event list \<Rightarrow> operation_event \<Rightarrow> bool" where
  "may_follow oid es e = (wf_history oid es \<and> ev_operation_id e = oid \<and> lg_last_sequence (restore es) < ev_sequence e)"

lemma marker_high: "is_truncation_marker e \<Longrightarrow>
    lg_last_sequence (restore_event empty_log e) = the (high_sequence_field e)"
  by (auto simp: is_truncation_marker_def restore_event_high empty_log_def)

lemma wf_history_cases:
  assumes "wf_history oid es"
  obtains (plain) "ordered oid 0 es" | (marked) e rest where "es = e # rest" "ev_operation_id e = oid" "is_truncation_marker e" "ordered oid 0 rest"
  using assms by (auto simp: wf_history_def split: list.splits)

lemma marked_high:
  assumes "is_truncation_marker m" and "ordered oid 0 rest"
  shows "lg_last_sequence (restore (m # rest)) =
    (if rest = [] then the (high_sequence_field m) else max (the (high_sequence_field m)) (ev_sequence (last rest)))"
  using marker_high [OF assms(1)] ordered_high [OF assms(2), of "restore_event empty_log m"] by (simp add: restore_high)

lemma plain_high:
  assumes "ordered oid 0 es"
  shows "lg_last_sequence (restore es) = (if es = [] then 0 else ev_sequence (last es))"
  using ordered_high [OF assms, of empty_log] by (simp add: restore_high empty_log_def)

lemma extended_snoc:
  assumes "may_follow oid es e"
  shows "extended oid es e (es @ [e])"
proof -
  from assms have wf: "wf_history oid es" and oid: "ev_operation_id e = oid" and high: "lg_last_sequence (restore es) < ev_sequence e"
    by (simp_all add: may_follow_def)
  from wf have "wf_history oid (es @ [e]) \<and> lg_last_sequence (restore (es @ [e])) = ev_sequence e"
  proof (cases rule: wf_history_cases)
    case plain
    then have "ordered oid 0 (es @ [e])" using high oid plain_high [OF plain] by (auto simp: ordered_snoc split: if_splits)
    then show ?thesis using plain_high [of oid "es @ [e]"] oid by (cases es) (auto simp: wf_history_def)
  next
    case (marked m rest)
    have "ordered oid 0 (rest @ [e])"
      using high oid marked_high [OF marked(3,4)] marked(1,4) by (auto simp: ordered_snoc word_gt_0 split: if_splits)
    then show ?thesis
      using marked marked_high [OF marked(3), of oid "rest @ [e]"] marked_high [OF marked(3,4)] high
      by (auto simp: wf_history_def max_absorb2 split: if_splits)
  qed
  then show ?thesis by (simp add: extended_def)
qed

lemma encode_all_iff:
  "encode_all json es = Inr records \<longleftrightarrow> map fst records = es \<and> (\<forall>(x, b)\<in>set records. encode json x = Inr b)"
proof (induction es arbitrary: records)
  case (Cons e es)
  show ?case
  proof (cases records)
    case (Cons r rs)
    then show ?thesis using Cons.IH [of rs] by (cases r) (auto simp: result_simps)
  qed (simp add: result_simps)
qed auto

lemma retain_records_ok:
  "retain_records target n dropped records = (kept, dropped') \<Longrightarrow>
     subseq kept records \<and> filter (\<lambda>r. ev_technical (fst r) = None) kept = filter (\<lambda>r. ev_technical (fst r) = None) records \<and>
     dropped \<le> dropped' \<and> (dropped' = 0 \<longrightarrow> kept = records)"
proof (induction target n dropped records arbitrary: kept rule: retain_records.induct)
  case (2 target remaining dropped e bytes rest)
  show ?case
  proof (cases "target < remaining \<and> ev_technical e \<noteq> None")
    case True
    have "0 < unat (sat_add dropped 1)" by (simp add: unat_sat_add)
    then have "sat_add dropped 1 \<noteq> 0" by auto
    with 2(1) [OF True, of kept] 2(3) True sat_add_ge [of dropped 1] show ?thesis
      by (auto intro: order_trans)
  next
    case False
    then show ?thesis using 2 by (fastforce split: prod.splits)
  qed
qed auto

lemma truncation_marker_ok:
  "is_truncation_marker (truncation_marker e dropped)" "ev_operation_id (truncation_marker e dropped) = ev_operation_id e"
  "high_sequence_field (truncation_marker e dropped) = Some (ev_sequence e)"
  by (simp_all add: is_truncation_marker_def truncation_marker_def high_sequence_field_def)

lemma lasting_filter: "lasting (map fst records) = filter (\<lambda>x. ev_sequence x \<noteq> 0) (map fst (filter (\<lambda>r. ev_technical (fst r) = None) records))"
  by (induction records) (auto simp: lasting_def)

lemma ordered_nonzero: "ordered oid p es \<Longrightarrow> x \<in> set es \<Longrightarrow> ev_sequence x \<noteq> 0 \<and> ev_sequence x \<le> ev_sequence (last es)"
proof (induction es rule: rev_induct)
  case (snoc e es)
  then show ?case by (cases "x = e") (force simp: ordered_snoc split: if_splits)+
qed simp

lemma rest_follows:
  assumes follow: "may_follow oid es e" and early: "earlier_dropped es = Inr (dropped, rest)"
  shows "ordered oid 0 (rest @ [e]) \<and> lasting (rest @ [e]) = lasting (es @ [e]) \<and> set rest \<subseteq> set es"
proof -
  note x = extended_snoc [OF follow, unfolded extended_def]
  from follow have "wf_history oid es" by (simp add: may_follow_def)
  then show ?thesis
  proof (cases rule: wf_history_cases)
    case plain
    then have "rest = es" using early by (cases es) (auto simp: earlier_dropped_def split: if_splits)
    with plain x show ?thesis
      using extended_snoc [OF follow] follow plain_high [OF plain] by (auto simp: ordered_snoc may_follow_def split: if_splits)
  next
    case (marked m more)
    then have "rest = more" using early by (auto simp: earlier_dropped_def is_truncation_marker_def result_simps)
    with marked follow marked_high [OF marked(3,4)] show ?thesis
      by (auto simp: ordered_snoc may_follow_def lasting_def is_truncation_marker_def word_gt_0 split: if_splits)
  qed
qed

lemma kept_high:
  assumes all: "ordered oid 0 (rest @ [e])" and sub: "subseq (map fst kept) (rest @ [e])" and ord: "ordered oid 0 (map fst kept)"
    and whole: "dropped' = 0 \<Longrightarrow> map fst kept = rest @ [e]"
  shows "lg_last_sequence (restore ((if dropped' \<noteq> 0 then [truncation_marker e dropped'] else []) @ map fst kept)) = ev_sequence e"
proof (cases "dropped' = 0")
  case True
  then have "map fst kept = rest @ [e]" using whole by simp
  then show ?thesis using True plain_high [of oid "rest @ [e]"] all by simp
next
  case False
  have "ev_sequence (last (map fst kept)) \<le> ev_sequence e" if "kept \<noteq> []"
  proof -
    have "last (map fst kept) \<in> set (rest @ [e])" using that subseq_subset [OF sub] last_in_set [of "map fst kept"] by auto
    then show ?thesis using ordered_nonzero [of oid 0 "rest @ [e]"] all by fastforce
  qed
  then show ?thesis
    using False marked_high [OF truncation_marker_ok(1) ord, of e dropped'] truncation_marker_ok(3) [of e dropped']
    by (auto simp: max_absorb1)
qed

lemma compact_extends:
  assumes follow: "may_follow oid es e" and c: "compact json es e = Inr output"
  shows "\<exists>es'. stored json es' output \<and> extended oid es e es' \<and> length output \<le> MAX_PERSISTED_EVENT_BYTES"
proof -
  from c obtain dropped rest records where early: "earlier_dropped es = Inr (dropped, rest)"
      and enc: "encode_all json (rest @ [e]) = Inr records"
    by (auto simp: compact_def result_simps)
  obtain kept dropped' where
    ret: "retain_records (MAX_PERSISTED_EVENT_BYTES div 2) (sum_list (map (length \<circ> snd) records)) dropped records = (kept, dropped')"
    by fastforce
  from c obtain head where head: "(if dropped' \<noteq> 0 then encode json (truncation_marker e dropped') else Inr []) = Inr head"
      and out: "output = head @ concat (map snd kept)" "length output \<le> MAX_PERSISTED_EVENT_BYTES"
    unfolding compact_def by (fastforce simp: result_simps Let_def early enc ret split: if_splits)
  let ?mark = "if dropped' \<noteq> 0 then [truncation_marker e dropped'] else []"
  let ?es = "?mark @ map fst kept"
  have oid: "ev_operation_id e = oid" using follow by (simp add: may_follow_def)
  note all = rest_follows [OF follow early]
  note r = retain_records_ok [OF ret]
  have recs: "map fst records = rest @ [e]" "\<forall>(x, b)\<in>set records. encode json x = Inr b"
    using enc by (simp_all add: encode_all_iff)
  have sub: "subseq (map fst kept) (rest @ [e])" using r subseq_map [of kept records fst] recs(1) by simp
  have ord: "ordered oid 0 (map fst kept)" by (rule ordered_subseq [OF sub]) (use all in simp)
  have "set kept \<subseteq> set records" using r subseq_subset by blast
  then have "stored json (map fst kept) (concat (map snd kept))"
    unfolding stored_def encode_all_iff using recs(2) by (intro exI [of _ kept]) blast
  then have st: "stored json ?es output"
    using head out(1) by (auto simp: stored_append stored_Cons split: if_splits)
  have las: "lasting ?es = lasting (es @ [e])"
  proof -
    have "lasting (map fst kept) = lasting (rest @ [e])" using r recs(1) lasting_filter [of kept] lasting_filter [of records] by simp
    then show ?thesis using all truncation_marker_ok(1) [of e dropped'] by (auto simp: lasting_def is_truncation_marker_def)
  qed
  have wf: "wf_history oid ?es"
    using ord truncation_marker_ok [of e dropped'] oid by (cases "map fst kept") (auto simp: wf_history_def)
  have mem: "\<forall>x\<in>set ?es. ev_sequence x \<noteq> 0 \<longrightarrow> x \<in> set (es @ [e])"
  proof -
    have "set (map fst kept) \<subseteq> set (rest @ [e])" by (rule subseq_subset [OF sub])
    moreover have "ev_sequence (truncation_marker e dropped') = 0" by (simp add: truncation_marker_def)
    ultimately show ?thesis using all by (auto split: if_splits)
  qed
  have high: "lg_last_sequence (restore ?es) = ev_sequence e"
    by (rule kept_high [OF _ sub ord]) (use all r recs(1) in simp_all)
  show ?thesis using st wf las mem high out(2) unfolding extended_def by blast
qed

section \<open>Lemmas: appending\<close>

lemma stored_nonempty: "stored json es content \<Longrightarrow> (content = []) = (es = [])"
  by (cases es) (auto simp: stored_Cons encode_Inr_iff)

lemma check_head_ok:
  assumes codec: "event_codec json" and st: "stored json (m # es) content"
    and chk: "check_head json (take MAX_RECORD_BYTES content) e = Inr u" and m: "is_truncation_marker m"
  shows "the (high_sequence_field m) < ev_sequence e"
proof -
  from st obtain body rest where t: "ej_write json m = Some body" "content = body @ newline # rest" "length body < MAX_RECORD_BYTES"
    by (auto simp: stored_Cons encode_Inr_iff)
  have "read_line (take MAX_RECORD_BYTES content) = body @ [newline]"
    using read_line_record [of body MAX_RECORD_BYTES rest] event_codecD [OF codec t(1)] t(2,3) by simp
  then show ?thesis
    using chk m event_codecD [OF codec t(1)]
    by (auto simp: check_head_def result_simps is_truncation_marker_def)
qed

lemma split_on_none: "c \<notin> set ys \<Longrightarrow> split_on c ys = [ys]"
  by (induction ys) auto

lemma split_on_last:
  assumes "c \<notin> set ys"
  shows "\<exists>ps. ps \<noteq> [] \<and> split_on c (xs @ c # ys) = ps @ [ys]"
proof (induction xs)
  case (Cons x xs)
  then obtain p ps where "split_on c (xs @ c # ys) = (p # ps) @ [ys]" by (metis neq_Nil_conv)
  then show ?case by (cases "x = c") (force intro: exI [of _ "[] # p # ps"] exI [of _ "(x # p) # ps"])+
qed (simp add: split_on_none [OF assms])

lemma stored_ends: "stored json es content \<Longrightarrow> es \<noteq> [] \<Longrightarrow> content \<noteq> [] \<and> last content = newline"
proof (induction es arbitrary: content)
  case (Cons e es)
  then show ?case by (cases es) (fastforce simp: stored_Cons encode_Inr_iff)+
qed simp

lemma check_tail_ok:
  assumes codec: "event_codec json" and st: "stored json (es @ [l]) content"
    and chk: "check_tail json oid (drop (length content - MAX_RECORD_BYTES) content) e = Inr u"
  shows "ev_sequence l < ev_sequence e"
proof -
  from st obtain before body where b: "stored json es before" and t: "ej_write json l = Some body"
      and c: "content = before @ body @ [newline]" and len: "length body < MAX_RECORD_BYTES"
    by (auto simp: stored_append stored_Cons encode_Inr_iff)
  note j = event_codecD [OF codec t]
  let ?z = "drop (length content - MAX_RECORD_BYTES) before"
  have tail: "drop (length content - MAX_RECORD_BYTES) content = ?z @ body @ [newline]"
    using c len by simp
  have "last (split_on newline (?z @ body)) = body"
  proof (cases "?z = []")
    case False
    then have "before \<noteq> []" "last ?z = last before" by auto
    then have "last ?z = newline" using stored_ends [OF b] b by (cases es) auto
    then have z: "?z = butlast ?z @ [newline]" using False by (metis append_butlast_last_id)
    obtain ps where ps: "split_on newline (butlast ?z @ newline # body) = ps @ [body]"
      using split_on_last [of newline body "butlast ?z"] j by blast
    have "?z @ body = butlast ?z @ newline # body" by (subst z) simp
    then have "split_on newline (?z @ body) = ps @ [body]" by (simp only: ps)
    then show ?thesis by simp
  qed (use j in \<open>simp add: split_on_none\<close>)
  then show ?thesis
    using chk j by (auto simp: check_tail_def tail butlast_append result_simps)
qed

lemma check_order_follows:
  assumes codec: "event_codec json" and st: "stored json es content" and wf: "wf_history oid es"
    and e: "ev_operation_id e = oid" "ev_sequence e \<noteq> 0"
    and run: "check_order json q oid (length content) e w = (Done u, w')" and q: "w_fs w q = Some (File uid m content s)"
  shows "may_follow oid es e \<and> w_fs w' = w_fs w"
proof (cases "es = []")
  case True
  then show ?thesis
    using run st e plain_high [of oid "[]"] by (auto simp: check_order_def act_simps may_follow_def wf_history_def word_gt_0)
next
  case False
  with stored_nonempty [OF st] run q have heads: "check_head json (take MAX_RECORD_BYTES content) e = Inr ()"
      and tails: "check_tail json oid (drop (length content - MAX_RECORD_BYTES) content) e = Inr ()" and same: "w_fs w' = w_fs w"
    by (auto simp: check_order_def act_simps read_handle_def read_from_def)
  from False obtain fore l where l: "es = fore @ [l]" by (metis rev_exhaust)
  have last: "ev_sequence l < ev_sequence e" using check_tail_ok [OF codec _ tails] st l by blast
  from wf have "lg_last_sequence (restore es) < ev_sequence e"
  proof (cases rule: wf_history_cases)
    case plain
    then show ?thesis using plain_high [OF plain] last l False by simp
  next
    case (marked m rest)
    then have "the (high_sequence_field m) < ev_sequence e" using check_head_ok [OF codec _ heads] st by blast
    then show ?thesis using marked_high [OF marked(3,4)] marked(1) last l by (cases rest rule: rev_cases) auto
  qed
  then show ?thesis using wf e same by (simp add: may_follow_def)
qed

definition in_dir :: "fs \<Rightarrow> path \<Rightarrow> path \<Rightarrow> bool" where
  "in_dir fs dir d = (walk MAX_LINKS fs [] dir = Inr d \<and> is_dir (fs d))"

lemma in_dir_locate: "in_dir fs dir d \<Longrightarrow> locate fs (dir @ [n]) = Inr (d @ [n])"
  by (simp add: in_dir_def locate_def)

lemma locate_in_dir_iff: "locate fs (dir @ [n]) = Inr q \<longleftrightarrow> (\<exists>d. in_dir fs dir d \<and> q = d @ [n])"
  by (auto simp: in_dir_def locate_Inr_iff)

lemma in_dir_grows: "in_dir fs dir d \<Longrightarrow> grows fs fs' \<Longrightarrow> in_dir fs' dir d"
  using walk_grows [of MAX_LINKS fs "[]" dir d fs'] by (auto simp: in_dir_def grows_def)

lemma grows_new: "fs q = None \<Longrightarrow> grows fs (fs(q \<mapsto> n))"
  by (auto simp: grows_def)

lemma create_missing_Done:
  assumes "create_missing (dir @ [n]) k w = (Done u, w1)" and d: "in_dir (w_fs w) dir d"
  shows "w_fs w (d @ [n]) \<noteq> None \<and> w_fs w1 = w_fs w \<or>
    w_fs w (d @ [n]) = None \<and> (\<exists>u m. w_fs w1 = (w_fs w)(d @ [n] \<mapsto> File u m [] False))"
  using assms(1) in_dir_locate [OF d, of n]
  by (auto simp: create_missing_def act_simps result_simps split: option.splits node.splits)

lemma require_file_Done: "require_file q w = (Done u, w') \<Longrightarrow> w_fs w' = w_fs w \<and> (\<exists>u m c s. w_fs w q = Some (File u m c s))"
  by (auto simp: require_file_def handle_metadata_def act_simps result_simps split: node.splits) (metis node.exhaust)+

lemma flock_Done: "flock w = (Done u, w') \<Longrightarrow> w_fs w' = w_fs w"
  by (auto simp: flock_def act_simps)

lemma open_or_create_Done:
  assumes run: "open_or_create (dir @ [n]) True w = (Done q, w')" and d: "in_dir (w_fs w) dir d"
  shows "q = d @ [n] \<and> (w_fs w' = w_fs w \<and> w_fs w q \<noteq> None \<or> w_fs w q = None \<and> (\<exists>u m. w_fs w' = (w_fs w)(q \<mapsto> File u m [] False)))"
proof -
  note l = in_dir_locate [OF d, of n]
  from run obtain u w1 where m: "create_missing (dir @ [n]) 384 w = (Done u, w1)" and o: "open_read (dir @ [n]) w1 = (Done q, w')"
    by (auto simp: open_or_create_def abind_Done)
  note c = create_missing_Done [OF m d]
  then have "grows (w_fs w) (w_fs w1)" using grows_new by auto
  then have "locate (w_fs w1) (dir @ [n]) = Inr (d @ [n])" using in_dir_grows [OF d] in_dir_locate by blast
  with o have "q = d @ [n] \<and> w_fs w' = w_fs w1"
    by (auto simp: open_read_def act_simps result_simps split: option.splits node.splits)
  with c show ?thesis by auto
qed

lemma lock_file_Done:
  assumes run: "lock_file dir True w = (Done u, w')" and d: "in_dir (w_fs w) dir d"
  shows "in_dir (w_fs w') dir d \<and> (\<forall>n. n \<noteq> ''.events.lock'' \<longrightarrow> w_fs w' (d @ [n]) = w_fs w (d @ [n]))"
proof -
  from run obtain q w1 where o: "open_or_create (dir @ [''.events.lock'']) True w = (Done q, w1)" and same: "w_fs w' = w_fs w1"
    by (auto simp: lock_file_def abind_Done raise_as_Done dest!: require_file_Done flock_Done)
  from open_or_create_Done [OF o d] have "grows (w_fs w) (w_fs w1)" using grows_new by auto
  with open_or_create_Done [OF o d] same show ?thesis using in_dir_grows [OF d] by auto
qed

lemma open_events_Done:
  assumes run: "open_events (dir @ [n]) True w = (Done q, w')" and d: "in_dir (w_fs w) dir d"
  shows "q = d @ [n] \<and> in_dir (w_fs w') dir d \<and>
    (\<exists>u m content s. w_fs w' q = Some (File u m content s) \<and> (w_fs w q = Some (File u m content s) \<or> w_fs w q = None \<and> content = []))"
proof -
  from run obtain w1 where o: "open_or_create (dir @ [n]) True w = (Done q, w1)" and same: "w_fs w' = w_fs w1"
      and isfile: "\<exists>u m c s. w_fs w1 q = Some (File u m c s)"
    by (auto simp: open_events_def abind_Done raise_as_Done ret_Done dest!: require_file_Done)
  from open_or_create_Done [OF o d] have "grows (w_fs w) (w_fs w1)" using grows_new by auto
  with open_or_create_Done [OF o d] same isfile in_dir_grows [OF d] show ?thesis by auto
qed

lemma sync_dir_Done: "sync_dir p w = (Done u, w') \<Longrightarrow> w_fs w' = w_fs w"
  by (auto simp: sync_dir_def act_simps)

lemma sync_all_Done:
  "sync_all q w = (Done u, w') \<Longrightarrow> w_fs w q = Some (File uid m c s) \<Longrightarrow> w_fs w' = (w_fs w)(q \<mapsto> File uid m c True)"
  by (auto simp: sync_all_def act_simps)

lemma replace_events_Done:
  assumes run: "replace_events nonce dir (dir @ [n]) bs w = (Done u, w')" and d: "in_dir (w_fs w) dir d"
    and q: "w_fs w (d @ [n]) = Some (File uid m content s)"
  shows "\<exists>u m. w_fs w' (d @ [n]) = Some (File u m bs True)"
proof -
  from run obtain h w1 w2 where c: "create_new (dir @ [nonce]) 384 w = (Done h, w1)"
      and rest: "abind (write_all h bs) (\<lambda>_. abind (sync_all h) (\<lambda>_. rename (dir @ [nonce]) (dir @ [n]))) w1 = (Done (), w2)"
      and same: "w_fs w' = w_fs w2"
    unfolding replace_events_def Let_def
    by (auto simp: act_simps dest!: sync_dir_Done)
  note tmp = create_new_Done [OF c in_dir_locate [OF d]]
  from tmp(3) obtain u0 m0 s0 where f: "w_fs w1 h = Some (File u0 m0 [] s0)" using tmp(1) by (auto simp: holds_file_def)
  from rest obtain w3 w4 where "write_all h bs w1 = (Done (), w3)" and y: "sync_all h w3 = (Done (), w4)"
      and r: "rename (dir @ [nonce]) (dir @ [n]) w4 = (Done (), w2)"
    by (auto simp: act_simps)
  from write_all_Done [OF f this(1)] obtain s1 where fs3: "w_fs w3 = (w_fs w1)(h \<mapsto> File u0 m0 bs s1)" by auto
  then have fs4: "w_fs w4 = (w_fs w1)(h \<mapsto> File u0 m0 bs True)" using sync_all_Done [OF y] by auto
  from c tmp have w1: "\<exists>f. w_fs w1 = (w_fs w)(d @ [nonce] \<mapsto> File (w_euid w) f [] False)"
    by (auto simp: create_new_def act_simps result_simps in_dir_locate [OF d] split: if_splits sum.splits)
  have "grows (w_fs w) (w_fs w4)" using w1 fs4 tmp(1,2) grows_new by auto
  then have "in_dir (w_fs w4) dir d" using in_dir_grows [OF d] by blast
  moreover have "nonce \<noteq> n" using q tmp(2) by auto
  ultimately show ?thesis
    using r fs4 tmp(1) same by (auto simp: rename_def act_simps result_simps in_dir_locate split: option.splits node.splits)
qed

lemma operation_directory_Done:
  "operation_directory root oid w = (Done dir, w') \<Longrightarrow> dir = root @ [oid] \<and> w_fs w' = w_fs w"
  by (auto simp: operation_directory_def require_dir_def symlink_metadata_def act_simps split: if_splits node.splits)
     (metis node.exhaust)+

text \<open>\<open>log_holds json oid es fs q\<close>: the file of events is absent or holds a history.\<close>

definition log_holds :: "event_json \<Rightarrow> string \<Rightarrow> operation_event list \<Rightarrow> node option \<Rightarrow> bool" where
  "log_holds json oid es n = (wf_history oid es \<and> (case n of
      None \<Rightarrow> es = []
    | Some (File u m content s) \<Rightarrow> stored json es content \<and> length content \<le> MAX_PERSISTED_EVENT_BYTES
    | _ \<Rightarrow> False))"

lemma append_write:
  assumes run: "abind (raise_as LogIo (write_all q bytes)) (\<lambda>_. abind (raise_as LogIo (sync_all q)) (\<lambda>_.
      if sz = 0 then raise_as LogIo (sync_dir dir) else ret ())) w = (Done v, w')"
    and q: "w_fs w q = Some (File u m content s)"
  shows "w_fs w' q = Some (File u m (content @ bytes) True)"
proof -
  from run obtain w1 w2 where w1: "write_all q bytes w = (Done (), w1)" and w2: "sync_all q w1 = (Done (), w2)" and same: "w_fs w' = w_fs w2"
    by (auto simp: abind_Done raise_as_Done ret_Done dest!: sync_dir_Done split: if_splits)
  from write_all_Done [OF q w1] obtain s1 where "w_fs w1 = (w_fs w)(q \<mapsto> File u m (content @ bytes) s1)" by blast
  with sync_all_Done [OF w2] same show ?thesis by auto
qed


section \<open>Witnesses\<close>

definition example_event :: operation_event where
  "example_event = technical_event ''01234567-89ab-cdef-0123-456789abcdef'' 1 [] Downloading"

definition example_json :: event_json where
  "example_json = \<lparr>ej_write = (\<lambda>e. if e = example_event then Some ''a'' else None),
     ej_read = (\<lambda>s. if s = ''a'' \<or> s = ''a'' @ [newline] then Some example_event else None)\<rparr>"

definition log_fs :: fs where
  "log_fs = [[] \<mapsto> Dir 0 0, [''v''] \<mapsto> Dir 0 0, [''v'', ''01234567-89ab-cdef-0123-456789abcdef''] \<mapsto> Dir 0 0]"

lemma newline_value: "newline = CHR 0x0A"
  by (simp add: newline_def)

lemma example_json_codec: "event_codec example_json"
  by (auto simp: event_codec_def example_json_def newline_value split: if_splits)

lemma example_encode: "encode example_json example_event = Inr (''a'' @ [newline])"
  by (simp add: encode_def example_json_def MAX_RECORD_BYTES_def Let_def)

lemma example_wf: "wf_history ''01234567-89ab-cdef-0123-456789abcdef'' [example_event]"
  by (simp add: wf_history_def example_event_def technical_event_def)

lemma example_id: "valid_operation_id ''01234567-89ab-cdef-0123-456789abcdef''"
  by code_simp

theorem log_keeps_normative_events_witness:
  "prefix (normative [example_event]) (normative (lg_events (push_normative (restore [example_event]) example_event)))"
proof -
  have "log_step\<^sup>*\<^sup>* (restore [example_event]) (push_normative (restore [example_event]) example_event)"
    by (rule r_into_rtranclp, rule log_step.normative) (simp add: example_event_def technical_event_def)
  from log_keeps_normative_events [OF this] show ?thesis by simp
qed

theorem history_reads_back_witness:
  "fst ((read_history example_json [''q''] ''01234567-89ab-cdef-0123-456789abcdef'' :: ('e, event_history) act) (quiet 0 [[''q''] \<mapsto> File 0 0 (''a'' @ [newline] @ ''a'') True])) =
     Done \<lparr>eh_events = [example_event], eh_incomplete = True\<rparr>"
proof -
  have "stored example_json [example_event] (''a'' @ [newline])" by (simp add: stored_Cons example_encode)
  from history_reads_back [OF example_json_codec example_wf this _ example_encode, of "''a''" "quiet 0 [[''q''] \<mapsto> File 0 0 (''a'' @ [newline] @ ''a'') True]" "[''q'']" 0 0 True, where ?'a = 'e]
  show ?thesis by (simp add: MAX_PERSISTED_EVENT_BYTES_def strict_prefix_def)
qed


end
