(* ===== verification/Service.thy ===== *)
theory Service
  imports Inventory Event_Log Executor
begin

text \<open>
  \<open>service/src/main.rs\<close>: the requests of a client, from reading a line to the answer. Files are those of the theory
  File\_System; what the service asks of other components that have their own model (planning, manifests, events, records,
  inventories) is called with the same definitions. The record \<open>service_env\<close> has the rest: the digests and JSON, the clock,
  random names, what planning sees of the host, and the read broker. \<open>se_rollback\<close> is what the theory Rollback models, on the
  files; a started worker is noted in the state of the service, and what it does is in the theories Executor and Execution.
\<close>

section \<open>State and environment\<close>

record pending_plan =
  pn_planned :: planned_update
  pn_manifest :: "release_manifest option"

record service_env =
  se_plan_sha :: plan_digest
  se_manifest_sha :: manifest_digest
  se_to_json :: "operation_state_record \<Rightarrow> string option"
  se_from_json :: "string \<Rightarrow> operation_state_record option"
  se_pending_write :: "pending_plan \<Rightarrow> string option"
  se_pending_read :: "string \<Rightarrow> pending_plan option"
  se_events :: event_json
  se_inventory_read :: "string \<Rightarrow> inventory_report option"
  se_nonce :: string
  se_now :: string
  se_uuid :: string
  se_identity :: "release_identity option"
  se_facts :: "host_facts option"
  se_vendor :: vendor_tools
  se_update_view :: planning_view
  se_upgrade_view :: planning_view
  se_fetch :: fetch_tools
  se_query :: "request \<Rightarrow> string + response"
  se_snapper :: bool
  se_xdg_cache :: "(bool \<times> path) option"
  se_home :: "(bool \<times> path) option"
  se_rollback :: "path \<Rightarrow> operation_state_record \<Rightarrow> (string, unit) act"

text \<open>A log whose mutex is poisoned is \<open>None\<close>.\<close>

record service =
  sv_root :: path
  sv_caller :: u32
  sv_plans :: "string \<Rightarrow> pending_plan option"
  sv_logs :: "string \<Rightarrow> event_log option option"
  sv_workers :: nat
  sv_started :: "(operation_state_record \<times> pending_plan) list"
  sv_read_only :: bool

definition new_service :: "u32 \<Rightarrow> service" where
  "new_service uid = \<lparr>sv_root = [''var'', ''lib'', ''lyra-upgrade'', ''operations''], sv_caller = uid, sv_plans = (\<lambda>_. None),
     sv_logs = (\<lambda>_. None), sv_workers = 0, sv_started = [], sv_read_only = False\<rparr>"

definition MANIFEST_SEQUENCE_PATH :: path where
  "MANIFEST_SEQUENCE_PATH = [''var'', ''lib'', ''lyra-upgrade'', ''last-manifest-sequence'']"

definition RELEASE_CHANNEL_PATH :: path where
  "RELEASE_CHANNEL_PATH = [''etc'', ''lyra-upgrade'', ''channel'']"

definition panic :: "('e, 'a) act" where
  "panic = (\<lambda>w. (Stopped, w))"

section \<open>Owners and pending plans\<close>

definition save_operation_owner :: "path \<Rightarrow> string \<Rightarrow> u32 \<Rightarrow> (io_error, unit) act" where
  "save_operation_owner root oid uid =
     (if \<not> valid_operation_id oid then throw EINVAL
      else abind (create_new (root @ [oid, ''owner'']) 384) (\<lambda>handle.
        abind (write_all handle (show_nat (unat uid) @ [newline])) (\<lambda>_. sync_all handle)))"

definition operation_owned_by :: "path \<Rightarrow> string \<Rightarrow> u32 \<Rightarrow> ('e, bool) act" where
  "operation_owned_by root oid uid =
     (if \<not> valid_operation_id oid then ret False
      else let p = root @ [oid, ''owner''] in
        attempt (symlink_metadata p) (\<lambda>m. case m of
            Inr (File _ _ content _) \<Rightarrow>
              if 32 < length content then ret False
              else attempt (read_to_string p) (\<lambda>r. ret (case r of
                  Inl _ \<Rightarrow> False
                | Inr value \<Rightarrow> parse_u32 (trim value) = Some uid))
          | _ \<Rightarrow> ret False))"

definition open_truncate :: "path \<Rightarrow> u32 \<Rightarrow> (io_error, path) act" where
  "open_truncate p m = abind (mutate (\<lambda>w. rbind (locate (w_fs w) p) (\<lambda>q. case w_fs w q of
      None \<Rightarrow> Inr ((w_fs w)(q \<mapsto> File (w_euid w) (and m (not (w_umask w))) [] False))
    | Some (File u k _ _) \<Rightarrow> Inr ((w_fs w)(q \<mapsto> File u k [] False))
    | Some (Link _ _) \<Rightarrow> Inl ELOOP
    | Some (Dir _ _) \<Rightarrow> Inl EISDIR
    | Some _ \<Rightarrow> Inr (w_fs w)))) (\<lambda>_. open_read p)"

definition save_pending_plan :: "service_env \<Rightarrow> path \<Rightarrow> string \<Rightarrow> pending_plan \<Rightarrow> (io_error, unit) act" where
  "save_pending_plan env root oid pending =
     (let directory = root @ [oid]; temporary = directory @ [''pending-plan.json.tmp''] in
      abind (create_dir_all directory) (\<lambda>_.
      abind (open_truncate temporary 384) (\<lambda>handle.
      abind (of_result (ok_or (se_pending_write env pending) EIO)) (\<lambda>bytes.
      abind (write_all handle bytes) (\<lambda>_.
      abind (write_all handle [newline]) (\<lambda>_.
      abind (sync_all handle) (\<lambda>_.
        rename temporary (directory @ [''pending-plan.json'']))))))))"

definition MAX_PENDING_BYTES :: nat where
  "MAX_PENDING_BYTES = 8 * 1024 * 1024"

definition load_pending_plan :: "service_env \<Rightarrow> path \<Rightarrow> string \<Rightarrow> (io_error, pending_plan) act" where
  "load_pending_plan env root oid =
     (let p = root @ [oid, ''pending-plan.json''] in
      abind (symlink_metadata p) (\<lambda>m. case m of
          File _ _ content _ \<Rightarrow>
            if MAX_PENDING_BYTES < length content then throw EIO
            else abind (read_file p) (\<lambda>bytes. of_result (ok_or (se_pending_read env bytes) EIO))
        | _ \<Rightarrow> throw EIO))"

text \<open>\<open>Path::join\<close> with a text that the client chose.\<close>

definition join_path :: "path \<Rightarrow> string \<Rightarrow> path" where
  "join_path root name = (let parts = filter (\<lambda>part. part \<noteq> [] \<and> part \<noteq> ''.'') (split_on (CHR ''/'') name) in
     if starts_with name ''/'' then parts else root @ parts)"

section \<open>Trust and release offers\<close>

definition ask_broker :: "service_env \<Rightarrow> request \<Rightarrow> response" where
  "ask_broker env r = (case se_query env r of Inr answer \<Rightarrow> answer | Inl e \<Rightarrow> Rejected (request_id r) e)"

definition trust_state :: "service_env \<Rightarrow> service \<Rightarrow> string \<Rightarrow> ('e, response) act" where
  "trust_state env sv i =
     (if sv_read_only sv then ret (ask_broker env (ReadTrustState PROTOCOL_VERSION i))
      else attempt (read_last_manifest_sequence MANIFEST_SEQUENCE_PATH) (\<lambda>r. ret (case r of
          Inr last_sequence \<Rightarrow> TrustState i last_sequence
        | Inl _ \<Rightarrow> Rejected i ''MANIFEST_SEQUENCE_INVALID'')))"

definition fetch_code :: "fetch_error \<Rightarrow> string" where
  "fetch_code e = (case e of
      Route MigrationAlreadyApplied \<Rightarrow> ''MIGRATION_ALREADY_APPLIED''
    | Route NotAvailable \<Rightarrow> ''RELEASE_NOT_AVAILABLE''
    | Route SourceMismatch \<Rightarrow> ''RELEASE_NOT_AVAILABLE''
    | _ \<Rightarrow> ''MANIFEST_INVALID'')"

definition offered_manifest :: "service_env \<Rightarrow> service \<Rightarrow> (string, release_manifest) act" where
  "offered_manifest env sv =
     abind (of_result (ok_or (se_identity env) ''DISCOVERY_FAILED'')) (\<lambda>identity.
     abind (raise_as (\<lambda>_. ''RELEASE_CHANNEL_INVALID'') (read_release_channel RELEASE_CHANNEL_PATH)) (\<lambda>channel.
     abind (trust_state env sv ''release-trust'') (\<lambda>trust. case trust of
         TrustState _ last_sequence \<Rightarrow> raise_as fetch_code (fetch_release_manifest (se_fetch env) identity last_sequence channel)
       | _ \<Rightarrow> throw ''MANIFEST_SEQUENCE_INVALID'')))"

definition release_offer :: "service_env \<Rightarrow> string \<Rightarrow> bool \<Rightarrow> release_manifest \<Rightarrow> ('e, response) act" where
  "release_offer env i cached m = (case se_manifest_sha env m of
      Some hash \<Rightarrow> ret (ReleaseOffer i hash m cached) | None \<Rightarrow> panic)"

definition cache_directory :: "service_env \<Rightarrow> path option" where
  "cache_directory env = map_option snd (opt_filter fst (case se_xdg_cache env of
      Some p \<Rightarrow> Some p
    | None \<Rightarrow> map_option (\<lambda>(absolute, p). (absolute, p @ [''.cache''])) (se_home env)))"

definition preview_offer :: "service_env \<Rightarrow> service \<Rightarrow> string \<Rightarrow> path \<Rightarrow> (string, response) act" where
  "preview_offer env sv i cache =
     abind (of_result (ok_or (se_identity env) ''DISCOVERY_FAILED'')) (\<lambda>identity.
     abind (raise_as (\<lambda>_. ''RELEASE_CHANNEL_INVALID'') (read_release_channel RELEASE_CHANNEL_PATH)) (\<lambda>channel.
     abind (trust_state env sv ''release-trust'') (\<lambda>trust. case trust of
         TrustState _ last_sequence \<Rightarrow>
           abind (raise_as fetch_code (fetch_release_preview (se_fetch env) (se_nonce env) identity last_sequence channel
               (cache @ [''lyra-upgrade'', ''release-preview.json'']))) (\<lambda>(verified, cached).
             release_offer env i cached (vm_manifest verified))
       | _ \<Rightarrow> throw ''QUERY_UNAVAILABLE'')))"

text \<open>
  Without a cache directory, an unprivileged process finds the identity, the channel and the counter a second time, in
  \<open>release_manifest\<close>; the checks in front of that are those of \<open>preview_checks\<close>.
\<close>

definition preview_checks :: "service_env \<Rightarrow> service \<Rightarrow> (string, unit) act" where
  "preview_checks env sv =
     abind (of_result (ok_or (se_identity env) ''DISCOVERY_FAILED'')) (\<lambda>_.
     abind (raise_as (\<lambda>_. ''RELEASE_CHANNEL_INVALID'') (read_release_channel RELEASE_CHANNEL_PATH)) (\<lambda>_.
     abind (trust_state env sv ''release-trust'') (\<lambda>trust. case trust of
         TrustState _ _ \<Rightarrow> ret () | _ \<Rightarrow> throw ''QUERY_UNAVAILABLE'')))"

definition answer_or_reject :: "string \<Rightarrow> (string, response) act \<Rightarrow> ('e, response) act" where
  "answer_or_reject i m = attempt m (\<lambda>r. ret (case r of Inr answer \<Rightarrow> answer | Inl e \<Rightarrow> Rejected i e))"

definition check_release :: "service_env \<Rightarrow> service \<Rightarrow> string \<Rightarrow> ('e, response) act" where
  "check_release env sv i = answer_or_reject i (case (sv_read_only sv, cache_directory env) of
      (True, Some cache) \<Rightarrow> preview_offer env sv i cache
    | (True, None) \<Rightarrow> abind (preview_checks env sv) (\<lambda>_. abind (offered_manifest env sv) (release_offer env i False))
    | (False, _) \<Rightarrow> abind (offered_manifest env sv) (release_offer env i False))"

section \<open>Inspection and planning\<close>

definition inspect :: "service_env \<Rightarrow> string \<Rightarrow> response" where
  "inspect env i = (case se_facts env of
      None \<Rightarrow> Rejected i ''DISCOVERY_FAILED''
    | Some facts \<Rightarrow> (case installed_packages (se_vendor env) of
        Inl _ \<Rightarrow> Rejected i ''DISCOVERY_FAILED''
      | Inr packages \<Rightarrow> let facts' = facts\<lparr>hf_installed_packages := packages\<rparr> in
          Inspection i facts' (evaluate_preflight facts' default_policy)))"

definition plan_response :: "service_env \<Rightarrow> string \<Rightarrow> planner_error + planned_update \<Rightarrow> response" where
  "plan_response env i r = (case r of
      Inr planned \<Rightarrow> Plan i (se_uuid env) (pu_plan_sha256 planned) (pu_plan planned) (pu_preflight planned) planned
    | Inl (PlanPreflight blockers) \<Rightarrow> PreflightBlocked i blockers
    | Inl (PlanMigration AlreadyApplied) \<Rightarrow> Rejected i ''MIGRATION_ALREADY_APPLIED''
    | Inl (PlanMigration _) \<Rightarrow> Rejected i ''MIGRATION_POLICY_FAILED''
    | Inl _ \<Rightarrow> Rejected i ''PREFLIGHT_BLOCKED'')"

definition plan_update :: "service_env \<Rightarrow> string \<Rightarrow> response" where
  "plan_update env i = plan_response env i (plan_update_with_cached_metadata (se_plan_sha env) (se_update_view env))"

definition plan_upgrade :: "service_env \<Rightarrow> service \<Rightarrow> string \<Rightarrow> string \<Rightarrow> ('e, response) act" where
  "plan_upgrade env sv i expected = answer_or_reject i (
     abind (offered_manifest env sv) (\<lambda>m. case se_manifest_sha env m of
         None \<Rightarrow> panic
       | Some hash \<Rightarrow> if hash \<noteq> expected then throw ''MANIFEST_CHANGED''
           else ret (plan_response env i (plan_release_upgrade (se_plan_sha env) (se_manifest_sha env) (se_upgrade_view env) m))))"

section \<open>Starting an operation\<close>

definition valid_operation_shape :: "operation_kind \<Rightarrow> bool \<Rightarrow> bool \<Rightarrow> bool \<Rightarrow> bool \<Rightarrow> bool" where
  "valid_operation_shape k has_manifest target_matches has_target has_manifest_sha256 = (case k of
      UpdateWithinRelease \<Rightarrow> \<not> has_manifest \<and> \<not> has_target \<and> \<not> has_manifest_sha256
    | _ \<Rightarrow> has_manifest \<and> target_matches \<and> has_target \<and> has_manifest_sha256)"

definition submission_consistent :: "service_env \<Rightarrow> string \<Rightarrow> planned_update \<Rightarrow> bool" where
  "submission_consistent env hash submitted = (let plan = pu_plan submitted in
     pu_plan_sha256 submitted = hash \<and> se_plan_sha env plan = Some hash \<and>
     valid_operation_shape (pl_operation plan) (pu_manifest submitted \<noteq> None)
       (is_some_and (pu_manifest submitted) (\<lambda>m. pl_target plan = Some (mf_target m) \<and> pl_operation plan = manifest_operation m))
       (pl_target plan \<noteq> None) (pl_manifest_sha256 plan \<noteq> None) \<and>
     hf_release (pu_facts submitted) = pl_source plan \<and> changes (pu_solver submitted) = package_changes plan \<and>
     (sr_reboot_required (pu_solver submitted) \<or> is_signed_offline (pl_operation plan)) = pl_reboot_required plan)"

definition authoritative_plan :: "service_env \<Rightarrow> service \<Rightarrow> planned_update \<Rightarrow> (string, planned_update) act" where
  "authoritative_plan env sv submitted = (case pl_operation (pu_plan submitted) of
      UpdateWithinRelease \<Rightarrow>
        of_result (map_err (\<lambda>_. ''PLAN_CHANGED'') (plan_update_with_cached_metadata (se_plan_sha env) (se_update_view env)))
    | _ \<Rightarrow> abind (offered_manifest env sv) (\<lambda>m.
        if pu_manifest submitted \<noteq> Some m then throw ''MANIFEST_CHANGED''
        else of_result (map_err (\<lambda>_. ''PLAN_CHANGED'')
          (plan_release_upgrade (se_plan_sha env) (se_manifest_sha env) (se_upgrade_view env) m))))"

definition initial_record :: "service_env \<Rightarrow> string \<Rightarrow> string \<Rightarrow> planned_update \<Rightarrow> planned_update \<Rightarrow> operation_state_record" where
  "initial_record env oid hash submitted authoritative = \<lparr>schema_version = 1, operation_id = oid, op_sequence = 1,
     operation = pl_operation (pu_plan authoritative), op_state = AwaitingConfirmation, op_source = hf_release (pu_facts submitted),
     op_target = pl_target (pu_plan authoritative), op_plan_sha256 = hash, op_manifest_sha256 = pl_manifest_sha256 (pu_plan authoritative),
     snapshot_number = None, recovery = None, last_completed_step = Some ''planned'', error_code = None,
     boot_verification = Some BootPending, created_at = se_now env, updated_at = se_now env\<rparr>"

definition register_operation ::
  "service_env \<Rightarrow> service \<Rightarrow> string \<Rightarrow> string \<Rightarrow> planned_update \<Rightarrow> (string, pending_plan) act" where
  "register_operation env sv oid hash submitted =
     attempt (symlink_metadata (join_path (sv_root sv) oid)) (\<lambda>there.
     if is_ok there then throw ''OPERATION_NOT_FOUND''
     else abind (authoritative_plan env sv submitted) (\<lambda>authoritative.
     if pu_plan_sha256 authoritative \<noteq> hash \<or> pu_plan authoritative \<noteq> pu_plan submitted then throw ''PLAN_CHANGED''
     else let pending = \<lparr>pn_planned = submitted, pn_manifest = pu_manifest authoritative\<rparr> in
       abind (raise_as (\<lambda>_. ''STATE_WRITE_FAILED'')
         (save_state (se_to_json env) (se_nonce env) (sv_root sv) (initial_record env oid hash submitted authoritative))) (\<lambda>_.
       abind (raise_as (\<lambda>_. ''STATE_WRITE_FAILED'') (save_pending_plan env (sv_root sv) oid pending)) (\<lambda>_.
       abind (raise_as (\<lambda>_. ''STATE_WRITE_FAILED'') (save_operation_owner (sv_root sv) oid (sv_caller sv))) (\<lambda>_.
         ret pending)))))"

definition known_plan :: "service_env \<Rightarrow> service \<Rightarrow> string \<Rightarrow> (string, pending_plan) act" where
  "known_plan env sv oid = (case sv_plans sv oid of
      Some pending \<Rightarrow> ret pending
    | None \<Rightarrow> raise_as (\<lambda>_. ''PLAN_NOT_AVAILABLE'') (load_pending_plan env (sv_root sv) oid))"

text \<open>What has to hold on disk before the worker is started.\<close>

definition ready_to_start ::
  "service_env \<Rightarrow> service \<Rightarrow> string \<Rightarrow> string \<Rightarrow> planned_update \<Rightarrow> (string, operation_state_record \<times> pending_plan \<times> event_log) act" where
  "ready_to_start env sv oid hash submitted =
     abind (known_plan env sv oid) (\<lambda>pending.
     if pu_plan_sha256 (pn_planned pending) \<noteq> hash \<or> pn_planned pending \<noteq> submitted \<or> pn_manifest pending \<noteq> pu_manifest submitted
     then throw ''PLAN_HASH_MISMATCH''
     else abind (raise_as (\<lambda>_. ''STATE_READ_FAILED'') (load_state (se_from_json env) (sv_root sv) oid)) (\<lambda>r.
     if op_state r \<noteq> AwaitingConfirmation then throw ''INVALID_STATE''
     else abind (has_write_failure (sv_root sv) oid) (\<lambda>failed.
     if failed then throw ''EVENT_LOG_WRITE_FAILED''
     else abind (raise_as (\<lambda>_. ''EVENT_LOG_READ_FAILED'') (load_events (se_events env) (sv_root sv) oid 0)) (\<lambda>history.
     if eh_incomplete history then throw ''EVENT_LOG_READ_FAILED''
     else ret (r, pending, restore (eh_events history))))))"

definition start ::
  "service_env \<Rightarrow> service \<Rightarrow> string \<Rightarrow> string \<Rightarrow> string \<Rightarrow> bool \<Rightarrow> planned_update \<Rightarrow> ('e, response \<times> service) act" where
  "start env sv i oid hash confirmed submitted =
     (if \<not> confirmed then ret (Rejected i ''CONFIRMATION_REQUIRED'', sv)
      else if \<not> submission_consistent env hash submitted then ret (Rejected i ''PLAN_HASH_MISMATCH'', sv)
      else abind (operation_owned_by (sv_root sv) oid (sv_caller sv)) (\<lambda>owned.
        attempt (if owned then ret sv
          else abind (register_operation env sv oid hash submitted) (\<lambda>pending. ret (sv\<lparr>sv_plans := (sv_plans sv)(oid \<mapsto> pending)\<rparr>)))
          (\<lambda>registered. case registered of
            Inl e \<Rightarrow> ret (Rejected i e, sv)
          | Inr sv1 \<Rightarrow> attempt (ready_to_start env sv1 oid hash submitted) (\<lambda>ready. ret (case ready of
                Inl e \<Rightarrow> (Rejected i e, sv1)
              | Inr (r, pending, log) \<Rightarrow> (Accepted i (Some oid),
                  sv1\<lparr>sv_logs := (sv_logs sv1)(oid \<mapsto> Some log), sv_workers := sv_workers sv1 + 1,
                    sv_started := sv_started sv1 @ [(r, pending)]\<rparr>))))))"

section \<open>Status, cancellation and recovery\<close>

text \<open>\<open>dedup_by_key\<close> keeps the first of neighbours with the same sequence number.\<close>

fun dedup_sequence :: "operation_event list \<Rightarrow> operation_event list" where
  "dedup_sequence (a # b # es) = (if ev_sequence a = ev_sequence b then dedup_sequence (a # es) else a # dedup_sequence (b # es))"
| "dedup_sequence es = es"

definition merge_events :: "operation_event list \<Rightarrow> operation_event list \<Rightarrow> operation_event list" where
  "merge_events disk memory = dedup_sequence (sort_key ev_sequence (disk @ memory))"

definition diagnostic_event :: "operation_state_record \<Rightarrow> string \<Rightarrow> string \<Rightarrow> operation_event" where
  "diagnostic_event r oid err = \<lparr>ev_operation_id = oid, ev_sequence = 0, ev_occurred_at = updated_at r, ev_state = op_state r,
     ev_level = LevelWarning, ev_message_id = ''error_'' @ err, ev_fields = [], ev_technical = None\<rparr>"

text \<open>The events in memory only complete a history on disk that is damaged.\<close>

definition reported_events ::
  "event_log option option \<Rightarrow> u64 \<Rightarrow> bool \<Rightarrow> event_log_error + event_history \<Rightarrow> operation_event list \<times> string option" where
  "reported_events memory after failed loaded =
     (let disk = (case loaded of Inr h \<Rightarrow> eh_events h | Inl _ \<Rightarrow> []);
          e0 = (case loaded of Inr h \<Rightarrow> if eh_incomplete h then Some ''EVENT_LOG_READ_FAILED'' else None
                | Inl _ \<Rightarrow> Some ''EVENT_LOG_READ_FAILED'');
          e1 = (if failed then Some ''EVENT_LOG_WRITE_FAILED'' else e0) in
      case memory of
        None \<Rightarrow> (disk, e1)
      | Some None \<Rightarrow> (disk, Some ''EVENT_LOG_READ_FAILED'')
      | Some (Some log) \<Rightarrow>
          let e2 = (if lg_persistence_failed log then Some ''EVENT_LOG_WRITE_FAILED'' else e1) in
          (if e2 = None then disk else merge_events disk (events_after log after), e2))"

definition recovered_record :: "operation_state_record \<Rightarrow> bool" where
  "recovered_record r = (op_state r = Completed \<and> recovery r \<noteq> None \<and> boot_verification r = Some BootPassed)"

definition status_of_record :: "service_env \<Rightarrow> service \<Rightarrow> string \<Rightarrow> string \<Rightarrow> u64 \<Rightarrow> operation_state_record \<Rightarrow> ('e, response) act" where
  "status_of_record env sv i oid after r =
     attempt (load_events_read_only (se_events env) (sv_root sv) oid after) (\<lambda>loaded.
     abind (has_write_failure (sv_root sv) oid) (\<lambda>failed.
     attempt (load_inventory (se_inventory_read env) (sv_root sv @ [oid, ''inventory-after.json''])) (\<lambda>report.
       let (events, problem) = reported_events (sv_logs sv oid) after failed loaded in
       ret (Status \<lparr>st_request_id = i, st_operation_id = oid, st_sequence = op_sequence r, st_state = op_state r,
         st_snapshot_number = snapshot_number r, st_recovered = recovered_record r,
         st_error_code = (case error_code r of Some e \<Rightarrow> Some e | None \<Rightarrow> problem),
         st_events = events @ (case problem of Some e \<Rightarrow> [diagnostic_event r oid e] | None \<Rightarrow> []),
         st_report = to_option report\<rparr>))))"

definition status :: "service_env \<Rightarrow> service \<Rightarrow> string \<Rightarrow> string \<Rightarrow> u64 \<Rightarrow> ('e, response) act" where
  "status env sv i oid after =
     (if sv_read_only sv then ret (ask_broker env (StatusQuery PROTOCOL_VERSION i oid (Some after)))
      else abind (operation_owned_by (sv_root sv) oid (sv_caller sv)) (\<lambda>owned.
        if \<not> owned then ret (Rejected i ''OPERATION_NOT_FOUND'')
        else attempt (load_state (se_from_json env) (sv_root sv) oid) (\<lambda>loaded. case loaded of
            Inl _ \<Rightarrow> ret (Rejected i ''OPERATION_NOT_FOUND'')
          | Inr r \<Rightarrow> status_of_record env sv i oid after r)))"

definition owned_record :: "service_env \<Rightarrow> service \<Rightarrow> string \<Rightarrow> (string, operation_state_record) act" where
  "owned_record env sv oid =
     abind (operation_owned_by (sv_root sv) oid (sv_caller sv)) (\<lambda>owned.
     if \<not> owned then throw ''OPERATION_NOT_FOUND''
     else raise_as (\<lambda>_. ''OPERATION_NOT_FOUND'') (load_state (se_from_json env) (sv_root sv) oid))"

definition save_or_reject :: "service_env \<Rightarrow> service \<Rightarrow> operation_state_record \<Rightarrow> (string, unit) act" where
  "save_or_reject env sv r = raise_as (\<lambda>_. ''STATE_WRITE_FAILED'') (save_state (se_to_json env) (se_nonce env) (sv_root sv) r)"

definition cancel :: "service_env \<Rightarrow> service \<Rightarrow> string \<Rightarrow> string \<Rightarrow> ('e, response) act" where
  "cancel env sv i oid = answer_or_reject i (
     abind (owned_record env sv oid) (\<lambda>r.
     if \<not> is_cancelable (op_state r) then throw ''NOT_CANCELABLE''
     else abind (save_or_reject env sv (cancelled_record (se_now env) r)) (\<lambda>_. status env sv i oid 0)))"

definition declined_record :: "string \<Rightarrow> operation_state_record \<Rightarrow> operation_state_record" where
  "declined_record time r = r\<lparr>op_state := Failed, error_code := Some ''RECOVERY_DECLINED'',
     op_sequence := sat_add (op_sequence r) 1, updated_at := time\<rparr>"

definition acknowledge_recovery :: "service_env \<Rightarrow> service \<Rightarrow> string \<Rightarrow> string \<Rightarrow> recovery_action \<Rightarrow> ('e, response) act" where
  "acknowledge_recovery env sv i oid action =
     (if action = ShowDiagnostics then status env sv i oid 0
      else answer_or_reject i (
        abind (owned_record env sv oid) (\<lambda>r.
        if op_state r \<noteq> NeedsRecovery then throw ''RECOVERY_NOT_REQUIRED''
        else abind (if action = KeepCurrent then save_or_reject env sv (declined_record (se_now env) r)
                    else se_rollback env (sv_root sv) r) (\<lambda>_. status env sv i oid 0))))"

section \<open>Dispatch\<close>

definition unchanged :: "service \<Rightarrow> ('e, response) act \<Rightarrow> ('e, response \<times> service) act" where
  "unchanged sv m = abind m (\<lambda>answer. ret (answer, sv))"

definition handle :: "service_env \<Rightarrow> service \<Rightarrow> request \<Rightarrow> ('e, response \<times> service) act" where
  "handle env sv r =
     (if \<not> is_supported r then ret (Rejected (request_id r) ''UNSUPPORTED_PROTOCOL'', sv)
      else if sv_read_only sv \<and> needs_authorization r then ret (Rejected (request_id r) ''AUTHORIZATION_REQUIRED'', sv)
      else case r of
        CheckRelease _ i \<Rightarrow> unchanged sv (check_release env sv i)
      | ReadTrustState _ i \<Rightarrow> unchanged sv (trust_state env sv i)
      | ReadRecoveryReadiness _ i \<Rightarrow> ret (ask_broker env (ReadRecoveryReadiness PROTOCOL_VERSION i), sv)
      | Inspect _ i \<Rightarrow> ret (inspect env i, sv)
      | PlanUpdate _ i \<Rightarrow> ret (plan_update env i, sv)
      | PlanReleaseUpgrade _ i expected \<Rightarrow> unchanged sv (plan_upgrade env sv i expected)
      | Start _ i oid hash confirmed submitted \<Rightarrow> start env sv i oid hash confirmed submitted
      | StatusQuery _ i oid after \<Rightarrow> unchanged sv (status env sv i oid (case after of Some n \<Rightarrow> n | None \<Rightarrow> 0))
      | Cancel _ i oid \<Rightarrow> unchanged sv (cancel env sv i oid)
      | AcknowledgeRecovery _ i oid action \<Rightarrow> unchanged sv (acknowledge_recovery env sv i oid action))"

text \<open>The read broker, which answers for root to processes of any user.\<close>

definition query_response :: "service_env \<Rightarrow> service \<Rightarrow> request \<Rightarrow> ('e, response) act" where
  "query_response env sv r =
     (if \<not> is_supported r then ret (Rejected (request_id r) ''UNSUPPORTED_PROTOCOL'')
      else case r of
        StatusQuery _ i oid after \<Rightarrow> status env sv i oid (case after of Some n \<Rightarrow> n | None \<Rightarrow> 0)
      | ReadTrustState _ i \<Rightarrow> trust_state env sv i
      | ReadRecoveryReadiness _ i \<Rightarrow> ret (RecoveryReadiness i (se_snapper env))
      | _ \<Rightarrow> ret (Rejected (request_id r) ''READ_ONLY_REQUEST_REQUIRED''))"

section \<open>The loop\<close>

definition MAX_REQUEST :: nat where
  "MAX_REQUEST = 4 * 1024 * 1024"

datatype request_read = EndOfInput | BadRequest | Received request

definition read_request :: "(string \<Rightarrow> request option) \<Rightarrow> string \<Rightarrow> request_read \<times> string" where
  "read_request json input = (let line = read_line (take (MAX_REQUEST + 1) input) in
     (if line = [] then EndOfInput
      else if MAX_REQUEST < length line \<or> last line \<noteq> newline then BadRequest
      else case json line of None \<Rightarrow> BadRequest | Some r \<Rightarrow> Received r, drop (length line) input))"

lemma read_request_shorter: "read_request json input = (Received r, rest) \<Longrightarrow> length rest < length input"
  by (cases input) (auto simp: read_request_def Let_def split: if_splits option.splits)

function serve :: "(nat \<Rightarrow> service_env) \<Rightarrow> (string \<Rightarrow> request option) \<Rightarrow> nat \<Rightarrow> string \<Rightarrow> service \<Rightarrow> ('e, response list \<times> service) act" where
  "serve envs json n input sv = (case read_request json input of
      (EndOfInput, _) \<Rightarrow> ret ([], sv)
    | (BadRequest, _) \<Rightarrow> ret ([Rejected ''unknown'' ''INVALID_REQUEST''], sv)
    | (Received r, rest) \<Rightarrow> abind (handle (envs n) sv r) (\<lambda>(answer, sv').
        abind (serve envs json (n + 1) rest sv') (\<lambda>(answers, sv''). ret (answer # answers, sv''))))"
  by pat_completeness auto
termination
  by (relation "measure (\<lambda>(envs, json, n, input, sv). length input)") (auto dest: read_request_shorter [OF sym])

declare serve.simps [simp del]

definition query_connection :: "service_env \<Rightarrow> (string \<Rightarrow> request option) \<Rightarrow> u32 \<Rightarrow> string \<Rightarrow> ('e, response) act" where
  "query_connection env json uid input = (case fst (read_request json input) of
      Received r \<Rightarrow> query_response env (new_service uid) r
    | _ \<Rightarrow> ret (Rejected ''unknown'' ''INVALID_REQUEST''))"

datatype service_mode = Broker | Unprivileged | Privileged u32 | Refused nat

text \<open>The caller of the privileged service is the user whom \<open>pkexec\<close> names; \<open>Refused\<close> has the exit code.\<close>

definition caller_uid :: "nat \<Rightarrow> string option \<Rightarrow> u32 option" where
  "caller_uid euid pkexec = (if euid \<noteq> 0 then None else Option.bind pkexec parse_u32)"

definition service_mode :: "string list \<Rightarrow> nat \<Rightarrow> string option \<Rightarrow> service_mode" where
  "service_mode args euid pkexec =
     (if args = [''--query-connection''] then (if euid \<noteq> 0 then Refused 1 else Broker)
      else if args = [''--read-only''] then Unprivileged
      else if args \<noteq> [] then Refused 2
      else case caller_uid euid pkexec of Some uid \<Rightarrow> Privileged uid | None \<Rightarrow> Refused 1)"

section \<open>The observer of a worker\<close>

definition note_write_failure :: "service_env \<Rightarrow> path \<Rightarrow> string \<Rightarrow> event_log \<Rightarrow> event_log_error + unit \<Rightarrow> ('e, event_log) act" where
  "note_write_failure env root oid log r = (case r of
      Inr _ \<Rightarrow> ret log
    | Inl _ \<Rightarrow> abind (if lg_persistence_failed log then ret () else record_write_failure (se_nonce env) root oid) (\<lambda>_.
        ret (log\<lparr>lg_persistence_failed := True\<rparr>)))"

text \<open>A panic of the sanitiser happens under the lock and leaves the log poisoned, which is no answer.\<close>

definition command_line ::
  "service_env \<Rightarrow> path \<Rightarrow> string \<Rightarrow> operation_state \<Rightarrow> event_log \<Rightarrow> string \<Rightarrow> event_source \<Rightarrow> string \<Rightarrow> ('e, event_log option) act" where
  "command_line env root oid state log program source line =
     (case push_technical log (technical_event oid (next_sequence log) (se_now env) state) source (program @ '': '' @ line) of
        None \<Rightarrow> ret None
      | Some (log', e) \<Rightarrow> attempt (append_event (se_events env) (se_nonce env) root oid e) (\<lambda>r.
          abind (note_write_failure env root oid log' r) (\<lambda>log''. ret (Some log''))))"

fun state_name :: "operation_state \<Rightarrow> string" where
  "state_name Idle = ''idle''"
| "state_name Checking = ''checking''"
| "state_name Available = ''available''"
| "state_name Preflight = ''preflight''"
| "state_name Planned = ''planned''"
| "state_name AwaitingConfirmation = ''awaiting-confirmation''"
| "state_name Downloading = ''downloading''"
| "state_name Snapshotting = ''snapshotting''"
| "state_name Applying = ''applying''"
| "state_name ReadyToReboot = ''ready-to-reboot''"
| "state_name ApplyingOffline = ''applying-offline''"
| "state_name AwaitingReboot = ''awaiting-reboot''"
| "state_name VerifyingBoot = ''verifying-boot''"
| "state_name Blocked = ''blocked''"
| "state_name Failed = ''failed''"
| "state_name NeedsRecovery = ''needs-recovery''"
| "state_name Completed = ''completed''"

definition state_event :: "service_env \<Rightarrow> string \<Rightarrow> u64 \<Rightarrow> operation_state \<Rightarrow> operation_event" where
  "state_event env oid sequence state = \<lparr>ev_operation_id = oid, ev_sequence = sequence, ev_occurred_at = se_now env, ev_state = state,
     ev_level = LevelInfo, ev_message_id = ''state.'' @ state_name state, ev_fields = [], ev_technical = None\<rparr>"

definition state_changed :: "service_env \<Rightarrow> path \<Rightarrow> string \<Rightarrow> event_log \<Rightarrow> operation_state \<Rightarrow> ('e, event_log) act" where
  "state_changed env root oid log state =
     (let e = state_event env oid (next_sequence log) state in
      attempt (append_event (se_events env) (se_nonce env) root oid e) (\<lambda>r.
        abind (note_write_failure env root oid log r) (\<lambda>log'. ret (push_normative log' e))))"

end
