(* ===== verification/Service_Properties.thy ===== *)
theory Service_Properties
  imports Service Execution Verifier
begin

text \<open>
  What the requests of a client can do: which of them only read, who may touch an operation, when a start is accepted, and that
  every request is answered. \<open>keeps\<close> (theory File\_System) describes actions that only read, \<open>yields\<close> the results of an action,
  \<open>steady\<close> and \<open>unfailing\<close> that it returns.
\<close>

section \<open>Lemmas: what only reads\<close>

lemma keeps_operation_owned_by: "fault_blind P \<Longrightarrow> keeps P (operation_owned_by root oid uid)"
  unfolding operation_owned_by_def read_to_string_def Let_def
  by (auto intro!: keeps_intros keeps_query split: sum.splits node.splits)

lemma keeps_open_read: "fault_blind P \<Longrightarrow> keeps P (open_read p)"
  and keeps_handle_metadata: "fault_blind P \<Longrightarrow> keeps P (handle_metadata q)"
  and keeps_read_handle: "fault_blind P \<Longrightarrow> keeps P (read_handle q n)"
  by (simp_all add: open_read_def handle_metadata_def read_handle_def keeps_query)

lemma keeps_require_file: "fault_blind P \<Longrightarrow> keeps P (require_file q)"
  unfolding require_file_def by (auto intro!: keeps_intros keeps_handle_metadata split: node.splits)

lemma keeps_operation_directory: "fault_blind P \<Longrightarrow> keeps P (operation_directory root oid)"
  unfolding operation_directory_def require_dir_def by (auto intro!: keeps_intros split: node.splits)

lemma keeps_read_lock: "fault_blind P \<Longrightarrow> keeps P (lock_file directory False)"
  unfolding lock_file_def open_or_create_def flock_def by (auto intro!: keeps_intros keeps_open_read keeps_require_file keeps_query)

lemma keeps_open_events: "fault_blind P \<Longrightarrow> keeps P (open_events p False)"
  unfolding open_events_def open_or_create_def by (auto intro!: keeps_intros keeps_open_read keeps_require_file)

lemma keeps_read_history: "fault_blind P \<Longrightarrow> keeps P (read_history json q oid)"
  unfolding read_history_def by (auto intro!: keeps_intros keeps_read_handle)

lemma keeps_load_events_read_only: "fault_blind P \<Longrightarrow> keeps P (load_events_read_only json root oid after)"
  unfolding load_events_read_only_def load_events_mode_def
  by (auto intro!: keeps_intros keeps_operation_directory keeps_read_lock keeps_open_events keeps_read_history split: sum.splits)

lemma keeps_has_write_failure: "fault_blind P \<Longrightarrow> keeps P (has_write_failure root oid)"
  unfolding has_write_failure_def by (auto intro!: keeps_intros)

lemma keeps_load_inventory: "fault_blind P \<Longrightarrow> keeps P (load_inventory from_json p)"
  unfolding load_inventory_def
  by (auto intro!: keeps_intros keeps_open_read keeps_handle_metadata keeps_read_handle split: node.splits)

lemma keeps_status: "fault_blind P \<Longrightarrow> keeps P (status env sv i oid after)"
  unfolding status_def status_of_record_def
  by (auto intro!: keeps_intros keeps_operation_owned_by keeps_load_state keeps_load_events_read_only keeps_has_write_failure
      keeps_load_inventory split: sum.splits prod.splits)

lemma keeps_read_regular: "fault_blind P \<Longrightarrow> keeps P (read_regular p n)"
  unfolding read_regular_def
  by (auto intro!: keeps_intros keeps_open_read keeps_handle_metadata keeps_read_handle split: node.splits)

lemma keeps_trust_state: "fault_blind P \<Longrightarrow> keeps P (trust_state env sv i)"
  unfolding trust_state_def read_last_manifest_sequence_def
  by (auto intro!: keeps_intros keeps_read_regular split: sum.splits)

lemma keeps_query_response: "fault_blind P \<Longrightarrow> keeps P (query_response env sv r)"
  unfolding query_response_def by (auto intro!: keeps_status keeps_trust_state split: request.splits)

section \<open>Lemmas: owners\<close>

definition owner_is :: "fs \<Rightarrow> path \<Rightarrow> string \<Rightarrow> u32 \<Rightarrow> bool" where
  "owner_is fs root oid uid = (valid_operation_id oid \<and> (\<exists>u m content s.
     node_at fs (root @ [oid, ''owner'']) = Inr (File u m content s) \<and> length content \<le> 32 \<and> is_utf8 content \<and>
     parse_u32 (trim content) = Some uid))"

lemma read_to_string_located:
  assumes "node_at fs p = Inr (File u m content s)" and "p \<noteq> []" and "last p \<noteq> ''..''"
  shows "rbind (resolve fs p) (\<lambda>q. case fs q of Some (File _ _ bytes _) \<Rightarrow> if is_utf8 bytes then Inr bytes else Inl EINVAL
    | Some (Dir _ _) \<Rightarrow> Inl EISDIR | Some _ \<Rightarrow> Inl EINVAL | None \<Rightarrow> Inl ENOENT) = (if is_utf8 content then Inr content else Inl EINVAL)"
proof -
  from assms(1) obtain q where "locate fs p = Inr q" and q: "fs q = Some (File u m content s)" by (auto simp: node_at_Inr_iff)
  then have "resolve fs p = Inr q" using resolve_located [of fs p q] assms(2,3) by simp
  with q show ?thesis by simp
qed

lemma operation_owned_by_True:
  assumes "(operation_owned_by root oid uid :: ('e, bool) act) w = (Done True, w')"
  shows "owner_is (w_fs w) root oid uid"
proof -
  let ?p = "root @ [oid, ''owner'']"
  from assms have oid: "valid_operation_id oid" by (auto simp: operation_owned_by_def act_simps split: if_splits)
  let ?check = "(\<lambda>m. case m of Inr (File _ _ content _) \<Rightarrow> if 32 < length content then ret False
      else attempt (read_to_string ?p) (\<lambda>r. ret (case r of Inl _ \<Rightarrow> False | Inr body \<Rightarrow> parse_u32 (trim body) = Some uid)) | _ \<Rightarrow> ret False) :: io_error + node \<Rightarrow> ('e, bool) act"
  have "attempt (symlink_metadata ?p) ?check w = (Done True, w')"
    using assms oid unfolding operation_owned_by_def Let_def by simp
  then consider (found) m w1 where "symlink_metadata ?p w = (Done m, w1)" "?check (Inr m) w1 = (Done True, w')"
    | (missing) e w1 where "?check (Inl e :: io_error + node) w1 = (Done True, w')"
    unfolding attempt_Done by blast
  then show ?thesis
  proof cases
    case found
    then obtain u k content s where m: "m = File u k content s" by (cases m) (auto simp: ret_Done)
    have n: "node_at (w_fs w) ?p = Inr (File u k content s)" and w1: "w_fs w1 = w_fs w"
      using found(1) unfolding m symlink_metadata_def query_Done by auto
    have len: "length content \<le> 32" using found(2) unfolding m by (auto simp: ret_Done split: if_splits)
    then have "(attempt (read_to_string ?p) (\<lambda>r. ret (case r of Inl _ \<Rightarrow> False | Inr body \<Rightarrow> parse_u32 (trim body) = Some uid)) :: ('e, bool) act) w1
        = (Done True, w')" using found(2) unfolding m by simp
    then obtain body w2 where r: "read_to_string ?p w1 = (Done body, w2)" and v: "parse_u32 (trim body) = Some uid"
      unfolding attempt_Done ret_Done by auto
    have "body = content \<and> is_utf8 content"
      using r read_to_string_located [OF n] unfolding read_to_string_def query_Done w1 by (auto split: if_splits)
    with oid n len v show ?thesis unfolding owner_is_def by blast
  next
    case missing
    then show ?thesis by (simp add: ret_Done)
  qed
qed

lemma operation_owned_by_calm:
  assumes "w_faults w = []"
  shows "operation_owned_by root oid uid w = (Done (owner_is (w_fs w) root oid uid), w)"
proof (cases "valid_operation_id oid")
  case True
  let ?p = "root @ [oid, ''owner'']"
  show ?thesis
  proof (cases "\<exists>u m content s. node_at (w_fs w) ?p = Inr (File u m content s)")
    case isfile: True
    then obtain u m content s where n: "node_at (w_fs w) ?p = Inr (File u m content s)" by blast
    have "w\<lparr>w_faults := []\<rparr> = w" using assms by (cases w) simp
    with n True assms read_to_string_located [OF n] show ?thesis
      by (auto simp: operation_owned_by_def Let_def attempt_def symlink_metadata_def query_def read_to_string_def ret_def owner_is_def)
  next
    case False
    have "w\<lparr>w_faults := []\<rparr> = w" using assms by (cases w) simp
    with False True assms show ?thesis
      by (auto simp: operation_owned_by_def Let_def attempt_def symlink_metadata_def query_def ret_def owner_is_def split: sum.splits node.splits)
  qed
qed (simp add: operation_owned_by_def owner_is_def ret_def)

section \<open>Lemmas: results\<close>

definition files_are :: "fs \<Rightarrow> fs list \<Rightarrow> world \<Rightarrow> bool" where
  "files_are fs older w = (w_fs w = fs \<and> w_older w = older)"

lemma fault_blind_files_are [simp]: "fault_blind (files_are fs older)"
  by (simp add: fault_blind_def files_are_def)

lemma only_reads:
  assumes "\<And>fs older. keeps (files_are fs older) m" and "m w = (out, w')"
  shows "w_fs w' = w_fs w \<and> w_older w' = w_older w"
  using keepsD [OF assms(1) _ assms(2), of "w_fs w" "w_older w"] by (simp add: files_are_def)

text \<open>\<open>yields Q m\<close>: a result of \<open>m\<close> has \<open>Q\<close>, whatever the files are.\<close>

definition yields :: "('a \<Rightarrow> bool) \<Rightarrow> ('e, 'a) act \<Rightarrow> bool" where
  "yields Q m = (\<forall>w a w'. m w = (Done a, w') \<longrightarrow> Q a)"

lemma yieldsD: "yields Q m \<Longrightarrow> m w = (Done a, w') \<Longrightarrow> Q a"
  unfolding yields_def by blast

lemma yields_ret: "Q a \<Longrightarrow> yields Q (ret a)"
  by (simp add: yields_def ret_Done)

lemma yields_throw: "yields Q (throw e)"
  by (simp add: yields_def throw_Done)

lemma yields_panic: "yields Q panic"
  by (simp add: yields_def panic_def)

lemma yields_of_result: "(\<And>a. r = Inr a \<Longrightarrow> Q a) \<Longrightarrow> yields Q (of_result r)"
  by (simp add: yields_def of_result_Done)

lemma yields_raise_as: "yields Q m \<Longrightarrow> yields Q (raise_as g m)"
  by (simp add: yields_def raise_as_Done)

lemma yields_abind: "(\<And>a. yields Q (f a)) \<Longrightarrow> yields Q (abind m f)"
  unfolding yields_def abind_Done by blast

lemma yields_attempt: "(\<And>r. yields Q (f r)) \<Longrightarrow> yields Q (attempt m f)"
  unfolding yields_def attempt_Done by blast

lemma yields_if: "(b \<Longrightarrow> yields Q m) \<Longrightarrow> (\<not> b \<Longrightarrow> yields Q n) \<Longrightarrow> yields Q (if b then m else n)"
  by simp

lemmas yields_intros = yields_ret yields_throw yields_panic yields_of_result yields_raise_as yields_abind yields_attempt yields_if

lemma yields_status_of_record:
  "yields (\<lambda>a. \<exists>s. a = Status s \<and> st_request_id s = i \<and> st_operation_id s = oid \<and> st_state s = op_state r \<and>
       (\<forall>e. error_code r = Some e \<longrightarrow> st_error_code s = Some e)) (status_of_record env sv i oid after r)"
  unfolding status_of_record_def by (intro yields_intros) (simp add: Let_def yields_ret split: prod.split)

lemma status_answer:
  assumes "(status env sv i oid after :: ('e, response) act) w = (Done a, w')" and "\<not> sv_read_only sv"
  shows "a = Rejected i ''OPERATION_NOT_FOUND'' \<or> (\<exists>s r w1 w2. a = Status s \<and> st_request_id s = i \<and> st_operation_id s = oid \<and>
     st_state s = op_state r \<and> (\<forall>e. error_code r = Some e \<longrightarrow> st_error_code s = Some e) \<and> owner_is (w_fs w) (sv_root sv) oid (sv_caller sv) \<and> w_fs w1 = w_fs w \<and>
     load_state (se_from_json env) (sv_root sv) oid w1 = (Done r, w2))"
proof -
  let ?rest = "\<lambda>r. status_of_record env sv i oid after r :: ('e, response) act"
  from assms obtain owned w1 where own: "operation_owned_by (sv_root sv) oid (sv_caller sv) w = (Done owned :: ('e, bool) outcome, w1)"
    and rest: "(if \<not> owned then ret (Rejected i ''OPERATION_NOT_FOUND'')
        else attempt (load_state (se_from_json env) (sv_root sv) oid) (\<lambda>loaded. case loaded of
            Inl _ \<Rightarrow> ret (Rejected i ''OPERATION_NOT_FOUND'') | Inr r \<Rightarrow> ?rest r)) w1 = (Done a, w')"
    unfolding status_def by (auto simp: abind_Done)
  show ?thesis
  proof (cases owned)
    case True
    then have o1: "owner_is (w_fs w) (sv_root sv) oid (sv_caller sv)" using own by (auto intro: operation_owned_by_True)
    have w1: "w_fs w1 = w_fs w" using only_reads [OF keeps_operation_owned_by own] by simp
    show ?thesis
    proof (cases "fst (load_state (se_from_json env) (sv_root sv) oid w1)")
      case (Done r)
      then obtain w2 where l: "load_state (se_from_json env) (sv_root sv) oid w1 = (Done r, w2)" by (metis prod.collapse)
      with True rest have "?rest r w2 = (Done a, w')" by (simp add: attempt_def)
      then obtain s where "a = Status s \<and> st_request_id s = i \<and> st_operation_id s = oid \<and> st_state s = op_state r \<and>
          (\<forall>e. error_code r = Some e \<longrightarrow> st_error_code s = Some e)"
        using yieldsD [OF yields_status_of_record] by blast
      with o1 w1 l show ?thesis by blast
    next
      case (Raised e)
      with True rest show ?thesis by (auto simp: attempt_def ret_Done split: prod.splits)
    next
      case Stopped
      with True rest show ?thesis by (auto simp: attempt_def split: prod.splits)
    qed
  next
    case False
    with rest show ?thesis by (simp add: ret_Done)
  qed
qed

text \<open>
  C33: The broker that answers for root to processes of every user only reads: whatever it is asked and whatever fails, no file
  changes, and it reports the status of an operation only to the user whose number is in the file \<open>owner\<close> of that operation.
\<close>

theorem query_broker_only_reads:
  assumes "(query_response env (new_service uid) r :: ('e, response) act) w = (out, w')"
  shows "w_fs w' = w_fs w \<and> w_older w' = w_older w \<and>
    (\<forall>s. out = Done (Status s) \<longrightarrow> owner_is (w_fs w) (sv_root (new_service uid)) (st_operation_id s) uid \<and>
       st_request_id s = request_id r)"
proof (intro conjI allI impI)
  show "w_fs w' = w_fs w" and "w_older w' = w_older w" using only_reads [OF keeps_query_response assms] by simp_all
  fix s assume out: "out = Done (Status s)"
  with assms obtain v i oid after where r: "r = StatusQuery v i oid after"
    and st: "(status env (new_service uid) i oid (case after of Some n \<Rightarrow> n | None \<Rightarrow> 0) :: ('e, response) act) w = (Done (Status s), w')"
    by (auto simp: query_response_def ret_Done trust_state_def new_service_def attempt_Done split: request.splits if_splits sum.splits)
  from status_answer [OF st] show "owner_is (w_fs w) (sv_root (new_service uid)) (st_operation_id s) uid"
    and "st_request_id s = request_id r" by (auto simp: new_service_def r)
qed

section \<open>Lemmas: answers are given\<close>

text \<open>\<open>steady m\<close>: without faults \<open>m\<close> returns a result or an error.\<close>

definition steady :: "('e, 'a) act \<Rightarrow> bool" where
  "steady m = (\<forall>w. w_faults w = [] \<longrightarrow> fst (m w) \<noteq> Stopped \<and> w_faults (snd (m w)) = [])"

named_theorems steady_rules \<open>actions that always return\<close>

lemma steadyD: "steady m \<Longrightarrow> w_faults w = [] \<Longrightarrow> m w = (out, w') \<Longrightarrow> out \<noteq> Stopped \<and> w_faults w' = []"
  unfolding steady_def by (metis fst_conv snd_conv)

lemma steady_ret [steady_rules]: "steady (ret a)"
  by (simp add: steady_def ret_def)

lemma steady_throw [steady_rules]: "steady (throw e)"
  by (simp add: steady_def throw_def)

lemma steady_geteuid [steady_rules]: "steady geteuid"
  by (simp add: steady_def geteuid_def)

lemma steady_of_result [steady_rules]: "steady (of_result r)"
  by (simp add: of_result_def steady_rules split: sum.split)

lemma steady_query [steady_rules]: "steady (query op)"
  by (auto simp: steady_def query_def split: sum.split)

lemma steady_mutate [steady_rules]: "steady (mutate op)"
  by (auto simp: steady_def mutate_def split: sum.split)

lemma steady_abind [steady_rules]: "steady m \<Longrightarrow> (\<And>a. steady (f a)) \<Longrightarrow> steady (abind m f)"
  unfolding steady_def abind_def by (fastforce split: prod.splits outcome.splits)

lemma steady_attempt [steady_rules]: "steady m \<Longrightarrow> (\<And>r. steady (f r)) \<Longrightarrow> steady (attempt m f)"
  unfolding steady_def attempt_def by (fastforce split: prod.splits outcome.splits)

lemma steady_raise_as [steady_rules]: "steady m \<Longrightarrow> steady (raise_as g m)"
  unfolding raise_as_def by (auto intro!: steady_rules split: sum.split)

lemma steady_if [steady_rules]: "(b \<Longrightarrow> steady m) \<Longrightarrow> (\<not> b \<Longrightarrow> steady n) \<Longrightarrow> steady (if b then m else n)"
  by simp

lemma steady_calls [steady_rules]:
  "steady (symlink_metadata p)" "steady (create_dir p)" "steady (set_permissions p k)" "steady (write_byte q c)" "steady (sync_all q)"
  "steady (rename p q)" "steady (remove_file p)" "steady (read_nofollow p)" "steady (open_read p)" "steady (handle_metadata q)"
  "steady (read_handle q n)" "steady (read_to_string p)" "steady flock"
  unfolding symlink_metadata_def create_dir_def set_permissions_def write_byte_def sync_all_def rename_def remove_file_def
    read_nofollow_def open_read_def handle_metadata_def read_handle_def read_to_string_def flock_def
  by (rule steady_rules)+

lemma steady_create_new [steady_rules]: "steady (create_new p k)"
  unfolding create_new_def by (intro steady_rules) (auto simp: steady_def split: sum.split)

lemma steady_sync_dir [steady_rules]: "steady (sync_dir p)"
  unfolding sync_dir_def by (intro steady_rules) (simp add: steady_def)

lemma steady_write_all [steady_rules]: "steady (write_all q bs)"
  by (induction bs) (auto intro!: steady_rules)

lemma steady_reject_symlink [steady_rules]: "steady (reject_symlink p)"
  unfolding reject_symlink_def by (auto intro!: steady_rules split: sum.split)

lemma steady_make_private_dir [steady_rules]: "steady (make_private_dir p)"
  unfolding make_private_dir_def by (intro steady_rules)

lemma steady_ensure_parent_chain [steady_rules]: "steady (ensure_parent_chain p)"
proof (induction p rule: ensure_parent_chain.induct)
  case (1 p)
  show ?case unfolding ensure_parent_chain.simps [of p] by (auto intro!: steady_rules 1 split: sum.split)
qed

lemma steady_ensure_directory [steady_rules]: "steady (ensure_directory p)"
  unfolding ensure_directory_def by (auto intro!: steady_rules split: sum.split)

lemma steady_save_state [steady_rules]: "steady (save_state to_json nonce root r)"
  unfolding save_state_def prepare_root_def write_and_replace_def Let_def by (auto intro!: steady_rules split: sum.split)

lemma steady_load_state [steady_rules]: "steady (load_state from_json root oid)"
  unfolding load_state_def Let_def by (auto intro!: steady_rules)

lemma steady_operation_owned_by [steady_rules]: "steady (operation_owned_by root oid uid)"
  unfolding operation_owned_by_def Let_def by (auto intro!: steady_rules split: sum.split node.split)

lemma steady_load_events_mode [steady_rules]: "steady (load_events_mode json root oid after b)"
  unfolding load_events_mode_def operation_directory_def require_dir_def lock_file_def open_or_create_def create_missing_def
    require_file_def open_events_def read_history_def
  by (auto intro!: steady_rules split: sum.split node.split)

lemma steady_load_events [steady_rules]: "steady (load_events json root oid after)" "steady (load_events_read_only json root oid after)"
  by (simp_all add: load_events_def load_events_read_only_def steady_rules)

lemma steady_has_write_failure [steady_rules]: "steady (has_write_failure root oid)"
  unfolding has_write_failure_def by (intro steady_rules)

lemma steady_load_inventory [steady_rules]: "steady (load_inventory json p)"
  unfolding load_inventory_def by (auto intro!: steady_rules split: node.split)

lemma steady_create_dir_all [steady_rules]: "steady (create_dir_all p)"
proof (induction p rule: create_dir_all.induct)
  case (1 p)
  then have "steady (create_dir_all (butlast p))" if "p \<noteq> []" using that by blast
  then show ?case unfolding create_dir_all.simps [of p] or_directory_def is_directory_def
    by (auto intro!: steady_rules split: sum.split)
qed

lemma steady_save_pending_plan [steady_rules]: "steady (save_pending_plan env root oid pending)"
  unfolding save_pending_plan_def open_truncate_def Let_def by (auto intro!: steady_rules)

lemma steady_load_pending_plan [steady_rules]: "steady (load_pending_plan env root oid)"
  unfolding load_pending_plan_def Let_def read_file_def by (auto intro!: steady_rules split: node.split)

lemma steady_save_operation_owner [steady_rules]: "steady (save_operation_owner root oid uid)"
  unfolding save_operation_owner_def by (auto intro!: steady_rules)

lemma steady_read_regular [steady_rules]: "steady (read_regular p n)"
  unfolding read_regular_def by (auto intro!: steady_rules split: node.split)

lemma steady_trust_state [steady_rules]: "steady (trust_state env sv i)"
  unfolding trust_state_def read_last_manifest_sequence_def by (auto intro!: steady_rules split: sum.split)

lemma steady_read_release_channel [steady_rules]: "steady (read_release_channel p)"
  unfolding read_release_channel_def by (auto intro!: steady_rules split: sum.split)

lemma steady_fetch_verified_manifest [steady_rules]: "steady (fetch_verified_manifest tools installed seen channel)"
  unfolding fetch_verified_manifest_def manifest_urls_def testing_manifest_urls_def
  by (auto intro!: steady_rules split: node.split prod.split)

lemma steady_fetch_release_preview [steady_rules]: "steady (fetch_release_preview tools nonce installed seen channel cache)"
  unfolding fetch_release_preview_def save_preview_cache_def write_cache_def Let_def by (auto intro!: steady_rules split: sum.split)

lemma steady_offered_manifest [steady_rules]: "steady (offered_manifest env sv)"
  unfolding offered_manifest_def fetch_release_manifest_def by (auto intro!: steady_rules split: response.split)

lemma steady_answer_or_reject [steady_rules]: "steady m \<Longrightarrow> steady (answer_or_reject i m)"
  unfolding answer_or_reject_def by (intro steady_rules)

text \<open>What the service relies on to answer: a manifest that was read can be written, and a rollback returns.\<close>

definition serviceable :: "service_env \<Rightarrow> bool" where
  "serviceable env = ((\<forall>m. se_manifest_sha env m \<noteq> None) \<and> (\<forall>root r. steady (se_rollback env root r)) \<and>
     (\<forall>r a. se_query env r = Inr a \<longrightarrow> response_id a = request_id r))"

lemma manifest_writable: "serviceable env \<Longrightarrow> \<exists>hash. se_manifest_sha env m = Some hash"
  by (auto simp: serviceable_def)

lemma steady_release_offer: "serviceable env \<Longrightarrow> steady (release_offer env i cached m)"
  using manifest_writable [of env m] by (auto simp: release_offer_def steady_rules)

lemma steady_check_release: "serviceable env \<Longrightarrow> steady (check_release env sv i)"
  unfolding check_release_def preview_offer_def preview_checks_def
  by (auto intro!: steady_rules steady_release_offer split: option.split bool.split response.split prod.split)

lemma steady_plan_upgrade:
  assumes "serviceable env"
  shows "steady (plan_upgrade env sv i expected)"
  unfolding plan_upgrade_def
proof (intro steady_answer_or_reject steady_abind steady_offered_manifest)
  fix m
  obtain hash where "se_manifest_sha env m = Some hash" using manifest_writable [OF assms] by blast
  then show "steady (case se_manifest_sha env m of None \<Rightarrow> panic
      | Some hash \<Rightarrow> if hash \<noteq> expected then throw ''MANIFEST_CHANGED''
          else ret (plan_response env i (plan_release_upgrade (se_plan_sha env) (se_manifest_sha env) (se_upgrade_view env) m)))"
    by (simp add: steady_rules)
qed

lemma steady_status [steady_rules]: "steady (status env sv i oid after)"
  unfolding status_def status_of_record_def Let_def by (auto intro!: steady_rules split: sum.split prod.split)

lemma steady_start: "steady (start env sv i oid hash confirmed submitted)"
  unfolding start_def register_operation_def authoritative_plan_def ready_to_start_def known_plan_def Let_def
  by (auto intro!: steady_rules split: sum.split option.split operation_kind.split)

lemma steady_owned_record [steady_rules]: "steady (owned_record env sv oid)"
  unfolding owned_record_def by (auto intro!: steady_rules)

lemma steady_save_or_reject [steady_rules]: "steady (save_or_reject env sv r)"
  unfolding save_or_reject_def by (intro steady_rules)

lemma steady_handle: "serviceable env \<Longrightarrow> steady (handle env sv r)"
  unfolding handle_def unchanged_def cancel_def acknowledge_recovery_def
  by (auto intro!: steady_rules steady_check_release steady_plan_upgrade steady_start simp: serviceable_def split: request.split)

section \<open>Lemmas: answers name their request\<close>

lemma yields_answer_or_reject: "yields (\<lambda>a. response_id a = i) m \<Longrightarrow> yields (\<lambda>a. response_id a = i) (answer_or_reject i m)"
  by (auto simp: answer_or_reject_def yields_def attempt_Done ret_Done)

lemma yields_mono: "yields Q m \<Longrightarrow> (\<And>a. Q a \<Longrightarrow> R a) \<Longrightarrow> yields R m"
  unfolding yields_def by blast

lemma ask_broker_id: "serviceable env \<Longrightarrow> response_id (ask_broker env r) = request_id r"
  by (auto simp: ask_broker_def serviceable_def split: sum.split)

lemma yields_trust_state: "serviceable env \<Longrightarrow> yields (\<lambda>a. response_id a = i) (trust_state env sv i)"
  unfolding trust_state_def by (auto intro!: yields_intros simp: ask_broker_id split: sum.split)

lemma yields_release_offer: "yields (\<lambda>a. response_id a = i) (release_offer env i cached m)"
  unfolding release_offer_def by (auto intro!: yields_intros split: option.split)

lemma yields_check_release: "yields (\<lambda>a. response_id a = i) (check_release env sv i)"
  unfolding check_release_def preview_offer_def
  by (auto intro!: yields_answer_or_reject yields_intros yields_release_offer split: option.split bool.split response.split prod.split)

lemma plan_response_id: "response_id (plan_response env i r) = i"
  by (auto simp: plan_response_def split: sum.split planner_error.split migration_error.split)

lemma yields_plan_upgrade: "yields (\<lambda>a. response_id a = i) (plan_upgrade env sv i expected)"
  unfolding plan_upgrade_def
  by (auto intro!: yields_answer_or_reject yields_intros simp: plan_response_id split: option.split)

lemma yields_status: "serviceable env \<Longrightarrow> yields (\<lambda>a. response_id a = i) (status env sv i oid after)"
  unfolding status_def
  by (auto intro!: yields_ret yields_abind yields_attempt yields_mono [OF yields_status_of_record] simp: ask_broker_id split: sum.split)

lemma yields_start: "yields (\<lambda>a. response_id (fst a) = i) (start env sv i oid hash confirmed submitted)"
  unfolding start_def by (auto intro!: yields_intros split: sum.split prod.split)

lemma yields_cancel: "serviceable env \<Longrightarrow> yields (\<lambda>a. response_id a = i) (cancel env sv i oid)"
  unfolding cancel_def by (auto intro!: yields_answer_or_reject yields_intros yields_status)

lemma yields_acknowledge_recovery: "serviceable env \<Longrightarrow> yields (\<lambda>a. response_id a = i) (acknowledge_recovery env sv i oid action)"
  unfolding acknowledge_recovery_def by (auto intro!: yields_answer_or_reject yields_intros yields_status)

lemma yields_unchanged: "yields (\<lambda>a. response_id a = i) m \<Longrightarrow> yields (\<lambda>a. response_id (fst a) = i) (unchanged sv m)"
  by (auto simp: unchanged_def yields_def abind_Done ret_Done)

lemma inspect_id: "response_id (inspect env i) = i"
  by (simp add: inspect_def Let_def split: option.split sum.split)

lemma yields_handle: "serviceable env \<Longrightarrow> yields (\<lambda>a. response_id (fst a) = request_id r) (handle env sv r)"
  unfolding handle_def
  by (auto intro!: yields_if yields_ret yields_unchanged yields_check_release yields_trust_state yields_plan_upgrade yields_status yields_start
      yields_cancel yields_acknowledge_recovery simp: ask_broker_id inspect_id plan_response_id plan_update_def split: request.split)

section \<open>Lemmas: handlers report errors as answers\<close>

definition unfailing :: "('e, 'a) act \<Rightarrow> bool" where
  "unfailing m = (\<forall>w e w'. m w \<noteq> (Raised e, w'))"

named_theorems unfailing_rules \<open>actions without an error of their own\<close>

lemma unfailing_ret [unfailing_rules]: "unfailing (ret a)"
  by (simp add: unfailing_def ret_def)

lemma unfailing_abind [unfailing_rules]: "unfailing m \<Longrightarrow> (\<And>a. unfailing (f a)) \<Longrightarrow> unfailing (abind m f)"
  unfolding unfailing_def abind_def by (fastforce split: prod.splits outcome.splits)

lemma unfailing_attempt [unfailing_rules]: "(\<And>r. unfailing (f r)) \<Longrightarrow> unfailing (attempt m f)"
  unfolding unfailing_def attempt_def by (fastforce split: prod.splits outcome.splits)

lemma unfailing_if [unfailing_rules]: "(b \<Longrightarrow> unfailing m) \<Longrightarrow> (\<not> b \<Longrightarrow> unfailing n) \<Longrightarrow> unfailing (if b then m else n)"
  by simp

lemma unfailing_calls [unfailing_rules]:
  "unfailing (operation_owned_by root oid uid)" "unfailing (has_write_failure root oid)" "unfailing (trust_state env sv i)"
  "unfailing (answer_or_reject i m)"
  unfolding operation_owned_by_def has_write_failure_def trust_state_def answer_or_reject_def Let_def
  by (auto intro!: unfailing_rules split: sum.split node.split)

lemma unfailing_status_of_record [unfailing_rules]: "unfailing (status_of_record env sv i oid after r)"
  unfolding status_of_record_def Let_def by (auto intro!: unfailing_rules split: prod.split)

lemma unfailing_status [unfailing_rules]: "unfailing (status env sv i oid after)"
  unfolding status_def by (auto intro!: unfailing_rules split: sum.splits)

lemma unfailing_start [unfailing_rules]: "unfailing (start env sv i oid hash confirmed submitted)"
  unfolding start_def by (auto intro!: unfailing_rules split: sum.splits)

lemma unfailing_handle: "unfailing (handle env sv r)"
  unfolding handle_def unchanged_def check_release_def plan_upgrade_def cancel_def acknowledge_recovery_def
  by (auto intro!: unfailing_rules split: request.split)

lemma handle_answers:
  assumes "serviceable env" and "w_faults w = []"
  obtains a sv' w' where "(handle env sv r :: ('e, response \<times> service) act) w = (Done (a, sv'), w')"
    and "response_id a = request_id r" and "w_faults w' = []"
proof -
  obtain out w' where run: "(handle env sv r :: ('e, response \<times> service) act) w = (out, w')" by fastforce
  have calm: "out \<noteq> Stopped \<and> w_faults w' = []" using steadyD [OF steady_handle [OF assms(1)] assms(2) run] .
  moreover have "out \<noteq> Raised e" for e using run unfailing_handle [of env sv r] unfolding unfailing_def by metis
  ultimately obtain a sv' where "out = Done (a, sv')" by (cases out) auto
  with that [of a sv' w'] run yieldsD [OF yields_handle [OF assms(1)]] calm show ?thesis by fastforce
qed

section \<open>Lemmas: lines\<close>

lemma read_line_take: "newline \<notin> set l \<Longrightarrow> length l < n \<Longrightarrow> read_line (take n (l @ newline # rest)) = l @ [newline]"
proof (induction l arbitrary: n)
  case Nil
  then show ?case by (cases n) auto
next
  case (Cons c l)
  then show ?case by (cases n) auto
qed

lemma read_request_line:
  assumes "newline \<notin> set l" and "length l < MAX_REQUEST" and "json (l @ [newline]) = Some r"
  shows "read_request json (l @ newline # rest) = (Received r, rest)"
  using assms read_line_take [of l "MAX_REQUEST + 1" rest] by (simp add: read_request_def Let_def)

lemma read_request_end: "read_request json [] = (EndOfInput, [])"
  by (simp add: read_request_def)

definition line_of :: "string \<Rightarrow> string" where
  "line_of l = l @ [newline]"

definition wellformed_line :: "(string \<Rightarrow> request option) \<Rightarrow> string \<Rightarrow> bool" where
  "wellformed_line json l = (newline \<notin> set l \<and> length l < MAX_REQUEST \<and> json (line_of l) \<noteq> None)"


section \<open>Operations of other users\<close>

lemma symlink_metadata_calm: "w_faults w = [] \<Longrightarrow> node_at (w_fs w) p = Inr n \<Longrightarrow> symlink_metadata p w = (Done n, w)"
  by (cases w) (simp add: symlink_metadata_def query_def)

lemma abind_run:
  "m w = (Done a, w') \<Longrightarrow> abind m f w = f a w'"
  "m w = (Raised e, w') \<Longrightarrow> abind m f w = (Raised e, w')"
  by (simp_all add: abind_def)

lemma attempt_run:
  "m w = (Done a, w') \<Longrightarrow> attempt m g w = g (Inr a) w'"
  "m w = (Raised e, w') \<Longrightarrow> attempt m g w = g (Inl e) w'"
  by (simp_all add: attempt_def)

lemma abind_owned_calm:
  "w_faults w = [] \<Longrightarrow> abind (operation_owned_by root oid uid) f w = f (owner_is (w_fs w) root oid uid) w"
  by (simp add: abind_def operation_owned_by_calm)


section \<open>Starting\<close>

lemma ready_to_start_Done:
  assumes "ready_to_start env sv oid hash submitted w = (Done (r, pending, log), w')"
  shows "operation_id r = oid \<and> op_state r = AwaitingConfirmation \<and> validate_state r = Inr () \<and>
    pn_planned pending = submitted \<and> pn_manifest pending = pu_manifest submitted"
proof -
  from assms obtain w1 w2 where "load_state (se_from_json env) (sv_root sv) oid w1 = (Done r, w2)" and
    "op_state r = AwaitingConfirmation" "pn_planned pending = submitted" "pn_manifest pending = pu_manifest submitted"
    unfolding ready_to_start_def by (auto simp: abind_Done raise_as_Done ret_Done throw_Done split: if_splits)
  then show ?thesis using loaded_record_is_valid by blast
qed

lemma trust_case_Done:
  "((case t of TrustState _ seen \<Rightarrow> f seen | _ \<Rightarrow> throw e) w = (Done a, w')) = (\<exists>j seen. t = TrustState j seen \<and> f seen w = (Done a, w'))"
  by (cases t) (auto simp: throw_Done)

lemma offered_manifest_trusted:
  assumes "offered_manifest env sv w = (Done m, w')"
  shows "\<exists>identity seen channel v. trusted (se_fetch env) identity seen channel v \<and> vm_manifest v = m"
  using assms unfolding offered_manifest_def fetch_release_manifest_def
  by (auto simp: abind_Done raise_as_Done of_result_Done ret_Done trust_case_Done dest!: fetch_verified_Done)

lemma authoritative_plan_Done:
  assumes "authoritative_plan env sv submitted w = (Done a, w')" and "pl_operation (pu_plan submitted) \<noteq> UpdateWithinRelease"
  shows "\<exists>identity seen channel v. trusted (se_fetch env) identity seen channel v \<and> pu_manifest submitted = Some (vm_manifest v)"
proof -
  from assms obtain m w1 where "offered_manifest env sv w = (Done m, w1)" and "pu_manifest submitted = Some m"
    by (cases "pl_operation (pu_plan submitted)") (auto simp: authoritative_plan_def act_simps split: if_splits)
  then show ?thesis using offered_manifest_trusted by metis
qed

lemma register_operation_Done:
  assumes "register_operation env sv oid hash submitted w = (Done pending, w')"
  shows "\<exists>a w1 w2. w_fs w1 = w_fs w \<and> authoritative_plan env sv submitted w1 = (Done a, w2) \<and> pu_plan a = pu_plan submitted \<and>
    pu_plan_sha256 a = hash"
proof -
  let ?register = "abind (authoritative_plan env sv submitted) (\<lambda>a.
     if pu_plan_sha256 a \<noteq> hash \<or> pu_plan a \<noteq> pu_plan submitted then throw ''PLAN_CHANGED''
     else let pending = \<lparr>pn_planned = submitted, pn_manifest = pu_manifest a\<rparr> in
       abind (raise_as (\<lambda>_. ''STATE_WRITE_FAILED'')
         (save_state (se_to_json env) (se_nonce env) (sv_root sv) (initial_record env oid hash submitted a))) (\<lambda>_.
       abind (raise_as (\<lambda>_. ''STATE_WRITE_FAILED'') (save_pending_plan env (sv_root sv) oid pending)) (\<lambda>_.
       abind (raise_as (\<lambda>_. ''STATE_WRITE_FAILED'') (save_operation_owner (sv_root sv) oid (sv_caller sv))) (\<lambda>_.
         ret pending))))"
  obtain out w1 where there: "symlink_metadata (join_path (sv_root sv) oid) w = (out, w1)" by fastforce
  have w1: "w_fs w1 = w_fs w" using only_reads [OF keeps_symlink_metadata there] by simp
  have "?register w1 = (Done pending, w')"
    using assms there unfolding register_operation_def attempt_def
    by (cases out) (auto simp: is_ok_def throw_def)
  then show ?thesis using w1 unfolding abind_Done [of "authoritative_plan env sv submitted"] by (auto simp: throw_def split: if_splits)
qed

lemma start_Accepted:
  assumes "(start env sv i oid hash confirmed submitted :: ('e, response \<times> service) act) w = (Done (Accepted j k, sv'), w')"
  shows "confirmed \<and> submission_consistent env hash submitted \<and>
    (\<exists>r pending log w1. ready_to_start env (sv\<lparr>sv_plans := sv_plans sv'\<rparr>) oid hash submitted w1 = (Done (r, pending, log), w') \<and>
       sv_started sv' = sv_started sv @ [(r, pending)]) \<and>
    (owner_is (w_fs w) (sv_root sv) oid (sv_caller sv) \<or>
     (\<exists>pending w1 w2. w_fs w1 = w_fs w \<and> register_operation env sv oid hash submitted w1 = (Done pending, w2)))"
proof -
  have ok: "confirmed" "submission_consistent env hash submitted"
    using assms by (auto simp: start_def ret_Done split: if_splits)
  let ?register = "\<lambda>own. if own then ret sv else abind (register_operation env sv oid hash submitted)
      (\<lambda>pending. ret (sv\<lparr>sv_plans := (sv_plans sv)(oid \<mapsto> pending)\<rparr>))"
  let ?go = "\<lambda>registered. case registered of Inl e \<Rightarrow> ret (Rejected i e, sv)
    | Inr sv1 \<Rightarrow> attempt (ready_to_start env sv1 oid hash submitted) (\<lambda>ready. ret (case ready of
          Inl e \<Rightarrow> (Rejected i e, sv1)
        | Inr (r, pending, log) \<Rightarrow> (Accepted i (Some oid),
            sv1\<lparr>sv_logs := (sv_logs sv1)(oid \<mapsto> Some log), sv_workers := sv_workers sv1 + 1,
              sv_started := sv_started sv1 @ [(r, pending)]\<rparr>)))"
  obtain own w1 where own: "(operation_owned_by (sv_root sv) oid (sv_caller sv) :: ('e, bool) act) w = (Done own, w1)"
    and rest: "(attempt (?register own) ?go :: ('e, response \<times> service) act) w1 = (Done (Accepted j k, sv'), w')"
    using assms ok unfolding start_def by (auto simp: abind_Done)
  from rest obtain sv1 w2 where reg: "?register own w1 = (Done sv1, w2)"
    and go: "(?go (Inr sv1) :: ('e, response \<times> service) act) w2 = (Done (Accepted j k, sv'), w')"
    unfolding attempt_Done by (auto simp: ret_Done)
  from go obtain r pending log where ready: "ready_to_start env sv1 oid hash submitted w2 = (Done (r, pending, log), w')"
    and sv': "sv' = sv1\<lparr>sv_logs := (sv_logs sv1)(oid \<mapsto> Some log), sv_workers := sv_workers sv1 + 1,
              sv_started := sv_started sv1 @ [(r, pending)]\<rparr>"
    by (auto simp: attempt_Done ret_Done)
  have sv1: "sv1 = sv\<lparr>sv_plans := sv_plans sv1\<rparr>" using reg by (auto simp: abind_Done ret_Done split: if_splits)
  then have "sv_started sv1 = sv_started sv" by (metis service.select_convs(6) service.surjective service.update_convs(3))
  moreover have "w_fs w1 = w_fs w" using only_reads [OF keeps_operation_owned_by own] by simp
  moreover have "own \<or> (\<exists>pending. register_operation env sv oid hash submitted w1 = (Done pending, w2))"
    using reg by (auto simp: abind_Done ret_Done split: if_splits)
  moreover have "own \<Longrightarrow> owner_is (w_fs w) (sv_root sv) oid (sv_caller sv)" using own by (auto intro: operation_owned_by_True)
  ultimately show ?thesis using ok ready sv1 unfolding sv' by auto
qed


section \<open>What changes files\<close>

lemma keeps_manifest_urls: "fault_blind P \<Longrightarrow> keeps P (manifest_urls tools channel)"
  unfolding manifest_urls_def testing_manifest_urls_def read_to_string_def
  by (auto intro!: keeps_intros keeps_query split: node.splits)

lemma keeps_offered_manifest: "fault_blind P \<Longrightarrow> keeps P (offered_manifest env sv)"
  unfolding offered_manifest_def fetch_release_manifest_def fetch_verified_manifest_def read_release_channel_def read_to_string_def
  by (auto intro!: keeps_intros keeps_query keeps_manifest_urls keeps_trust_state split: response.splits sum.splits prod.splits)

lemma keeps_panic: "keeps P panic"
  by (simp add: keeps_def panic_def)

lemma keeps_answer_or_reject: "keeps P m \<Longrightarrow> keeps P (answer_or_reject i m)"
  unfolding answer_or_reject_def by (auto intro!: keeps_intros)

lemma keeps_unchanged: "keeps P m \<Longrightarrow> keeps P (unchanged sv m)"
  unfolding unchanged_def by (auto intro!: keeps_intros)

lemma keeps_check_release: "fault_blind P \<Longrightarrow> \<not> sv_read_only sv \<Longrightarrow> keeps P (check_release env sv i)"
  unfolding check_release_def release_offer_def
  by (auto intro!: keeps_answer_or_reject keeps_intros keeps_offered_manifest keeps_panic split: option.splits)

lemma keeps_plan_upgrade: "fault_blind P \<Longrightarrow> keeps P (plan_upgrade env sv i expected)"
  unfolding plan_upgrade_def
  by (auto intro!: keeps_answer_or_reject keeps_intros keeps_offered_manifest keeps_panic split: option.splits)

lemma keeps_owned_record: "fault_blind P \<Longrightarrow> keeps P (owned_record env sv oid)"
  unfolding owned_record_def by (auto intro!: keeps_intros keeps_operation_owned_by keeps_load_state)

definition owned_with :: "service_env \<Rightarrow> service \<Rightarrow> string \<Rightarrow> fs \<Rightarrow> operation_state_record \<Rightarrow> bool" where
  "owned_with env sv oid fs r = (owner_is fs (sv_root sv) oid (sv_caller sv) \<and>
     (\<exists>w1 w2. w_fs w1 = fs \<and> load_state (se_from_json env) (sv_root sv) oid w1 = (Done r, w2)))"

lemma owned_record_Done:
  assumes "owned_record env sv oid w = (Done r, w')"
  shows "owned_with env sv oid (w_fs w) r"
proof -
  from assms obtain w1 where own: "(operation_owned_by (sv_root sv) oid (sv_caller sv) :: (string, bool) act) w = (Done True, w1)"
    and l: "load_state (se_from_json env) (sv_root sv) oid w1 = (Done r, w')"
    unfolding owned_record_def by (auto simp: abind_Done raise_as_Done throw_Done split: if_splits)
  moreover have "w_fs w1 = w_fs w" using only_reads [OF keeps_operation_owned_by own] by simp
  ultimately show ?thesis using operation_owned_by_True [OF own] unfolding owned_with_def by blast
qed

lemma owned_record_guard:
  assumes "(answer_or_reject i (abind (owned_record env sv oid) f) :: ('e, response) act) w = (out, w')"
    and "\<And>r P. \<not> Q r \<Longrightarrow> fault_blind P \<Longrightarrow> keeps P (f r)" and "w_fs w' \<noteq> w_fs w"
  shows "\<exists>r. owned_with env sv oid (w_fs w) r \<and> Q r"
proof -
  obtain out1 w1 where first: "owned_record env sv oid w = (out1, w1)" by fastforce
  have w1: "w_fs w1 = w_fs w" using only_reads [OF keeps_owned_record first] by simp
  show ?thesis
  proof (cases out1)
    case (Done r)
    obtain out2 w2 where second: "f r w1 = (out2, w2)" by fastforce
    have "w' = w2" using assms(1) first second Done
      by (auto simp: answer_or_reject_def attempt_def abind_def ret_def split: outcome.splits)
    then have "Q r" using only_reads [OF assms(2) second] w1 assms(3) by fastforce
    then show ?thesis using owned_record_Done first Done by blast
  qed (use assms(1,3) first w1 in \<open>auto simp: answer_or_reject_def attempt_def abind_def ret_def\<close>)
qed

lemma cancel_changes:
  assumes "(cancel env sv i oid :: ('e, response) act) w = (out, w')" and "w_fs w' \<noteq> w_fs w"
  shows "\<exists>r. owned_with env sv oid (w_fs w) r \<and> is_cancelable (op_state r)"
  using assms(1) unfolding cancel_def by (rule owned_record_guard) (use assms(2) in \<open>simp_all add: keeps_throw\<close>)

lemma acknowledge_changes:
  assumes "(acknowledge_recovery env sv i oid action :: ('e, response) act) w = (out, w')" and "w_fs w' \<noteq> w_fs w"
  shows "action \<noteq> ShowDiagnostics \<and> (\<exists>r. owned_with env sv oid (w_fs w) r \<and> op_state r = NeedsRecovery)"
proof -
  have a: "action \<noteq> ShowDiagnostics"
    using assms only_reads [OF keeps_status, of env sv i oid 0 w out w'] by (auto simp: acknowledge_recovery_def)
  have "(answer_or_reject i (abind (owned_record env sv oid) (\<lambda>r. if op_state r \<noteq> NeedsRecovery then throw ''RECOVERY_NOT_REQUIRED''
      else abind (if action = KeepCurrent then save_or_reject env sv (declined_record (se_now env) r)
        else se_rollback env (sv_root sv) r) (\<lambda>_. status env sv i oid 0))) :: ('e, response) act) w = (out, w')"
    using assms(1) a by (simp add: acknowledge_recovery_def)
  then have "\<exists>r. owned_with env sv oid (w_fs w) r \<and> op_state r = NeedsRecovery"
    by (rule owned_record_guard) (use assms(2) in simp_all)
  with a show ?thesis by blast
qed

lemma unchanged_world: "unchanged sv m w = (out, w') \<Longrightarrow> \<exists>out1. m w = (out1, w')"
  by (auto simp: unchanged_def abind_def ret_def split: prod.splits outcome.splits)

lemma unchanged_changes:
  assumes "unchanged sv m w = (out, w')" and "w_fs w' \<noteq> w_fs w" and "\<And>P. fault_blind P \<Longrightarrow> keeps P m"
  shows False
  using unchanged_world [OF assms(1)] only_reads [OF assms(3)] assms(2) by fastforce

lemma start_changes:
  assumes "(start env sv i oid hash confirmed submitted :: ('e, response \<times> service) act) w = (out, w')" and "w_fs w' \<noteq> w_fs w"
  shows "confirmed \<and> submission_consistent env hash submitted"
  using assms by (auto simp: start_def ret_def split: if_splits)

text \<open>
  C31: Which requests can change files: an unprivileged process only the cached preview of a release; the privileged service only
  by starting a confirmed and consistent plan, by cancelling an operation that the caller owns in a cancelable state, or by answering
  for an operation of the caller that needs recovery. Nothing else changes a file, also when system calls fail.
\<close>

theorem files_change_only_with_authority:
  assumes "(handle env sv r :: ('e, response \<times> service) act) w = (out, w')" and "w_fs w' \<noteq> w_fs w"
  shows "is_supported r \<and> (case r of
      CheckRelease v i \<Rightarrow> sv_read_only sv
    | Start v i oid hash confirmed submitted \<Rightarrow> \<not> sv_read_only sv \<and> confirmed \<and> submission_consistent env hash submitted
    | Cancel v i oid \<Rightarrow> \<not> sv_read_only sv \<and> (\<exists>record. owned_with env sv oid (w_fs w) record \<and> is_cancelable (op_state record))
    | AcknowledgeRecovery v i oid action \<Rightarrow> \<not> sv_read_only sv \<and> action \<noteq> ShowDiagnostics \<and>
        (\<exists>record. owned_with env sv oid (w_fs w) record \<and> op_state record = NeedsRecovery)
    | _ \<Rightarrow> False)"
proof -
  have sup: "is_supported r" and auth: "needs_authorization r \<Longrightarrow> \<not> sv_read_only sv"
    using assms by (auto simp: handle_def ret_def split: if_splits)
  show ?thesis
  proof (cases r)
    case (CheckRelease v i)
    then have "unchanged sv (check_release env sv i :: ('e, response) act) w = (out, w')" using assms(1) sup auth by (auto simp: handle_def needs_authorization_def)
    then have "sv_read_only sv" using unchanged_changes [OF _ assms(2) keeps_check_release] by blast
    then show ?thesis using sup CheckRelease by simp
  next
    case (ReadTrustState v i)
    then show ?thesis using assms sup unchanged_changes [OF _ assms(2) keeps_trust_state] by (auto simp: handle_def needs_authorization_def)
  next
    case (PlanReleaseUpgrade v i h)
    then show ?thesis using assms sup unchanged_changes [OF _ assms(2) keeps_plan_upgrade] by (auto simp: handle_def needs_authorization_def)
  next
    case (StatusQuery v i oid after)
    then show ?thesis using assms sup unchanged_changes [OF _ assms(2) keeps_status] by (auto simp: handle_def needs_authorization_def)
  next
    case (Start v i oid hash confirmed submitted)
    then show ?thesis using assms sup auth start_changes [of env sv i oid hash confirmed submitted w out w']
      by (auto simp: handle_def needs_authorization_def)
  next
    case (Cancel v i oid)
    then have "unchanged sv (cancel env sv i oid :: ('e, response) act) w = (out, w')" "\<not> sv_read_only sv"
      using assms(1) sup auth by (auto simp: handle_def needs_authorization_def)
    then show ?thesis using unchanged_world cancel_changes assms(2) sup Cancel by fastforce
  next
    case (AcknowledgeRecovery v i oid action)
    then have "unchanged sv (acknowledge_recovery env sv i oid action :: ('e, response) act) w = (out, w')"
      using assms sup auth by (auto simp: handle_def needs_authorization_def ret_def split: if_splits)
    then have "action \<noteq> ShowDiagnostics \<and> (\<exists>r. owned_with env sv oid (w_fs w) r \<and> op_state r = NeedsRecovery)"
      using unchanged_world acknowledge_changes assms(2) by blast
    then show ?thesis using sup auth AcknowledgeRecovery by (cases action) (auto simp: needs_authorization_def)
  qed (use assms sup in \<open>auto simp: handle_def needs_authorization_def ret_def\<close>)
qed

section \<open>Cancellation\<close>

lemma status_loads:
  assumes "(status env sv i oid after :: ('e, response) act) w = (Done (Status s), w')" and "\<not> sv_read_only sv"
    and "loads (se_from_json env) (sv_root sv) oid (w_fs w) r"
  shows "st_state s = op_state r \<and> (\<forall>e. error_code r = Some e \<longrightarrow> st_error_code s = Some e)"
proof -
  from status_answer [OF assms(1,2)] obtain r' w1 w2 where r': "w_fs w1 = w_fs w"
      "load_state (se_from_json env) (sv_root sv) oid w1 = (Done r', w2)"
      "st_state s = op_state r'" "\<forall>e. error_code r' = Some e \<longrightarrow> st_error_code s = Some e" by auto
  have "r' = r" using load_state_loads [OF r'(2)] assms(3) by (simp add: r'(1))
  with r' show ?thesis by simp
qed

text \<open>
  A cancellation that is answered with a status is on disk: the caller owned the operation and it could be cancelled, the status
  says so, and whatever a power cut leaves behind loads the cancelled record.
\<close>

theorem cancellation_is_recorded:
  assumes "(handle env sv (Cancel v i oid) :: ('e, response \<times> service) act) w = (Done (Status s, sv'), w')"
    and "\<forall>r. json_codec (se_to_json env) (se_from_json env) r"
  shows "\<exists>r. owned_with env sv oid (w_fs w) r \<and> is_cancelable (op_state r) \<and> st_state s = Failed \<and>
    st_error_code s = Some ''CANCELLED'' \<and>
    (\<forall>fs'. power_cut w' fs' \<longrightarrow> loads (se_from_json env) (sv_root sv) oid fs' (cancelled_record (se_now env) r))"
proof -
  let ?c = "cancelled_record (se_now env)"
  let ?m = "abind (owned_record env sv oid) (\<lambda>r. if \<not> is_cancelable (op_state r) then throw ''NOT_CANCELABLE''
     else abind (save_or_reject env sv (?c r)) (\<lambda>_. status env sv i oid 0))"
  have ro: "\<not> sv_read_only sv" and "(cancel env sv i oid :: ('e, response) act) w = (Done (Status s), w')"
    using assms(1) by (auto simp: handle_def needs_authorization_def unchanged_def abind_Done ret_Done split: if_splits)
  then have "?m w = (Done (Status s), w')"
    by (auto simp: cancel_def answer_or_reject_def attempt_Done ret_Done)
  then obtain r w1 where own: "owned_record env sv oid w = (Done r, w1)"
    and rest: "(if \<not> is_cancelable (op_state r) then throw ''NOT_CANCELABLE''
     else abind (save_or_reject env sv (?c r)) (\<lambda>_. status env sv i oid 0)) w1 = (Done (Status s), w')"
    unfolding abind_Done [of "owned_record env sv oid"] by blast
  from rest obtain u w2 where c: "is_cancelable (op_state r)"
    and save: "save_state (se_to_json env) (se_nonce env) (sv_root sv) (?c r) w1 = (Done u, w2)"
    and st: "(status env sv i oid 0 :: (string, response) act) w2 = (Done (Status s), w')"
    by (auto simp: abind_Done throw_Done save_or_reject_def raise_as_Done split: if_splits)
  have oid: "operation_id (?c r) = oid"
    using owned_record_Done [OF own] loaded_record_is_valid by (auto simp: owned_with_def cancelled_record_def)
  have d: "durable (se_from_json env) (sv_root sv) (?c r) w2" "''..'' \<notin> set (sv_root sv)"
    using save_state_durable [OF save] assms(2) by blast+
  then have "st_state s = op_state (?c r) \<and> (\<forall>e. error_code (?c r) = Some e \<longrightarrow> st_error_code s = Some e)"
    using status_loads [OF st ro] durable_loads [OF d] oid by metis
  then have "st_state s = Failed" "st_error_code s = Some ''CANCELLED''" by (simp_all add: cancelled_record_def)
  moreover have "loads (se_from_json env) (sv_root sv) oid fs' (?c r)" if "power_cut w' fs'" for fs'
  proof -
    have "power_cut w2 fs'" using that only_reads [OF keeps_status st] by (simp add: power_cut_def)
    then show ?thesis using d safely_stored_loads [of "se_from_json env" "sv_root sv" "?c r"] oid
      unfolding power_cut_def durable_def by metis
  qed
  ultimately show ?thesis using owned_record_Done [OF own] c by blast
qed

section \<open>Merged events\<close>

lemma dedup_sequence_hd: "es \<noteq> [] \<Longrightarrow> dedup_sequence es \<noteq> [] \<and> hd (dedup_sequence es) = hd es"
  by (induction es rule: dedup_sequence.induct) auto

lemma set_dedup_sequence: "ev_sequence ` set (dedup_sequence es) = ev_sequence ` set es"
  by (induction es rule: dedup_sequence.induct) auto

lemma dedup_sequence_sorted:
  "sorted (map ev_sequence es) \<Longrightarrow> sorted_wrt (<) (map ev_sequence (dedup_sequence es))"
proof (induction es rule: dedup_sequence.induct)
  case (1 a b es)
  show ?case
  proof (cases "ev_sequence a = ev_sequence b")
    case False
    then have "ev_sequence a < x" if "x \<in> ev_sequence ` set (b # es)" for x
      using that 1(3) by (auto simp: le_neq_implies_less order.strict_trans2)
    then have "\<forall>x\<in>set (dedup_sequence (b # es)). ev_sequence a < ev_sequence x"
      using set_dedup_sequence [of "b # es"] by (metis imageI)
    with False 1(2) 1(3) show ?thesis by simp
  qed (use 1 in simp)
qed simp_all

text \<open>
  Events from a damaged file and from memory are merged into a strictly increasing sequence that has every number of both and
  invents nothing.
\<close>

theorem merged_events_are_ordered:
  "sorted_wrt (<) (map ev_sequence (merge_events disk memory)) \<and> set (merge_events disk memory) \<subseteq> set disk \<union> set memory \<and>
   ev_sequence ` set (merge_events disk memory) = ev_sequence ` (set disk \<union> set memory)"
proof -
  have "set (dedup_sequence es) \<subseteq> set es" for es by (induction es rule: dedup_sequence.induct) auto
  then have "set (merge_events disk memory) \<subseteq> set disk \<union> set memory" unfolding merge_events_def by (metis set_append set_sort)
  then show ?thesis using dedup_sequence_sorted [of "sort_key ev_sequence (disk @ memory)"]
    by (simp add: merge_events_def set_dedup_sequence image_Un)
qed

definition waiting_record :: operation_state_record where
  "waiting_record = example_record\<lparr>op_state := AwaitingConfirmation\<rparr>"

definition example_env :: service_env where
  "example_env = \<lparr>se_plan_sha = example_digest, se_manifest_sha = (\<lambda>_. Some ''m''),
     se_to_json = (\<lambda>r. if r = cancelled_record ''2027'' waiting_record then Some ''9'' else None),
     se_from_json = (\<lambda>s. if s = ''1'' then Some waiting_record
        else if s = ''9'' @ [newline] then Some (cancelled_record ''2027'' waiting_record) else None),
     se_pending_write = (\<lambda>_. None), se_pending_read = (\<lambda>s. if s = ''p'' then Some \<lparr>pn_planned = example_planned, pn_manifest = None\<rparr> else None),
     se_events = example_json, se_inventory_read = (\<lambda>_. None), se_nonce = ''7'', se_now = ''2027'', se_uuid = ''u'', se_identity = None,
     se_facts = None, se_vendor = example_vendor_tools, se_update_view = example_view, se_upgrade_view = example_view,
     se_fetch = example_tools, se_query = (\<lambda>_. Inl ''QUERY_UNAVAILABLE''), se_snapper = True, se_xdg_cache = None, se_home = None,
     se_rollback = (\<lambda>_ _. throw ''ROLLBACK_FAILED'')\<rparr>"

definition operation_root :: path where
  "operation_root = [''var'', ''lib'', ''lyra-upgrade'', ''operations'']"

definition service_files :: fs where
  "service_files = (\<lambda>_. None)([] \<mapsto> Dir 0 493, [''var''] \<mapsto> Dir 0 493, [''var'', ''lib''] \<mapsto> Dir 0 493,
     [''var'', ''lib'', ''lyra-upgrade''] \<mapsto> Dir 0 448, operation_root \<mapsto> Dir 0 448,
     operation_root @ [operation_id example_record] \<mapsto> Dir 0 448,
     operation_root @ [operation_id example_record, ''state.json''] \<mapsto> File 0 384 ''1'' True,
     operation_root @ [operation_id example_record, ''pending-plan.json''] \<mapsto> File 0 384 ''p'' True,
     operation_root @ [operation_id example_record, ''owner''] \<mapsto> File 0 384 (''1000'' @ [newline]) True)"


lemma calm_load:
  assumes "w_faults w = []" and "loads from_json root oid (w_fs w) r"
  shows "load_state from_json root oid w = (Done r, w)"
proof -
  have c: "calm w" using assms(1) by (simp add: calm_def)
  obtain out where run: "load_state from_json root oid w = (out, w)" using reads_only_load c unfolding reads_only_def by blast
  have "fst (load_state from_json root oid w) = Done r" by (rule trans [OF load_calm [OF c] assms(2)])
  with run show ?thesis by simp
qed

lemma owned_status_returns:
  assumes "w_faults w = []" and "\<not> sv_read_only sv" and "owner_is (w_fs w) (sv_root sv) oid (sv_caller sv)"
    and "loads (se_from_json env) (sv_root sv) oid (w_fs w) r"
  shows "\<exists>s w'. (status env sv i oid after :: ('e, response) act) w = (Done (Status s), w')"
proof -
  have eq: "(status env sv i oid after :: ('e, response) act) w = status_of_record env sv i oid after r w"
    using assms(1-3) calm_load [OF assms(1,4)] by (simp add: status_def abind_owned_calm) (simp add: attempt_def)
  obtain out w' where run: "(status env sv i oid after :: ('e, response) act) w = (out, w')" by fastforce
  have "out \<noteq> Stopped" using steadyD [OF steady_status assms(1) run] by simp
  moreover have "out \<noteq> Raised e" for e using run unfailing_status [of env sv i oid after] unfolding unfailing_def by metis
  ultimately obtain a where out: "out = Done a" by (cases out) auto
  then have "status_of_record env sv i oid after r w = (Done a :: ('e, response) outcome, w')" using run eq by simp
  then show ?thesis using yieldsD [OF yields_status_of_record] run out by blast
qed

abbreviation example_oid :: string where
  "example_oid \<equiv> operation_id example_record"

abbreviation example_host :: world where
  "example_host \<equiv> quiet 0 service_files"

lemma example_root: "sv_root (new_service uid) = operation_root" "sv_caller (new_service uid) = uid" "\<not> sv_read_only (new_service uid)"
  "sv_started (new_service uid) = []" "sv_plans (new_service uid) oid = None"
  by (simp_all add: new_service_def operation_root_def)

lemma example_loads: "loads (se_from_json example_env) operation_root example_oid service_files waiting_record"
  by code_simp

lemma example_owner_file:
  "node_at service_files (operation_root @ [example_oid, ''owner'']) = Inr (File 0 384 (''1000'' @ [newline]) True)"
  by code_simp

lemma example_owner_text: "valid_operation_id example_oid" "is_utf8 (''1000'' @ [newline])" "parse_u32 (trim (''1000'' @ [newline])) = Some 1000"
  by code_simp+

lemma example_owner: "owner_is service_files operation_root example_oid 1000" "\<not> owner_is service_files operation_root example_oid 1001"
  unfolding owner_is_def using example_owner_file example_owner_text by auto

lemma example_pending: "load_pending_plan example_env operation_root example_oid example_host =
    (Done \<lparr>pn_planned = example_planned, pn_manifest = None\<rparr>, example_host)"
proof -
  have "node_at service_files (operation_root @ [example_oid, ''pending-plan.json'']) = Inr (File 0 384 ''p'' True)"
    and "file_content service_files (operation_root @ [example_oid, ''pending-plan.json'']) = Inr ''p''"
    by code_simp+
  moreover have "calm example_host" by (simp add: calm_def)
  ultimately show ?thesis
    by (simp add: load_pending_plan_def Let_def symlink_metadata_def read_file_def calm_query abind_def MAX_PENDING_BYTES_def of_result_def ret_def
        example_env_def)
qed

lemma example_no_failure: "has_write_failure operation_root example_oid example_host = (Done False, example_host)"
proof -
  have "node_at service_files (operation_root @ [example_oid, ''events.error'']) = Inl ENOENT" by code_simp
  moreover have "calm example_host" by (simp add: calm_def)
  ultimately show ?thesis by (simp add: has_write_failure_def attempt_def symlink_metadata_def calm_query ret_def is_ok_def)
qed

lemma example_events: "fst (load_events example_json operation_root example_oid 0 example_host) = Done \<lparr>eh_events = [], eh_incomplete = False\<rparr>"
  by (simp add: load_events_def load_events_mode_def example_owner_text operation_directory_def require_dir_def symlink_metadata_def
        abind_def raise_as_def attempt_def query_def ret_def throw_def node_at_def locate_def MAX_LINKS_def operation_root_def
        service_files_def lock_file_def open_or_create_def create_missing_def mutate_def open_read_def require_file_def handle_metadata_def
        flock_def open_events_def)

lemma example_ready:
  "\<exists>log w'. ready_to_start example_env (new_service 1000) example_oid (replicate 64 CHR ''a'') example_planned example_host =
     (Done (waiting_record, \<lparr>pn_planned = example_planned, pn_manifest = None\<rparr>, log), w')"
proof -
  obtain w1 where ev: "load_events example_json operation_root example_oid 0 example_host = (Done \<lparr>eh_events = [], eh_incomplete = False\<rparr>, w1)"
    using example_events by (metis prod.collapse)
  have "pu_plan_sha256 example_planned = replicate 64 CHR ''a''" "pu_manifest example_planned = None" by code_simp+
  moreover have "load_state (se_from_json example_env) operation_root example_oid example_host = (Done waiting_record, example_host)"
    by (rule calm_load) (simp_all add: example_loads)
  moreover have "op_state waiting_record = AwaitingConfirmation" by (simp add: waiting_record_def)
  moreover have "se_events example_env = example_json" by (simp add: example_env_def)
  ultimately show ?thesis using ev
    by (simp add: ready_to_start_def known_plan_def example_root raise_as_def attempt_def example_pending abind_def example_no_failure ret_def)
qed

theorem query_broker_only_reads_witness:
  "\<exists>s w'. (query_response example_env (new_service 1000) (StatusQuery 3 ''q'' example_oid None) :: (unit, response) act) example_host =
     (Done (Status s), w') \<and> w_fs w' = service_files \<and> owner_is service_files operation_root (st_operation_id s) 1000"
proof -
  obtain s w' where "(status example_env (new_service 1000) ''q'' example_oid 0 :: (unit, response) act) example_host = (Done (Status s), w')"
    using owned_status_returns [of example_host "new_service 1000" example_oid example_env waiting_record "''q''" 0, where ?'e = unit]
    by (auto simp: example_root example_owner example_loads)
  then have run: "(query_response example_env (new_service 1000) (StatusQuery 3 ''q'' example_oid None) :: (unit, response) act) example_host =
     (Done (Status s), w')" by (simp add: query_response_def is_supported_def PROTOCOL_VERSION_def)
  from query_broker_only_reads [OF this] run show ?thesis by (auto simp: example_root)
qed


lemma example_accepted:
  "\<exists>sv' w'. (handle example_env (new_service 1000) (Start 3 ''q'' example_oid (replicate 64 CHR ''a'') True example_planned)
       :: (unit, response \<times> service) act) example_host = (Done (Accepted ''q'' (Some example_oid), sv'), w')"
proof -
  have "submission_consistent example_env (replicate 64 CHR ''a'') example_planned" by code_simp
  then show ?thesis using example_ready
    by (auto simp: handle_def is_supported_def PROTOCOL_VERSION_def needs_authorization_def example_root start_def abind_owned_calm
        example_owner attempt_def ret_def)
qed


lemma example_serviceable: "serviceable example_env"
  by (simp add: serviceable_def example_env_def steady_throw)


abbreviation cancelled_save :: "(persistence_error, unit) outcome \<times> world" where
  "cancelled_save \<equiv> save_state (se_to_json example_env) ''7'' operation_root (cancelled_record ''2027'' waiting_record) example_host"

lemma example_save: "fst cancelled_save = Done ()"
  by code_simp

lemma example_saved_owner:
  "node_at (w_fs (snd cancelled_save)) (operation_root @ [example_oid, ''owner'']) = Inr (File 0 384 (''1000'' @ [newline]) True)"
  by code_simp

lemma example_service_codec: "\<forall>r. json_codec (se_to_json example_env) (se_from_json example_env) r"
  by (simp add: json_codec_def example_env_def)

lemma example_cancel:
  "\<exists>s w'. (handle example_env (new_service 1000) (Cancel 3 ''q'' example_oid) :: (unit, response \<times> service) act) example_host =
     (Done (Status s, new_service 1000), w') \<and> w_fs w' \<noteq> service_files"
proof -
  let ?c = "cancelled_record ''2027'' waiting_record"
  obtain w1 where save: "save_state (se_to_json example_env) ''7'' operation_root ?c example_host = (Done (), w1)"
    and w1: "w1 = snd cancelled_save" using example_save by (metis prod.collapse)
  have calm: "w_faults w1 = []" using steadyD [OF steady_save_state _ save] by simp
  have own: "owner_is (w_fs w1) operation_root example_oid 1000"
    unfolding owner_is_def using example_saved_owner example_owner_text w1 by auto
  have differ: "?c \<noteq> waiting_record" by (simp add: cancelled_record_def waiting_record_def example_record_def)
  have oid: "operation_id ?c = example_oid" by (simp add: cancelled_record_def waiting_record_def)
  have "durable (se_from_json example_env) operation_root ?c w1" "''..'' \<notin> set operation_root"
    using save_state_durable [OF save] example_service_codec by blast+
  then have l: "loads (se_from_json example_env) operation_root example_oid (w_fs w1) ?c" using durable_loads oid by metis
  obtain s w2 where st: "(status example_env (new_service 1000) ''q'' example_oid 0 :: (string, response) act) w1 = (Done (Status s), w2)"
    using owned_status_returns [of w1 "new_service 1000" example_oid example_env ?c "''q''" 0, where ?'e = string] calm own l
    by (auto simp: example_root)
  have "owned_record example_env (new_service 1000) example_oid example_host = (Done waiting_record, example_host)"
    using calm_load [of example_host "se_from_json example_env" operation_root example_oid waiting_record]
    by (simp add: owned_record_def abind_owned_calm example_root example_owner example_loads raise_as_def attempt_def ret_def)
  moreover have "w_fs w2 \<noteq> service_files"
    using only_reads [OF keeps_status st] l example_loads differ by auto
  moreover have "is_cancelable (op_state waiting_record)" by (simp add: waiting_record_def is_cancelable_def)
  moreover have "se_nonce example_env = ''7''" "se_now example_env = ''2027''" by (simp_all add: example_env_def)
  ultimately show ?thesis using save st
    by (simp add: handle_def is_supported_def PROTOCOL_VERSION_def needs_authorization_def example_root unchanged_def cancel_def
        answer_or_reject_def attempt_def abind_def save_or_reject_def raise_as_def ret_def)
qed

theorem cancellation_is_recorded_witness:
  "\<exists>s w'. (handle example_env (new_service 1000) (Cancel 3 ''q'' example_oid) :: (unit, response \<times> service) act) example_host =
     (Done (Status s, new_service 1000), w') \<and> st_state s = Failed \<and> st_error_code s = Some ''CANCELLED''"
  using example_cancel cancellation_is_recorded [OF _ example_service_codec] by blast

theorem files_change_only_with_authority_witness:
  "\<exists>out w'. (handle example_env (new_service 1000) (Cancel 3 ''q'' example_oid) :: (unit, response \<times> service) act) example_host = (out, w') \<and>
     w_fs w' \<noteq> service_files \<and> (\<exists>r. owned_with example_env (new_service 1000) example_oid service_files r \<and> is_cancelable (op_state r))"
  using example_cancel files_change_only_with_authority [of example_env "new_service 1000" "Cancel 3 ''q'' example_oid" example_host, where ?'e = unit]
  by fastforce

end
