(* ===== verification/Host_Backends.thy ===== *)
theory Host_Backends
  imports Discovery Service_Properties
begin

text \<open>
  The implementations of the discovery trait beside the system one, and what they use: bounded processes (\<open>process.rs\<close>), the
  client of the read broker (\<open>query_client.rs\<close>), unprivileged discovery (\<open>readonly_discovery.rs\<close>), discovery in a prepared
  repository context (\<open>repository_context.rs\<close>) and the command line (\<open>cli/src/main.rs\<close>). Sockets, processes and JSON are parameters.
\<close>

section \<open>Bounded processes\<close>

text \<open>
  A child that was started: the time of its end in milliseconds, whether it succeeded, and what it and its descendants write until they
  are killed. The waiting loop looks at it every twenty milliseconds; its first component is the time at which it stops waiting.
\<close>

record probe_child =
  pc_exit :: "nat option"
  pc_success :: bool
  pc_stdout :: string
  pc_stderr :: string

function wait_child :: "nat option \<Rightarrow> nat \<Rightarrow> nat \<Rightarrow> nat \<times> bool" where
  "wait_child ending deadline now =
     (if is_some_and ending (\<lambda>t. t \<le> now) then (now, True)
      else if deadline \<le> now then (now, False)
      else wait_child ending deadline (now + 20))"
  by pat_completeness auto
termination by (relation "measure (\<lambda>(ending, deadline, now). deadline - now)") auto

declare wait_child.simps [simp del]

definition OUTPUT_LIMIT :: nat where
  "OUTPUT_LIMIT = 32 * 1024 * 1024"

datatype process_error = SpawnFailed | TimedOut | OutputTooLarge

definition process_output :: "probe_child option \<Rightarrow> nat \<Rightarrow> process_error + bool \<times> string \<times> string" where
  "process_output proc seconds = (case proc of
      None \<Rightarrow> Inl SpawnFailed
    | Some c \<Rightarrow>
        let out = take (OUTPUT_LIMIT + 1) (pc_stdout c); err = take (OUTPUT_LIMIT + 1) (pc_stderr c) in
        if \<not> snd (wait_child (pc_exit c) (1000 * seconds) 0) then Inl TimedOut
        else if OUTPUT_LIMIT < length out \<or> OUTPUT_LIMIT < length err then Inl OutputTooLarge
        else Inr (pc_success c, out, err))"

section \<open>The client of the read broker\<close>

definition MAX_RESPONSE :: nat where
  "MAX_RESPONSE = 16 * 1024 * 1024"

text \<open>A socket: whether it connects, the user at the other end, the timeouts, the writes, and the bytes that are sent back.\<close>

record query_socket =
  qs_connects :: bool
  qs_peer_uid :: "u32 option"
  qs_timeouts :: bool
  qs_writes :: "string \<Rightarrow> bool"
  qs_reply :: "string \<Rightarrow> string option"

definition query_request ::
  "(request \<Rightarrow> string option) \<Rightarrow> (string \<Rightarrow> response option) \<Rightarrow> query_socket \<Rightarrow> request \<Rightarrow> string + response" where
  "query_request to_json from_json sock r =
     (if \<not> qs_connects sock then Inl ''QUERY_UNAVAILABLE''
      else if qs_peer_uid sock \<noteq> Some 0 then Inl ''QUERY_UNAVAILABLE''
      else if \<not> qs_timeouts sock then Inl ''QUERY_UNAVAILABLE''
      else rbind (ok_or (opt_filter (qs_writes sock) (to_json r)) ''INVALID_REQUEST'') (\<lambda>body.
        if \<not> qs_writes sock [newline] then Inl ''QUERY_UNAVAILABLE''
        else rbind (ok_or (qs_reply sock (body @ [newline])) ''QUERY_UNAVAILABLE'') (\<lambda>bytes.
          let reply = read_line (take (MAX_RESPONSE + 1) bytes) in
          if MAX_RESPONSE < length reply \<or> reply = [] \<or> last reply \<noteq> newline then Inl ''INVALID_RESPONSE''
          else ok_or (from_json reply) ''INVALID_RESPONSE'')))"

section \<open>Unprivileged discovery\<close>

definition readiness_response :: "string + response \<Rightarrow> string \<Rightarrow> bool" where
  "readiness_response r i = (r = Inr (RecoveryReadiness i True))"

definition READINESS_ID :: string where
  "READINESS_ID = ''snapper-readiness''"

definition readonly_run ::
  "system_host \<Rightarrow> nat \<Rightarrow> (request \<Rightarrow> string + response) \<Rightarrow> string \<Rightarrow> string list \<Rightarrow> discover_error + Discovery.command_output" where
  "readonly_run host euid ask program arguments =
     (if program = ''snapper'' \<and> arguments = snapper_probe \<and> euid \<noteq> 0
      then Inr \<lparr>co_success = readiness_response (ask (ReadRecoveryReadiness PROTOCOL_VERSION READINESS_ID)) READINESS_ID, co_stdout = []\<rparr>
      else db_run (system_backend host) program arguments)"

definition readonly_backend :: "system_host \<Rightarrow> nat \<Rightarrow> (request \<Rightarrow> string + response) \<Rightarrow> discovery_backend" where
  "readonly_backend host euid ask = (system_backend host)\<lparr>db_run := readonly_run host euid ask\<rparr>"

text \<open>The root broker asks \<open>snapper\<close> itself, for at most five seconds.\<close>

definition recovery_readiness :: "probe_child option \<Rightarrow> string \<Rightarrow> response" where
  "recovery_readiness proc i = RecoveryReadiness i (case process_output proc 5 of Inr (ok, _, _) \<Rightarrow> ok | Inl _ \<Rightarrow> False)"

section \<open>Repository contexts\<close>

record repository_context =
  cx_repos :: string
  cx_cache :: string
  cx_raw :: string
  cx_solv :: string
  cx_packages :: string
  cx_simulation_root :: "string option"

definition prepared :: "string \<Rightarrow> repository_context" where
  "prepared operation_dir = (let cache = operation_dir @ ''/cache'' in
     \<lparr>cx_repos = operation_dir @ ''/repos.d'', cx_cache = cache, cx_raw = cache @ ''/raw'', cx_solv = cache @ ''/solv'',
      cx_packages = cache @ ''/packages'', cx_simulation_root = None\<rparr>)"

definition cx_arguments :: "repository_context \<Rightarrow> string list" where
  "cx_arguments cx = [''--reposd-dir'', cx_repos cx, ''--cache-dir'', cx_cache cx, ''--raw-cache-dir'', cx_raw cx,
     ''--solv-cache-dir'', cx_solv cx, ''--pkg-cache-dir'', cx_packages cx]"

record command_spec =
  cs_program :: string
  cs_arguments :: "string list"
  cs_environment :: "(string \<times> string) list"

definition cx_command :: "nat \<Rightarrow> repository_context \<Rightarrow> command_spec" where
  "cx_command euid cx =
     (let mapped = (cx_simulation_root cx \<noteq> None \<and> euid \<noteq> 0) in
      \<lparr>cs_program = (if mapped then ''/usr/bin/unshare'' else ''/usr/bin/zypper''),
       cs_arguments = (if mapped then [''--user'', ''--map-root-user'', ''--'', ''/usr/bin/zypper''] else []) @
         (case cx_simulation_root cx of Some root \<Rightarrow> [''--root'', root] | None \<Rightarrow> []) @ cx_arguments cx,
       cs_environment = [(''PATH'', ''/usr/sbin:/usr/bin:/sbin:/bin''), (''LC_ALL'', ''C'')] @
         (case cx_simulation_root cx of
            Some root \<Rightarrow> [(''ZYPP_LOGFILE'', cx_cache cx @ ''/zypper.log''), (''TMPDIR'', root @ ''/tmp''), (''ZYPPTMPDIR'', root @ ''/tmp'')]
          | None \<Rightarrow> [])\<rparr>)"

text \<open>Running a command in a context takes at most two minutes; \<open>spawn\<close> says what the process does.\<close>

definition cx_output ::
  "(command_spec \<Rightarrow> probe_child option) \<Rightarrow> nat \<Rightarrow> repository_context \<Rightarrow> string list \<Rightarrow> process_error + bool \<times> string \<times> string" where
  "cx_output spawn euid cx arguments =
     (let c = cx_command euid cx in process_output (spawn (c\<lparr>cs_arguments := cs_arguments c @ arguments\<rparr>)) 120)"

definition prepared_run ::
  "system_host \<Rightarrow> nat \<Rightarrow> (request \<Rightarrow> string + response) \<Rightarrow> (command_spec \<Rightarrow> probe_child option) \<Rightarrow> repository_context \<Rightarrow>
   string \<Rightarrow> string list \<Rightarrow> discover_error + Discovery.command_output" where
  "prepared_run host euid ask spawn cx program arguments =
     (if program \<noteq> ''zypper'' then readonly_run host euid ask program arguments
      else if arguments \<notin> {repositories_probe, locks_probe, orphans_probe} then Inl CommandNotAllowed
      else rbind (map_err (\<lambda>_. CommandFailed ''zypper'') (cx_output spawn euid cx arguments)) (\<lambda>(ok, out, _).
        if is_utf8 out then Inr \<lparr>co_success = ok, co_stdout = out\<rparr> else Inl (CommandFailed ''zypper'')))"

definition prepared_backend ::
  "system_host \<Rightarrow> nat \<Rightarrow> (request \<Rightarrow> string + response) \<Rightarrow> (command_spec \<Rightarrow> probe_child option) \<Rightarrow> repository_context \<Rightarrow> discovery_backend" where
  "prepared_backend host euid ask spawn cx = (system_backend host)\<lparr>db_run := prepared_run host euid ask spawn cx\<rparr>"

section \<open>The command line\<close>

definition valid_arguments :: "string list \<Rightarrow> bool" where
  "valid_arguments arguments = (arguments = [] \<or> arguments = [''inspect''])"

datatype cli_result = CliExit nat | CliInspection host_facts preflight_report

definition cli_main :: "(string \<Rightarrow> mount list option) \<Rightarrow> discovery_backend \<Rightarrow> vendor_tools \<Rightarrow> string list \<Rightarrow> cli_result" where
  "cli_main json backend tools arguments =
     (if \<not> valid_arguments arguments then CliExit 2
      else case discover_host json backend of
        Inl _ \<Rightarrow> CliExit 1
      | Inr facts \<Rightarrow> (case installed_packages tools of
          Inl _ \<Rightarrow> CliExit 1
        | Inr packages \<Rightarrow> let facts' = facts\<lparr>hf_installed_packages := packages\<rparr> in
            CliInspection facts' (evaluate_preflight facts' default_policy)))"

section \<open>Lemmas\<close>

interpretation readonly: closed_backend "readonly_backend host euid ask" for host euid ask
proof
  show "db_run (readonly_backend host euid ask) p a = Inl CommandNotAllowed \<longleftrightarrow> \<not> allowed_probe p a" for p a
    by (auto simp: readonly_backend_def readonly_run_def system.run_closed)
qed (simp_all add: readonly_backend_def system.read_clean system.dir_clean system.space_clean)

lemma zypper_probes: "allowed_probe ''zypper'' a = (a \<in> {repositories_probe, locks_probe, orphans_probe})"
  by (auto simp: allowed_probe_def)

interpretation prepared: closed_backend "prepared_backend host euid ask spawn cx" for host euid ask spawn cx
proof
  show "db_run (prepared_backend host euid ask spawn cx) p a = Inl CommandNotAllowed \<longleftrightarrow> \<not> allowed_probe p a" for p a
    using readonly.run_closed [of host euid ask p a] zypper_probes [of a]
    by (auto simp: prepared_backend_def prepared_run_def readonly_backend_def rbind_Inl_iff map_err_Inl_iff split: if_splits prod.splits)
qed (simp_all add: prepared_backend_def system.read_clean system.dir_clean system.space_clean)

lemma wait_child_result:
  "wait_child ending deadline now = (t, ended) \<Longrightarrow> (\<exists>k. t = now + 20 * k) \<and> (t < deadline + 20 \<or> t = now) \<and>
     ended = is_some_and ending (\<lambda>e. e \<le> t) \<and> (\<not> ended \<longrightarrow> deadline \<le> t)"
proof (induction ending deadline now rule: wait_child.induct)
  case (1 ending deadline now)
  show ?case
  proof (cases "is_some_and ending (\<lambda>e. e \<le> now) \<or> deadline \<le> now")
    case True
    then show ?thesis using 1(2) unfolding wait_child.simps [of ending deadline now] by (auto split: if_splits)
  next
    case False
    then have run: "wait_child ending deadline (now + 20) = (t, ended)"
      using 1(2) unfolding wait_child.simps [of ending deadline now] by simp
    have ih: "(\<exists>k. t = now + 20 + 20 * k) \<and> (t < deadline + 20 \<or> t = now + 20) \<and> ended = is_some_and ending (\<lambda>e. e \<le> t) \<and>
      (\<not> ended \<longrightarrow> deadline \<le> t)" using 1(1) False run by blast
    then obtain k where "t = now + 20 * Suc k" by auto
    then show ?thesis using ih False by (intro conjI exI [of _ "Suc k"]) auto
  qed
qed

lemma waits_until_deadline: "snd (wait_child ending (1000 * s) 0) = is_some_and ending (\<lambda>e. e \<le> 1000 * s)"
proof -
  obtain t ended where run: "wait_child ending (1000 * s) 0 = (t, ended)" by fastforce
  from wait_child_result [OF run] obtain k where r: "t = 20 * k" "t < 1000 * s + 20 \<or> t = 0" "ended = is_some_and ending (\<lambda>e. e \<le> t)"
    "\<not> ended \<longrightarrow> 1000 * s \<le> t" by auto
  have "1000 * s = 20 * (50 * s)" by simp
  then have le: "t \<le> 1000 * s" using r(1,2) by auto
  show ?thesis
  proof (cases ended)
    case True
    then show ?thesis using r(3) le run by (cases ending) (auto simp: is_some_and_def)
  next
    case False
    then have "t = 1000 * s" using r(4) le by simp
    then show ?thesis using r(3) run by simp
  qed
qed

text \<open>
  Probes are bounded: waiting in steps of twenty milliseconds and reading at most one byte beyond the limit amounts to this. A process
  that has not ended within the given seconds is a timeout, one that wrote more than the limit is an error, and every other one gives
  its status and its complete output. In particular waiting always ends.
\<close>

theorem probes_are_bounded:
  "process_output (Some c) seconds =
     (if \<not> is_some_and (pc_exit c) (\<lambda>e. e \<le> 1000 * seconds) then Inl TimedOut
      else if OUTPUT_LIMIT < length (pc_stdout c) \<or> OUTPUT_LIMIT < length (pc_stderr c) then Inl OutputTooLarge
      else Inr (pc_success c, pc_stdout c, pc_stderr c))"
  by (auto simp: process_output_def waits_until_deadline Let_def)

text \<open>
  The command line and the service report the same inspection of a host: what one prints, the other answers, and one fails exactly
  when the other rejects.
\<close>

theorem command_line_agrees_with_service:
  assumes "se_facts env = to_option (discover_host json backend)" and "se_vendor env = tools" and "valid_arguments arguments"
  shows "inspect env i = (case cli_main json backend tools arguments of
      CliInspection facts report \<Rightarrow> Inspection i facts report | CliExit _ \<Rightarrow> Rejected i ''DISCOVERY_FAILED'')"
  using assms by (auto simp: inspect_def cli_main_def Let_def split: option.splits sum.splits)

theorem command_line_agrees_with_service_witness:
  "inspect (example_env\<lparr>se_facts := to_option (discover_host example_mounts (system_backend example_probe_host))\<rparr>) ''q'' =
     (case cli_main example_mounts (system_backend example_probe_host) (se_vendor example_env) [''inspect''] of
        CliInspection facts report \<Rightarrow> Inspection ''q'' facts report | CliExit _ \<Rightarrow> Rejected ''q'' ''DISCOVERY_FAILED'')"
  by (rule command_line_agrees_with_service) (simp_all add: valid_arguments_def)

text \<open>
  An unprivileged process believes that recovery is configured only on the word of root: the socket's other end runs as root and its
  answer names this request.
\<close>

theorem recovery_readiness_comes_from_root:
  assumes "discover_host json (readonly_backend host euid (query_request to_json from_json sock)) = Inr facts"
    and "snapper_root_configured facts" and "euid \<noteq> 0"
  shows "qs_connects sock \<and> qs_peer_uid sock = Some 0 \<and> (\<exists>reply. from_json reply = Some (RecoveryReadiness READINESS_ID True))"
proof -
  have "readiness_response (query_request to_json from_json sock (ReadRecoveryReadiness PROTOCOL_VERSION READINESS_ID)) READINESS_ID"
    using assms by (auto simp: discover_host_def rbind_Inr_iff readonly_backend_def readonly_run_def)
  then show ?thesis
    by (auto simp: readiness_response_def query_request_def rbind_Inr_iff ok_or_Inr_iff Let_def split: if_splits)
qed

text \<open>A broker process at the other end of a socket, for a process of the user \<open>uid\<close>.\<close>

definition broker_socket ::
  "service_env \<Rightarrow> (string \<Rightarrow> request option) \<Rightarrow> (response \<Rightarrow> string option) \<Rightarrow> u32 \<Rightarrow> world \<Rightarrow> query_socket" where
  "broker_socket env read_json write_json uid w = \<lparr>qs_connects = True, qs_peer_uid = Some 0, qs_timeouts = True, qs_writes = (\<lambda>_. True),
     qs_reply = (\<lambda>line. case (query_connection env read_json uid line :: (unit, response) act) w of
        (Done answer, _) \<Rightarrow> map_option (\<lambda>t. t @ [newline]) (write_json answer) | _ \<Rightarrow> None)\<rparr>"

lemma read_line_whole: "newline \<notin> set t \<Longrightarrow> length t < n \<Longrightarrow> read_line (take n (t @ [newline])) = t @ [newline]"
  using read_line_take [of t n "[]"] by simp

text \<open>
  What an unprivileged process answers to a question about an operation is what the broker found for that user: the socket adds
  nothing and loses nothing, so the status of an operation reaches exactly its owner.
\<close>

theorem unprivileged_status_is_the_brokers:
  assumes "sv_read_only sv" and "se_query env = query_request to_json from_json (broker_socket benv read_json write_json uid w)"
    and "to_json (StatusQuery PROTOCOL_VERSION i oid (Some after)) = Some body" and "newline \<notin> set body" and "length body < MAX_REQUEST"
    and "read_json (body @ [newline]) = Some (StatusQuery PROTOCOL_VERSION i oid (Some after))"
    and "(status benv (new_service uid) i oid after :: (unit, response) act) w = (Done answer, w')"
    and "write_json answer = Some reply" and "newline \<notin> set reply" and "length reply < MAX_RESPONSE" and "from_json (reply @ [newline]) = Some answer"
  shows "(handle env sv (StatusQuery PROTOCOL_VERSION i oid (Some after)) :: ('e, response \<times> service) act) v = (Done (answer, sv), v)"
proof -
  let ?r = "StatusQuery PROTOCOL_VERSION i oid (Some after)"
  have "read_request read_json (body @ [newline]) = (Received ?r, [])" using read_request_line [of body read_json ?r "[]"] assms(4-6) by simp
  then have q: "(query_connection benv read_json uid (body @ [newline]) :: (unit, response) act) w = (Done answer, w')"
    using assms(7) by (simp add: query_connection_def query_response_def is_supported_def)
  have "read_line (take (MAX_RESPONSE + 1) (reply @ [newline])) = reply @ [newline]"
    using read_line_whole [OF assms(9), of "MAX_RESPONSE + 1"] assms(10) by simp
  then have "query_request to_json from_json (broker_socket benv read_json write_json uid w) ?r = Inr answer"
    using assms(3,8,10,11) q by (simp add: query_request_def broker_socket_def opt_filter_def Let_def)
  then show ?thesis
    using assms(1,2) by (simp add: handle_def is_supported_def needs_authorization_def unchanged_def status_def ask_broker_def)
       (simp add: ret_def)
qed

definition example_socket :: query_socket where
  "example_socket = \<lparr>qs_connects = True, qs_peer_uid = Some 0, qs_timeouts = True, qs_writes = (\<lambda>_. True), qs_reply = (\<lambda>_. Some [newline])\<rparr>"

definition example_ask :: "request \<Rightarrow> string + response" where
  "example_ask = query_request (\<lambda>_. Some ''b'') (\<lambda>_. Some (RecoveryReadiness READINESS_ID True)) example_socket"

lemma example_readonly: "readonly_backend example_probe_host 1000 example_ask = system_backend example_probe_host"
proof -
  have r: "readiness_response (example_ask (ReadRecoveryReadiness PROTOCOL_VERSION READINESS_ID)) READINESS_ID"
    by (simp add: readiness_response_def example_ask_def query_request_def example_socket_def opt_filter_def MAX_RESPONSE_def Let_def)
  have sn: "system_run example_probe_host ''snapper'' snapper_probe = Inr \<lparr>co_success = True, co_stdout = []\<rparr>" by code_simp
  have "readonly_run example_probe_host 1000 example_ask p a = system_run example_probe_host p a" for p a
    using r sn by (auto simp: readonly_run_def system_backend_def)
  then show ?thesis by (simp add: readonly_backend_def system_backend_def fun_eq_iff)
qed

theorem recovery_readiness_comes_from_root_witness:
  "\<exists>facts. discover_host example_mounts (readonly_backend example_probe_host 1000 example_ask) = Inr facts \<and>
     snapper_root_configured facts \<and> qs_peer_uid example_socket = Some 0"
proof -
  obtain facts where f: "discover_host example_mounts (readonly_backend example_probe_host 1000 example_ask) = Inr facts"
      "passed (evaluate_preflight facts default_policy)" using example_discovery unfolding example_readonly by (auto split: sum.splits)
  then have "snapper_root_configured facts" by (simp add: preflight_passed_ready host_ready_def)
  with recovery_readiness_comes_from_root [OF f(1) [unfolded example_ask_def]] f(1) show ?thesis by auto
qed

theorem unprivileged_status_is_the_brokers_witness:
  "\<exists>env s. (handle env ((new_service 1000)\<lparr>sv_read_only := True\<rparr>) (StatusQuery PROTOCOL_VERSION ''q'' example_oid (Some 0))
       :: (unit, response \<times> service) act) example_host = (Done (Status s, (new_service 1000)\<lparr>sv_read_only := True\<rparr>), example_host)"
proof -
  obtain s w' where st: "(status example_env (new_service 1000) ''q'' example_oid 0 :: (unit, response) act) example_host = (Done (Status s), w')"
    using owned_status_returns [of example_host "new_service 1000" example_oid example_env waiting_record "''q''" 0, where ?'e = unit]
    by (auto simp: example_root example_owner example_loads)
  let ?ask = "query_request (\<lambda>_. Some ''b'') (\<lambda>_. Some (Status s))
     (broker_socket example_env (\<lambda>_. Some (StatusQuery PROTOCOL_VERSION ''q'' example_oid (Some 0))) (\<lambda>_. Some ''r'') 1000 example_host)"
  have "(handle (example_env\<lparr>se_query := ?ask\<rparr>) ((new_service 1000)\<lparr>sv_read_only := True\<rparr>) (StatusQuery PROTOCOL_VERSION ''q'' example_oid (Some 0))
       :: (unit, response \<times> service) act) example_host = (Done (Status s, (new_service 1000)\<lparr>sv_read_only := True\<rparr>), example_host)"
    by (rule unprivileged_status_is_the_brokers [OF _ _ _ _ _ _ st, where to_json = "\<lambda>_. Some ''b''" and from_json = "\<lambda>_. Some (Status s)"
        and read_json = "\<lambda>_. Some (StatusQuery PROTOCOL_VERSION ''q'' example_oid (Some 0))" and write_json = "\<lambda>_. Some ''r''" and body = "''b''" and reply = "''r''"])
      (simp_all add: newline_def MAX_REQUEST_def MAX_RESPONSE_def)
  then show ?thesis by blast
qed

end
