(* ===== verification/Desktop.thy ===== *)
theory Desktop
  imports Host_Backends
begin

text \<open>
  \<open>src-tauri/src/main.rs\<close>: the desktop shell, which passes the requests of the window to two service processes, an unprivileged one for
  questions and one started through \<open>pkexec\<close> for what changes the system. What the processes do is the record \<open>desktop_env\<close>, as a
  function of how a process was started and what it was sent; the window itself is not part of the model.
\<close>

section \<open>Processes\<close>

text \<open>\<open>sp_sent\<close> has the lines that were written in full; a write that failed may have left a part of one in the pipe.\<close>

record service_process =
  sp_command :: command_spec
  sp_sent :: "string list"

record connections =
  cn_query :: "service_process option"
  cn_admin :: "service_process option"

text \<open>
  \<open>de_status\<close> is what \<open>try_wait\<close> finds: nothing while the process runs, and its exit code if it has one. \<open>de_reply\<close> has the bytes
  that can be read after the last line was sent, or the text of an error.
\<close>

record desktop_env =
  de_spawn :: "command_spec \<Rightarrow> string option"
  de_status :: "service_process \<Rightarrow> int option option"
  de_write :: "service_process \<Rightarrow> string \<Rightarrow> string option"
  de_reply :: "service_process \<Rightarrow> string + string"
  de_variable :: "string \<Rightarrow> string option"

definition SERVICE :: string where
  "SERVICE = ''/usr/libexec/lyra-upgrade-service''"

definition service_command :: "desktop_env \<Rightarrow> bool \<Rightarrow> command_spec" where
  "service_command env administrative =
     \<lparr>cs_program = (if administrative then ''/usr/bin/pkexec'' else SERVICE),
      cs_arguments = (if administrative then [SERVICE] else [''--read-only'']),
      cs_environment = (''PATH'', ''/usr/sbin:/usr/bin:/sbin:/bin'') #
        (if administrative then [] else List.map_filter (\<lambda>key. map_option (Pair key) (de_variable env key)) [''HOME'', ''XDG_CACHE_HOME''])\<rparr>"

definition slot :: "bool \<Rightarrow> connections \<Rightarrow> service_process option" where
  "slot administrative c = (if administrative then cn_admin c else cn_query c)"

definition set_slot :: "bool \<Rightarrow> service_process option \<Rightarrow> connections \<Rightarrow> connections" where
  "set_slot administrative p c = (if administrative then c\<lparr>cn_admin := p\<rparr> else c\<lparr>cn_query := p\<rparr>)"

text \<open>A process that has ended is forgotten, and one is started where there is none; \<open>de_spawn\<close> has the text of an error.\<close>

definition obtain_process :: "desktop_env \<Rightarrow> bool \<Rightarrow> connections \<Rightarrow> string + service_process" where
  "obtain_process env administrative c =
     (case opt_filter (\<lambda>p. de_status env p = None) (slot administrative c) of
        Some p \<Rightarrow> Inr p
      | None \<Rightarrow> let command = service_command env administrative in
          (case de_spawn env command of
             Some e \<Rightarrow> Inl (''cannot start service: '' @ e)
           | None \<Rightarrow> Inr \<lparr>sp_command = command, sp_sent = []\<rparr>))"

definition MAX_REPLY :: nat where
  "MAX_REPLY = 16 * 1024 * 1024"

definition read_reply :: "desktop_env \<Rightarrow> (string \<Rightarrow> 'v option) \<Rightarrow> service_process \<Rightarrow> string + 'v" where
  "read_reply env from_json p =
     rbind (de_reply env p) (\<lambda>bytes.
       let reply = read_line (take (MAX_REPLY + 1) bytes) in
       if \<not> is_utf8 reply then Inl ''stream did not contain valid UTF-8''
       else if reply = [] then
         (case de_status env p of
            Some (Some k) \<Rightarrow> if k = 126 \<or> k = 127 then Inl ''AUTHORIZATION'' else Inl ''service closed the protocol stream''
          | _ \<Rightarrow> Inl ''service closed the protocol stream'')
       else if MAX_REPLY < length reply \<or> last reply \<noteq> newline then Inl ''INVALID_RESPONSE''
       else ok_or (from_json reply) ''invalid service response'')"

text \<open>
  One request over the connection it needs. Serialising writes to the pipe: an error of either is reported as such. The connections are
  kept behind a mutex, which is held for the whole exchange.
\<close>

definition exchange ::
  "desktop_env \<Rightarrow> (request \<Rightarrow> string option) \<Rightarrow> (string \<Rightarrow> 'v option) \<Rightarrow> request \<Rightarrow> connections \<Rightarrow> (string + 'v) \<times> connections" where
  "exchange env to_json from_json r c =
     (let administrative = needs_authorization r;
          kept = set_slot administrative (opt_filter (\<lambda>p. de_status env p = None) (slot administrative c)) c in
      case obtain_process env administrative c of
        Inl e \<Rightarrow> (Inl e, kept)
      | Inr p \<Rightarrow> (case to_json r of
          None \<Rightarrow> (Inl ''cannot serialize request'', set_slot administrative (Some p) c)
        | Some body \<Rightarrow> (case de_write env p (body @ [newline]) of
            Some e \<Rightarrow> (Inl e, set_slot administrative (Some p) c)
          | None \<Rightarrow> let p' = p\<lparr>sp_sent := sp_sent p @ [body @ [newline]]\<rparr> in
              (read_reply env from_json p', set_slot administrative (Some p') c))))"

definition unconfirmed :: "request \<Rightarrow> bool" where
  "unconfirmed r = (case r of Start _ _ _ _ confirmed _ \<Rightarrow> \<not> confirmed | _ \<Rightarrow> False)"

definition service_request ::
  "desktop_env \<Rightarrow> (request \<Rightarrow> string option) \<Rightarrow> (string \<Rightarrow> 'v option) \<Rightarrow> request option \<Rightarrow> connections \<Rightarrow> (string + 'v) \<times> connections" where
  "service_request env to_json from_json parsed c = (case parsed of
      None \<Rightarrow> (Inl ''INVALID_REQUEST'', c)
    | Some r \<Rightarrow>
        if \<not> is_supported r then (Inl ''UNSUPPORTED_PROTOCOL'', c)
        else if unconfirmed r then (Inl ''CONFIRMATION_REQUIRED'', c)
        else exchange env to_json from_json r c)"

section \<open>Appearance and reboot\<close>

definition trim_char :: "char \<Rightarrow> string \<Rightarrow> string" where
  "trim_char c s = rev (dropWhile ((=) c) (rev (dropWhile ((=) c) s)))"

text \<open>The answer of \<open>gsettings\<close>: whether it succeeded, and its output.\<close>

definition color_scheme :: "(bool \<times> string) option \<Rightarrow> string" where
  "color_scheme answer = (case answer of
      Some (True, out) \<Rightarrow> if trim_char (CHR 0x22) (trim_char (CHR 0x27) (trim out)) = ''prefer-dark'' then ''dark'' else ''light''
    | _ \<Rightarrow> ''unknown'')"

definition reboot_system :: "bool option \<Rightarrow> string + unit" where
  "reboot_system ending = (if ending = Some True then Inr () else Inl ''REBOOT_FAILED'')"

section \<open>Sequences of requests\<close>

inductive desktop_step :: "(request \<Rightarrow> string option) \<Rightarrow> connections \<Rightarrow> connections \<Rightarrow> bool" for to_json where
  asked: "service_request env to_json (from_json :: string \<Rightarrow> response option) parsed c = (answer, c') \<Longrightarrow> desktop_step to_json c c'"

inductive_cases desktop_stepE: "desktop_step to_json c c'"

definition no_connections :: connections where
  "no_connections = \<lparr>cn_query = None, cn_admin = None\<rparr>"

text \<open>What may have been sent to a process: it was started for such requests, and every line is one of them.\<close>

definition disciplined :: "(request \<Rightarrow> string option) \<Rightarrow> bool \<Rightarrow> service_process \<Rightarrow> bool" where
  "disciplined to_json administrative p =
     ((\<exists>env. sp_command p = service_command env administrative) \<and>
      (\<forall>l\<in>set (sp_sent p). \<exists>r body. l = body @ [newline] \<and> to_json r = Some body \<and> needs_authorization r = administrative \<and>
         is_supported r \<and> \<not> unconfirmed r))"

definition separated :: "(request \<Rightarrow> string option) \<Rightarrow> connections \<Rightarrow> bool" where
  "separated to_json c = (pred_option (disciplined to_json False) (cn_query c) \<and> pred_option (disciplined to_json True) (cn_admin c))"

lemma separated_slot: "separated to_json c \<Longrightarrow> slot a c = Some p \<Longrightarrow> disciplined to_json a p"
  by (cases a) (auto simp: separated_def slot_def)

lemma separated_set:
  "separated to_json c \<Longrightarrow> pred_option (disciplined to_json a) p \<Longrightarrow> separated to_json (set_slot a p c)"
  by (cases a) (auto simp: separated_def set_slot_def)

lemma obtain_process_disciplined:
  assumes "separated to_json c" and "obtain_process env a c = Inr p"
  shows "disciplined to_json a p"
proof (cases "opt_filter (\<lambda>p. de_status env p = None) (slot a c)")
  case None
  then have "p = \<lparr>sp_command = service_command env a, sp_sent = []\<rparr>" using assms(2) by (auto simp: obtain_process_def Let_def split: option.splits)
  then show ?thesis by (auto simp: disciplined_def)
next
  case (Some q)
  then have "p = q" "slot a c = Some q" using assms(2) by (auto simp: obtain_process_def opt_filter_def split: option.splits if_splits)
  then show ?thesis using separated_slot [OF assms(1)] by simp
qed

lemma exchange_separated:
  assumes "separated to_json c" and "is_supported r" and "\<not> unconfirmed r" and "exchange env to_json from_json r c = (answer, c')"
  shows "separated to_json c'"
proof -
  let ?a = "needs_authorization r"
  have kept: "pred_option (disciplined to_json ?a) (opt_filter (\<lambda>p. de_status env p = None) (slot ?a c))"
    using separated_slot [OF assms(1), of ?a] by (cases "slot ?a c") (auto simp: opt_filter_def)
  show ?thesis
  proof (cases "obtain_process env ?a c")
    case (Inl e)
    then show ?thesis using assms(4) separated_set [OF assms(1) kept] by (auto simp: exchange_def Let_def)
  next
    case (Inr p)
    have d: "disciplined to_json ?a p" by (rule obtain_process_disciplined [OF assms(1) Inr])
    moreover have "disciplined to_json ?a (p\<lparr>sp_sent := sp_sent p @ [body @ [newline]]\<rparr>)" if "to_json r = Some body" for body
      using d that assms(2,3) by (auto simp: disciplined_def)
    ultimately show ?thesis using assms(4) Inr
      by (auto simp: exchange_def Let_def intro!: separated_set [OF assms(1)] split: option.splits)
  qed
qed

lemma step_separated: "desktop_step to_json c c' \<Longrightarrow> separated to_json c \<Longrightarrow> separated to_json c'"
  by (auto simp: service_request_def elim!: desktop_stepE split: option.splits if_splits dest: exchange_separated)

text \<open>
  C39: The desktop keeps the two services apart: after any sequence of requests from the window, whatever the processes do, the process for
  questions was started without privileges and was sent only requests that need no authorisation, and the one for changes was started
  through \<open>pkexec\<close> and was sent only requests that need it; neither was sent a start without confirmation or another protocol version.
\<close>

theorem desktop_separates_privileges:
  assumes "(desktop_step to_json)\<^sup>*\<^sup>* no_connections c"
  shows "separated to_json c"
  using assms
proof (induction rule: rtranclp_induct)
  case base
  show ?case by (simp add: separated_def no_connections_def)
next
  case (step c c')
  then show ?case using step_separated by blast
qed

definition example_desktop :: desktop_env where
  "example_desktop = \<lparr>de_spawn = (\<lambda>_. None), de_status = (\<lambda>_. None), de_write = (\<lambda>_ _. None), de_reply = (\<lambda>_. Inr (''a'' @ [newline])),
     de_variable = (\<lambda>_. None)\<rparr>"

theorem desktop_separates_privileges_witness:
  "separated (\<lambda>_. Some ''r'') (snd (service_request example_desktop (\<lambda>_. Some ''r'') (\<lambda>_. None :: response option) (Some (Cancel 3 ''i'' ''o'')) no_connections)) \<and>
   cn_admin (snd (service_request example_desktop (\<lambda>_. Some ''r'') (\<lambda>_. None :: response option) (Some (Cancel 3 ''i'' ''o'')) no_connections)) \<noteq> None"
proof -
  let ?run = "service_request example_desktop (\<lambda>_. Some ''r'') (\<lambda>_. None :: response option) (Some (Cancel 3 ''i'' ''o'')) no_connections"
  have "desktop_step (\<lambda>_. Some ''r'') no_connections (snd ?run)" by (rule desktop_step.asked [where answer = "fst ?run"]) simp
  then have "separated (\<lambda>_. Some ''r'') (snd ?run)" by (intro desktop_separates_privileges r_into_rtranclp)
  moreover have "cn_admin (snd ?run) \<noteq> None"
    by (simp add: service_request_def is_supported_def PROTOCOL_VERSION_def unconfirmed_def exchange_def needs_authorization_def
        obtain_process_def slot_def no_connections_def opt_filter_def example_desktop_def set_slot_def Let_def)
  ultimately show ?thesis by blast
qed

end
