(* ===== verification/Simulation.thy ===== *)
theory Simulation
  imports Host_Backends
begin

text \<open>
  \<open>service/src/simulation.rs\<close>: the disposable root in which zypper plans, a copy of the configuration, the RPM database and the
  caches in a temporary directory. Paths below that directory are lists of names, the directory itself is the empty list. What the host
  has at a source is a tree; the kind of an input/output error is kept, the texts around it are not.
\<close>

section \<open>Inputs\<close>

text \<open>
  \<open>SrcMissing\<close> and \<open>SrcUnreadable\<close> are the errors of \<open>symlink_metadata\<close>. A directory has its entries in the order of \<open>read_dir\<close> and
  whether reading it ends with an error; a link has its target, and like a file the answer of \<open>canonicalize\<close>.
\<close>

datatype source =
    SrcMissing | SrcUnreadable | SrcDir "(string \<times> source) list" bool | SrcLink "string option" "string option"
  | SrcFile "string option" | SrcSpecial

datatype made = MadeDir | MadeFile string | MadeLink string

datatype sim_error = SimNotFound | SimIo | SimNonregular | SimNoParent | SimCopyFailed | SimSpecial

type_synonym made_tree = "path \<Rightarrow> made option"

text \<open>
  \<open>sh_is_file\<close> is what \<open>metadata\<close> says of a resolved path. \<open>sh_cp\<close> is the run of \<open>cp\<close>: nothing when it cannot be started, otherwise
  what it leaves in the directory and whether it succeeded.
\<close>

record sim_host =
  sh_tempdir :: "string option"
  sh_source :: "path \<Rightarrow> source"
  sh_is_file :: "string \<Rightarrow> bool option"
  sh_content :: "string \<Rightarrow> string"
  sh_cp :: "string \<Rightarrow> path \<Rightarrow> made_tree \<Rightarrow> (made_tree \<times> bool) option"

text \<open>The state has the directory and, for each coming call that changes it, whether it fails.\<close>

record sim_state =
  ss_tree :: made_tree
  ss_faults :: "bool list"

type_synonym 'a simulating = "(sim_state, sim_error, 'a) prog"

section \<open>Copying\<close>

definition sim_call :: "(made_tree \<Rightarrow> made_tree option) \<Rightarrow> unit simulating" where
  "sim_call op = (\<lambda>s. let t = s\<lparr>ss_faults := tl (ss_faults s)\<rparr> in
     if ss_faults s \<noteq> [] \<and> hd (ss_faults s) then (Inl SimIo, t)
     else (case op (ss_tree s) of None \<Rightarrow> (Inl SimIo, t) | Some tree \<Rightarrow> (Inr (), t\<lparr>ss_tree := tree\<rparr>)))"

definition place :: "path \<Rightarrow> made \<Rightarrow> made_tree \<Rightarrow> made_tree option" where
  "place p m t = (if p \<noteq> [] \<and> t p = None \<and> t (butlast p) = Some MadeDir then Some (t(p \<mapsto> m)) else None)"

definition sim_create_dir :: "path \<Rightarrow> unit simulating" where
  "sim_create_dir p = sim_call (place p MadeDir)"

definition sim_create_dir_all :: "path \<Rightarrow> unit simulating" where
  "sim_create_dir_all p = peach (\<lambda>q. pbind (pget (\<lambda>s. ss_tree s q = Some MadeDir)) (\<lambda>there. if there then pret () else sim_create_dir q))
     (prefixes p)"

definition run_cp :: "sim_host \<Rightarrow> string \<Rightarrow> path \<Rightarrow> unit simulating" where
  "run_cp host resolved destination = (\<lambda>s. case sh_cp host resolved destination (ss_tree s) of
      None \<Rightarrow> (Inl SimIo, s)
    | Some (tree, ok) \<Rightarrow> (if ok then Inr () else Inl SimCopyFailed, s\<lparr>ss_tree := tree\<rparr>))"

definition copy_file :: "sim_host \<Rightarrow> string option \<Rightarrow> path \<Rightarrow> unit simulating" where
  "copy_file host resolved destination =
     pbind (plift (ok_or resolved SimIo)) (\<lambda>p.
     pbind (plift (ok_or (sh_is_file host p) SimIo)) (\<lambda>regular.
     pthen (pguard regular SimNonregular) (
     pthen (pguard (destination \<noteq> []) SimNoParent) (
     pthen (sim_create_dir_all (butlast destination)) (
       run_cp host p destination)))))"

definition gpgcheck_targets :: "string set" where
  "gpgcheck_targets = {''true'', ''false'', ''./true'', ''./false''}"

lemma peach_cong [fundef_cong]: "xs = ys \<Longrightarrow> (\<And>x. x \<in> set ys \<Longrightarrow> f x = g x) \<Longrightarrow> peach f xs = peach g ys"
  by (induction ys arbitrary: xs) auto

text \<open>\<open>name\<close> is the last component of the path of the source.\<close>

fun copy_tree :: "sim_host \<Rightarrow> string \<Rightarrow> source \<Rightarrow> path \<Rightarrow> bool \<Rightarrow> unit simulating" where
  "copy_tree host name SrcMissing destination optional = (if optional then pret () else pfail SimNotFound)"
| "copy_tree host name SrcUnreadable destination optional = pfail SimIo"
| "copy_tree host name (SrcDir entries broken) destination optional =
     pthen (sim_create_dir_all destination) (
     pthen (peach (\<lambda>(n, s). copy_tree host n s (destination @ [n]) False) entries) (
       pguard (\<not> broken) SimIo))"
| "copy_tree host name (SrcLink target resolved) destination optional =
     (if name = ''.repo_gpgcheck'' then
        (case target of
           None \<Rightarrow> pfail SimIo
         | Some t \<Rightarrow> if t \<in> gpgcheck_targets then sim_call (place destination (MadeLink t)) else copy_file host resolved destination)
      else copy_file host resolved destination)"
| "copy_tree host name (SrcFile resolved) destination optional = copy_file host resolved destination"
| "copy_tree host name SrcSpecial destination optional = pfail SimSpecial"

section \<open>The root\<close>

definition RPM_DATABASE :: path where
  "RPM_DATABASE = [''usr'', ''lib'', ''sysimage'', ''rpm'']"

definition INPUTS :: "path list" where
  "INPUTS = [RPM_DATABASE, [''usr'', ''lib'', ''rpm'', ''gnupg''], [''etc'', ''zypp'', ''locks''], [''etc'', ''zypp'', ''vars.d''],
     [''etc'', ''zypp'', ''vendors.d''], [''etc'', ''zypp'', ''systemCheck''], [''var'', ''lib'', ''zypp'', ''AutoInstalled''],
     [''etc'', ''products.d''], [''etc'', ''os-release''], [''usr'', ''lib'', ''os-release'']]"

record simulation =
  sm_context :: repository_context
  sm_root :: string

text \<open>The path below the temporary directory that the text of a path inside it names.\<close>

definition inside :: "string \<Rightarrow> string \<Rightarrow> path" where
  "inside dir p = split_on (CHR ''/'') (drop (length dir + 1) p)"

definition copy_input :: "sim_host \<Rightarrow> path \<times> path \<Rightarrow> unit simulating" where
  "copy_input host = (\<lambda>(p, destination). copy_tree host (last p) (sh_source host p) destination (p \<noteq> RPM_DATABASE))"

definition current_repositories :: "string \<Rightarrow> repository_context \<Rightarrow> (path \<times> path) list" where
  "current_repositories dir cx =
     [([''etc'', ''zypp'', ''services.d''], [''root'', ''etc'', ''zypp'', ''services.d'']),
      ([''etc'', ''zypp'', ''repos.d''], inside dir (cx_repos cx)),
      ([''var'', ''cache'', ''zypp'', ''raw''], inside dir (cx_raw cx)),
      ([''var'', ''cache'', ''zypp'', ''solv''], inside dir (cx_solv cx))]"

definition sim_new :: "sim_host \<Rightarrow> bool \<Rightarrow> simulation simulating" where
  "sim_new host with_current_repositories =
     pbind (plift (ok_or (sh_tempdir host) SimIo)) (\<lambda>dir.
     pthen (sim_create_dir [''root'']) (
     pthen (sim_create_dir [''root'', ''tmp'']) (
     pthen (sim_create_dir_all [''root'', ''var'', ''tmp'']) (
     pthen (peach (\<lambda>p. copy_input host (p, ''root'' # p)) INPUTS) (
       let cx = prepared (dir @ ''/root/var/lib/lyra-upgrade-simulation'') in
     pthen (sim_create_dir_all (inside dir (cx_repos cx))) (
     pthen (sim_create_dir_all (inside dir (cx_cache cx))) (
     pthen (if with_current_repositories then peach (copy_input host) (current_repositories dir cx) else pret ()) (
       pret \<lparr>sm_context = cx\<lparr>cx_simulation_root := Some (dir @ ''/root'')\<rparr>, sm_root = dir @ ''/root''\<rparr>))))))))"

section \<open>Lemmas: links\<close>

text \<open>What is known of \<open>cp\<close>: it makes no link, and when it succeeds on a new name in a directory, a file with the contents is there.\<close>

definition cp_laws :: "sim_host \<Rightarrow> bool" where
  "cp_laws host = (\<forall>p d t t' ok. sh_cp host p d t = Some (t', ok) \<longrightarrow>
     (\<forall>q l. t' q = Some (MadeLink l) \<longrightarrow> t q = Some (MadeLink l)) \<and> (ok \<and> t d = None \<longrightarrow> t' = t(d \<mapsto> MadeFile (sh_content host p))))"

definition own_links :: "sim_state \<Rightarrow> bool" where
  "own_links s = (\<forall>q l. ss_tree s q = Some (MadeLink l) \<longrightarrow> last q = ''.repo_gpgcheck'' \<and> l \<in> gpgcheck_targets)"

lemma own_links_place:
  assumes "\<forall>l. m = MadeLink l \<longrightarrow> last p = ''.repo_gpgcheck'' \<and> l \<in> gpgcheck_targets"
  shows "maintains own_links (sim_call (place p m))"
  unfolding maintains_def
  by (rule validI) (use assms in \<open>auto simp: own_links_def sim_call_def place_def Let_def split: option.splits\<close>)

lemma own_links_create_dir_all: "maintains own_links (sim_create_dir_all p)"
  unfolding sim_create_dir_all_def sim_create_dir_def
  by (intro maintains_peach maintains_pbind maintains_if own_links_place) simp_all

lemma own_links_run_cp: "cp_laws host \<Longrightarrow> maintains own_links (run_cp host p d)"
  unfolding maintains_def
  by (rule validI) (fastforce simp: own_links_def run_cp_def cp_laws_def split: option.splits)

lemma own_links_copy_file: "cp_laws host \<Longrightarrow> maintains own_links (copy_file host resolved d)"
  unfolding copy_file_def
  by (intro maintains_pbind maintains_pthen own_links_create_dir_all own_links_run_cp) simp_all

lemma own_links_copy_tree: "cp_laws host \<Longrightarrow> last d = name \<Longrightarrow> maintains own_links (copy_tree host name src d optional)"
proof (induction host name src d optional rule: copy_tree.induct)
  case (3 host name entries broken d optional)
  then show ?case
    by (auto intro!: maintains_pthen maintains_peach own_links_create_dir_all)
next
  case (4 host name target resolved d optional)
  then show ?case by (auto simp: own_links_copy_file intro!: own_links_place split: option.splits)
qed (simp_all add: own_links_copy_file)

lemma inside_append: "inside dir (dir @ CHR ''/'' # p) = split_on (CHR ''/'') p"
  by (simp add: inside_def)

lemma own_paths:
  "inside dir (cx_repos (prepared (dir @ ''/root/var/lib/lyra-upgrade-simulation''))) = [''root'', ''var'', ''lib'', ''lyra-upgrade-simulation'', ''repos.d'']"
  "inside dir (cx_cache (prepared (dir @ ''/root/var/lib/lyra-upgrade-simulation''))) = [''root'', ''var'', ''lib'', ''lyra-upgrade-simulation'', ''cache'']"
  "inside dir (cx_raw (prepared (dir @ ''/root/var/lib/lyra-upgrade-simulation''))) = [''root'', ''var'', ''lib'', ''lyra-upgrade-simulation'', ''cache'', ''raw'']"
  "inside dir (cx_solv (prepared (dir @ ''/root/var/lib/lyra-upgrade-simulation''))) = [''root'', ''var'', ''lib'', ''lyra-upgrade-simulation'', ''cache'', ''solv'']"
  by (simp_all add: prepared_def Let_def inside_append)

lemma own_links_copy_input: "cp_laws host \<Longrightarrow> last (snd x) = last (fst x) \<Longrightarrow> maintains own_links (copy_input host x)"
  by (auto simp: copy_input_def intro: own_links_copy_tree split: prod.splits)

lemma own_links_sim_new:
  assumes "cp_laws host"
  shows "maintains own_links (sim_new host with_current)"
proof -
  have "maintains own_links (copy_input host (p, ''root'' # p))" if "p \<in> set INPUTS" for p
    using that by (intro own_links_copy_input [OF assms]) (auto simp: INPUTS_def RPM_DATABASE_def)
  moreover have "maintains own_links (copy_input host x)"
    if "x \<in> set (current_repositories dir (prepared (dir @ ''/root/var/lib/lyra-upgrade-simulation'')))" for x dir
    using that by (intro own_links_copy_input [OF assms]) (auto simp: current_repositories_def own_paths)
  ultimately show ?thesis unfolding sim_new_def sim_create_dir_def Let_def
    by (intro maintains_pbind maintains_pthen maintains_if maintains_peach own_links_place own_links_create_dir_all maintains_basic) simp_all
qed

section \<open>Lemmas: the copy\<close>

text \<open>What a copy of a source has at a path below it.\<close>

fun mirror :: "sim_host \<Rightarrow> string \<Rightarrow> source \<Rightarrow> made_tree" where
  "mirror host name (SrcDir entries broken) [] = Some MadeDir"
| "mirror host name (SrcDir entries broken) (c # q) = (case map_of entries c of None \<Rightarrow> None | Some s \<Rightarrow> mirror host c s q)"
| "mirror host name (SrcLink target resolved) q =
     (if q \<noteq> [] then None
      else if name = ''.repo_gpgcheck'' \<and> is_some_and target (\<lambda>t. t \<in> gpgcheck_targets) then map_option MadeLink target
      else map_option (\<lambda>p. MadeFile (sh_content host p)) resolved)"
| "mirror host name (SrcFile resolved) q = (if q \<noteq> [] then None else map_option (\<lambda>p. MadeFile (sh_content host p)) resolved)"
| "mirror host name _ q = None"

text \<open>The names in a directory are distinct.\<close>

fun proper :: "source \<Rightarrow> bool" where
  "proper (SrcDir entries broken) = (distinct (map fst entries) \<and> list_all (\<lambda>(n, s). proper s) entries)"
| "proper _ = True"

text \<open>A copy to \<open>d\<close> changes what is below \<open>d\<close>, and makes directories above it where there was nothing.\<close>

definition confined :: "path \<Rightarrow> made_tree \<Rightarrow> made_tree \<Rightarrow> bool" where
  "confined d t t' = (\<forall>p. \<not> prefix d p \<longrightarrow> t' p = t p \<or> t p = None \<and> t' p = Some MadeDir \<and> prefix p d)"

definition vacant :: "made_tree \<Rightarrow> path \<Rightarrow> source \<Rightarrow> bool" where
  "vacant t d src = ((\<forall>q. q \<noteq> [] \<longrightarrow> t (d @ q) = None) \<and>
     (t d = None \<or> t d = Some MadeDir \<and> (src = SrcMissing \<or> (\<exists>es b. src = SrcDir es b))))"

definition mirrored :: "sim_host \<Rightarrow> string \<Rightarrow> source \<Rightarrow> made_tree \<Rightarrow> path \<Rightarrow> bool" where
  "mirrored host name src t d = ((\<forall>q. q \<noteq> [] \<longrightarrow> t (d @ q) = mirror host name src q) \<and> (src \<noteq> SrcMissing \<longrightarrow> t d = mirror host name src []))"

lemma confined_refl: "confined d t t"
  by (simp add: confined_def)

lemma confined_trans: "confined d t t' \<Longrightarrow> confined d t' t'' \<Longrightarrow> confined d t t''"
  unfolding confined_def by (metis option.distinct(1))

lemma confined_up: "confined d t t' \<Longrightarrow> prefix e d \<Longrightarrow> confined e t t'"
  unfolding confined_def by (meson prefix_order.trans prefix_order.order_trans prefix_same_cases)

lemma create_dir_Inr:
  "sim_call (place p m) s = (Inr u, s') \<Longrightarrow> p \<noteq> [] \<and> ss_tree s p = None \<and> ss_tree s' = (ss_tree s)(p \<mapsto> m)"
  by (auto simp: sim_call_def place_def Let_def split: if_splits)

lemma ensure_Inr:
  assumes "peach (\<lambda>q. pbind (pget (\<lambda>s. ss_tree s q = Some MadeDir)) (\<lambda>there. if there then pret () else sim_create_dir q)) ps s = (Inr u, s')"
  shows "(\<forall>p. ss_tree s' p = ss_tree s p \<or> ss_tree s p = None \<and> ss_tree s' p = Some MadeDir \<and> p \<in> set ps) \<and>
    (\<forall>p\<in>set ps. ss_tree s' p = Some MadeDir)"
  using assms
proof (induction ps arbitrary: s)
  case Nil
  then show ?case by (simp add: prog_Inr)
next
  case (Cons q ps)
  then obtain s1 where one: "(if ss_tree s q = Some MadeDir then pret () else sim_create_dir q) s = (Inr (), s1)"
    and rest: "peach (\<lambda>q. pbind (pget (\<lambda>s. ss_tree s q = Some MadeDir)) (\<lambda>there. if there then pret () else sim_create_dir q)) ps s1 = (Inr u, s')"
    by (auto simp: prog_Inr)
  have "(\<forall>p. ss_tree s1 p = ss_tree s p \<or> ss_tree s p = None \<and> ss_tree s1 p = Some MadeDir \<and> p = q) \<and> ss_tree s1 q = Some MadeDir"
    using one by (auto simp: prog_Inr sim_create_dir_def split: if_splits dest!: create_dir_Inr)
  with Cons.IH [OF rest] show ?case by (metis list.set_intros(1) list.set_intros(2) option.distinct(1) set_ConsD)
qed

lemma create_dir_all_Inr:
  assumes "sim_create_dir_all d s = (Inr u, s')"
  shows "ss_tree s' d = Some MadeDir \<and>
    (\<forall>p. ss_tree s' p = ss_tree s p \<or> ss_tree s p = None \<and> ss_tree s' p = Some MadeDir \<and> prefix p d)"
  using ensure_Inr [OF assms [unfolded sim_create_dir_all_def]] by auto

lemma copy_file_Inr:
  assumes "copy_file host resolved d s = (Inr u, s')" and "cp_laws host" and "vacant (ss_tree s) d src" and "ss_tree s d = None"
  shows "confined d (ss_tree s) (ss_tree s') \<and>
    (\<forall>q. q \<noteq> [] \<longrightarrow> ss_tree s' (d @ q) = None) \<and> ss_tree s' d = map_option (\<lambda>p. MadeFile (sh_content host p)) resolved"
proof -
  from assms(1) obtain p s1 where p: "resolved = Some p" and d: "d \<noteq> []" and mk: "sim_create_dir_all (butlast d) s = (Inr (), s1)"
    and cp: "run_cp host p d s1 = (Inr u, s')" by (auto simp: copy_file_def prog_Inr ok_or_Inr_iff)
  have np: "\<not> prefix (d @ q) (butlast d)" for q using d prefix_length_le [of "d @ q" "butlast d"] by (cases d) auto
  from create_dir_all_Inr [OF mk]
  have above: "ss_tree s1 r = ss_tree s r \<or> ss_tree s r = None \<and> ss_tree s1 r = Some MadeDir \<and> prefix r (butlast d)" for r by blast
  with np have below: "ss_tree s1 (d @ q) = ss_tree s (d @ q)" for q by blast
  have t: "ss_tree s' = (ss_tree s1)(d \<mapsto> MadeFile (sh_content host p))"
    using cp assms(2,4) below [of "[]"] by (auto simp: run_cp_def cp_laws_def split: option.splits if_splits)
  have "confined d (ss_tree s) (ss_tree s')"
    unfolding confined_def t using above by (metis fun_upd_other prefix_order.order_trans prefix_order.refl prefixeq_butlast)
  then show ?thesis using assms(3,4) by (auto simp: t below p vacant_def)
qed

lemma confined_same: "confined d t t' \<Longrightarrow> \<not> prefix d p \<Longrightarrow> \<not> prefix p d \<Longrightarrow> t' p = t p"
  unfolding confined_def by blast

lemma sibling_paths: "c \<noteq> n \<Longrightarrow> \<not> prefix (d @ [n]) (d @ c # q) \<and> \<not> prefix (d @ c # q) (d @ [n])"
  by auto

text \<open>The entries of a directory do not disturb each other.\<close>

lemma entries_Inr:
  assumes "peach (\<lambda>(n, s). copy_tree host n s (d @ [n]) False) entries st = (Inr u, st')"
    and copy: "\<And>n s a b. (n, s) \<in> set entries \<Longrightarrow> copy_tree host n s (d @ [n]) False a = (Inr (), b) \<Longrightarrow>
      vacant (ss_tree a) (d @ [n]) s \<Longrightarrow> confined (d @ [n]) (ss_tree a) (ss_tree b) \<and> mirrored host n s (ss_tree b) (d @ [n])"
    and "distinct (map fst entries)" and "\<forall>c\<in>fst ` set entries. \<forall>q. ss_tree st (d @ c # q) = None"
    and "ss_tree st d = Some MadeDir"
  shows "confined d (ss_tree st) (ss_tree st') \<and> ss_tree st' d = Some MadeDir \<and>
    (\<forall>c q. ss_tree st' (d @ c # q) = (case map_of entries c of None \<Rightarrow> ss_tree st (d @ c # q) | Some s \<Rightarrow> mirror host c s q))"
  using assms
proof (induction entries arbitrary: st)
  case Nil
  then show ?case by (simp add: prog_Inr confined_refl)
next
  case (Cons e es)
  obtain n s where e: "e = (n, s)" by fastforce
  from Cons.prems(1) obtain s1 where one: "copy_tree host n s (d @ [n]) False st = (Inr (), s1)"
    and rest: "peach (\<lambda>(n, s). copy_tree host n s (d @ [n]) False) es s1 = (Inr u, st')" by (auto simp: e prog_Inr)
  have v: "vacant (ss_tree st) (d @ [n]) s" using Cons.prems(4) by (simp add: e vacant_def)
  from Cons.prems(2) [OF _ one v] have c1: "confined (d @ [n]) (ss_tree st) (ss_tree s1)" and m1: "mirrored host n s (ss_tree s1) (d @ [n])"
    by (simp_all add: e)
  have "s \<noteq> SrcMissing" using one by (auto simp: prog_Inr)
  then have m1': "ss_tree s1 (d @ n # q) = mirror host n s q" for q using m1 by (cases "q = []") (auto simp: mirrored_def)
  have other: "ss_tree s1 (d @ c # q) = ss_tree st (d @ c # q)" if "c \<noteq> n" for c q
    using confined_same [OF c1] sibling_paths [OF that] by blast
  have n: "n \<notin> fst ` set es" using Cons.prems(3) by (auto simp: e)
  have free: "\<forall>c\<in>fst ` set es. \<forall>q. ss_tree s1 (d @ c # q) = None"
    using Cons.prems(4) n other by (metis e image_insert insertCI list.set(2))
  have d: "ss_tree s1 d = Some MadeDir" using c1 [unfolded confined_def, rule_format, of d] Cons.prems(5) prefix_length_le [of "d @ [n]" d] by auto
  have ds: "distinct (map fst es)" using Cons.prems(3) by simp
  have "confined d (ss_tree s1) (ss_tree st') \<and> ss_tree st' d = Some MadeDir \<and>
    (\<forall>c q. ss_tree st' (d @ c # q) = (case map_of es c of None \<Rightarrow> ss_tree s1 (d @ c # q) | Some s \<Rightarrow> mirror host c s q))"
    by (rule Cons.IH [OF rest Cons.prems(2) ds free d]) simp_all
  moreover have "map_of es n = None" using n by (simp add: map_of_eq_None_iff)
  moreover have "confined d (ss_tree st) (ss_tree s1)" by (rule confined_up [OF c1]) simp
  ultimately show ?case using m1' other by (auto simp: e intro: confined_trans split: option.splits)
qed

lemma copy_tree_Inr:
  assumes "cp_laws host" and "proper src" and "vacant (ss_tree st) d src" and "copy_tree host name src d optional st = (Inr u, st')"
  shows "confined d (ss_tree st) (ss_tree st') \<and> mirrored host name src (ss_tree st') d"
  using assms
proof (induction host name src d optional arbitrary: st st' u rule: copy_tree.induct)
  case (1 host name d optional)
  then show ?case by (auto simp: prog_Inr confined_refl mirrored_def vacant_def split: if_splits)
next
  case (3 host name entries broken d optional)
  from 3(5) obtain s1 where mk: "sim_create_dir_all d st = (Inr (), s1)"
    and all: "peach (\<lambda>(n, s). copy_tree host n s (d @ [n]) False) entries s1 = (Inr (), st')" by (auto simp: prog_Inr)
  from create_dir_all_Inr [OF mk] have d: "ss_tree s1 d = Some MadeDir"
    and above: "\<And>p. ss_tree s1 p = ss_tree st p \<or> ss_tree st p = None \<and> ss_tree s1 p = Some MadeDir \<and> prefix p d" by blast+
  then have c: "confined d (ss_tree st) (ss_tree s1)" by (auto simp: confined_def)
  have free: "ss_tree s1 (d @ c # q) = None" for c q
    using above [of "d @ c # q"] 3(4) by (auto simp: vacant_def)
  from 3(3) have pr: "distinct (map fst entries)" "\<And>n s. (n, s) \<in> set entries \<Longrightarrow> proper s" by (auto simp: list_all_iff)
  have "confined d (ss_tree s1) (ss_tree st') \<and> ss_tree st' d = Some MadeDir \<and>
    (\<forall>c q. ss_tree st' (d @ c # q) = (case map_of entries c of None \<Rightarrow> ss_tree s1 (d @ c # q) | Some s \<Rightarrow> mirror host c s q))"
    using free by (intro entries_Inr [OF all _ pr(1) _ d]) (simp_all add: 3(1) [OF _ refl 3(2) pr(2)])
  note all3 = this
  have "ss_tree st' (d @ c # q) = mirror host name (SrcDir entries broken) (c # q)" for c q
    using all3 by (cases "map_of entries c") (simp_all add: free)
  then have "mirrored host name (SrcDir entries broken) (ss_tree st') d" using all3 by (auto simp: mirrored_def neq_Nil_conv)
  then show ?case using c all3 confined_trans by blast
next
  case (4 host name target resolved d optional)
  then have none: "ss_tree st d = None" by (simp add: vacant_def)
  show ?case
  proof (cases "name = ''.repo_gpgcheck'' \<and> is_some_and target (\<lambda>t. t \<in> gpgcheck_targets)")
    case True
    then obtain t where t: "target = Some t" "t \<in> gpgcheck_targets" by (auto simp: is_some_and_def split: option.splits)
    with 4(4) True have "ss_tree st' = (ss_tree st)(d \<mapsto> MadeLink t)" by (auto dest: create_dir_Inr)
    then show ?thesis using True t 4(3) by (auto simp: confined_def mirrored_def vacant_def)
  next
    case False
    with 4(4) have "copy_file host resolved d st = (Inr u, st')" by (auto simp: is_some_and_def prog_Inr split: if_splits option.splits)
    from copy_file_Inr [OF this 4(1,3) none] False show ?thesis by (auto simp: mirrored_def)
  qed
next
  case (5 host name resolved d optional)
  then have none: "ss_tree st d = None" by (simp add: vacant_def)
  from 5(4) have "copy_file host resolved d st = (Inr u, st')" by simp
  from copy_file_Inr [OF this 5(1,3) none] show ?case by (auto simp: mirrored_def)
qed (simp_all add: prog_Inr)

section \<open>Lemmas: a list of inputs\<close>

lemma confined_apart: "confined e t t' \<Longrightarrow> d \<parallel> e \<Longrightarrow> t' (d @ q) = t (d @ q)"
  using confined_same parallel_append [of d e q "[]"] by (simp add: parallel_def)

lemma vacant_confined:
  assumes "confined e t t'" and "d \<parallel> e" and "vacant t d src"
  shows "vacant t' d src"
proof -
  have "t' (d @ q) = t (d @ q)" for q
    using confined_apart [OF assms(1,2)] by simp
  from this this [of "[]"] show ?thesis using assms(3) by (simp add: vacant_def)
qed

lemma mirrored_confined:
  assumes "confined e t t'" and "d \<parallel> e" and "mirrored host name src t d"
  shows "mirrored host name src t' d"
proof -
  have "t' (d @ q) = t (d @ q)" for q
    using confined_apart [OF assms(1,2)] by simp
  from this this [of "[]"] show ?thesis using assms(3) by (simp add: mirrored_def)
qed

abbreviation input_mirrored :: "sim_host \<Rightarrow> made_tree \<Rightarrow> path \<times> path \<Rightarrow> bool" where
  "input_mirrored host t x \<equiv> mirrored host (last (fst x)) (sh_source host (fst x)) t (snd x)"

lemma inputs_Inr:
  assumes "peach (copy_input host) xs st = (Inr u, st')" and "cp_laws host" and "\<forall>p. proper (sh_source host p)"
    and "\<forall>x\<in>set xs. vacant (ss_tree st) (snd x) (sh_source host (fst x))" and "sorted_wrt parallel (map snd xs)"
  shows "(\<forall>x\<in>set xs. input_mirrored host (ss_tree st') x) \<and>
    (\<forall>d. (\<forall>x\<in>set xs. d \<parallel> snd x) \<longrightarrow> (\<forall>q. ss_tree st' (d @ q) = ss_tree st (d @ q)))"
  using assms
proof (induction xs arbitrary: st)
  case Nil
  then show ?case by (simp add: prog_Inr)
next
  case (Cons x xs)
  from Cons.prems(1) obtain s1 where one: "copy_input host x st = (Inr (), s1)" and rest: "peach (copy_input host) xs s1 = (Inr u, st')"
    by (auto simp: prog_Inr)
  have c: "confined (snd x) (ss_tree st) (ss_tree s1)" and m: "input_mirrored host (ss_tree s1) x"
    using copy_tree_Inr [OF Cons.prems(2), of "sh_source host (fst x)"] one Cons.prems(3,4) by (auto simp: copy_input_def split: prod.splits)
  have apart: "snd y \<parallel> snd x" "snd x \<parallel> snd y" if "y \<in> set xs" for y
    using that Cons.prems(5) by (auto simp: parallel_def)
  have v: "\<forall>y\<in>set xs. vacant (ss_tree s1) (snd y) (sh_source host (fst y))"
    using vacant_confined [OF c apart(1)] Cons.prems(4) by simp
  have "sorted_wrt parallel (map snd xs)" using Cons.prems(5) by simp
  note IH = Cons.IH [OF rest Cons.prems(2,3) v this]
  have stays: "ss_tree s1 (d @ q) = ss_tree st (d @ q)" if "d \<parallel> snd x" for d q
    using confined_apart [OF c that] by simp
  from IH apart(2) have "ss_tree st' (snd x @ q) = ss_tree s1 (snd x @ q)" for q by blast
  from this this [of "[]"] m have "input_mirrored host (ss_tree st') x" by (simp add: mirrored_def)
  with IH stays show ?case by simp
qed

lemma peach_map: "peach f (map g xs) = peach (\<lambda>x. f (g x)) xs"
  by (induction xs) auto

section \<open>Properties\<close>

definition sim_start :: "bool list \<Rightarrow> sim_state" where
  "sim_start faults = \<lparr>ss_tree = [[] \<mapsto> MadeDir], ss_faults = faults\<rparr>"

text \<open>Where the inputs are copied to.\<close>

definition sim_work :: path where
  "sim_work = [''root'', ''var'', ''lib'', ''lyra-upgrade-simulation'']"

definition sim_base :: "(path \<times> path) list" where
  "sim_base = map (\<lambda>p. (p, ''root'' # p)) INPUTS"

definition sim_current :: "(path \<times> path) list" where
  "sim_current = [([''etc'', ''zypp'', ''services.d''], [''root'', ''etc'', ''zypp'', ''services.d'']),
     ([''etc'', ''zypp'', ''repos.d''], sim_work @ [''repos.d'']),
     ([''var'', ''cache'', ''zypp'', ''raw''], sim_work @ [''cache'', ''raw'']),
     ([''var'', ''cache'', ''zypp'', ''solv''], sim_work @ [''cache'', ''solv''])]"

lemmas sim_paths = sim_base_def sim_current_def INPUTS_def RPM_DATABASE_def sim_work_def

lemma sim_new_Inr:
  assumes "sim_new host with_current st = (Inr sim, st')"
  obtains dir s1 s2 s3 s4 s5 s6 where "sh_tempdir host = Some dir"
    "sim_create_dir [''root''] st = (Inr (), s1)" "sim_create_dir [''root'', ''tmp''] s1 = (Inr (), s2)"
    "sim_create_dir_all [''root'', ''var'', ''tmp''] s2 = (Inr (), s3)"
    "peach (copy_input host) sim_base s3 = (Inr (), s4)"
    "sim_create_dir_all (sim_work @ [''repos.d'']) s4 = (Inr (), s5)" "sim_create_dir_all (sim_work @ [''cache'']) s5 = (Inr (), s6)"
    "(if with_current then peach (copy_input host) sim_current s6 else pret () s6) = (Inr (), st')"
    "sim = \<lparr>sm_context = (prepared (dir @ ''/root/var/lib/lyra-upgrade-simulation''))\<lparr>cx_simulation_root := Some (dir @ ''/root'')\<rparr>,
       sm_root = dir @ ''/root''\<rparr>"
  using assms unfolding sim_new_def
  by (auto simp: prog_Inr ok_or_Inr_iff Let_def own_paths peach_map comp_def current_repositories_def sim_base_def sim_current_def sim_work_def
      split: if_splits)

lemma copies_apart:
  "sorted_wrt parallel (map snd sim_base)" "sorted_wrt parallel (map snd sim_current)"
  "x \<in> set sim_base \<Longrightarrow> y \<in> set sim_current \<Longrightarrow> snd x \<parallel> snd y"
proof -
  have "sorted_wrt parallel (map snd (sim_base @ sim_current))" by code_simp
  then show "sorted_wrt parallel (map snd sim_base)" "sorted_wrt parallel (map snd sim_current)"
    "x \<in> set sim_base \<Longrightarrow> y \<in> set sim_current \<Longrightarrow> snd x \<parallel> snd y" by (simp_all add: sorted_wrt_append)
qed

lemma fresh_directories:
  assumes "sim_create_dir [''root''] (sim_start faults) = (Inr (), s1)" and "sim_create_dir [''root'', ''tmp''] s1 = (Inr (), s2)"
    and "sim_create_dir_all [''root'', ''var'', ''tmp''] s2 = (Inr (), s3)" and "x \<in> set sim_base \<or> x \<in> set sim_current"
  shows "ss_tree s3 (snd x @ q) = None"
proof -
  have "ss_tree s2 = [[] \<mapsto> MadeDir, [''root''] \<mapsto> MadeDir, [''root'', ''tmp''] \<mapsto> MadeDir]"
    using assms(1,2) by (auto simp: sim_create_dir_def sim_start_def dest!: create_dir_Inr)
  moreover have "ss_tree s3 (snd x @ q) = ss_tree s2 (snd x @ q) \<or> prefix (snd x @ q) [''root'', ''var'', ''tmp'']"
    using create_dir_all_Inr [OF assms(3)] by blast
  ultimately show ?thesis using assms(4) by (auto simp: sim_paths)
qed

lemma work_directories:
  assumes "sim_create_dir_all (sim_work @ [''repos.d'']) s4 = (Inr (), s5)" and "sim_create_dir_all (sim_work @ [''cache'']) s5 = (Inr (), s6)"
    and "x \<in> set sim_base \<or> x \<in> set sim_current"
  shows "ss_tree s6 (snd x @ q) = (if snd x = sim_work @ [''repos.d''] \<and> q = [] then Some MadeDir else ss_tree s4 (snd x @ q))"
proof -
  have "\<not> prefix (snd x @ q) (sim_work @ [''cache''])"
    and "prefix (snd x @ q) (sim_work @ [''repos.d'']) \<Longrightarrow> snd x = sim_work @ [''repos.d''] \<and> q = []"
    using assms(3) by (auto simp: sim_paths)
  then show ?thesis using create_dir_all_Inr [OF assms(1)] create_dir_all_Inr [OF assms(2)] by (metis append_Nil2)
qed

lemma vacantI: "(\<And>q. t (d @ q) = None) \<Longrightarrow> vacant t d src"
  unfolding vacant_def by (metis append_Nil2)

lemma mirrored_cong: "(\<And>q. t' (d @ q) = t (d @ q)) \<Longrightarrow> mirrored host name src t d \<Longrightarrow> mirrored host name src t' d"
  unfolding mirrored_def by (metis append_Nil2)

text \<open>The first part of the inputs, and the state in which the repositories are copied.\<close>

lemma base_copied:
  assumes "cp_laws host" and "\<forall>p. proper (sh_source host p)" and repos: "sh_source host [''etc'', ''zypp'', ''repos.d''] = SrcMissing \<or>
      (\<exists>entries broken. sh_source host [''etc'', ''zypp'', ''repos.d''] = SrcDir entries broken)"
    and new: "sim_create_dir [''root''] (sim_start faults) = (Inr (), s1)" "sim_create_dir [''root'', ''tmp''] s1 = (Inr (), s2)"
      "sim_create_dir_all [''root'', ''var'', ''tmp''] s2 = (Inr (), s3)"
    and inputs: "peach (copy_input host) sim_base s3 = (Inr (), s4)"
    and work: "sim_create_dir_all (sim_work @ [''repos.d'']) s4 = (Inr (), s5)" "sim_create_dir_all (sim_work @ [''cache'']) s5 = (Inr (), s6)"
  shows "(\<forall>x\<in>set sim_base. input_mirrored host (ss_tree s6) x) \<and>
    (\<forall>y\<in>set sim_current. vacant (ss_tree s6) (snd y) (sh_source host (fst y)))"
proof (intro conjI ballI)
  have "\<forall>x\<in>set sim_base. vacant (ss_tree s3) (snd x) (sh_source host (fst x))"
    using fresh_directories [OF new] by (auto intro: vacantI)
  note in4 = inputs_Inr [OF inputs assms(1,2) this copies_apart(1)]
  show "input_mirrored host (ss_tree s6) x" if "x \<in> set sim_base" for x
  proof (rule mirrored_cong)
    show "input_mirrored host (ss_tree s4) x" using in4 that by blast
    have "snd x \<noteq> sim_work @ [''repos.d'']" using that by (auto simp: sim_paths)
    then show "ss_tree s6 (snd x @ q) = ss_tree s4 (snd x @ q)" for q using work_directories [OF work, of x] that by simp
  qed
  fix y assume y: "y \<in> set sim_current"
  have "snd y \<parallel> snd x" if "x \<in> set sim_base" for x using copies_apart(3) [OF that y] by (simp add: parallel_def)
  with in4 have "ss_tree s4 (snd y @ q) = None" for q using fresh_directories [OF new, of y q] y by simp
  then have t: "ss_tree s6 (snd y @ q) = (if snd y = sim_work @ [''repos.d''] \<and> q = [] then Some MadeDir else None)" for q
    using work_directories [OF work, of y] y by simp
  have "sh_source host (fst y) = SrcMissing \<or> (\<exists>es b. sh_source host (fst y) = SrcDir es b)" if "snd y = sim_work @ [''repos.d'']"
    using that y repos by (auto simp: sim_current_def sim_work_def)
  then show "vacant (ss_tree s6) (snd y) (sh_source host (fst y))" using t t [of "[]"] by (auto simp: vacant_def)
qed

text \<open>
  C38: The disposable root is a copy of the host and nothing else: when it could be made, every input is there with all its
  directories and with the contents of its files, also of those behind links; the RPM database is among them; and the
  only links are switches for the signature check beside them, so that nothing in it leads back to the host.
\<close>

theorem simulation_mirrors_host:
  assumes "sim_new host with_current (sim_start faults) = (Inr sim, st)" and "cp_laws host" and "\<forall>p. proper (sh_source host p)"
    and "sh_source host [''etc'', ''zypp'', ''repos.d''] = SrcMissing \<or>
      (\<exists>entries broken. sh_source host [''etc'', ''zypp'', ''repos.d''] = SrcDir entries broken)"
  shows "(\<forall>x\<in>set (sim_base @ (if with_current then sim_current else [])). mirrored host (last (fst x)) (sh_source host (fst x)) (ss_tree st) (snd x)) \<and>
    sh_source host RPM_DATABASE \<noteq> SrcMissing \<and> own_links st"
proof -
  obtain dir s1 s2 s3 s4 s5 s6 where new: "sim_create_dir [''root''] (sim_start faults) = (Inr (), s1)"
    "sim_create_dir [''root'', ''tmp''] s1 = (Inr (), s2)" "sim_create_dir_all [''root'', ''var'', ''tmp''] s2 = (Inr (), s3)"
    and inputs: "peach (copy_input host) sim_base s3 = (Inr (), s4)"
    and work: "sim_create_dir_all (sim_work @ [''repos.d'']) s4 = (Inr (), s5)" "sim_create_dir_all (sim_work @ [''cache'']) s5 = (Inr (), s6)"
    and current: "(if with_current then peach (copy_input host) sim_current s6 else pret () s6) = (Inr (), st)"
    by (rule sim_new_Inr [OF assms(1)])
  note base = base_copied [OF assms(2-4) new inputs work]
  have "\<forall>x\<in>set (sim_base @ (if with_current then sim_current else [])). input_mirrored host (ss_tree st) x"
  proof (cases with_current)
    case True
    with current have copied: "peach (copy_input host) sim_current s6 = (Inr (), st)" by simp
    note in7 = inputs_Inr [OF copied assms(2,3) base [THEN conjunct2] copies_apart(2)]
    have "ss_tree st (snd x @ q) = ss_tree s6 (snd x @ q)" if "x \<in> set sim_base" for x q using in7 copies_apart(3) [OF that] by blast
    then have "\<forall>x\<in>set sim_base. input_mirrored host (ss_tree st) x" using base mirrored_cong by blast
    with in7 True show ?thesis by auto
  next
    case False
    with current base show ?thesis by (simp add: prog_Inr)
  qed
  moreover have "sh_source host RPM_DATABASE \<noteq> SrcMissing"
    using inputs by (auto simp: sim_base_def INPUTS_def copy_input_def prog_Inr)
  moreover have "own_links st"
    by (rule maintainsD [OF own_links_sim_new [OF assms(2)] _ assms(1)]) (simp add: own_links_def sim_start_def)
  ultimately show ?thesis by blast
qed

definition example_sim_host :: sim_host where
  "example_sim_host = \<lparr>sh_tempdir = Some ''/tmp/lyra-sim-1'',
     sh_source = (\<lambda>p. if p = RPM_DATABASE then SrcDir [(''rpmdb.sqlite'', SrcFile (Some ''/db''))] False
       else if p = [''etc'', ''zypp'', ''repos.d''] then SrcDir [(''.repo_gpgcheck'', SrcLink (Some ''true'') None)] False
       else if p = [''etc'', ''os-release''] then SrcLink (Some ''../usr/lib/os-release'') (Some ''/os'') else SrcMissing),
     sh_is_file = (\<lambda>_. Some True), sh_content = (\<lambda>p. ''of '' @ p),
     sh_cp = (\<lambda>p d t. Some (t(d \<mapsto> MadeFile (''of '' @ p)), True))\<rparr>"

lemma example_simulation:
  "case sim_new example_sim_host True (sim_start []) of (Inr _, _) \<Rightarrow> True | _ \<Rightarrow> False"
  by code_simp

theorem simulation_mirrors_host_witness:
  "\<exists>sim st. sim_new example_sim_host True (sim_start []) = (Inr sim, st) \<and>
     ss_tree st [''root'', ''etc'', ''os-release''] = Some (MadeFile ''of /os'') \<and> own_links st"
proof -
  from example_simulation obtain sim st where run: "sim_new example_sim_host True (sim_start []) = (Inr sim, st)"
    by (auto split: prod.splits sum.splits)
  have laws: "cp_laws example_sim_host" "\<forall>p. proper (sh_source example_sim_host p)"
    by (auto simp: cp_laws_def example_sim_host_def split: if_splits)
  have repos: "sh_source example_sim_host [''etc'', ''zypp'', ''repos.d''] = SrcMissing \<or>
    (\<exists>entries broken. sh_source example_sim_host [''etc'', ''zypp'', ''repos.d''] = SrcDir entries broken)"
    by (auto simp: example_sim_host_def RPM_DATABASE_def)
  from simulation_mirrors_host [OF run laws repos]
  have "mirrored example_sim_host ''os-release'' (sh_source example_sim_host [''etc'', ''os-release'']) (ss_tree st) [''root'', ''etc'', ''os-release'']"
    and "own_links st" by (auto simp: sim_base_def INPUTS_def)
  then show ?thesis using run by (auto simp: mirrored_def example_sim_host_def RPM_DATABASE_def)
qed

end
