(* ===== verification/Spec2Isabelle.thy ===== *)
theory Spec2Isabelle
  imports Sanitize Rollback Offline Probe Desktop Simulation
begin

text \<open>
  \<^bold>\<open>Lyra Upgrade: a model of the updater and what it guarantees.\<close>

  Lyra Upgrade updates the packages of a Lyra desktop and moves it to a new release. A window (\<open>src-tauri\<close>) and a command line
  (\<open>cli\<close>) talk to a service (\<open>service\<close>) that runs twice: without privileges for questions, and behind \<open>pkexec\<close> for what changes the
  system. The service inspects the host (\<open>core/src/discovery.rs\<close>, \<open>core/src/preflight.rs\<close>), lets zypper plan in a disposable root
  (\<open>service/src/simulation.rs\<close>), reads its answer (\<open>solver_xml.rs\<close>, \<open>vendor_metadata.rs\<close>), judges it (\<open>core/src/solver.rs\<close>,
  \<open>core/src/manifest.rs\<close>), and after a confirmation starts a worker (\<open>executor.rs\<close>). An online update is applied at once, behind a
  Btrfs snapshot. A release upgrade or a package migration is bound to a signed manifest (\<open>manifest_fetch.rs\<close>), staged, and applied
  during the next boot by \<open>offline\<close>; \<open>verifier\<close> then decides whether the booted system is the one that was planned. An operation that
  failed can be taken back with \<open>service/src/recovery.rs\<close>. Each operation has one record on disk (\<open>core/src/persistence.rs\<close>) whose
  state follows \<open>core/src/lib.rs\<close>; programs communicate through it, through a log of events (\<open>event_log.rs\<close>) and through the marker
  \<open>/system-update\<close>. \<open>probe\<close> reports the facts of a guest in tests of the whole system.

  \<^bold>\<open>Foundations.\<close>
  \<^item> \<open>Prelude\<close>: machine integers as words with saturating arithmetic, \<open>Result\<close> as a sum (\<open>rbind\<close>, \<open>ok_or\<close>, \<open>map_err\<close>), sorted and
    deduplicated lists, and the locales \<open>step_invariant\<close> and \<open>step_monotone\<close> for step relations.
  \<^item> \<open>Rust_Str\<close>: strings as their UTF-8 bytes, with the functions of \<open>str\<close> that the sources call.
  \<^item> \<open>File_System\<close>: files, directories, links and modes, with calls that may fail or stop the program at any point, what a power cut may
    undo, and rules for actions that only read (\<open>keeps\<close>) or have a pre- and postcondition (\<open>triple\<close>).
  \<^item> \<open>Effect_Monad\<close>: programs that change a state and may return early, with a logic for pre- and postconditions (\<open>valid\<close>) and for
    invariants (\<open>maintains\<close>).

  \<^bold>\<open>Components\<close>, by source file:
  \<^item> \<open>Domain\<close> (\<open>core/src/lib.rs\<close>): kinds, states, the record and its transitions; every run of the state machine has a snapshot before it
    changes packages and a confirmation before it writes.
  \<^item> \<open>Recovery_Identity\<close> (\<open>core/src/recovery.rs\<close>): identities of subvolumes and the check of a rollback at boot.
  \<^item> \<open>Preflight\<close>, \<open>Solver\<close>, \<open>Manifest\<close> (\<open>core/src/preflight.rs\<close>, \<open>solver.rs\<close>, \<open>manifest.rs\<close>, \<open>migration.rs\<close>): what blocks an operation,
    which vendors may change, when a manifest is accepted; the evaluations agree with conditions stated without them, and the
    space arithmetic does not wrap.
  \<^item> \<open>Sanitize\<close> (\<open>core/src/sanitize.rs\<close>): lines of tools before they are logged, panics of slices included.
  \<^item> \<open>Persistence\<close> (\<open>core/src/persistence.rs\<close>): saving is atomic, and what was saved is read after a power cut.
  \<^item> \<open>Discovery\<close> (\<open>core/src/discovery.rs\<close>): every probe and parser; the contract of a backend is the locale \<open>closed_backend\<close>,
    interpreted by the system backend and, in \<open>Host_Backends\<close>, by the unprivileged one and the one of a prepared repository set.
  \<^item> \<open>Host_Backends\<close> (\<open>service/src/process.rs\<close>, \<open>query_client.rs\<close>, \<open>readonly_discovery.rs\<close>, \<open>repository_context.rs\<close>, \<open>cli/src/main.rs\<close>):
    bounded processes, the client of the read broker, contexts of zypper, and the command line.
  \<^item> \<open>Simulation\<close> (\<open>service/src/simulation.rs\<close>): the disposable root is a copy of its inputs and has no link to the host.
  \<^item> \<open>Solver_Xml\<close>, \<open>Vendor_Metadata\<close>, \<open>Inventory\<close> (\<open>solver_xml.rs\<close>, \<open>vendor_metadata.rs\<close>, \<open>inventory.rs\<close>, \<open>verifier/src/dependencies.rs\<close>):
    the readers of zypper and rpm over the tokens of an XML document; the locale \<open>header_store\<close> is the catalog they fill.
  \<^item> \<open>Planner\<close> (\<open>planner.rs\<close>, \<open>service/src/migration.rs\<close>): plans, their revalidation, payloads, and the comparison of the result.
  \<^item> \<open>Manifest_Fetch\<close> (\<open>manifest_fetch.rs\<close>): where manifests come from and when they are believed.
  \<^item> \<open>Executor\<close>, \<open>Execution\<close> (\<open>executor.rs\<close>, the worker of \<open>service/src/main.rs\<close>): the programs, and the order of snapshot and changes, the
    result of a success, the state after a failure, and cancellation. The locales \<open>reliable_store\<close>, \<open>quiet_host\<close>, \<open>updating_host\<close> and
    \<open>staging_host\<close> name what a host has to provide for progress.
  \<^item> \<open>Rollback\<close> (\<open>service/src/recovery.rs\<close>), \<open>Offline\<close> (\<open>offline\<close>), \<open>Verifier\<close> (\<open>verifier\<close>): the rollback and the two programs of the boot.
  \<^item> \<open>Protocol\<close>, \<open>Event_Log\<close> (\<open>protocol\<close>, \<open>event_log.rs\<close>): messages, and the log in memory and on disk with its compaction.
  \<^item> \<open>Service\<close>, \<open>Service_Properties\<close> (\<open>service/src/main.rs\<close>): every request, the loop that answers them, and who may change what.
  \<^item> \<open>Probe\<close> (\<open>probe\<close>), \<open>Desktop\<close> (\<open>src-tauri/src/main.rs\<close>): the facts of a guest, and the two connections of the window.
  \<^item> This theory: properties that need several of them, from the solver to an accepted request and from there to a finished worker.

  \<^bold>\<open>How the code is rendered.\<close> A Rust struct is a record, an enum a datatype, a function a definition of the same name where that is free.
  A function that only computes returns a sum with its errors. Code that works on files is an action on \<open>world\<close>: each call asks the
  list of faults whether it succeeds, fails or is the last thing the program does, so statements cover every interruption. The long
  programs (worker, rollback, offline executor) run on a state with the record, what is on disk and the history of effects; what the
  host answers is a function of that history (\<open>surroundings\<close>), so statements hold for every behaviour of the host. Loops are structural
  or have a measure; nothing in the model is bounded by fuel except the resolution of links in \<open>File_System\<close>, with the
  limit of the kernel, forty, after which it is the error \<open>ELOOP\<close>.

  \<^bold>\<open>Parameters.\<close> Code that is not in the repository is an argument: JSON (\<open>serde_json\<close>, with the law \<open>json_codec\<close> or \<open>event_codec\<close> where a
  theorem needs it), digests, the tokens of \<open>quick_xml\<close>, URL parsing, decompression, \<open>gpg\<close> and \<open>gpgv\<close>, \<open>curl\<close>, \<open>rpm\<close>, \<open>zypper\<close>, \<open>snapper\<close>,
  \<open>btrfs\<close>, \<open>cp\<close> (\<open>cp_laws\<close>), \<open>systemctl\<close>, clocks and random names. A theorem with a law has a witness that instantiates it.

  \<^bold>\<open>Not modelled.\<close> Threads are rendered by the points at which another process can change the record (\<open>interfere\<close>), not by interleaving
  single instructions. The web view, the registration of handlers with \<open>tauri\<close>, the build scripts, the printing of JSON by the
  command line, and the unit tests of the sources are left out. Descriptors, signals and the lock of a process appear only as
  the calls that fail or succeed because of them. The texts of input/output errors are dropped where the code only passes them on.
\<close>

section \<open>From a request to a finished operation\<close>

lemma accepted_storable:
  assumes "(handle env sv (Start v i oid hash confirmed submitted) :: ('e, response \<times> service) act) w = (Done (Accepted j k, sv'), w')"
  obtains r pending where "sv_started sv' = sv_started sv @ [(r, pending)]" "storable r" "pn_planned pending = submitted"
    "pn_manifest pending = pu_manifest submitted" "operation_id r = oid"
proof -
  have st: "(start env sv i oid hash confirmed submitted :: ('e, response \<times> service) act) w = (Done (Accepted j k, sv'), w')"
    using assms by (auto simp: handle_def needs_authorization_def ret_Done split: if_splits)
  from start_Accepted [OF this] obtain r pending log w1 where ready: "ready_to_start env (sv\<lparr>sv_plans := sv_plans sv'\<rparr>) oid hash submitted w1 = (Done (r, pending, log), w')"
    and started: "sv_started sv' = sv_started sv @ [(r, pending)]" by blast
  note facts = ready_to_start_Done [OF ready]
  have "validate_operation_id oid = Inr ()" using ready
    by (auto simp: ready_to_start_def load_state_def act_simps Let_def split: if_splits)
  moreover have "recovery r = None" using facts by (auto simp: validate_state_def is_some_and_def split: if_splits option.splits)
  ultimately have "storable r" using facts check_record_storable [of r] by (simp add: check_record_iff)
  then show thesis using that started facts by blast
qed

text \<open>
  C11: From the request to the result: when the service accepts a start, the worker that it starts runs on a host where nothing is
  promised but the record on disk, and still every change of the packages comes after a record with a snapshot was saved; and
  where saving works, the operation ends in a state a user can act on.
\<close>

theorem accepted_start_is_carried_out_safely:
  assumes "(handle env sv (Start v i oid hash confirmed submitted) :: ('e, response \<times> service) act) w = (Done (Accepted j k, sv'), w')"
  shows "\<exists>r pending. sv_started sv' = sv_started sv @ [(r, pending)] \<and> operation_id r = oid \<and>
    (\<forall>host sha msha dir s. es_record s = r \<and> es_disk s = Some r \<and> es_trace s = [] \<longrightarrow>
       (let t = worker host sha msha dir (pn_planned pending) (pn_manifest pending) s in
        (\<forall>later e earlier. es_trace t = later @ e # earlier \<and> commits e \<longrightarrow>
          (\<exists>saved n. Saved saved \<in> set earlier \<and> snapshot_number saved = Some n \<and> n \<noteq> 0)) \<and>
        ((\<forall>h. on_save host h = SaveOk) \<and> error_code r = None \<longrightarrow>
          (\<exists>d. es_disk t = Some d \<and> op_state d \<in> {Completed, AwaitingReboot, ReadyToReboot, Blocked, Failed, NeedsRecovery}))))"
proof -
  obtain r pending where started: "sv_started sv' = sv_started sv @ [(r, pending)]" and r: "storable r" "operation_id r = oid"
    by (rule accepted_storable [OF assms])
  have guard: "\<exists>saved n. Saved saved \<in> set earlier \<and> snapshot_number saved = Some n \<and> n \<noteq> 0"
    if "es_trace s = []" "es_trace (worker host sha msha dir (pn_planned pending) (pn_manifest pending) s) = later @ e # earlier" "commits e"
    for host sha msha dir s later e earlier
    using worker_guarded [of s host sha msha dir "pn_planned pending" "pn_manifest pending"] that
    by (auto simp: snapshot_saved_def dest: guardedD)
  have rest: "\<exists>d. es_disk (worker host sha msha dir (pn_planned pending) (pn_manifest pending) s) = Some d \<and>
      op_state d \<in> {Completed, AwaitingReboot, ReadyToReboot, Blocked, Failed, NeedsRecovery}"
    if "es_record s = r" "es_disk s = Some r" "\<forall>h. on_save host h = SaveOk" "error_code r = None" for host sha msha dir s
    using worker_rests [OF that(3), of s sha msha dir "pn_planned pending" "pn_manifest pending"] by (simp add: that r(1)) blast
  show ?thesis unfolding Let_def
    by (rule exI [of _ r], rule exI [of _ pending], intro conjI allI impI started r(2); elim conjE) (rule guard rest; assumption)+
qed

theorem accepted_start_is_carried_out_safely_witness:
  "\<exists>sv' w' r pending. (handle example_env (new_service 1000) (Start 3 ''q'' example_oid (replicate 64 CHR ''a'') True example_planned)
       :: (unit, response \<times> service) act) example_host = (Done (Accepted ''q'' (Some example_oid), sv'), w') \<and>
     sv_started sv' = [(r, pending)] \<and> operation_id r = example_oid"
proof -
  obtain sv' w' where run: "(handle example_env (new_service 1000) (Start 3 ''q'' example_oid (replicate 64 CHR ''a'') True example_planned)
       :: (unit, response \<times> service) act) example_host = (Done (Accepted ''q'' (Some example_oid), sv'), w')"
    using example_accepted by blast
  with accepted_start_is_carried_out_safely [OF run] show ?thesis by (auto simp: new_service_def)
qed

section \<open>From the solver to a request\<close>

text \<open>What a change is before vendors are known; it decides the order of changes.\<close>

definition change_head :: "package_change \<Rightarrow> string \<times> string \<times> package_action \<times> string option \<times> string option" where
  "change_head c = (pc_name c, pc_architecture c, pc_action c, current_version c, proposed_version c)"

lemma change_head_less: "change_head c < change_head d \<Longrightarrow> change_key c < change_key d"
  by (auto simp: change_head_def change_key_def less_prod_def less_le)

lemma change_key_head: "change_key c \<le> change_key d \<Longrightarrow> change_head c \<noteq> change_head d \<Longrightarrow> change_head c < change_head d"
  by (metis change_head_less leD linorder_neqE)

lemma heads_sorted:
  "sorted (map change_key cs) \<Longrightarrow> distinct (map change_head cs) \<Longrightarrow> sorted_wrt (<) (map change_head cs)"
proof (induction cs)
  case (Cons c cs)
  then show ?case using change_key_head by (auto simp: image_iff)
qed simp

lemma heads_sort: "sorted_wrt (<) (map change_head cs) \<Longrightarrow> sort_key change_key cs = cs"
proof -
  assume "sorted_wrt (<) (map change_head cs)"
  then have "sorted (map change_key cs)"
    by (auto simp: sorted_wrt_map sorted_map elim!: sorted_wrt_mono_rel [rotated] intro: less_imp_le change_head_less)
  then show ?thesis by (rule sort_key_id_if_sorted)
qed

lemma fill_changes_heads: "fill_changes installed candidates cs = Inr cs' \<Longrightarrow> map change_head cs' = map change_head cs"
  by (induction cs arbitrary: cs') (auto simp: result_simps fill_change_def change_head_def)

lemma enriched_order:
  assumes "parse_solver_xml events repositories estimated = Inr solver"
    and "enrich_from_rpm_xml tools solver raw_cache xml w = (Done enriched, w')" and "distinct (map change_head (changes enriched))"
  shows "sort_key change_key (changes enriched) = changes enriched"
proof -
  from assms(1) obtain cs where "changes solver = sort_key change_key cs"
    by (auto simp: parse_solver_xml_def rbind_Inr_iff ok_or_Inr_iff Let_def split: if_splits)
  then have "sorted (map change_key (changes solver))" by simp
  moreover from assms(2) have "map change_head (changes enriched) = map change_head (changes solver)"
    by (auto simp: enrich_from_rpm_xml_def act_simps dest!: fill_changes_heads)
  ultimately show ?thesis using assms(3) heads_sorted heads_sort by metis
qed

lemma build_plan_fields:
  "build_plan k facts report target sha solver = Inr plan \<Longrightarrow> pl_operation plan = k \<and> pl_source plan = hf_release facts \<and> pl_target plan = target \<and>
     pl_manifest_sha256 plan = sha \<and> package_changes plan = sort_key change_key (changes solver) \<and>
     pl_reboot_required plan = (sr_reboot_required solver \<or> is_signed_offline k)"
  by (auto simp: build_plan_def result_simps)


definition vim_events :: "xml_event list" where
  "vim_events =
     [XDecl, XStart (repo_element [] ''stream'' []),
      XStart (repo_element [] ''install-summary'' [(''download-size'', ''9''), (''space-usage-diff'', ''4''), (''space-usage-installed'', ''8''),
        (''space-usage-removed'', ''4''), (''packages-to-change'', ''1''), (''need-reboot'', ''false'')]),
      XStart (repo_element [] ''to-upgrade'' []),
      XEmpty (repo_element [] ''solvable'' [(''type'', ''package''), (''name'', ''vim''), (''edition'', ''1:9-3''), (''edition-old'', ''1:9-2''),
        (''arch'', ''x86_64''), (''repository'', ''main'')]),
      XEnd ''to-upgrade'', XEnd ''install-summary'', XEnd ''stream'']"

definition vim_view :: planning_view where
  "vim_view = example_view\<lparr>pv_facts := Some (example_facts\<lparr>hf_repositories := [\<lparr>rf_alias = ''main'', rf_enabled = True, rf_official = True,
       rf_metadata_valid = True, rf_signing_key_trusted = True\<rparr>]\<rparr>), pv_installed := Some [header_package example_header],
     pv_parse_solver_xml := (\<lambda>_ repositories. case parse_solver_xml vim_events repositories 5 of Inr r \<Rightarrow> Some r | Inl _ \<Rightarrow> None),
     pv_enrich_solver_vendors := (\<lambda>solver. case fst (enrich_from_rpm_xml example_vendor_tools solver [''cache''] ''H'' (quiet 0 cache_fs)) of
       Done r \<Rightarrow> Some r | _ \<Rightarrow> None)\<rparr>"

lemma vim_plan:
  "case plan_update_with_cached_metadata example_digest vim_view of
     Inr planned \<Rightarrow> map pc_name (changes (pu_solver planned)) = [''vim''] | Inl _ \<Rightarrow> False"
  by code_simp


end
